(* ===== verification/Prelude.thy ===== *)
theory Prelude
  imports Main "HOL-Library.Word"
begin

text \<open>
  Shared vocabulary of the development: the machine integer types of the explorer's sources
  (\<open>uint64_t\<close>, Boost's \<open>uint128_t\<close> and \<open>uint256_t\<close>), decimal text as \<open>std::to_string\<close> and the
  stream inserters write it and as the three standard parsers the sources use read it
  (\<open>std::from_chars\<close>, \<open>std::stoull\<close>, \<open>boost::lexical_cast\<close> from text to \<open>uint64_t\<close>), separator
  splitting, and the contracts (locales) several components share: a text codec for machine
  words and an inductive invariant of a transition system.
\<close>

section \<open>Automation collections\<close>

named_theorems text_simps \<open>decimal text, its characters and its parsers\<close>
named_theorems word_facts \<open>overflow guards on unsigned words, read over the naturals\<close>

section \<open>Machine integers\<close>

type_synonym u64 = "64 word"
type_synonym u128 = "128 word"
type_synonym u256 = "256 word"

text \<open>\<open>std::numeric_limits<uint64_t>::max()\<close> and the \<open>uint128_t\<close> counterpart.\<close>

definition u64_max :: u64 where
  "u64_max = - 1"

definition u128_max :: u128 where
  "u128_max = - 1"

text \<open>The size of a container as a \<open>uint64_t\<close> (\<open>size_t\<close> is 64 bits wide on the targets).\<close>

definition size_u64 :: "'a list \<Rightarrow> u64" where
  "size_u64 xs = of_nat (length xs)"

section \<open>Decimal text\<close>

definition is_digit :: "char \<Rightarrow> bool" where
  "is_digit c \<longleftrightarrow> 48 \<le> (of_char c :: nat) \<and> (of_char c :: nat) \<le> 57"

definition digit_val :: "char \<Rightarrow> nat" where
  "digit_val c = of_char c - 48"

definition digit_char :: "nat \<Rightarrow> char" where
  "digit_char d = char_of (48 + d)"

fun nat_to_dec :: "nat \<Rightarrow> string" where
  "nat_to_dec n =
     (if n < 10 then [digit_char n] else nat_to_dec (n div 10) @ [digit_char (n mod 10)])"

definition dec_value :: "string \<Rightarrow> nat" where
  "dec_value s = foldl (\<lambda>acc c. 10 * acc + digit_val c) 0 s"

text \<open>\<open>std::to_string(uint64_t)\<close>, and \<open>operator<<\<close> for \<open>uint64_t\<close> with the default flags.\<close>

definition u64_to_string :: "u64 \<Rightarrow> string" where
  "u64_to_string x = nat_to_dec (unat x)"

text \<open>
  \<open>std::from_chars\<close> for an unsigned 64-bit target in base 10: the longest prefix of digits,
  no sign and no white space; \<open>NoNumber\<close> is \<open>errc::invalid_argument\<close>, \<open>OutOfRange n\<close> is
  \<open>errc::result_out_of_range\<close> with \<open>n\<close> characters consumed, \<open>Parsed n v\<close> is success with \<open>n\<close>
  characters consumed.
\<close>

datatype scan = NoNumber | OutOfRange nat | Parsed nat u64

definition from_chars_u64 :: "string \<Rightarrow> scan" where
  "from_chars_u64 s =
     (let ds = takeWhile is_digit s in
      if ds = [] then NoNumber
      else if dec_value ds < 2 ^ 64 then Parsed (length ds) (of_nat (dec_value ds))
      else OutOfRange (length ds))"

text \<open>
  \<open>std::stoull(text, &pos, 10)\<close>: \<open>strtoull\<close> skips white space of the "C" locale and accepts
  one sign; a minus sign negates the result modulo \<open>2 ^ 64\<close>; no digits and an out-of-range
  magnitude are the two exceptions. The count includes the skipped characters.
\<close>

definition is_space :: "char \<Rightarrow> bool" where
  "is_space c \<longleftrightarrow> (of_char c :: nat) = 32 \<or> (9 \<le> (of_char c :: nat) \<and> (of_char c :: nat) \<le> 13)"

definition stoull :: "string \<Rightarrow> scan" where
  "stoull s =
     (let ws = takeWhile is_space s;
          rest = dropWhile is_space s;
          signed = (rest \<noteq> [] \<and> (hd rest = CHR ''+'' \<or> hd rest = CHR ''-''));
          neg = (rest \<noteq> [] \<and> hd rest = CHR ''-'');
          body = (if signed then tl rest else rest);
          skipped = length ws + (if signed then 1 else 0)
      in case from_chars_u64 body of
           NoNumber \<Rightarrow> NoNumber
         | OutOfRange n \<Rightarrow> OutOfRange (skipped + n)
         | Parsed n v \<Rightarrow> Parsed (skipped + n) (if neg then - v else v))"

text \<open>
  \<open>boost::lexical_cast<uint64_t>\<close>: the whole text is one number, an optional sign and digits;
  a minus sign negates modulo \<open>2 ^ 64\<close>; anything else is \<open>bad_lexical_cast\<close> (\<open>None\<close>).
\<close>

definition lexical_cast_u64 :: "string \<Rightarrow> u64 option" where
  "lexical_cast_u64 s =
     (let signed = (s \<noteq> [] \<and> (hd s = CHR ''+'' \<or> hd s = CHR ''-''));
          neg = (s \<noteq> [] \<and> hd s = CHR ''-'');
          body = (if signed then tl s else s)
      in if body \<noteq> [] \<and> list_all is_digit body \<and> dec_value body < 2 ^ 64
         then Some (if neg then - of_nat (dec_value body) else of_nat (dec_value body))
         else None)"

section \<open>Splitting at a separator\<close>

text \<open>
  \<open>split_at sep s\<close> cuts \<open>s\<close> at every occurrence of \<open>sep\<close>; it never returns the empty list.
  \<open>join sep\<close> is the inverse a writer uses.
\<close>

fun split_at :: "char \<Rightarrow> string \<Rightarrow> string list" where
  "split_at sep [] = [[]]"
| "split_at sep (c # cs) =
     (if c = sep then [] # split_at sep cs
      else (case split_at sep cs of [] \<Rightarrow> [[c]] | p # ps \<Rightarrow> (c # p) # ps))"

fun join :: "char \<Rightarrow> string list \<Rightarrow> string" where
  "join sep [] = []"
| "join sep [p] = p"
| "join sep (p # q # ps) = p @ sep # join sep (q # ps)"

text \<open>\<open>std::string::find(pat)\<close>, with \<open>None\<close> for \<open>npos\<close>; prefixes and suffixes.\<close>

definition starts_with :: "string \<Rightarrow> string \<Rightarrow> bool" where
  "starts_with pat s \<longleftrightarrow> take (length pat) s = pat"

definition ends_with :: "string \<Rightarrow> string \<Rightarrow> bool" where
  "ends_with pat s \<longleftrightarrow> length pat \<le> length s \<and> drop (length s - length pat) s = pat"

fun str_find :: "string \<Rightarrow> string \<Rightarrow> nat option" where
  "str_find pat [] = (if pat = [] then Some 0 else None)"
| "str_find pat (c # cs) =
     (if starts_with pat (c # cs) then Some 0 else map_option Suc (str_find pat cs))"

declare nat_to_dec.simps [simp del]

section \<open>Facts on decimal text\<close>

lemma of_char_digit_char [text_simps]: "d < 10 \<Longrightarrow> (of_char (digit_char d) :: nat) = 48 + d"
  by (simp add: digit_char_def)

lemma digit_val_digit_char [simp]: "d < 10 \<Longrightarrow> digit_val (digit_char d) = d"
  by (simp add: digit_val_def text_simps)

lemma is_digit_digit_char [simp]: "d < 10 \<Longrightarrow> is_digit (digit_char d)"
  by (simp add: is_digit_def text_simps)

lemma digit_val_less: "is_digit c \<Longrightarrow> digit_val c < 10"
  by (auto simp: is_digit_def digit_val_def)

lemma digit_char_digit_val: "is_digit c \<Longrightarrow> digit_char (digit_val c) = c"
  by (simp add: is_digit_def digit_val_def digit_char_def)

lemma dec_value_Nil [simp]: "dec_value [] = 0"
  by (simp add: dec_value_def)

lemma dec_value_snoc [simp]: "dec_value (s @ [c]) = 10 * dec_value s + digit_val c"
  by (simp add: dec_value_def)

lemma nat_to_dec_digits [simp]: "list_all is_digit (nat_to_dec n)"
proof (induction n rule: nat_to_dec.induct)
  case (1 n)
  then show ?case
    by (subst nat_to_dec.simps) simp
qed

lemma nat_to_dec_set: "c \<in> set (nat_to_dec n) \<Longrightarrow> is_digit c"
  using nat_to_dec_digits [of n] by (simp add: list_all_iff)

lemma nat_to_dec_nonempty [simp]: "nat_to_dec n \<noteq> []"
  by (subst nat_to_dec.simps) simp

text \<open>Reading back what was printed.\<close>

lemma dec_value_nat_to_dec [simp]: "dec_value (nat_to_dec n) = n"
proof (induction n rule: nat_to_dec.induct)
  case (1 n)
  show ?case
  proof (cases "n < 10")
    case True
    then show ?thesis
      using dec_value_snoc [of "[]" "digit_char n"] by (subst nat_to_dec.simps) simp
  next
    case False
    with 1 show ?thesis by (subst nat_to_dec.simps) simp
  qed
qed

lemma nat_to_dec_inject [simp]: "nat_to_dec m = nat_to_dec n \<longleftrightarrow> m = n"
  by (metis dec_value_nat_to_dec)

lemma nat_to_dec_length_le: "n < 10 ^ k \<Longrightarrow> 0 < k \<Longrightarrow> length (nat_to_dec n) \<le> k"
proof (induction n arbitrary: k rule: nat_to_dec.induct)
  case (1 n)
  show ?case
  proof (cases "n < 10")
    case True
    with 1 show ?thesis by (subst nat_to_dec.simps) simp
  next
    case False
    with "1.prems" obtain j where k: "k = Suc j" "0 < j"
      by (cases k; cases "k - 1") auto
    with "1.prems" have "n div 10 < 10 ^ j"
      by (simp add: less_mult_imp_div_less mult.commute)
    with "1.IH" [OF False this k(2)] False k show ?thesis
      by (subst nat_to_dec.simps) simp
  qed
qed

lemma takeWhile_digits [simp]: "list_all is_digit s \<Longrightarrow> takeWhile is_digit s = s"
  by (simp add: list_all_iff)

lemma is_digit_not_space: "is_digit c \<Longrightarrow> \<not> is_space c"
  by (simp add: is_digit_def is_space_def)

lemma is_digit_not_sign: "is_digit c \<Longrightarrow> c \<noteq> CHR ''+'' \<and> c \<noteq> CHR ''-''"
  by (auto simp: is_digit_def)

lemma is_digit_not_separator:
  "is_digit c \<Longrightarrow> c \<noteq> CHR 0x09 \<and> c \<noteq> CHR 0x0A \<and> c \<noteq> CHR '','' \<and> c \<noteq> CHR '':''"
  by (auto simp: is_digit_def)

lemma nat_to_dec_no_char: "\<not> is_digit c \<Longrightarrow> c \<notin> set (nat_to_dec n)"
  by (auto dest: nat_to_dec_set)

lemma dropWhile_space_digits: "list_all is_digit s \<Longrightarrow> dropWhile is_space s = s"
  by (cases s) (auto simp: is_digit_not_space)

lemma takeWhile_space_digits: "list_all is_digit s \<Longrightarrow> takeWhile is_space s = []"
  by (cases s) (auto simp: is_digit_not_space)

lemma unat_u64_less: "unat (x :: u64) < 2 ^ 64"
  using unsigned_less [of x, where ?'a = nat] by simp

lemma unat_u128_less: "unat (x :: u128) < 2 ^ 128"
  using unsigned_less [of x, where ?'a = nat] by simp

lemma from_chars_u64_digits:
  "list_all is_digit s \<Longrightarrow> s \<noteq> [] \<Longrightarrow> dec_value s < 2 ^ 64 \<Longrightarrow>
     from_chars_u64 s = Parsed (length s) (of_nat (dec_value s))"
  by (simp add: from_chars_u64_def)

lemma from_chars_u64_to_string [text_simps]:
  "from_chars_u64 (u64_to_string x) = Parsed (length (u64_to_string x)) x"
  using unat_u64_less [of x] by (simp add: from_chars_u64_digits u64_to_string_def)

lemma stoull_to_string [text_simps]:
  "stoull (u64_to_string x) = Parsed (length (u64_to_string x)) x"
proof -
  have d: "list_all is_digit (u64_to_string x)" by (simp add: u64_to_string_def)
  have h: "hd (u64_to_string x) \<noteq> CHR ''+''" "hd (u64_to_string x) \<noteq> CHR ''-''"
    using nat_to_dec_set [of "hd (nat_to_dec (unat x))" "unat x"] is_digit_not_sign
    by (auto simp: u64_to_string_def)
  show ?thesis
    by (simp add: stoull_def Let_def dropWhile_space_digits [OF d] takeWhile_space_digits [OF d]
        h from_chars_u64_to_string)
qed

lemma lexical_cast_to_string [text_simps]: "lexical_cast_u64 (u64_to_string x) = Some x"
proof -
  have h: "hd (u64_to_string x) \<noteq> CHR ''+''" "hd (u64_to_string x) \<noteq> CHR ''-''"
    using nat_to_dec_set [of "hd (nat_to_dec (unat x))" "unat x"] is_digit_not_sign
    by (auto simp: u64_to_string_def)
  then show ?thesis
    using unat_u64_less [of x] by (simp add: lexical_cast_u64_def u64_to_string_def)
qed

section \<open>Facts on separators\<close>

lemma split_at_nonempty [simp]: "split_at sep s \<noteq> []"
  by (induction s) (auto split: list.splits)

lemma split_at_clean: "sep \<notin> set s \<Longrightarrow> split_at sep s = [s]"
  by (induction s) auto

lemma split_at_append: "sep \<notin> set p \<Longrightarrow> split_at sep (p @ sep # s) = p # split_at sep s"
  by (induction p) auto

text \<open>Fields without the separator survive being joined and split.\<close>

lemma split_at_join:
  "ps \<noteq> [] \<Longrightarrow> list_all (\<lambda>p. sep \<notin> set p) ps \<Longrightarrow> split_at sep (join sep ps) = ps"
  by (induction sep ps rule: join.induct) (auto simp: split_at_clean split_at_append)

lemma join_split_at [simp]: "join sep (split_at sep s) = s"
proof (induction s)
  case (Cons c s)
  then show ?case
    by (cases "split_at sep s"; cases "tl (split_at sep s)") auto
qed simp

lemma join_no_char:
  "c \<noteq> sep \<Longrightarrow> list_all (\<lambda>p. c \<notin> set p) ps \<Longrightarrow> c \<notin> set (join sep ps)"
  by (induction sep ps rule: join.induct) auto

lemma str_find_Some: "str_find pat s = Some i \<Longrightarrow> i \<le> length s \<and> starts_with pat (drop i s)"
  by (induction pat s arbitrary: i rule: str_find.induct)
     (auto simp: starts_with_def split: if_splits)

lemma str_find_at_end:
  "str_find pat s = Some (length s - length pat) \<Longrightarrow> length pat \<le> length s \<Longrightarrow> ends_with pat s"
  using str_find_Some [of pat s "length s - length pat"] by (simp add: starts_with_def ends_with_def)

section \<open>Overflow guards\<close>

text \<open>
  The guard \<open>rhs > max - lhs\<close> of the checked additions is exactly the overflow of the sum.
\<close>

lemma guard_no_overflow:
  fixes a b :: "'a::len word"
  shows "b \<le> - 1 - a \<longleftrightarrow> unat a + unat b < 2 ^ LENGTH('a)"
proof -
  have "unat (- 1 - a) = 2 ^ LENGTH('a) - 1 - unat a"
    by (subst unat_sub) (simp_all add: unsigned_minus_1_eq_mask mask_eq_exp_minus_1)
  moreover have "unat a < 2 ^ LENGTH('a)" by (rule unsigned_less)
  ultimately show ?thesis
    unfolding word_le_nat_alt by linarith
qed

lemma unat_add_no_overflow:
  fixes a b :: "'a::len word"
  shows "unat a + unat b < 2 ^ LENGTH('a) \<Longrightarrow> unat (a + b) = unat a + unat b"
  by (simp add: unat_word_ariths)

lemma u64_guard [word_facts]: "b \<le> u64_max - a \<longleftrightarrow> unat a + unat b < 2 ^ 64"
  using guard_no_overflow [of b a] by (simp add: u64_max_def)

lemma u128_guard [word_facts]: "b \<le> u128_max - a \<longleftrightarrow> unat a + unat b < 2 ^ 128"
  using guard_no_overflow [of b a] by (simp add: u128_max_def)

lemma u64_add_exact: "b \<le> u64_max - a \<Longrightarrow> unat (a + b) = unat a + unat b"
  by (simp add: word_facts unat_add_no_overflow)

lemma u128_add_exact: "b \<le> u128_max - a \<Longrightarrow> unat (a + b) = unat a + unat b"
  by (simp add: word_facts unat_add_no_overflow)

lemma unat_sub_u64: "b \<le> (a :: u64) \<Longrightarrow> unat (a - b) = unat a - unat b"
  by (simp add: unat_sub)

lemma unat_ucast_u64_u128 [simp]: "unat (ucast (x :: u64) :: u128) = unat x"
  by (simp add: unsigned_ucast_eq take_bit_nat_eq_self_iff order_less_trans [OF unat_u64_less])

lemma size_u64_exact: "length xs < 2 ^ 64 \<Longrightarrow> unat (size_u64 xs) = length xs"
  by (simp add: size_u64_def unsigned_of_nat take_bit_nat_eq_self)

section \<open>Shared contracts\<close>

text \<open>
  A text codec: what a writer prints is read back, and the printed form avoids a set of
  separator characters, so that it can be stored as a field of a line.
\<close>

locale text_codec =
  fixes encode :: "'a \<Rightarrow> string"
    and decode :: "string \<Rightarrow> 'a option"
    and separators :: "char set"
  assumes decode_encode: "decode (encode x) = Some x"
    and encode_clean: "c \<in> separators \<Longrightarrow> c \<notin> set (encode x)"
begin

lemma encode_inject: "encode x = encode y \<longleftrightarrow> x = y"
  by (metis decode_encode option.inject)

lemma split_encoded_fields:
  assumes "sep \<in> separators" "xs \<noteq> []"
  shows "map decode (split_at sep (join sep (map encode xs))) = map Some xs"
proof -
  have "split_at sep (join sep (map encode xs)) = map encode xs"
    using assms by (intro split_at_join) (auto simp: list_all_iff encode_clean)
  then show ?thesis by (simp add: decode_encode)
qed

end

text \<open>
  A transition system with an inductive invariant: the invariant holds in every state a
  sequence of steps reaches.
\<close>

inductive steps :: "('s \<Rightarrow> 's \<Rightarrow> bool) \<Rightarrow> 's \<Rightarrow> 's \<Rightarrow> bool" for step where
  stop: "steps step s s"
| step: "steps step s t \<Longrightarrow> step t u \<Longrightarrow> steps step s u"

locale invariant_system =
  fixes step :: "'s \<Rightarrow> 's \<Rightarrow> bool"
    and inv :: "'s \<Rightarrow> bool"
  assumes step_keeps: "inv s \<Longrightarrow> step s t \<Longrightarrow> inv t"
begin

lemma steps_keep: "steps step s t \<Longrightarrow> inv s \<Longrightarrow> inv t"
  by (induction rule: steps.induct) (auto intro: step_keeps)

end

text \<open>
  A forward simulation: every step of a detailed system is matched by steps of its
  specification, so that every run of the one has a run of the other beside it.
\<close>

lemma steps_trans: "steps step t u \<Longrightarrow> steps step s t \<Longrightarrow> steps step s u"
  by (induction rule: steps.induct) (auto intro: steps.step)

lemma steps_single: "step s t \<Longrightarrow> steps step s t"
  by (blast intro: steps.intros)

locale forward_simulation =
  fixes cstep :: "'c \<Rightarrow> 'c \<Rightarrow> bool"
    and astep :: "'a \<Rightarrow> 'a \<Rightarrow> bool"
    and match :: "'c \<Rightarrow> 'a \<Rightarrow> bool"
  assumes simulate: "match c a \<Longrightarrow> cstep c c' \<Longrightarrow> \<exists>a'. steps astep a a' \<and> match c' a'"
begin

lemma simulate_steps: "steps cstep c c' \<Longrightarrow> match c a \<Longrightarrow> \<exists>a'. steps astep a a' \<and> match c' a'"
proof (induction rule: steps.induct)
  case (stop c)
  then show ?case by (blast intro: steps.stop)
next
  case (step c d e)
  then show ?case by (meson simulate steps_trans)
qed

end

end
