(* ===== verification/Supply_Math.thy ===== *)
theory Supply_Math
  imports Prelude
begin

text \<open>
  \<open>src/supply_math.h\<close>: the ledger of supply records. Every record carries the coinbase and the
  fees of one block and the running totals in 128 bits; a record is appended only when it links
  to the last one and no total overflows, and a reorganisation rolls the ledger back to its
  last canonical record. \<open>ledger_wf\<close> is the invariant of the ledger.
\<close>

record supply_record =
  sr_height :: u64
  sr_hash :: string
  sr_parent_hash :: string
  coinbase_atomic :: u64
  fees_atomic :: u64
  minted_atomic :: u64
  cumulative_coinbase :: u128
  cumulative_fees :: u128
  cumulative_minted :: u128

text \<open>The default member initialisers.\<close>

definition blank_supply_record :: supply_record where
  "blank_supply_record =
     \<lparr>sr_height = 0, sr_hash = [], sr_parent_hash = [], coinbase_atomic = 0, fees_atomic = 0,
      minted_atomic = 0, cumulative_coinbase = 0, cumulative_fees = 0, cumulative_minted = 0\<rparr>"

definition checked_supply_add :: "u128 \<Rightarrow> u128 \<Rightarrow> u128 option" where
  "checked_supply_add lhs rhs = (if u128_max - lhs < rhs then None else Some (lhs + rhs))"

definition minted_delta :: "u64 \<Rightarrow> u64 \<Rightarrow> u64 option" where
  "minted_delta coinbase fees = (if coinbase < fees then None else Some (coinbase - fees))"

text \<open>The total a field has reached: zero before the first record.\<close>

definition prior :: "(supply_record \<Rightarrow> u128) \<Rightarrow> supply_record list \<Rightarrow> u128" where
  "prior field records = (if records = [] then 0 else field (last records))"

definition append_supply_record ::
    "supply_record list \<Rightarrow> supply_record \<Rightarrow> supply_record list option" where
  "append_supply_record records r =
     (if sr_height r \<noteq> size_u64 records \<or> sr_hash r = []
         \<or> sr_height r = 0 \<and> sr_parent_hash r \<noteq> []
         \<or> 0 < sr_height r \<and> sr_parent_hash r \<noteq> sr_hash (last records)
      then None
      else case minted_delta (coinbase_atomic r) (fees_atomic r) of
        None \<Rightarrow> None
      | Some minted \<Rightarrow>
        (case checked_supply_add (prior cumulative_coinbase records) (ucast (coinbase_atomic r)) of
           None \<Rightarrow> None
         | Some cc \<Rightarrow>
           (case checked_supply_add (prior cumulative_fees records) (ucast (fees_atomic r)) of
              None \<Rightarrow> None
            | Some cf \<Rightarrow>
              (case checked_supply_add (prior cumulative_minted records) (ucast minted) of
                 None \<Rightarrow> None
               | Some cm \<Rightarrow>
                 Some (records @
                   [r\<lparr>minted_atomic := minted, cumulative_coinbase := cc,
                      cumulative_fees := cf, cumulative_minted := cm\<rparr>])))))"

text \<open>
  The callback of \<open>rollback_supply_records\<close> reads the chain, which moves on between two calls:
  it is a callable with a state \<open>'w\<close> of its own, called only when the height test passed.
\<close>

function rollback_supply_records ::
    "supply_record list \<Rightarrow> u64 \<Rightarrow> ('w \<Rightarrow> u64 \<Rightarrow> string \<times> 'w) \<Rightarrow> 'w \<Rightarrow> supply_record list \<times> 'w" where
  "rollback_supply_records records canonical_block_count hash_at_height w =
     (if records = [] then (records, w)
      else if sr_height (last records) < canonical_block_count
      then case hash_at_height w (sr_height (last records)) of
             (h, w') \<Rightarrow>
               if h = sr_hash (last records) then (records, w')
               else rollback_supply_records (butlast records) canonical_block_count
                      hash_at_height w'
      else rollback_supply_records (butlast records) canonical_block_count hash_at_height w)"
  by pat_completeness auto
termination
  by (relation "measure (\<lambda>(records, c, h, w). length records)") auto

declare rollback_supply_records.simps [simp del]

definition supply_wide_to_string :: "u128 \<Rightarrow> string" where
  "supply_wide_to_string v = nat_to_dec (unat v)"

text \<open>
  \<open>parse_supply_wide\<close>. Reading a \<open>cpp_int\<close> from a stream belongs to Boost: \<open>read_cpp_int\<close> is the
  value read from a text of digits only, or \<open>None\<close> when it throws or leaves the stream in a
  failed or non-exhausted state.
\<close>

definition parse_supply_wide :: "(string \<Rightarrow> nat option) \<Rightarrow> string \<Rightarrow> u128 option" where
  "parse_supply_wide read_cpp_int text =
     (if text = [] \<or> \<not> list_all is_digit text then None
      else case read_cpp_int text of
             None \<Rightarrow> None
           | Some candidate \<Rightarrow>
               if unat u128_max < candidate then None else Some (of_nat candidate))"

section \<open>The ledger invariant\<close>

definition total_upto :: "(supply_record \<Rightarrow> u64) \<Rightarrow> supply_record list \<Rightarrow> nat" where
  "total_upto field rs = sum_list (map (\<lambda>r. unat (field r)) rs)"

definition record_wf :: "supply_record list \<Rightarrow> nat \<Rightarrow> bool" where
  "record_wf rs i \<longleftrightarrow>
     (let r = rs ! i in
      sr_height r = of_nat i
      \<and> (if sr_height r = 0 then sr_parent_hash r = [] else sr_parent_hash r = sr_hash (rs ! (i - 1)))
      \<and> fees_atomic r \<le> coinbase_atomic r
      \<and> minted_atomic r = coinbase_atomic r - fees_atomic r
      \<and> unat (cumulative_coinbase r) = total_upto coinbase_atomic (take (Suc i) rs)
      \<and> unat (cumulative_fees r) = total_upto fees_atomic (take (Suc i) rs)
      \<and> unat (cumulative_minted r) = total_upto minted_atomic (take (Suc i) rs))"

definition ledger_wf :: "supply_record list \<Rightarrow> bool" where
  "ledger_wf rs \<longleftrightarrow> list_all (record_wf rs) [0..<length rs]"

lemma ledger_wf_iff: "ledger_wf rs \<longleftrightarrow> (\<forall>i < length rs. record_wf rs i)"
  by (auto simp: ledger_wf_def list_all_iff)

lemma ledger_wf_Nil [simp]: "ledger_wf []"
  by (simp add: ledger_wf_def)

lemma total_upto_append [simp]: "total_upto f (xs @ ys) = total_upto f xs + total_upto f ys"
  by (simp add: total_upto_def)

lemma total_upto_Nil [simp]: "total_upto f [] = 0"
  by (simp add: total_upto_def)

lemma total_upto_single [simp]: "total_upto f [r] = unat (f r)"
  by (simp add: total_upto_def)

lemma record_wf_take: "i < k \<Longrightarrow> record_wf (take k rs) i = record_wf rs i"
  by (simp add: record_wf_def Let_def min_def)

lemma record_wf_append: "i < length rs \<Longrightarrow> record_wf (rs @ ys) i = record_wf rs i"
  using record_wf_take [of i "length rs" "rs @ ys"] by simp

lemma ledger_wf_take: "ledger_wf rs \<Longrightarrow> ledger_wf (take k rs)"
  by (simp add: ledger_wf_iff record_wf_take)

lemma ledger_wf_snoc: "ledger_wf (rs @ [r]) \<longleftrightarrow> ledger_wf rs \<and> record_wf (rs @ [r]) (length rs)"
  by (auto simp: ledger_wf_iff record_wf_append less_Suc_eq)

lemma ledger_wf_last:
  assumes "ledger_wf rs" "rs \<noteq> []"
  shows "record_wf rs (length rs - 1)"
  using assms by (simp add: ledger_wf_iff)

lemma ledger_wf_totals:
  assumes "ledger_wf rs"
  shows "unat (prior cumulative_coinbase rs) = total_upto coinbase_atomic rs"
    and "unat (prior cumulative_fees rs) = total_upto fees_atomic rs"
    and "unat (prior cumulative_minted rs) = total_upto minted_atomic rs"
  using ledger_wf_last [OF assms]
  by (cases "rs = []"; simp add: prior_def record_wf_def Let_def last_conv_nth)+

lemma ledger_wf_height_last:
  "ledger_wf rs \<Longrightarrow> rs \<noteq> [] \<Longrightarrow> sr_height (last rs) = of_nat (length rs - 1)"
  using ledger_wf_last [of rs] by (simp add: record_wf_def Let_def last_conv_nth)

text \<open>Minted supply is coinbase minus fees, exactly and for the totals as well.\<close>

lemma ledger_wf_balance:
  "ledger_wf rs \<Longrightarrow>
     total_upto coinbase_atomic rs = total_upto fees_atomic rs + total_upto minted_atomic rs"
proof (induction rs rule: rev_induct)
  case (snoc r rs)
  then have "fees_atomic r \<le> coinbase_atomic r" "minted_atomic r = coinbase_atomic r - fees_atomic r"
    by (simp_all add: ledger_wf_snoc record_wf_def Let_def)
  with snoc show ?case
    by (simp add: ledger_wf_snoc unat_sub word_le_nat_alt)
qed simp

section \<open>Checked addition\<close>

lemma checked_supply_add_Some_iff:
  "checked_supply_add a b = Some c \<longleftrightarrow> unat a + unat b < 2 ^ 128 \<and> c = a + b"
  using u128_guard [of b a] by (auto simp: checked_supply_add_def not_less)

lemma checked_supply_add_exact: "checked_supply_add a b = Some c \<longleftrightarrow> unat c = unat a + unat b"
  using unat_u128_less [of c] unat_add_no_overflow [of a b]
  by (auto simp: checked_supply_add_Some_iff word_unat_eq_iff)

lemma checked_supply_add_None_iff: "checked_supply_add a b = None \<longleftrightarrow> 2 ^ 128 \<le> unat a + unat b"
  using u128_guard [of b a] by (auto simp: checked_supply_add_def not_less)

lemma minted_delta_Some_iff: "minted_delta c f = Some m \<longleftrightarrow> f \<le> c \<and> m = c - f"
  by (auto simp: minted_delta_def)

lemma minted_delta_None_iff: "minted_delta c f = None \<longleftrightarrow> c < f"
  by (simp add: minted_delta_def)

section \<open>Appending\<close>

lemma append_supply_record_SomeD:
  assumes "append_supply_record rs r = Some rs'"
  obtains r' where "rs' = rs @ [r']"
    and "sr_height r' = size_u64 rs" "sr_hash r' = sr_hash r" "sr_hash r \<noteq> []"
    and "sr_parent_hash r' = sr_parent_hash r"
    and "if sr_height r' = 0 then sr_parent_hash r = [] else sr_parent_hash r = sr_hash (last rs)"
    and "coinbase_atomic r' = coinbase_atomic r" "fees_atomic r' = fees_atomic r"
    and "fees_atomic r \<le> coinbase_atomic r" "minted_atomic r' = coinbase_atomic r - fees_atomic r"
    and "unat (cumulative_coinbase r') = unat (prior cumulative_coinbase rs) + unat (coinbase_atomic r)"
    and "unat (cumulative_fees r') = unat (prior cumulative_fees rs) + unat (fees_atomic r)"
    and "unat (cumulative_minted r') =
           unat (prior cumulative_minted rs) + unat (coinbase_atomic r - fees_atomic r)"
proof -
  from assms obtain m cc cf cm where
    g: "sr_height r = size_u64 rs" "sr_hash r \<noteq> []"
      "sr_height r = 0 \<longrightarrow> sr_parent_hash r = []"
      "0 < sr_height r \<longrightarrow> sr_parent_hash r = sr_hash (last rs)"
    and m: "minted_delta (coinbase_atomic r) (fees_atomic r) = Some m"
    and cc: "checked_supply_add (prior cumulative_coinbase rs) (ucast (coinbase_atomic r)) = Some cc"
    and cf: "checked_supply_add (prior cumulative_fees rs) (ucast (fees_atomic r)) = Some cf"
    and cm: "checked_supply_add (prior cumulative_minted rs) (ucast m) = Some cm"
    and rs': "rs' = rs @ [r\<lparr>minted_atomic := m, cumulative_coinbase := cc,
                cumulative_fees := cf, cumulative_minted := cm\<rparr>]"
    by (auto simp: append_supply_record_def split: if_splits option.splits)
  show ?thesis
    by (rule that [OF rs'])
       (use g m cc cf cm in \<open>auto simp: minted_delta_Some_iff checked_supply_add_Some_iff
          unat_add_no_overflow word_gt_0\<close>)
qed

lemma append_keeps_ledger:
  assumes "ledger_wf rs" "append_supply_record rs r = Some rs'"
  shows "ledger_wf rs'"
proof -
  from assms(2) obtain r' where r': "rs' = rs @ [r']"
    "sr_height r' = size_u64 rs" "sr_hash r' = sr_hash r" "sr_hash r \<noteq> []"
    "sr_parent_hash r' = sr_parent_hash r"
    "if sr_height r' = 0 then sr_parent_hash r = [] else sr_parent_hash r = sr_hash (last rs)"
    "coinbase_atomic r' = coinbase_atomic r" "fees_atomic r' = fees_atomic r"
    "fees_atomic r \<le> coinbase_atomic r" "minted_atomic r' = coinbase_atomic r - fees_atomic r"
    "unat (cumulative_coinbase r') = unat (prior cumulative_coinbase rs) + unat (coinbase_atomic r)"
    "unat (cumulative_fees r') = unat (prior cumulative_fees rs) + unat (fees_atomic r)"
    "unat (cumulative_minted r') =
       unat (prior cumulative_minted rs) + unat (coinbase_atomic r - fees_atomic r)"
    by (rule append_supply_record_SomeD)
  have link: "rs \<noteq> [] \<Longrightarrow> last rs = (rs @ [r']) ! (length rs - 1)"
    by (simp add: last_conv_nth nth_append)
  have nz: "size_u64 rs \<noteq> 0 \<Longrightarrow> rs \<noteq> []"
    by (auto simp: size_u64_def)
  have "record_wf (rs @ [r']) (length rs)"
    using r' link nz
    by (auto simp: record_wf_def Let_def ledger_wf_totals [OF assms(1)] size_u64_def
        split: if_splits)
  with assms(1) r'(1) show ?thesis by (simp add: ledger_wf_snoc)
qed

lemma append_is_snoc:
  "append_supply_record rs r = Some rs' \<Longrightarrow> \<exists>r'. rs' = rs @ [r']"
  by (erule append_supply_record_SomeD) auto

lemma total_upto_bound: "total_upto f rs \<le> length rs * (2 ^ 64 - 1)"
proof (induction rs)
  case (Cons r rs)
  then show ?case
    using unat_u64_less [of "f r"] by (simp add: total_upto_def)
qed simp

text \<open>
  With fewer than \<open>2 ^ 64\<close> records no total can overflow: the 128-bit guards never reject.
\<close>

lemma totals_never_overflow:
  assumes "ledger_wf rs" "length rs < 2 ^ 64"
  shows "\<exists>c. checked_supply_add (prior cumulative_coinbase rs) (ucast (x :: u64)) = Some c"
    and "\<exists>c. checked_supply_add (prior cumulative_fees rs) (ucast x) = Some c"
    and "\<exists>c. checked_supply_add (prior cumulative_minted rs) (ucast x) = Some c"
proof -
  have "total_upto f rs + unat x < 2 ^ 128" for f
  proof -
    have "length rs * (2 ^ 64 - 1) \<le> (2 ^ 64 - 1) * (2 ^ 64 - 1)"
      using assms(2) by (intro mult_le_mono1) simp
    with total_upto_bound [of f rs] have "total_upto f rs \<le> (2 ^ 64 - 1) * (2 ^ 64 - 1)"
      by (rule le_trans)
    then show ?thesis using unat_u64_less [of x] by simp
  qed
  then show "\<exists>c. checked_supply_add (prior cumulative_coinbase rs) (ucast x) = Some c"
    and "\<exists>c. checked_supply_add (prior cumulative_fees rs) (ucast x) = Some c"
    and "\<exists>c. checked_supply_add (prior cumulative_minted rs) (ucast x) = Some c"
    by (auto simp: checked_supply_add_Some_iff ledger_wf_totals [OF assms(1)])
qed

section \<open>Rolling back\<close>

lemma rollback_Nil [simp]: "rollback_supply_records [] n hash_at w = ([], w)"
  by (simp add: rollback_supply_records.simps)

lemma rollback_is_prefix:
  "\<exists>k. fst (rollback_supply_records rs n hash_at w) = take k rs"
proof (induction rs n hash_at w rule: rollback_supply_records.induct)
  case (1 rs n hash_at w)
  have cut: "\<exists>k. t = take k (butlast rs) \<Longrightarrow> \<exists>k. t = take k rs" for t :: "supply_record list"
    by (metis butlast_conv_take take_take)
  have same: "\<exists>k. rs = take k rs" by (rule exI [of _ "length rs"]) simp
  show ?case
  proof (cases "rs = []")
    case True
    then show ?thesis by simp
  next
    case False
    obtain h w' where hw: "hash_at w (sr_height (last rs)) = (h, w')" by fastforce
    show ?thesis
      using False hw same cut "1.IH"(1) [OF False _ hw [symmetric]] "1.IH"(2) [OF False]
      by (auto simp: rollback_supply_records.simps [of rs])
  qed
qed

text \<open>The last record that survives was below the observed height and matched the chain.\<close>

lemma rollback_last_canonical:
  "fst (rollback_supply_records rs n hash_at w) \<noteq> [] \<Longrightarrow>
   sr_height (last (fst (rollback_supply_records rs n hash_at w))) < n \<and>
   (\<exists>v. fst (hash_at v (sr_height (last (fst (rollback_supply_records rs n hash_at w)))))
        = sr_hash (last (fst (rollback_supply_records rs n hash_at w))))"
proof (induction rs n hash_at w rule: rollback_supply_records.induct)
  case (1 rs n hash_at w)
  show ?case
  proof (cases "rs = []")
    case True
    with "1.prems" show ?thesis by simp
  next
    case False
    obtain h w' where hw: "hash_at w (sr_height (last rs)) = (h, w')" by fastforce
    show ?thesis
    proof (cases "sr_height (last rs) < n")
      case lt: True
      show ?thesis
      proof (cases "h = sr_hash (last rs)")
        case True
        with False lt hw show ?thesis
          by (auto simp: rollback_supply_records.simps [of rs] intro: exI [of _ w])
      next
        case ne: False
        then have "rollback_supply_records rs n hash_at w
            = rollback_supply_records (butlast rs) n hash_at w'"
          using False lt hw by (simp add: rollback_supply_records.simps [of rs])
        then show ?thesis
          using "1.IH"(1) [OF False lt hw [symmetric] ne] "1.prems" by simp
      qed
    next
      case False': False
      then have "rollback_supply_records rs n hash_at w
          = rollback_supply_records (butlast rs) n hash_at w"
        using False by (simp add: rollback_supply_records.simps [of rs])
      then show ?thesis
        using "1.IH"(2) [OF False False'] "1.prems" by simp
    qed
  qed
qed

text \<open>
  Against a chain that does not move, the loop keeps the longest prefix that ends in a
  canonical record.
\<close>

definition canonical_record :: "u64 \<Rightarrow> (u64 \<Rightarrow> string) \<Rightarrow> supply_record \<Rightarrow> bool" where
  "canonical_record n chain r \<longleftrightarrow> sr_height r < n \<and> chain (sr_height r) = sr_hash r"

definition still_chain :: "(u64 \<Rightarrow> string) \<Rightarrow> 'w \<Rightarrow> u64 \<Rightarrow> string \<times> 'w" where
  "still_chain chain w h = (chain h, w)"

lemma rollback_still_chain:
  "rollback_supply_records rs n (still_chain chain) w =
     (rev (dropWhile (\<lambda>r. \<not> canonical_record n chain r) (rev rs)), w)"
proof (induction rs rule: rev_induct)
  case (snoc r rs)
  then show ?case
    by (simp add: rollback_supply_records.simps [of "rs @ [r]"] canonical_record_def still_chain_def)
qed simp

lemma ledger_wf_last_link:
  assumes "ledger_wf (rs @ [r])" "rs \<noteq> []" "length rs < 2 ^ 64"
  shows "sr_height r = of_nat (length rs)" "sr_height r \<noteq> 0" "sr_parent_hash r = sr_hash (last rs)"
    "sr_height (last rs) = sr_height r - 1"
proof -
  have r: "record_wf (rs @ [r]) (length rs)" and wf: "ledger_wf rs"
    using assms(1) by (simp_all add: ledger_wf_snoc)
  show h: "sr_height r = of_nat (length rs)"
    using r by (simp add: record_wf_def Let_def)
  have "unat (of_nat (length rs) :: u64) = length rs"
    using assms(3) by (simp add: unsigned_of_nat take_bit_nat_eq_self)
  then show nz: "sr_height r \<noteq> 0"
    using assms(2) h by (metis length_0_conv unat_0)
  have "(rs @ [r]) ! (length rs - 1) = last rs"
    using assms(2) by (simp add: last_conv_nth nth_append)
  then show "sr_parent_hash r = sr_hash (last rs)"
    using r nz by (simp add: record_wf_def Let_def)
  show "sr_height (last rs) = sr_height r - 1"
    using ledger_wf_height_last [OF wf assms(2)] h assms(2)
    by (cases rs) auto
qed

text \<open>
  A hash names one block, and a block names one parent: when \<open>parent\<close> is that map, a ledger
  whose last record is canonical is canonical throughout.
\<close>

lemma canonical_down:
  assumes "ledger_wf rs" "length rs \<le> 2 ^ 64" "rs \<noteq> []" "canonical_record n chain (last rs)"
    and chain: "\<forall>h. 0 < h \<and> h < n \<longrightarrow> parent (chain h) = chain (h - 1)"
    and recorded: "\<forall>r \<in> set rs. sr_height r \<noteq> 0 \<longrightarrow> parent (sr_hash r) = sr_parent_hash r"
  shows "\<forall>r \<in> set rs. canonical_record n chain r"
  using assms(1-4) recorded
proof (induction rs rule: rev_induct)
  case (snoc r rs)
  show ?case
  proof (cases "rs = []")
    case True
    with snoc.prems show ?thesis by simp
  next
    case False
    have len: "length rs < 2 ^ 64" using snoc.prems(2) by simp
    note link = ledger_wf_last_link [OF snoc.prems(1) False len]
    have r: "sr_height r < n" "chain (sr_height r) = sr_hash r"
      using snoc.prems(4) by (simp_all add: canonical_record_def)
    have "chain (sr_height r - 1) = parent (chain (sr_height r))"
      using chain r(1) link(2) by (metis word_gt_0)
    also have "\<dots> = sr_hash (last rs)"
      using snoc.prems(5) r(2) link(2,3) by simp
    finally have "canonical_record n chain (last rs)"
      using link r(1) by (simp add: canonical_record_def)
        (metis link(2) measure_unat word_less_nat_alt order.strict_trans)
    then have "\<forall>r \<in> set rs. canonical_record n chain r"
      using snoc.IH snoc.prems len False by (simp add: ledger_wf_snoc)
    then show ?thesis using snoc.prems(4) by simp
  qed
qed simp

section \<open>The interface of the ledger\<close>

text \<open>
  What a client of the ledger relies on: appending adds one record at the end and keeps the
  invariant, rolling back leaves a prefix, and prefixes keep the invariant.
\<close>

locale record_ledger =
  fixes wf :: "'r list \<Rightarrow> bool"
    and app :: "'r list \<Rightarrow> 'r \<Rightarrow> 'r list option"
    and roll :: "'r list \<Rightarrow> u64 \<Rightarrow> ('w \<Rightarrow> u64 \<Rightarrow> string \<times> 'w) \<Rightarrow> 'w \<Rightarrow> 'r list \<times> 'w"
  assumes wf_Nil: "wf []"
    and app_wf: "wf rs \<Longrightarrow> app rs r = Some rs' \<Longrightarrow> wf rs'"
    and snoc_law: "app rs r = Some rs' \<Longrightarrow> \<exists>r'. rs' = rs @ [r']"
    and roll_prefix: "\<exists>k. fst (roll rs n hash_at w) = take k rs"
    and wf_take: "wf rs \<Longrightarrow> wf (take k rs)"
begin

lemma roll_wf: "wf rs \<Longrightarrow> wf (fst (roll rs n hash_at w))"
  using roll_prefix [of rs n hash_at w] wf_take by auto

lemma app_length: "app rs r = Some rs' \<Longrightarrow> length rs' = Suc (length rs)"
  using snoc_law by fastforce

lemma roll_length: "length (fst (roll rs n hash_at w)) \<le> length rs"
  using roll_prefix [of rs n hash_at w] by auto

lemma app_prefix: "app rs r = Some rs' \<Longrightarrow> take (length rs) rs' = rs"
  using snoc_law by fastforce

end

interpretation ledger: record_ledger ledger_wf append_supply_record rollback_supply_records
  by unfold_locales
     (auto intro: append_keeps_ledger append_is_snoc rollback_is_prefix ledger_wf_take)

section \<open>Text of totals\<close>

lemma parse_supply_wide_to_string:
  assumes "\<forall>n. read_cpp_int (nat_to_dec n) = Some n"
  shows "parse_supply_wide read_cpp_int (supply_wide_to_string v) = Some v"
proof -
  have "\<not> unat u128_max < unat v"
    using unat_u128_less [of v]
    by (simp add: u128_max_def unsigned_minus_1_eq_mask mask_eq_exp_minus_1 not_less)
  then show ?thesis
    using assms by (simp add: parse_supply_wide_def supply_wide_to_string_def)
qed

lemma supply_wide_to_string_no_char: "\<not> is_digit c \<Longrightarrow> c \<notin> set (supply_wide_to_string v)"
  by (simp add: supply_wide_to_string_def nat_to_dec_no_char)

text \<open>
  C6. Appending keeps the ledger: after every accepted record the heights are consecutive, each
  record names its predecessor, the three running totals of the last record are the exact sums,
  and gross coinbase is fees plus minted supply.
\<close>

theorem append_keeps_exact_totals:
  assumes "ledger_wf rs" "append_supply_record rs r = Some rs'"
  shows "ledger_wf rs' \<and> unat (cumulative_coinbase (last rs')) = total_upto coinbase_atomic rs'
    \<and> unat (cumulative_fees (last rs')) = total_upto fees_atomic rs'
    \<and> unat (cumulative_minted (last rs')) = total_upto minted_atomic rs'
    \<and> total_upto coinbase_atomic rs' = total_upto fees_atomic rs' + total_upto minted_atomic rs'"
proof -
  have wf: "ledger_wf rs'" using assms by (rule append_keeps_ledger)
  have "rs' \<noteq> []" using append_is_snoc [OF assms(2)] by auto
  with wf ledger_wf_totals [OF wf] show ?thesis
    by (simp add: prior_def ledger_wf_balance)
qed

theorem append_keeps_exact_totals_witness:
  "\<exists>rs'. append_supply_record [] (blank_supply_record\<lparr>sr_hash := ''aa'', coinbase_atomic := 7, fees_atomic := 2\<rparr>)
      = Some rs' \<and> ledger_wf rs' \<and> unat (cumulative_minted (last rs')) = total_upto minted_atomic rs'"
proof -
  let ?r = "blank_supply_record\<lparr>sr_hash := ''aa'', coinbase_atomic := 7, fees_atomic := 2\<rparr>"
  have "append_supply_record [] ?r \<noteq> None" by code_simp
  then obtain rs' where "append_supply_record [] ?r = Some rs'" by blast
  with append_keeps_exact_totals [OF ledger.wf_Nil this] show ?thesis by blast
qed

text \<open>
  A record is rejected for its own sake only: on a ledger of fewer than \<open>2 ^ 64\<close> records a
  record is accepted exactly when its height is next, its hash is not empty, it names the last
  hash (none at genesis) and its fees do not exceed its coinbase. The 128-bit totals cannot
  overflow.
\<close>

theorem append_accepts_iff:
  assumes "ledger_wf rs" "length rs < 2 ^ 64"
  shows "append_supply_record rs r \<noteq> None \<longleftrightarrow>
     unat (sr_height r) = length rs \<and> sr_hash r \<noteq> []
     \<and> sr_parent_hash r = (if rs = [] then [] else sr_hash (last rs))
     \<and> fees_atomic r \<le> coinbase_atomic r"
proof -
  obtain cc cf cm where sums:
      "checked_supply_add (prior cumulative_coinbase rs) (ucast (coinbase_atomic r)) = Some cc"
      "checked_supply_add (prior cumulative_fees rs) (ucast (fees_atomic r)) = Some cf"
      "checked_supply_add (prior cumulative_minted rs) (ucast (coinbase_atomic r - fees_atomic r)) = Some cm"
    using totals_never_overflow [OF assms] by metis
  have h: "sr_height r = size_u64 rs \<longleftrightarrow> unat (sr_height r) = length rs"
    using size_u64_exact [OF assms(2)] by (auto simp: word_unat_eq_iff)
  have z: "size_u64 rs = 0 \<longleftrightarrow> rs = []"
    using size_u64_exact [OF assms(2)] by (metis length_0_conv unat_eq_zero)
  have "append_supply_record rs r \<noteq> None \<longleftrightarrow> sr_height r = size_u64 rs \<and> sr_hash r \<noteq> []
      \<and> (size_u64 rs = 0 \<longrightarrow> sr_parent_hash r = [])
      \<and> (size_u64 rs \<noteq> 0 \<longrightarrow> sr_parent_hash r = sr_hash (last rs))
      \<and> fees_atomic r \<le> coinbase_atomic r"
    by (cases "fees_atomic r \<le> coinbase_atomic r")
       (auto simp: append_supply_record_def minted_delta_def sums word_gt_0 not_less not_le)
  then show ?thesis unfolding h z by auto
qed

theorem append_accepts_iff_witness:
  "append_supply_record [] (blank_supply_record\<lparr>sr_hash := ''aa'', coinbase_atomic := 7, fees_atomic := 9\<rparr>) = None
   \<and> append_supply_record [] (blank_supply_record\<lparr>sr_hash := ''aa'', coinbase_atomic := 9, fees_atomic := 7\<rparr>) \<noteq> None"
  using append_accepts_iff [OF ledger.wf_Nil, of "blank_supply_record\<lparr>sr_hash := ''aa'', coinbase_atomic := 7, fees_atomic := 9\<rparr>"]
    append_accepts_iff [OF ledger.wf_Nil, of "blank_supply_record\<lparr>sr_hash := ''aa'', coinbase_atomic := 9, fees_atomic := 7\<rparr>"]
  by (simp add: blank_supply_record_def)

text \<open>
  C5. After a reorganisation the ledger is cut to its longest canonical prefix: the rollback
  keeps a prefix, every record of it is canonical, and no longer prefix of the old ledger ends
  in a canonical record. The chain stands still during the rollback; \<open>parent\<close> maps a block
  hash to the hash of its predecessor.
\<close>

theorem rollback_longest_canonical_prefix:
  assumes "ledger_wf rs" "length rs \<le> 2 ^ 64"
    and "\<forall>h. 0 < h \<and> h < n \<longrightarrow> parent (chain h) = chain (h - 1)"
    and "\<forall>r \<in> set rs. sr_height r \<noteq> 0 \<longrightarrow> parent (sr_hash r) = sr_parent_hash r"
    and "rs' = fst (rollback_supply_records rs n (still_chain chain) w)"
  shows "rs' = take (length rs') rs \<and> (\<forall>r \<in> set rs'. canonical_record n chain r)
    \<and> (\<forall>k. length rs' < k \<and> k \<le> length rs \<longrightarrow> \<not> canonical_record n chain (rs ! (k - 1)))"
proof -
  let ?P = "\<lambda>r. \<not> canonical_record n chain r"
  have rs': "rs' = rev (dropWhile ?P (rev rs))" using assms(5) by (simp add: rollback_still_chain)
  have split: "rs = rs' @ rev (takeWhile ?P (rev rs))"
    unfolding rs' by (metis rev_append rev_rev_ident takeWhile_dropWhile_id)
  have pre: "rs' = take (length rs') rs" by (subst split) simp
  have wf: "ledger_wf rs'" using pre ledger_wf_take [OF assms(1)] by metis
  have len: "length rs' \<le> 2 ^ 64" using assms(2) split by (metis le_add1 le_trans length_append)
  have can: "\<forall>r \<in> set rs'. canonical_record n chain r"
  proof (cases "rs' = []")
    case False
    then have "canonical_record n chain (last rs')"
      unfolding rs' by (metis hd_dropWhile last_rev rev_is_Nil_conv)
    moreover have "\<forall>r \<in> set rs'. sr_height r \<noteq> 0 \<longrightarrow> parent (sr_hash r) = sr_parent_hash r"
      using assms(4) pre by (metis in_set_takeD)
    ultimately show ?thesis using canonical_down [OF wf len False _ assms(3)] by blast
  qed simp
  have "\<not> canonical_record n chain (rs ! (k - 1))" if "length rs' < k" "k \<le> length rs" for k
  proof -
    have "rs ! (k - 1) = rev (takeWhile ?P (rev rs)) ! (k - 1 - length rs')"
      using that by (subst split) (simp add: nth_append)
    moreover have "k - 1 - length rs' < length (rev (takeWhile ?P (rev rs)))"
      using that arg_cong [OF split, of length] by simp
    ultimately have "rs ! (k - 1) \<in> set (takeWhile ?P (rev rs))"
      by (metis nth_mem set_rev)
    then show ?thesis by (auto dest: set_takeWhileD)
  qed
  with pre can show ?thesis by blast
qed

theorem rollback_longest_canonical_prefix_witness:
  "fst (rollback_supply_records [blank_supply_record\<lparr>sr_hash := ''a''\<rparr>] 1 (still_chain (\<lambda>h. ''b'')) ()) = []
   \<and> \<not> canonical_record 1 (\<lambda>h. ''b'') (blank_supply_record\<lparr>sr_hash := ''a''\<rparr>)"
proof -
  let ?rs = "[blank_supply_record\<lparr>sr_hash := ''a''\<rparr>]"
  have wf: "ledger_wf ?rs" by code_simp
  have roll: "fst (rollback_supply_records ?rs 1 (still_chain (\<lambda>h. ''b'')) ()) = []"
    by (simp add: rollback_supply_records.simps still_chain_def blank_supply_record_def)
  have "\<forall>k. length ([] :: supply_record list) < k \<and> k \<le> length ?rs \<longrightarrow>
      \<not> canonical_record 1 (\<lambda>h. ''b'') (?rs ! (k - 1))"
    using rollback_longest_canonical_prefix [OF wf, of 1 "\<lambda>_. ''b''" "\<lambda>h. ''b''" "[]" "()"] roll
    by (simp add: blank_supply_record_def)
  from this [THEN spec, of 1] roll show ?thesis by simp
qed

end
