(* ===== verification/Core_View.thy ===== *)
theory Core_View
  imports Prelude
begin

text \<open>
  The explorer's view of the Qwertycoin core, and \<open>src/MicroCore.cpp\<close>, the thin layer that
  reads it. The core itself is not part of the repository: its data are records with the members
  the explorer reads, its functions are the fields of \<open>core_lib\<close>, and what its database answers
  at one moment is a \<open>chain_view\<close>. A \<open>world\<close> assigns a view to every observation, in order:
  the daemon writes the database while the explorer reads it, so two consecutive calls may see
  different chains. Hashes, keys and key images are represented by their \<open>pod_to_hex\<close> text.
\<close>

section \<open>Data of the core\<close>

type_synonym hash = string
type_synonym blob = string

definition null_hash :: hash where
  "null_hash = replicate 64 CHR ''0''"

definition null_hash8 :: hash where
  "null_hash8 = replicate 16 CHR ''0''"

datatype network_type = MAINNET | TESTNET | STAGENET

record txin_to_key =
  in_amount :: u64
  key_offsets :: "u64 list"
  k_image :: hash

datatype txin_v = TxinGen | TxinToScript | TxinToScripthash | TxinToKey txin_to_key

datatype txout_target = TxoutToScript | TxoutToScripthash | TxoutToKey hash
  | TxoutToTaggedKey hash "8 word"

record tx_out =
  out_amount :: u64
  out_target :: txout_target

record transaction =
  tx_version :: u64
  unlock_time :: u64
  vin :: "txin_v list"
  vout :: "tx_out list"
  tx_extra :: blob
  rct_type :: "8 word"
  tx_pruned :: bool
  prunable_hash :: hash
  tx_signatures :: "string list list"

record block =
  major_version :: "8 word"
  minor_version :: "8 word"
  blk_timestamp :: u64
  prev_id :: hash
  blk_nonce :: "32 word"
  miner_tx :: transaction
  tx_hashes :: "hash list"

section \<open>Functions of the core\<close>

text \<open>
  Each field is one function of the core the explorer calls. An \<open>option\<close> result is the
  \<open>bool\<close> result with its output argument; \<open>uninit_key\<close> is the value of a key the code declares
  without an initialiser.
\<close>

record core_lib =
  get_block_hash :: "block \<Rightarrow> hash"
  get_outs_money_amount :: "transaction \<Rightarrow> u64"
  get_tx_fee :: "transaction \<Rightarrow> u64"
  is_coinbase :: "transaction \<Rightarrow> bool"
  get_output_public_key :: "tx_out \<Rightarrow> hash option"
  uninit_key :: hash
  parse_hash256 :: "string \<Rightarrow> hash option"
  block_to_blob :: "block \<Rightarrow> blob"
  tx_to_blob :: "transaction \<Rightarrow> blob"
  rct_type_null :: "8 word"

section \<open>The database at one moment\<close>

datatype db_exn = BLOCK_DNE | TX_DNE | DB_ERROR | OTHER_EXN

record chain_view =
  current_height :: u64
  block_id_by_height :: "u64 \<Rightarrow> hash"
  block_from_height :: "u64 \<Rightarrow> db_exn + block"
  have_tx :: "hash \<Rightarrow> bool"
  db_get_tx :: "hash \<Rightarrow> db_exn + transaction"
  db_get_pruned_tx :: "hash \<Rightarrow> db_exn + transaction"
  get_transactions :: "hash list \<Rightarrow> bool \<times> transaction list \<times> hash list"

type_synonym world = "nat \<Rightarrow> chain_view"

section \<open>MicroCore\<close>

record micro_core =
  blockchain_path :: string
  mc_nettype :: network_type

text \<open>
  \<open>MicroCore::init\<close>: \<open>opened\<close> is the outcome of \<open>BlockchainLMDB::open\<close> (\<open>None\<close> when it throws,
  else \<open>is_open()\<close>) and \<open>storage_init\<close> that of \<open>Blockchain::init\<close>.
\<close>

definition micro_core_init ::
    "bool option \<Rightarrow> bool \<Rightarrow> string \<Rightarrow> network_type \<Rightarrow> micro_core \<Rightarrow> bool \<times> micro_core" where
  "micro_core_init opened storage_init path nt mc =
     (let mc' = mc\<lparr>blockchain_path := path, mc_nettype := nt\<rparr> in
      case opened of
        None \<Rightarrow> (False, mc')
      | Some is_open \<Rightarrow> (if \<not> is_open then (False, mc') else (storage_init, mc')))"

text \<open>\<open>init_blockchain\<close>: the storage pointer is set (\<open>True\<close>) only after a successful init.\<close>

definition init_blockchain ::
    "bool option \<Rightarrow> bool \<Rightarrow> string \<Rightarrow> network_type \<Rightarrow> micro_core \<Rightarrow> bool \<Rightarrow> bool \<times> micro_core \<times> bool" where
  "init_blockchain opened storage_init path nt mc storage_set =
     (case micro_core_init opened storage_init path nt mc of
        (ok, mc') \<Rightarrow> if \<not> ok then (False, mc', storage_set) else (True, mc', True))"

text \<open>Every exception of the database is caught; the block argument is then left alone.\<close>

definition get_block_by_height :: "chain_view \<Rightarrow> u64 \<Rightarrow> block option" where
  "get_block_by_height cv h =
     (case block_from_height cv h of
        Inl BLOCK_DNE \<Rightarrow> None
      | Inl DB_ERROR \<Rightarrow> None
      | Inl _ \<Rightarrow> None
      | Inr blk \<Rightarrow> Some blk)"

text \<open>
  \<open>MicroCore::get_tx\<close> catches \<open>TX_DNE\<close> only: \<open>Inl e\<close> is an exception that leaves the function,
  \<open>Inr None\<close> is \<open>false\<close>.
\<close>

definition micro_get_tx :: "chain_view \<Rightarrow> hash \<Rightarrow> db_exn + transaction option" where
  "micro_get_tx cv txh =
     (if have_tx cv txh
      then case db_get_tx cv txh of
             Inr tx \<Rightarrow> Inr (Some tx)
           | Inl TX_DNE \<Rightarrow>
               (case db_get_pruned_tx cv txh of
                  Inr tx \<Rightarrow> Inr (Some tx)
                | Inl TX_DNE \<Rightarrow> Inr None
                | Inl e \<Rightarrow> Inl e)
           | Inl e \<Rightarrow> Inl e
      else Inr None)"

text \<open>\<open>parse_str_secret_key\<close> copies the parsed hash into a key of the same layout.\<close>

definition parse_str_secret_key :: "core_lib \<Rightarrow> string \<Rightarrow> hash option" where
  "parse_str_secret_key L key_str =
     (case parse_hash256 L key_str of None \<Rightarrow> None | Some h \<Rightarrow> Some h)"

text \<open>
  The vector overload of \<open>parse_str_secret_key\<close> (\<open>src/tools.h\<close>): the text is cut into pieces of
  64 characters, each parsed in turn.
\<close>

fun parse_key_pieces :: "core_lib \<Rightarrow> string \<Rightarrow> nat \<Rightarrow> hash list option" where
  "parse_key_pieces L s 0 = Some []"
| "parse_key_pieces L s (Suc n) =
     (case parse_str_secret_key L (take 64 s) of
        None \<Rightarrow> None
      | Some k \<Rightarrow> (case parse_key_pieces L (drop 64 s) n of
                    None \<Rightarrow> None | Some ks \<Rightarrow> Some (k # ks)))"

definition parse_str_secret_keys :: "core_lib \<Rightarrow> string \<Rightarrow> hash list option" where
  "parse_str_secret_keys L key_str =
     (let num_keys = length key_str div 64 in
      if num_keys * 64 \<noteq> length key_str then None
      else parse_key_pieces L key_str num_keys)"

definition micro_get_tx_str :: "core_lib \<Rightarrow> chain_view \<Rightarrow> string \<Rightarrow> db_exn + transaction option" where
  "micro_get_tx_str L cv tx_hash_str =
     (case parse_str_secret_key L tx_hash_str of
        None \<Rightarrow> Inr None
      | Some txh \<Rightarrow>
        (case micro_get_tx cv txh of
           Inl e \<Rightarrow> Inl e
         | Inr None \<Rightarrow> Inr None
         | Inr (Some tx) \<Rightarrow> Inr (Some tx)))"

text \<open>
  \<open>find_output_in_tx\<close>: \<open>std::find_if\<close> with a counter incremented by the predicate, so that the
  counter is one past the index of the output found.
\<close>

fun find_output_loop ::
    "core_lib \<Rightarrow> hash \<Rightarrow> tx_out list \<Rightarrow> nat \<Rightarrow> (tx_out \<times> nat) option" where
  "find_output_loop L output_pubkey [] idx = None"
| "find_output_loop L output_pubkey (x # os) idx =
     (let found_key = (case get_output_public_key L x of
                         None \<Rightarrow> uninit_key L | Some k \<Rightarrow> k)
      in if found_key = output_pubkey then Some (x, Suc idx)
         else find_output_loop L output_pubkey os (Suc idx))"

definition find_output_in_tx :: "core_lib \<Rightarrow> transaction \<Rightarrow> hash \<Rightarrow> (tx_out \<times> nat) option" where
  "find_output_in_tx L tx output_pubkey =
     (case find_output_loop L output_pubkey (vout tx) 0 of
        None \<Rightarrow> None
      | Some (out, idx) \<Rightarrow> Some (out, if 0 < idx then idx - 1 else idx))"

definition get_blk_timestamp :: "chain_view \<Rightarrow> u64 \<Rightarrow> u64" where
  "get_blk_timestamp cv h =
     (case get_block_by_height cv h of None \<Rightarrow> 0 | Some blk \<Rightarrow> blk_timestamp blk)"

record block_complete_entry =
  bce_block :: blob
  bce_txs :: "blob list"

fun complete_entry_txs ::
    "core_lib \<Rightarrow> chain_view \<Rightarrow> hash list \<Rightarrow> blob list \<Rightarrow> db_exn + (bool \<times> blob list)" where
  "complete_entry_txs L cv [] acc = Inr (True, acc)"
| "complete_entry_txs L cv (txh # txhs) acc =
     (case micro_get_tx cv txh of
        Inl e \<Rightarrow> Inl e
      | Inr None \<Rightarrow> Inr (False, acc)
      | Inr (Some tx) \<Rightarrow> complete_entry_txs L cv txhs (acc @ [tx_to_blob L tx]))"

definition get_block_complete_entry ::
    "core_lib \<Rightarrow> chain_view \<Rightarrow> block \<Rightarrow> block_complete_entry \<Rightarrow>
       db_exn + (bool \<times> block_complete_entry)" where
  "get_block_complete_entry L cv b bce =
     (let bce' = bce\<lparr>bce_block := block_to_blob L b\<rparr> in
      case complete_entry_txs L cv (tx_hashes b) (bce_txs bce') of
        Inl e \<Rightarrow> Inl e
      | Inr (ok, txs) \<Rightarrow> Inr (ok, bce'\<lparr>bce_txs := txs\<rparr>))"

section \<open>Facts on MicroCore\<close>

lemma get_block_by_height_Some_iff:
  "get_block_by_height cv h = Some blk \<longleftrightarrow> block_from_height cv h = Inr blk"
  by (auto simp: get_block_by_height_def split: sum.splits db_exn.splits)

definition output_key :: "core_lib \<Rightarrow> tx_out \<Rightarrow> hash" where
  "output_key L x = (case get_output_public_key L x of None \<Rightarrow> uninit_key L | Some k \<Rightarrow> k)"

lemma find_output_loop_spec:
  "find_output_loop L k os idx = Some (out, j) \<Longrightarrow>
     idx < j \<and> j - idx \<le> length os \<and> out = os ! (j - idx - 1) \<and> output_key L out = k
     \<and> (\<forall>i < j - idx - 1. output_key L (os ! i) \<noteq> k)"
proof (induction L k os idx rule: find_output_loop.induct)
  case (2 L k x os idx)
  show ?case
  proof (cases "output_key L x = k")
    case True
    with "2.prems" show ?thesis by (auto simp: output_key_def)
  next
    case False
    with "2.prems" have step: "find_output_loop L k os (Suc idx) = Some (out, j)"
      by (simp add: output_key_def Let_def)
    from False have g: "(case get_output_public_key L x of None \<Rightarrow> uninit_key L | Some k \<Rightarrow> k) \<noteq> k"
      by (simp add: output_key_def)
    from "2.IH" [OF refl g step] have ih: "Suc idx < j" "j - Suc idx \<le> length os"
      "out = os ! (j - Suc idx - 1)" "output_key L out = k"
      "\<forall>i < j - Suc idx - 1. output_key L (os ! i) \<noteq> k"
      by auto
    from ih(1) obtain m where m: "j = Suc (Suc (idx + m))"
      by (metis Suc_le_eq add_Suc le_Suc_ex)
    show ?thesis
      using ih False m by (auto simp: nth_Cons split: nat.splits)
  qed
qed simp

lemma find_output_loop_None:
  "find_output_loop L k os idx = None \<longleftrightarrow> (\<forall>x \<in> set os. output_key L x \<noteq> k)"
  by (induction L k os idx rule: find_output_loop.induct) (auto simp: output_key_def Let_def)

lemma complete_entry_txs_acc:
  "complete_entry_txs L cv hs acc = Inr (True, txs) \<longleftrightarrow>
     (\<exists>ts. list_all2 (\<lambda>h t. micro_get_tx cv h = Inr (Some t)) hs ts
           \<and> txs = acc @ map (tx_to_blob L) ts)"
proof (induction L cv hs acc rule: complete_entry_txs.induct)
  case (2 L cv h hs acc)
  show ?case
  proof (cases "\<exists>t. micro_get_tx cv h = Inr (Some t)")
    case True
    then obtain t where t: "micro_get_tx cv h = Inr (Some t)" by blast
    with 2 [OF t refl] show ?thesis
      by (auto simp: list_all2_Cons1)
  next
    case False
    then show ?thesis
      by (auto simp: list_all2_Cons1 split: sum.splits option.splits)
  qed
qed auto

text \<open>
  \<open>find_output_in_tx\<close> returns the first output with the key, and its index, when there is
  one; it fails exactly when no output has the key.
\<close>

theorem find_output_first:
  "find_output_in_tx L tx k = Some (out, i) \<longleftrightarrow>
     i < length (vout tx) \<and> out = vout tx ! i \<and> output_key L out = k
     \<and> (\<forall>j < i. output_key L (vout tx ! j) \<noteq> k)"
proof
  assume "find_output_in_tx L tx k = Some (out, i)"
  then obtain j where "find_output_loop L k (vout tx) 0 = Some (out, j)" "i = (if 0 < j then j - 1 else j)"
    by (auto simp: find_output_in_tx_def split: option.splits)
  with find_output_loop_spec [OF this(1)]
  show "i < length (vout tx) \<and> out = vout tx ! i \<and> output_key L out = k
     \<and> (\<forall>j < i. output_key L (vout tx ! j) \<noteq> k)" by auto
next
  assume r: "i < length (vout tx) \<and> out = vout tx ! i \<and> output_key L out = k
     \<and> (\<forall>j < i. output_key L (vout tx ! j) \<noteq> k)"
  then have "find_output_loop L k (vout tx) 0 \<noteq> None"
    by (auto simp: find_output_loop_None)
  then obtain o' j where f: "find_output_loop L k (vout tx) 0 = Some (o', j)" by auto
  have s: "0 < j" "j \<le> length (vout tx)" "o' = vout tx ! (j - 1)" "output_key L o' = k"
      "\<forall>i < j - 1. output_key L (vout tx ! i) \<noteq> k"
    using find_output_loop_spec [OF f] by auto
  have "j - 1 = i" using r s by (metis linorder_neqE_nat)
  with f s r show "find_output_in_tx L tx k = Some (out, i)"
    by (simp add: find_output_in_tx_def)
qed

theorem find_output_first_witness:
  "find_output_in_tx \<lparr>get_block_hash = (\<lambda>_. []), get_outs_money_amount = (\<lambda>_. 0), get_tx_fee = (\<lambda>_. 0),
      is_coinbase = (\<lambda>_. False), get_output_public_key = (\<lambda>o'. case out_target o' of TxoutToKey k \<Rightarrow> Some k | _ \<Rightarrow> None),
      uninit_key = [], parse_hash256 = Some, block_to_blob = (\<lambda>_. []), tx_to_blob = (\<lambda>_. []), rct_type_null = 0\<rparr>
     \<lparr>tx_version = 2, unlock_time = 0, vin = [], vout = [\<lparr>out_amount = 0, out_target = TxoutToKey ''aa''\<rparr>,
        \<lparr>out_amount = 0, out_target = TxoutToKey ''bb''\<rparr>], tx_extra = [], rct_type = 0, tx_pruned = False,
        prunable_hash = [], tx_signatures = []\<rparr> ''bb''
   = Some (\<lparr>out_amount = 0, out_target = TxoutToKey ''bb''\<rparr>, 1)"
  unfolding find_output_first by (simp add: output_key_def)

text \<open>
  A block entry is complete, and is reported so, exactly when every transaction of the
  block was found; it then holds the blobs in the order of the block's hashes.
\<close>

theorem block_entry_complete:
  "get_block_complete_entry L cv b e = Inr (True, e') \<longleftrightarrow>
     (\<exists>ts. list_all2 (\<lambda>h t. micro_get_tx cv h = Inr (Some t)) (tx_hashes b) ts
        \<and> e' = e\<lparr>bce_block := block_to_blob L b, bce_txs := bce_txs e @ map (tx_to_blob L) ts\<rparr>)"
proof -
  have "get_block_complete_entry L cv b e = Inr (True, e') \<longleftrightarrow>
      (\<exists>txs. complete_entry_txs L cv (tx_hashes b) (bce_txs e) = Inr (True, txs)
         \<and> e' = e\<lparr>bce_block := block_to_blob L b, bce_txs := txs\<rparr>)"
    by (auto simp: get_block_complete_entry_def Let_def split: sum.splits)
  then show ?thesis by (auto simp: complete_entry_txs_acc)
qed

end
