(* ===== verification/Supply_Index.thy ===== *)
theory Supply_Index
  imports Supply_Math Core_View
begin

text \<open>
  \<open>src/SupplyIndex.cpp\<close> and \<open>src/SupplyIndex.h\<close>: the explorer-owned index of issued supply. A
  background thread reads canonical blocks in batches, checks that the chain did not move under
  it, checkpoints the ledger to a file and publishes a snapshot for the request handlers.
  Observations of the chain are numbered: \<open>w t\<close> is what observation \<open>t\<close> sees. An operation that
  makes \<open>k\<close> observations returns \<open>t + k\<close>; the numbers of observations a branch does not make
  are skipped. The disk is a map from paths to contents.
\<close>

section \<open>State\<close>

record supply_snapshot =
  availability :: string
  ss_message :: string
  ss_genesis_hash :: string
  ss_chain_reset_id :: string
  calculation_version :: string
  ss_block_count :: u64
  tip_height :: u64
  tip_hash :: string
  indexed_block_count :: u64
  indexed_through_height :: u64
  indexed_through_hash :: string
  minted_supply_atomic :: string
  gross_coinbase_atomic :: string
  cumulative_fees_atomic :: string
  observed_at :: u64
  complete :: bool

definition calculation_name :: string where
  "calculation_name = ''actual-coinbase-minus-fees-v1''"

definition default_snapshot :: supply_snapshot where
  "default_snapshot =
     \<lparr>availability = ''indexing'', ss_message = [], ss_genesis_hash = [], ss_chain_reset_id = [],
      calculation_version = calculation_name, ss_block_count = 0, tip_height = 0, tip_hash = [],
      indexed_block_count = 0, indexed_through_height = 0, indexed_through_hash = [],
      minted_supply_atomic = ''0'', gross_coinbase_atomic = ''0'', cumulative_fees_atomic = ''0'',
      observed_at = 0, complete = False\<rparr>"

record supply_index =
  data_path :: string
  state_file :: string
  chain_reset_id :: string
  network_name_of :: string
  genesis_hash :: string
  batch_size :: u64
  records :: "supply_record list"
  snapshot :: supply_snapshot
  stop_requested :: bool
  running :: bool
  thread_joinable :: bool

type_synonym disk = "string \<rightharpoonup> string"

section \<open>Text of the checkpoint\<close>

definition state_magic :: string where
  "state_magic = ''QWC_SUPPLY_INDEX_V2''"

text \<open>\<open>split_tabs\<close>: \<open>find\<close>, \<open>substr\<close> and continue one past the tab.\<close>

definition split_tabs :: "string \<Rightarrow> string list" where
  "split_tabs line = split_at CHR 0x09 line"

definition parse_u64 :: "string \<Rightarrow> u64 option" where
  "parse_u64 text =
     (if text = [] then None
      else case stoull text of
             Parsed parsed candidate \<Rightarrow> (if parsed \<noteq> length text then None else Some candidate)
           | _ \<Rightarrow> None)"

definition network_name :: "network_type \<Rightarrow> string" where
  "network_name nt = (case nt of TESTNET \<Rightarrow> ''testnet'' | STAGENET \<Rightarrow> ''stagenet'' | _ \<Rightarrow> ''mainnet'')"

text \<open>The lines \<open>std::getline\<close> delivers: a final line feed does not open another line.\<close>

definition lines_of :: "string \<Rightarrow> string list" where
  "lines_of text =
     (let ps = split_at CHR 0x0A text in if last ps = [] then butlast ps else ps)"

definition header_fields :: "supply_index \<Rightarrow> string list" where
  "header_fields si =
     [state_magic, network_name_of si, genesis_hash si, chain_reset_id si, calculation_name]"

definition record_fields :: "supply_record \<Rightarrow> string list" where
  "record_fields r =
     [u64_to_string (sr_height r), sr_hash r, sr_parent_hash r, u64_to_string (coinbase_atomic r),
      u64_to_string (fees_atomic r), u64_to_string (minted_atomic r),
      supply_wide_to_string (cumulative_coinbase r), supply_wide_to_string (cumulative_fees r),
      supply_wide_to_string (cumulative_minted r)]"

definition checkpoint_text :: "supply_index \<Rightarrow> supply_record list \<Rightarrow> string" where
  "checkpoint_text si rs =
     join CHR 0x09 (header_fields si) @ [CHR 0x0A] @
     concat (map (\<lambda>r. join CHR 0x09 (record_fields r) @ [CHR 0x0A]) rs)"

section \<open>Construction, start and stop\<close>

text \<open>The constructor observes the height and, when there is a block, the genesis hash.\<close>

definition new_supply_index ::
    "world \<Rightarrow> nat \<Rightarrow> string \<Rightarrow> string \<Rightarrow> network_type \<Rightarrow> u64 \<Rightarrow> supply_index" where
  "new_supply_index w t path reset_id nt batch =
     (let genesis = (if 0 < current_height (w t) then block_id_by_height (w (t + 1)) 0 else [])
      in \<lparr>data_path = path, state_file = path @ ''/supply-index-v2.tsv'',
          chain_reset_id = reset_id, network_name_of = network_name nt, genesis_hash = genesis,
          batch_size = max 1 (min batch 4096), records = [],
          snapshot = default_snapshot\<lparr>ss_genesis_hash := genesis, ss_chain_reset_id := reset_id\<rparr>,
          stop_requested = False, running = False, thread_joinable = False\<rparr>)"

definition publish ::
    "supply_index \<Rightarrow> u64 \<Rightarrow> string \<Rightarrow> string \<Rightarrow> u64 \<Rightarrow> string \<Rightarrow> supply_record list \<Rightarrow> bool \<Rightarrow>
       supply_index" where
  "publish si now avail msg count tip rs is_complete =
     (let base = default_snapshot\<lparr>availability := avail, ss_message := msg,
            ss_genesis_hash := genesis_hash si, ss_chain_reset_id := chain_reset_id si,
            calculation_version := calculation_name, ss_block_count := count,
            tip_height := (if 0 < count then count - 1 else 0), tip_hash := tip,
            indexed_block_count := size_u64 rs, observed_at := now, complete := is_complete\<rparr>;
          full = (if rs = [] then base
                  else let r = last rs in
                    base\<lparr>indexed_through_height := sr_height r, indexed_through_hash := sr_hash r,
                         minted_supply_atomic := supply_wide_to_string (cumulative_minted r),
                         gross_coinbase_atomic := supply_wide_to_string (cumulative_coinbase r),
                         cumulative_fees_atomic := supply_wide_to_string (cumulative_fees r)\<rparr>)
      in si\<lparr>snapshot := full\<rparr>)"

text \<open>One stored line, checked against the records loaded so far.\<close>

definition load_record ::
    "(string \<Rightarrow> nat option) \<Rightarrow> supply_record list \<Rightarrow> string \<Rightarrow> supply_record option" where
  "load_record read_cpp_int loaded line =
     (case split_tabs line of
        [f0, f1, f2, f3, f4, f5, f6, f7, f8] \<Rightarrow>
          (case (parse_u64 f0, parse_u64 f3, parse_u64 f4, parse_u64 f5,
                 parse_supply_wide read_cpp_int f6, parse_supply_wide read_cpp_int f7,
                 parse_supply_wide read_cpp_int f8) of
             (Some h, Some cb, Some fee, Some minted, Some cc, Some cf, Some cm) \<Rightarrow>
               let r = \<lparr>sr_height = h, sr_hash = f1, sr_parent_hash = f2, coinbase_atomic = cb,
                        fees_atomic = fee, minted_atomic = minted, cumulative_coinbase = cc,
                        cumulative_fees = cf, cumulative_minted = cm\<rparr>
               in if h \<noteq> size_u64 loaded \<or> cb < fee \<or> minted \<noteq> cb - fee
                     \<or> h = 0 \<and> f2 \<noteq> [] \<or> 0 < h \<and> f2 \<noteq> sr_hash (last loaded)
                  then None
                  else if checked_supply_add (prior cumulative_coinbase loaded) (ucast cb) = Some cc
                          \<and> checked_supply_add (prior cumulative_fees loaded) (ucast fee) = Some cf
                          \<and> checked_supply_add (prior cumulative_minted loaded) (ucast minted) = Some cm
                  then Some r else None
           | _ \<Rightarrow> None)
      | _ \<Rightarrow> None)"

fun load_lines ::
    "(string \<Rightarrow> nat option) \<Rightarrow> supply_record list \<Rightarrow> string list \<Rightarrow> supply_record list option" where
  "load_lines read_cpp_int loaded [] = Some loaded"
| "load_lines read_cpp_int loaded (line # rest) =
     (case load_record read_cpp_int loaded line of
        None \<Rightarrow> None
      | Some r \<Rightarrow> load_lines read_cpp_int (loaded @ [r]) rest)"

text \<open>\<open>SupplyIndex::load\<close>: a missing file is success, a rejected file leaves the records alone.\<close>

definition load :: "(string \<Rightarrow> nat option) \<Rightarrow> disk \<Rightarrow> supply_index \<Rightarrow> bool \<times> supply_index" where
  "load read_cpp_int dsk si =
     (case dsk (state_file si) of
        None \<Rightarrow> (True, si)
      | Some text \<Rightarrow>
        (case lines_of text of
           [] \<Rightarrow> (False, si)
         | header # body \<Rightarrow>
           if split_tabs header \<noteq> [state_magic, network_name_of si, genesis_hash si,
                                 chain_reset_id si, calculation_version (snapshot si)]
           then (False, si)
           else case load_lines read_cpp_int [] body of
                  None \<Rightarrow> (False, si)
                | Some loaded \<Rightarrow> (True, si\<lparr>records := loaded\<rparr>)))"

text \<open>
  \<open>SupplyIndex::start\<close>: \<open>dir_ok\<close> is the outcome of \<open>create_directories\<close>. The result of \<open>load\<close>
  is ignored by the code.
\<close>

definition start ::
    "(string \<Rightarrow> nat option) \<Rightarrow> bool \<Rightarrow> u64 \<Rightarrow> disk \<Rightarrow> supply_index \<Rightarrow> bool \<times> supply_index" where
  "start read_cpp_int dir_ok now dsk si =
     (if running si then (True, si)
      else
        let si1 = si\<lparr>running := True\<rparr> in
        if data_path si1 = [] \<or> chain_reset_id si1 = [] \<or> genesis_hash si1 = []
        then (False, publish (si1\<lparr>running := False\<rparr>) now ''error''
                ''Supply index configuration or genesis is unavailable'' 0 [] [] False)
        else if \<not> dir_ok
        then (False, publish (si1\<lparr>running := False\<rparr>) now ''error''
                ''Cannot create explorer-derived data directory'' 0 [] [] False)
        else (True, (snd (load read_cpp_int dsk si1))\<lparr>stop_requested := False,
                                                      thread_joinable := True\<rparr>))"

definition stop :: "supply_index \<Rightarrow> supply_index" where
  "stop si =
     (if \<not> running si then si
      else si\<lparr>running := False, stop_requested := True, thread_joinable := False\<rparr>)"

section \<open>Checkpointing\<close>

text \<open>
  The outcomes of the file operations of \<open>persist\<close>: opening the temporary file, flushing it
  (\<open>io_partial\<close> is what a failed flush left in it), opening and syncing it again, renaming it.
\<close>

record io_outcome =
  io_open :: bool
  io_flush :: bool
  io_partial :: string
  io_sync :: bool
  io_rename :: bool

definition persist ::
    "supply_index \<Rightarrow> supply_record list \<Rightarrow> io_outcome \<Rightarrow> disk \<Rightarrow> (string + unit) \<times> disk" where
  "persist si rs io dsk =
     (let temporary = state_file si @ ''.tmp'' in
      if \<not> io_open io then (Inl ''Cannot open temporary supply checkpoint'', dsk)
      else if \<not> io_flush io
      then (Inl ''Cannot flush supply checkpoint'', dsk(temporary \<mapsto> io_partial io))
      else
        let written = dsk(temporary \<mapsto> checkpoint_text si rs) in
        if \<not> io_sync io then (Inl ''Cannot sync supply checkpoint'', written)
        else if \<not> io_rename io
        then (Inl ''Cannot atomically publish supply checkpoint'', written)
        else (Inr (), (written(state_file si := written temporary))(temporary := None)))"

section \<open>Reading blocks\<close>

fun sum_fees :: "core_lib \<Rightarrow> transaction list \<Rightarrow> u64 \<Rightarrow> u64 option" where
  "sum_fees L [] fees = Some fees"
| "sum_fees L (tx # txs) fees =
     (let fee = get_tx_fee L tx in
      if u64_max - fees < fee then None else sum_fees L txs (fees + fee))"

definition read_record ::
    "core_lib \<Rightarrow> world \<Rightarrow> nat \<Rightarrow> u64 \<Rightarrow> string \<Rightarrow> string + supply_record" where
  "read_record L w t h expected_parent =
     (case get_block_by_height (w t) h of
        None \<Rightarrow> Inl (''Cannot read canonical block '' @ u64_to_string h)
      | Some blk \<Rightarrow>
        let bid = block_id_by_height (w (t + 1)) h; block_hash = get_block_hash L blk in
        if bid = [] \<or> block_hash \<noteq> bid \<or> 0 < h \<and> expected_parent = []
        then Inl (''Cannot anchor canonical block '' @ u64_to_string h)
        else if 0 < h \<and> (block_id_by_height (w (t + 2)) (h - 1) \<noteq> expected_parent
                         \<or> prev_id blk \<noteq> expected_parent)
        then Inl ''Canonical parent changed while indexing''
        else
          let coinbase = get_outs_money_amount L (miner_tx blk) in
          case get_transactions (w (t + 3)) (tx_hashes blk) of
            (ok, txs, missed) \<Rightarrow>
              if \<not> ok \<or> missed \<noteq> [] \<or> length txs \<noteq> length (tx_hashes blk)
              then Inl (''Cannot read every transaction for block '' @ u64_to_string h)
              else case sum_fees L txs 0 of
                     None \<Rightarrow> Inl (''Fee total overflow at block '' @ u64_to_string h)
                   | Some fees \<Rightarrow>
                     if coinbase < fees
                     then Inl (''Coinbase is smaller than fees at block '' @ u64_to_string h)
                     else case minted_delta coinbase fees of
                            None \<Rightarrow> Inl (''Invalid issuance delta at block '' @ u64_to_string h)
                          | Some minted \<Rightarrow>
                            Inr (blank_supply_record\<lparr>sr_height := h, sr_hash := bid,
                                   sr_parent_hash := (if h = 0 then [] else expected_parent),
                                   coinbase_atomic := coinbase, fees_atomic := fees,
                                   minted_atomic := minted\<rparr>))"

function index_batch ::
    "core_lib \<Rightarrow> world \<Rightarrow> u64 \<Rightarrow> supply_record list \<Rightarrow> nat \<Rightarrow> string + (supply_record list \<times> nat)" where
  "index_batch L w target candidate t =
     (if length candidate < unat target
      then let parent = (if candidate = [] then [] else sr_hash (last candidate)) in
        case read_record L w t (size_u64 candidate) parent of
          Inl e \<Rightarrow> Inl e
        | Inr r \<Rightarrow>
          (case append_supply_record candidate r of
             None \<Rightarrow> Inl ''Invalid or overflowing cumulative supply record''
           | Some candidate' \<Rightarrow> index_batch L w target candidate' (t + 4))
      else Inr (candidate, t))"
  by pat_completeness auto
termination
  by (relation "measure (\<lambda>(L, w, target, candidate, t). unat target - length candidate)")
     (auto dest!: ledger.app_length)

declare index_batch.simps [simp del]

definition chain_at :: "world \<Rightarrow> nat \<Rightarrow> u64 \<Rightarrow> string \<times> nat" where
  "chain_at w t h = (block_id_by_height (w t) h, t + 1)"

text \<open>The end of a successful update: the chain is observed again and the snapshot published.\<close>

definition finish_update ::
    "world \<Rightarrow> nat \<Rightarrow> u64 \<Rightarrow> u64 \<Rightarrow> string \<Rightarrow> supply_index \<Rightarrow> supply_record list \<Rightarrow> supply_index" where
  "finish_update w t now block_count observed_tip si candidate =
     (let final_count = current_height (w t);
          final_tip = (if 0 < final_count
                       then block_id_by_height (w (t + 1)) (final_count - 1) else []);
          is_complete = (final_count = size_u64 candidate
                         \<and> final_count = block_count \<and> final_tip = observed_tip)
      in publish (si\<lparr>records := candidate\<rparr>) now
           (if is_complete then ''current'' else ''indexing'') []
           final_count final_tip candidate is_complete)"

text \<open>
  \<open>SupplyIndex::update_once\<close>. An error leaves the records and the snapshot as they were.
\<close>

definition update_once ::
    "core_lib \<Rightarrow> world \<Rightarrow> nat \<Rightarrow> u64 \<Rightarrow> io_outcome \<Rightarrow> supply_index \<times> disk \<Rightarrow>
       (string + unit) \<times> supply_index \<times> disk" where
  "update_once L w t now io st =
     (case st of (si, dsk) \<Rightarrow>
      let block_count = current_height (w t) in
      if block_count = 0 then (Inl ''Canonical chain is empty'', si, dsk)
      else if block_id_by_height (w (t + 1)) 0 \<noteq> genesis_hash si
      then (Inl ''Genesis changed; supply index reset context is invalid'', si, dsk)
      else
        let observed_tip = block_id_by_height (w (t + 2)) (block_count - 1) in
        case rollback_supply_records (records si) block_count (chain_at w) (t + 3) of
          (candidate, t1) \<Rightarrow>
            let target = min block_count (size_u64 candidate + batch_size si) in
            case index_batch L w target candidate t1 of
              Inl e \<Rightarrow> (Inl e, si, dsk)
            | Inr (candidate', t2) \<Rightarrow>
              if candidate' \<noteq> [] \<and> block_id_by_height (w t2) (sr_height (last candidate'))
                                    \<noteq> sr_hash (last candidate')
              then (Inl ''Canonical chain changed during supply batch'', si, dsk)
              else case persist si candidate' io dsk of
                     (Inl e, dsk') \<Rightarrow> (Inl e, si, dsk')
                   | (Inr _, dsk') \<Rightarrow>
                     (Inr (), finish_update w (t2 + 1) now block_count observed_tip si candidate', dsk'))"

text \<open>
  One round of \<open>SupplyIndex::run\<close>: a failed update publishes the error over the old records.
  \<open>t'\<close> numbers the two observations made after a failed update.
\<close>

definition run_round ::
    "core_lib \<Rightarrow> world \<Rightarrow> nat \<Rightarrow> nat \<Rightarrow> u64 \<Rightarrow> io_outcome \<Rightarrow> supply_index \<times> disk \<Rightarrow> supply_index \<times> disk" where
  "run_round L w t t' now io st =
     (case update_once L w t now io st of
        (Inr _, st') \<Rightarrow> st'
      | (Inl e, si', dsk') \<Rightarrow>
        let count = current_height (w t');
            tip = (if 0 < count then block_id_by_height (w (t' + 1)) (count - 1) else [])
        in (publish si' now ''error'' e count tip (records si') False, dsk'))"

definition run_delay_ms :: "supply_index \<Rightarrow> nat" where
  "run_delay_ms si = (if complete (snapshot si) then 15000 else 100)"

text \<open>
  The loop of \<open>SupplyIndex::run\<close>, each round with its own observation times, clock and outcome of
  the file operations; the flag is tested before every round.
\<close>

type_synonym round = "nat \<times> nat \<times> u64 \<times> io_outcome"

fun run_rounds ::
    "core_lib \<Rightarrow> world \<Rightarrow> round list \<Rightarrow> supply_index \<times> disk \<Rightarrow> supply_index \<times> disk" where
  "run_rounds L w [] st = st"
| "run_rounds L w ((t, t', now, io) # rest) st =
     (if stop_requested (fst st) then st
      else run_rounds L w rest (run_round L w t t' now io st))"

section \<open>The checkpoint\<close>

interpretation index_u64: text_codec u64_to_string parse_u64 "{c. \<not> is_digit c}"
proof
  have ne: "u64_to_string x \<noteq> []" for x by (simp add: u64_to_string_def)
  show "parse_u64 (u64_to_string x) = Some x" for x
    using ne by (simp add: parse_u64_def text_simps)
  show "c \<in> {c. \<not> is_digit c} \<Longrightarrow> c \<notin> set (u64_to_string x)" for c x
    by (simp add: u64_to_string_def nat_to_dec_no_char)
qed

text \<open>Text that can be a field of a line: no tab and no line feed.\<close>

definition clean_text :: "string \<Rightarrow> bool" where
  "clean_text s \<longleftrightarrow> CHR 0x09 \<notin> set s \<and> CHR 0x0A \<notin> set s"

lemma clean_u64 [simp]: "clean_text (u64_to_string x)"
  using is_digit_not_separator
  by (auto simp: clean_text_def u64_to_string_def dest: nat_to_dec_set)

lemma clean_wide [simp]: "clean_text (supply_wide_to_string v)"
  using is_digit_not_separator
  by (auto simp: clean_text_def supply_wide_to_string_def dest: nat_to_dec_set)

lemma clean_constants [simp]: "clean_text []" "clean_text state_magic" "clean_text calculation_name"
  by (simp_all add: clean_text_def state_magic_def calculation_name_def)

lemma clean_network_name [simp]: "clean_text (network_name nt)"
  by (cases nt) (simp_all add: clean_text_def network_name_def)

lemma split_tabs_join:
  "ps \<noteq> [] \<Longrightarrow> list_all clean_text ps \<Longrightarrow> split_tabs (join CHR 0x09 ps) = ps"
  unfolding split_tabs_def by (rule split_at_join) (auto simp: list_all_iff clean_text_def)

lemma join_no_newline:
  "list_all clean_text ps \<Longrightarrow> CHR 0x0A \<notin> set (join CHR 0x09 ps)"
  by (rule join_no_char) (auto simp: list_all_iff clean_text_def)

lemma split_lines:
  "list_all (\<lambda>l. CHR 0x0A \<notin> set l) ls \<Longrightarrow>
     split_at CHR 0x0A (concat (map (\<lambda>l. l @ [CHR 0x0A]) ls)) = ls @ [[]]"
  by (induction ls) (simp_all add: split_at_append)

lemma lines_of_concat:
  "list_all (\<lambda>l. CHR 0x0A \<notin> set l) ls \<Longrightarrow>
     lines_of (concat (map (\<lambda>l. l @ [CHR 0x0A]) ls)) = ls"
  by (simp add: lines_of_def split_lines)

lemma checkpoint_lines:
  assumes "list_all clean_text (header_fields si)"
    and "\<forall>r \<in> set rs. list_all clean_text (record_fields r)"
  shows "lines_of (checkpoint_text si rs) =
    join CHR 0x09 (header_fields si) # map (\<lambda>r. join CHR 0x09 (record_fields r)) rs"
proof -
  let ?ls = "join CHR 0x09 (header_fields si) # map (\<lambda>r. join CHR 0x09 (record_fields r)) rs"
  have "checkpoint_text si rs = concat (map (\<lambda>l. l @ [CHR 0x0A]) ?ls)"
    by (simp add: checkpoint_text_def comp_def)
  moreover have "list_all (\<lambda>l. CHR 0x0A \<notin> set l) ?ls"
    using assms by (auto simp: list_all_iff [of _ "map _ _"] join_no_newline simp del: join.simps)
  ultimately show ?thesis by (simp only: lines_of_concat)
qed

text \<open>What \<open>load\<close> accepts is a ledger, whatever the file holds.\<close>

lemma load_record_keeps_ledger:
  assumes "ledger_wf loaded" "load_record rd loaded line = Some r"
  shows "ledger_wf (loaded @ [r])"
proof -
  from assms(2) have r: "sr_height r = size_u64 loaded"
      "fees_atomic r \<le> coinbase_atomic r" "minted_atomic r = coinbase_atomic r - fees_atomic r"
      "sr_height r = 0 \<longrightarrow> sr_parent_hash r = []"
      "0 < sr_height r \<longrightarrow> sr_parent_hash r = sr_hash (last loaded)"
      "checked_supply_add (prior cumulative_coinbase loaded) (ucast (coinbase_atomic r))
         = Some (cumulative_coinbase r)"
      "checked_supply_add (prior cumulative_fees loaded) (ucast (fees_atomic r))
         = Some (cumulative_fees r)"
      "checked_supply_add (prior cumulative_minted loaded) (ucast (minted_atomic r))
         = Some (cumulative_minted r)"
    by (auto simp: load_record_def Let_def split: list.splits option.splits if_splits)
  have link: "loaded \<noteq> [] \<Longrightarrow> last loaded = (loaded @ [r]) ! (length loaded - 1)"
    by (simp add: last_conv_nth nth_append)
  have nz: "size_u64 loaded \<noteq> 0 \<Longrightarrow> loaded \<noteq> []"
    by (auto simp: size_u64_def)
  have "record_wf (loaded @ [r]) (length loaded)"
    using r link nz
    by (auto simp: record_wf_def Let_def checked_supply_add_exact
        ledger_wf_totals [OF assms(1)] word_gt_0) (auto simp: size_u64_def)
  with assms(1) show ?thesis by (simp add: ledger_wf_snoc)
qed

lemma load_lines_keeps_ledger:
  "ledger_wf loaded \<Longrightarrow> load_lines rd loaded ls = Some rs \<Longrightarrow> ledger_wf rs"
  by (induction rd loaded ls rule: load_lines.induct)
     (auto split: option.splits dest: load_record_keeps_ledger)

lemma load_keeps_ledger:
  "ledger_wf (records si) \<Longrightarrow> ledger_wf (records (snd (load rd dsk si)))"
  by (auto simp: load_def split: option.splits list.splits dest: load_lines_keeps_ledger [rotated])

text \<open>A stored record is read back.\<close>

lemma load_record_of_fields:
  assumes rd: "\<forall>n. rd (nat_to_dec n) = Some n"
    and wf: "ledger_wf (loaded @ [r])"
    and clean: "clean_text (sr_hash r)" "clean_text (sr_parent_hash r)"
  shows "load_record rd loaded (join CHR 0x09 (record_fields r)) = Some r"
proof -
  have fields: "split_tabs (join CHR 0x09 (record_fields r)) = record_fields r"
    using clean by (intro split_tabs_join) (simp_all add: record_fields_def)
  have wfl: "ledger_wf loaded" and rwf: "record_wf (loaded @ [r]) (length loaded)"
    using wf by (simp_all add: ledger_wf_snoc)
  have h: "sr_height r = size_u64 loaded"
    using rwf by (simp add: record_wf_def Let_def size_u64_def)
  have prev: "0 < sr_height r \<Longrightarrow> (loaded @ [r]) ! (length loaded - 1) = last loaded"
    using h by (cases loaded rule: rev_cases) (auto simp: size_u64_def nth_append)
  have sums: "checked_supply_add (prior cumulative_coinbase loaded) (ucast (coinbase_atomic r))
         = Some (cumulative_coinbase r)"
      "checked_supply_add (prior cumulative_fees loaded) (ucast (fees_atomic r))
         = Some (cumulative_fees r)"
      "checked_supply_add (prior cumulative_minted loaded) (ucast (minted_atomic r))
         = Some (cumulative_minted r)"
    using rwf
    by (simp_all add: record_wf_def Let_def checked_supply_add_exact ledger_wf_totals [OF wfl])
  show ?thesis
    unfolding load_record_def fields
    using rwf h prev sums
    by (simp add: record_fields_def index_u64.decode_encode parse_supply_wide_to_string [OF rd] Let_def)
       (auto simp: record_wf_def Let_def not_less)
qed

lemma load_lines_of_records:
  assumes rd: "\<forall>n. rd (nat_to_dec n) = Some n"
  shows "ledger_wf (loaded @ rs) \<Longrightarrow>
    \<forall>r \<in> set rs. clean_text (sr_hash r) \<and> clean_text (sr_parent_hash r) \<Longrightarrow>
    load_lines rd loaded (map (\<lambda>r. join CHR 0x09 (record_fields r)) rs) = Some (loaded @ rs)"
proof (induction rs arbitrary: loaded)
  case (Cons r rs)
  have "ledger_wf (loaded @ [r])"
    using ledger_wf_take [OF Cons.prems(1), of "Suc (length loaded)"] by simp
  then have "load_record rd loaded (join CHR 0x09 (record_fields r)) = Some r"
    using Cons.prems(2) by (intro load_record_of_fields [OF rd]) simp_all
  then show ?case using Cons.IH [of "loaded @ [r]"] Cons.prems by simp
qed simp

section \<open>Rounds of the indexing thread\<close>

lemma temporary_differs [simp]: "state_file si @ ''.tmp'' \<noteq> state_file si"
  by simp

lemma persist_file:
  assumes "persist si rs io dsk = (res, dsk')"
  shows "dsk' (state_file si) = (case res of Inl _ \<Rightarrow> dsk (state_file si)
                                            | Inr _ \<Rightarrow> Some (checkpoint_text si rs))"
  using assms by (auto simp: persist_def Let_def split: if_splits)

text \<open>A batch keeps the invariant and only adds records.\<close>

lemma index_batch_keeps:
  "index_batch L w target c t = Inr (c', t') \<Longrightarrow> ledger_wf c \<Longrightarrow>
     ledger_wf c' \<and> take (length c) c' = c \<and> length c' = max (length c) (unat target)"
proof (induction L w target c t rule: index_batch.induct)
  case (1 L w target c t)
  show ?case
  proof (cases "length c < unat target")
    case False
    with "1.prems" show ?thesis by (auto simp: index_batch.simps [of L w target c t])
  next
    case True
    let ?parent = "if c = [] then [] else sr_hash (last c)"
    from True "1.prems"(1) obtain r c1 where
      r: "read_record L w t (size_u64 c) ?parent = Inr r"
      and c1: "append_supply_record c r = Some c1"
      and go: "index_batch L w target c1 (t + 4) = Inr (c', t')"
      by (auto simp: index_batch.simps [of L w target c t] Let_def split: sum.splits option.splits)
    have "ledger_wf c1" using "1.prems"(2) c1 by (rule ledger.app_wf)
    from "1.IH" [OF True refl r c1 go this]
    have ih: "ledger_wf c'" "take (length c1) c' = c1" "length c' = max (length c1) (unat target)"
      by auto
    have "take (length c) c' = take (length c) (take (length c1) c')"
      using ledger.app_length [OF c1] by simp
    also have "\<dots> = c" using ih(2) ledger.app_prefix [OF c1] by simp
    finally show ?thesis using ih True ledger.app_length [OF c1] by simp
  qed
qed

text \<open>The shape of every update: an error changes nothing but the disk, success publishes.\<close>

lemma publish_frame [simp]:
  "records (publish si now a m n tip rs b) = records si"
  "state_file (publish si now a m n tip rs b) = state_file si"
  "genesis_hash (publish si now a m n tip rs b) = genesis_hash si"
  "batch_size (publish si now a m n tip rs b) = batch_size si"
  "network_name_of (publish si now a m n tip rs b) = network_name_of si"
  "chain_reset_id (publish si now a m n tip rs b) = chain_reset_id si"
  by (simp_all add: publish_def Let_def)

lemma update_once_cases:
  assumes "update_once L w t now io (si, dsk) = (res, si', dsk')"
  obtains (failed) e where "res = Inl e" "si' = si"
      "dsk' (state_file si) = dsk (state_file si)"
    | (published) c t1 c' t2 where "res = Inr ()" "0 < current_height (w t)"
      "rollback_supply_records (records si) (current_height (w t)) (chain_at w) (t + 3) = (c, t1)"
      "index_batch L w (min (current_height (w t)) (size_u64 c + batch_size si)) c t1 = Inr (c', t2)"
      "c' \<noteq> [] \<Longrightarrow> block_id_by_height (w t2) (sr_height (last c')) = sr_hash (last c')"
      "si' = finish_update w (t2 + 1) now (current_height (w t))
               (block_id_by_height (w (t + 2)) (current_height (w t) - 1)) si c'"
      "dsk' (state_file si) = Some (checkpoint_text si c')"
proof -
  let ?n0 = "current_height (w t)"
  obtain c t1 where rb: "rollback_supply_records (records si) ?n0 (chain_at w) (t + 3) = (c, t1)"
    by fastforce
  let ?batch = "index_batch L w (min ?n0 (size_u64 c + batch_size si)) c t1"
  show ?thesis
  proof (cases res)
    case (Inl e)
    have "si' = si \<and> dsk' (state_file si) = dsk (state_file si)"
      using assms Inl
      by (auto simp: update_once_def Let_def rb split: if_splits sum.splits prod.splits
          dest: persist_file)
    then show ?thesis using failed [OF Inl] by blast
  next
    case (Inr u)
    from assms Inr obtain c' t2 where ib: "?batch = Inr (c', t2)"
      by (auto simp: update_once_def Let_def rb split: if_splits sum.splits)
    from assms Inr obtain dsk1 where pe: "persist si c' io dsk = (Inr (), dsk1)" and dsk': "dsk' = dsk1"
      by (auto simp: update_once_def Let_def rb ib split: if_splits sum.splits prod.splits)
    show ?thesis
    proof (rule published [OF _ _ rb ib])
      show "res = Inr ()" using Inr by simp
      show "0 < ?n0"
        using assms Inr by (auto simp: update_once_def Let_def word_gt_0 split: if_splits)
      show "block_id_by_height (w t2) (sr_height (last c')) = sr_hash (last c')" if "c' \<noteq> []"
        using assms Inr that
        by (auto simp: update_once_def Let_def rb ib split: if_splits)
      show "dsk' (state_file si) = Some (checkpoint_text si c')"
        using persist_file [OF pe] dsk' by simp
      show "si' = finish_update w (t2 + 1) now ?n0 (block_id_by_height (w (t + 2)) (?n0 - 1)) si c'"
        using assms Inr pe by (auto simp: update_once_def Let_def rb ib split: if_splits)
    qed
  qed
qed

lemma records_finish_update [simp]: "records (finish_update w t now n tip si c) = c"
  by (simp add: finish_update_def Let_def)

text \<open>The snapshot always describes the records it was published with.\<close>

definition snapshot_describes :: "supply_snapshot \<Rightarrow> supply_record list \<Rightarrow> bool" where
  "snapshot_describes s rs \<longleftrightarrow>
     indexed_block_count s = size_u64 rs
     \<and> minted_supply_atomic s = nat_to_dec (total_upto minted_atomic rs)
     \<and> gross_coinbase_atomic s = nat_to_dec (total_upto coinbase_atomic rs)
     \<and> cumulative_fees_atomic s = nat_to_dec (total_upto fees_atomic rs)
     \<and> indexed_through_hash s = (if rs = [] then [] else sr_hash (last rs))
     \<and> (complete s \<longrightarrow> ss_block_count s = size_u64 rs)"

lemma zero_text: "''0'' = nat_to_dec 0"
  by code_simp

lemma publish_describes:
  assumes "ledger_wf rs" "is_complete \<longrightarrow> n = size_u64 rs"
  shows "snapshot_describes (snapshot (publish si now a m n tip rs is_complete)) rs"
  using assms ledger_wf_totals [OF assms(1)]
  by (cases "rs = []")
     (simp_all add: snapshot_describes_def publish_def Let_def default_snapshot_def
        supply_wide_to_string_def prior_def zero_text)

definition index_inv :: "supply_index \<Rightarrow> bool" where
  "index_inv si \<longleftrightarrow> ledger_wf (records si) \<and> snapshot_describes (snapshot si) (records si)"

lemma update_once_keeps:
  assumes "ledger_wf (records si)" "update_once L w t now io (si, dsk) = (Inr u, si', dsk')"
  shows "index_inv si'"
  using assms(2)
proof (cases rule: update_once_cases)
  case (published c t1 c' t2)
  have "ledger_wf c"
    using ledger.roll_wf [OF assms(1), of "current_height (w t)" "chain_at w" "t + 3"] published(3)
    by simp
  then have wf: "ledger_wf c'"
    using index_batch_keeps [OF published(4)] by simp
  show ?thesis
    using publish_describes [OF wf] wf published(6)
    by (simp add: index_inv_def finish_update_def Let_def)
qed simp

lemma run_round_keeps:
  assumes "ledger_wf (records (fst st))"
  shows "index_inv (fst (run_round L w t t' now io st))"
proof -
  obtain si dsk where st: "st = (si, dsk)" by fastforce
  obtain res si' dsk' where up: "update_once L w t now io (si, dsk) = (res, si', dsk')"
    by (metis prod_cases3)
  show ?thesis
  proof (cases res)
    case (Inr u)
    with up update_once_keeps assms st show ?thesis
      by (auto simp: run_round_def)
  next
    case (Inl e)
    with up have si': "si' = si" by (cases rule: update_once_cases) auto
    have "snapshot_describes (snapshot (publish si now ''error'' e n tip (records si) False)) (records si)"
      for n tip using assms st by (intro publish_describes) simp_all
    with up Inl assms si' st show ?thesis
      by (simp add: run_round_def index_inv_def Let_def)
  qed
qed

text \<open>
  C8. The checkpoint is replaced atomically: whatever the outcome of each file operation, the
  state file holds afterwards either what it held before, when an error is reported, or the
  complete new checkpoint, when success is reported; no other file but the temporary changes.
\<close>

theorem persist_atomic:
  assumes "persist si rs io dsk = (res, dsk')"
  shows "dsk' (state_file si) = (case res of Inl _ \<Rightarrow> dsk (state_file si)
                                            | Inr _ \<Rightarrow> Some (checkpoint_text si rs))
    \<and> (\<forall>p. p \<noteq> state_file si \<and> p \<noteq> state_file si @ ''.tmp'' \<longrightarrow> dsk' p = dsk p)"
  using assms by (auto simp: persist_def Let_def split: if_splits)

definition sample_index :: supply_index where
  "sample_index = \<lparr>data_path = ''d'', state_file = ''f'', chain_reset_id = ''r1'',
     network_name_of = ''mainnet'', genesis_hash = ''g0'', batch_size = 1, records = [],
     snapshot = default_snapshot, stop_requested = False, running = True, thread_joinable = True\<rparr>"

definition sample_core :: core_lib where
  "sample_core = \<lparr>get_block_hash = (\<lambda>b. if prev_id b = [] then ''g0'' else ''b1''),
     get_outs_money_amount = (\<lambda>tx. unlock_time tx), get_tx_fee = (\<lambda>tx. 3),
     is_coinbase = (\<lambda>tx. True), get_output_public_key = (\<lambda>_. None), uninit_key = [],
     parse_hash256 = Some, block_to_blob = (\<lambda>_. []), tx_to_blob = (\<lambda>_. []), rct_type_null = 0\<rparr>"

definition sample_tx :: transaction where
  "sample_tx = \<lparr>tx_version = 1, unlock_time = 10, vin = [TxinGen], vout = [], tx_extra = [],
     rct_type = 0, tx_pruned = False, prunable_hash = [], tx_signatures = []\<rparr>"

definition sample_block :: "hash \<Rightarrow> hash list \<Rightarrow> block" where
  "sample_block prev txs = \<lparr>major_version = 1, minor_version = 0, blk_timestamp = 100, prev_id = prev,
     blk_nonce = 0, miner_tx = sample_tx, tx_hashes = txs\<rparr>"

text \<open>A chain of \<open>n\<close> blocks; the second carries one transaction, whose fee is 3.\<close>

definition sample_chain :: "u64 \<Rightarrow> chain_view" where
  "sample_chain n = \<lparr>current_height = n, block_id_by_height = (\<lambda>h. if h = 0 then ''g0'' else ''b1''),
     block_from_height = (\<lambda>h. if h < n then Inr (if h = 0 then sample_block [] [] else sample_block ''g0'' [''t1''])
                             else Inl BLOCK_DNE),
     have_tx = (\<lambda>h. True), db_get_tx = (\<lambda>h. Inr sample_tx), db_get_pruned_tx = (\<lambda>h. Inr sample_tx),
     get_transactions = (\<lambda>hs. (True, map (\<lambda>_. sample_tx) hs, []))\<rparr>"

definition sample_io :: "bool \<Rightarrow> io_outcome" where
  "sample_io ok = \<lparr>io_open = True, io_flush = True, io_partial = [], io_sync = True, io_rename = ok\<rparr>"

theorem persist_atomic_witness:
  "snd (persist sample_index [] (sample_io False) (Map.empty(''f'' \<mapsto> ''old''))) ''f'' = Some ''old''"
proof -
  have f: "state_file sample_index = ''f''" by (simp add: sample_index_def)
  have "persist sample_index [] (sample_io False) (Map.empty(''f'' \<mapsto> ''old'')) =
    (Inl ''Cannot atomically publish supply checkpoint'',
     Map.empty(''f'' \<mapsto> ''old'', ''f.tmp'' \<mapsto> checkpoint_text sample_index []))"
    by (simp add: persist_def sample_io_def f Let_def)
  from persist_atomic [OF this] this show ?thesis by (simp add: f)
qed

text \<open>
  C7. The checkpoint round trip: an index that persisted its records is read back record by
  record by an index with the same identity, when no stored text holds a tab or a line feed.
  \<open>rd\<close> reads a decimal number from a stream, as Boost's integers do.
\<close>

theorem checkpoint_roundtrip:
  assumes "\<forall>n. rd (nat_to_dec n) = Some n"
    and "ledger_wf rs" "\<forall>r \<in> set rs. clean_text (sr_hash r) \<and> clean_text (sr_parent_hash r)"
    and "list_all clean_text (header_fields si)"
    and "persist si rs io dsk = (Inr (), dsk')"
    and "header_fields si' = header_fields si" "state_file si' = state_file si"
      "calculation_version (snapshot si') = calculation_name"
  shows "load rd dsk' si' = (True, si'\<lparr>records := rs\<rparr>)"
proof -
  have stored: "dsk' (state_file si') = Some (checkpoint_text si rs)"
    using persist_file [OF assms(5)] assms(7) by simp
  have "\<forall>r \<in> set rs. list_all clean_text (record_fields r)"
    using assms(3) by (simp add: record_fields_def)
  note lines = checkpoint_lines [OF assms(4) this]
  have head: "split_tabs (join CHR 0x09 (header_fields si)) =
      [state_magic, network_name_of si', genesis_hash si', chain_reset_id si', calculation_version (snapshot si')]"
    using split_tabs_join [OF _ assms(4)] assms(6,8) by (simp add: header_fields_def)
  have "load_lines rd [] (map (\<lambda>r. join CHR 0x09 (record_fields r)) rs) = Some rs"
    using load_lines_of_records [OF assms(1), of "[]" rs] assms(2,3) by simp
  then show ?thesis by (simp add: load_def stored lines head)
qed

theorem checkpoint_roundtrip_witness:
  "load (\<lambda>s. Some (dec_value s)) (snd (persist sample_index [] (sample_io True) Map.empty)) sample_index
     = (True, sample_index\<lparr>records := []\<rparr>)"
proof (rule checkpoint_roundtrip [where rs = "[]" and io = "sample_io True" and dsk = Map.empty])
  show "persist sample_index [] (sample_io True) Map.empty
      = (Inr (), snd (persist sample_index [] (sample_io True) Map.empty))"
    by (simp add: persist_def sample_io_def Let_def)
  show "list_all clean_text (header_fields sample_index)"
    by (simp add: header_fields_def sample_index_def clean_text_def state_magic_def calculation_name_def)
qed (simp_all add: sample_index_def default_snapshot_def ledger.wf_Nil)

text \<open>
  C17. A failed update is harmless: when \<open>update_once\<close> reports an error, the records, the
  published snapshot and the stored checkpoint are what they were.
\<close>

theorem update_error_keeps_state:
  assumes "update_once L w t now io (si, dsk) = (Inl e, si', dsk')"
  shows "si' = si \<and> dsk' (state_file si) = dsk (state_file si)"
  using assms by (cases rule: update_once_cases) auto

theorem update_error_keeps_state_witness:
  "update_once sample_core (\<lambda>_. sample_chain 0) 0 0 (sample_io True) (sample_index, Map.empty)
     = (Inl ''Canonical chain is empty'', sample_index, Map.empty)"
proof -
  obtain si' dsk' where up: "update_once sample_core (\<lambda>_. sample_chain 0) 0 0 (sample_io True) (sample_index, Map.empty)
     = (Inl ''Canonical chain is empty'', si', dsk')" and "dsk' = Map.empty"
    by (simp add: update_once_def sample_chain_def Let_def)
  with update_error_keeps_state [OF up] show ?thesis by simp
qed

section \<open>The index as a transition system\<close>

text \<open>
  The steps of an index on an arbitrary, moving chain: the owner starts and stops it, the
  thread makes a round. The observations, the clock and the outcomes of the file operations are
  arbitrary.
\<close>

inductive index_step ::
    "(string \<Rightarrow> nat option) \<Rightarrow> core_lib \<Rightarrow> world \<Rightarrow> supply_index \<times> disk \<Rightarrow> supply_index \<times> disk \<Rightarrow> bool"
  for rd L w where
  start_step: "index_step rd L w (si, dsk) (snd (start rd dir_ok now dsk si), dsk)"
| stop_step: "index_step rd L w (si, dsk) (stop si, dsk)"
| round_step: "\<not> stop_requested si \<Longrightarrow>
    index_step rd L w (si, dsk) (run_round L w t t' now io (si, dsk))"

inductive_cases index_stepE: "index_step rd L w st st'"

text \<open>
  The invariant: the records form a ledger, and the published snapshot is the exact summary of
  some ledger.
\<close>

definition index_ok :: "supply_index \<times> disk \<Rightarrow> bool" where
  "index_ok st \<longleftrightarrow> ledger_wf (records (fst st))
     \<and> (\<exists>rs. ledger_wf rs \<and> snapshot_describes (snapshot (fst st)) rs)"

lemma index_inv_ok: "index_inv si \<Longrightarrow> index_ok (si, dsk)"
  by (auto simp: index_inv_def index_ok_def)

lemma load_snapshot [simp]: "snapshot (snd (load rd dsk si)) = snapshot si"
  by (simp add: load_def split: option.splits list.splits)

lemma start_keeps:
  assumes "index_ok (si, dsk)"
  shows "index_ok (snd (start rd dir_ok now dsk si), dsk)"
proof -
  have wf: "ledger_wf (records si)" using assms by (simp add: index_ok_def)
  have lk: "ledger_wf (records (snd (load rd dsk (si\<lparr>running := True\<rparr>))))"
    using wf by (intro load_keeps_ledger) simp
  have err: "index_ok (publish (si\<lparr>running := False\<rparr>) now ''error'' m 0 [] [] False, dsk)" for m
    using wf publish_describes [OF ledger.wf_Nil, of False] by (auto simp: index_ok_def intro: ledger.wf_Nil)
  show ?thesis
    using assms lk err by (auto simp: start_def Let_def index_ok_def)
qed

lemma index_step_keeps: "index_ok s \<Longrightarrow> index_step rd L w s s' \<Longrightarrow> index_ok s'"
proof (erule index_stepE)
  fix si dsk assume "index_ok s" "s = (si, dsk)" "s' = (stop si, dsk)"
  then show "index_ok s'" by (simp add: index_ok_def stop_def)
next
  fix si dsk t t' now io
  assume "index_ok s" "s = (si, dsk)" "s' = run_round L w t t' now io (si, dsk)"
  then show "index_ok s'"
    using run_round_keeps [of "(si, dsk)"] by (metis fst_conv index_inv_ok index_ok_def prod.collapse)
qed (auto intro: start_keeps)

interpretation index_system: invariant_system "index_step rd L w" index_ok for rd L w
  by unfold_locales (rule index_step_keeps)

lemma new_index_describes:
  "snapshot_describes (snapshot (new_supply_index w t path reset_id nt batch)) []"
  by (simp add: snapshot_describes_def new_supply_index_def default_snapshot_def Let_def
      zero_text size_u64_def)

lemma new_index_ok: "index_ok (new_supply_index w t path reset_id nt batch, dsk)"
  using ledger.wf_Nil new_index_describes unfolding index_ok_def fst_conv
  by (intro conjI exI [of _ "[]"]) (simp_all add: new_supply_index_def Let_def)

text \<open>
  C4. Whatever the chain, the clock and the disk do, and however often the index is started,
  stopped and run, its records form a ledger and the published snapshot is the exact summary of
  a ledger: the amounts it shows add up.
\<close>

theorem index_always_exact:
  assumes "steps (index_step rd L w) (new_supply_index w0 t path reset_id nt batch, dsk) (si, dsk')"
  shows "ledger_wf (records si) \<and> (\<exists>rs. ledger_wf rs \<and> snapshot_describes (snapshot si) rs)"
  using index_system.steps_keep [OF assms new_index_ok] by (simp add: index_ok_def)

theorem index_always_exact_witness:
  "ledger_wf (records (snd (start (\<lambda>s. Some (dec_value s)) True 0 Map.empty
      (new_supply_index (\<lambda>_. sample_chain 2) 0 ''d'' ''r1'' MAINNET 64))))"
proof -
  let ?si = "new_supply_index (\<lambda>_. sample_chain 2) 0 ''d'' ''r1'' MAINNET 64"
  let ?rd = "\<lambda>s. Some (dec_value s)"
  have "steps (index_step ?rd sample_core (\<lambda>_. sample_chain 2)) (?si, Map.empty)
      (snd (start ?rd True 0 Map.empty ?si), Map.empty)"
    by (rule steps.step, rule steps.stop, rule start_step)
  from index_always_exact [OF this] show ?thesis by simp
qed

end
