(* ===== verification/Supply_Progress.thy ===== *)
theory Supply_Progress
  imports Supply_Index
begin

text \<open>
  Progress and exactness of the supply index. While the chain stands still and the file
  operations succeed, every round of the indexing thread succeeds, the ledger grows by a batch
  until it covers the chain, and the published totals are the sums over the chain's blocks.
\<close>

section \<open>A chain that stands still is indexed completely and exactly\<close>

definition chain_coinbase :: "core_lib \<Rightarrow> chain_view \<Rightarrow> nat \<Rightarrow> nat" where
  "chain_coinbase L cv i =
     (case get_block_by_height cv (of_nat i) of
        None \<Rightarrow> 0 | Some blk \<Rightarrow> unat (get_outs_money_amount L (miner_tx blk)))"

definition chain_fees :: "core_lib \<Rightarrow> chain_view \<Rightarrow> nat \<Rightarrow> nat" where
  "chain_fees L cv i =
     (case get_block_by_height cv (of_nat i) of
        None \<Rightarrow> 0
      | Some blk \<Rightarrow> sum_list (map (\<lambda>tx. unat (get_tx_fee L tx))
                                (fst (snd (get_transactions cv (tx_hashes blk))))))"

text \<open>
  What the core's database guarantees of one block: it is stored under its hash, it names its
  predecessor, its transactions are stored, and its coinbase covers the fees.
\<close>

definition block_coherent :: "core_lib \<Rightarrow> chain_view \<Rightarrow> nat \<Rightarrow> bool" where
  "block_coherent L cv i \<longleftrightarrow>
     (case get_block_by_height cv (of_nat i) of
        None \<Rightarrow> False
      | Some blk \<Rightarrow>
          get_block_hash L blk = block_id_by_height cv (of_nat i)
          \<and> block_id_by_height cv (of_nat i) \<noteq> []
          \<and> (0 < i \<longrightarrow> prev_id blk = block_id_by_height cv (of_nat (i - 1)))
          \<and> fst (get_transactions cv (tx_hashes blk))
          \<and> snd (snd (get_transactions cv (tx_hashes blk))) = []
          \<and> length (fst (snd (get_transactions cv (tx_hashes blk)))) = length (tx_hashes blk)
          \<and> chain_fees L cv i \<le> chain_coinbase L cv i)"

definition chain_coherent :: "core_lib \<Rightarrow> chain_view \<Rightarrow> bool" where
  "chain_coherent L cv \<longleftrightarrow> list_all (block_coherent L cv) [0..<unat (current_height cv)]"

definition indexed_prefix :: "core_lib \<Rightarrow> chain_view \<Rightarrow> supply_record list \<Rightarrow> bool" where
  "indexed_prefix L cv rs \<longleftrightarrow>
     ledger_wf rs \<and> length rs \<le> unat (current_height cv)
     \<and> list_all (\<lambda>i. sr_hash (rs ! i) = block_id_by_height cv (of_nat i)
                    \<and> unat (coinbase_atomic (rs ! i)) = chain_coinbase L cv i
                    \<and> unat (fees_atomic (rs ! i)) = chain_fees L cv i) [0..<length rs]"

lemma sum_fees_spec:
  "unat f + sum_list (map (\<lambda>tx. unat (get_tx_fee L tx)) txs) < 2 ^ 64 \<Longrightarrow>
     \<exists>g. sum_fees L txs f = Some g
         \<and> unat g = unat f + sum_list (map (\<lambda>tx. unat (get_tx_fee L tx)) txs)"
proof (induction txs arbitrary: f)
  case (Cons tx txs)
  then have fit: "get_tx_fee L tx \<le> u64_max - f" by (simp add: u64_guard)
  then have "unat (f + get_tx_fee L tx) = unat f + unat (get_tx_fee L tx)" by (rule u64_add_exact)
  with Cons.IH [of "f + get_tx_fee L tx"] Cons.prems fit show ?case
    by (simp add: Let_def not_less algebra_simps)
qed simp

lemma of_nat_u64: "i < 2 ^ 64 \<Longrightarrow> unat (of_nat i :: u64) = i"
  by (simp add: unsigned_of_nat take_bit_nat_eq_self)

lemma u64_eq_of_nat: "unat (x :: u64) = i \<Longrightarrow> x = of_nat i"
  by (metis of_nat_u64 unat_u64_less word_unat_eq_iff)

lemma indexed_prefix_nth:
  assumes "indexed_prefix L cv rs" "i < length rs"
  shows "sr_hash (rs ! i) = block_id_by_height cv (of_nat i)"
    and "unat (coinbase_atomic (rs ! i)) = chain_coinbase L cv i"
    and "unat (fees_atomic (rs ! i)) = chain_fees L cv i"
    and "sr_height (rs ! i) = of_nat i"
  using assms by (auto simp: indexed_prefix_def list_all_iff ledger_wf_iff record_wf_def Let_def)

text \<open>On a coherent block the reader succeeds and reports the block's amounts.\<close>

lemma read_record_coherent:
  assumes "block_coherent L cv i" "i < 2 ^ 64"
    and "parent = (if i = 0 then [] else block_id_by_height cv (of_nat (i - 1)))"
    and "i \<noteq> 0 \<longrightarrow> parent \<noteq> []"
  shows "\<exists>r. read_record L (\<lambda>_. cv) t (of_nat i) parent = Inr r
           \<and> sr_height r = of_nat i \<and> sr_hash r = block_id_by_height cv (of_nat i)
           \<and> sr_hash r \<noteq> [] \<and> sr_parent_hash r = parent
           \<and> unat (coinbase_atomic r) = chain_coinbase L cv i
           \<and> unat (fees_atomic r) = chain_fees L cv i"
proof -
  from assms(1) obtain blk txs where
    blk: "get_block_by_height cv (of_nat i) = Some blk"
    and txs: "get_transactions cv (tx_hashes blk) = (True, txs, [])"
      "length txs = length (tx_hashes blk)"
    and id: "get_block_hash L blk = block_id_by_height cv (of_nat i)"
      "block_id_by_height cv (of_nat i) \<noteq> []"
    and prev: "0 < i \<longrightarrow> prev_id blk = block_id_by_height cv (of_nat (i - 1))"
    and le: "chain_fees L cv i \<le> chain_coinbase L cv i"
    by (cases "get_transactions cv (tx_hashes (the (get_block_by_height cv (of_nat i))))")
       (auto simp: block_coherent_def split: option.splits)
  let ?cb = "get_outs_money_amount L (miner_tx blk)"
  have cb: "unat ?cb = chain_coinbase L cv i" by (simp add: chain_coinbase_def blk)
  have fee: "chain_fees L cv i = sum_list (map (\<lambda>tx. unat (get_tx_fee L tx)) txs)"
    by (simp add: chain_fees_def blk txs)
  then have "unat (0 :: u64) + sum_list (map (\<lambda>tx. unat (get_tx_fee L tx)) txs) < 2 ^ 64"
    using le cb unat_u64_less [of ?cb] by simp
  then obtain g where g: "sum_fees L txs 0 = Some g" "unat g = chain_fees L cv i"
    using sum_fees_spec [of 0 L txs] fee by auto
  then have "g \<le> ?cb" using le cb by (simp add: word_le_nat_alt)
  then have m: "minted_delta ?cb g = Some (?cb - g)" "\<not> ?cb < g" by (simp_all add: minted_delta_def)
  have h: "(0 :: u64) < of_nat i \<longleftrightarrow> 0 < i" "(of_nat i :: u64) = 0 \<longleftrightarrow> i = 0"
    using of_nat_u64 [OF assms(2)] by (auto simp: word_less_nat_alt word_unat_eq_iff)
  have hp: "0 < i \<Longrightarrow> (of_nat i :: u64) - 1 = of_nat (i - 1)" by (simp add: of_nat_diff)
  have link: "\<not> (0 < (of_nat i :: u64) \<and> parent = [])"
      "\<not> (0 < (of_nat i :: u64) \<and> (block_id_by_height cv (of_nat i - 1) \<noteq> parent \<or> prev_id blk \<noteq> parent))"
      "(if (of_nat i :: u64) = 0 then [] else parent) = parent"
  proof -
    have "i = 0 \<or> 0 < i \<and> parent \<noteq> [] \<and> block_id_by_height cv (of_nat i - 1) = parent \<and> prev_id blk = parent"
      using assms(3,4) prev hp by (metis gr0I)
    moreover have "i = 0 \<Longrightarrow> parent = []" using assms(3) by simp
    ultimately show "\<not> (0 < (of_nat i :: u64) \<and> parent = [])"
      "\<not> (0 < (of_nat i :: u64) \<and> (block_id_by_height cv (of_nat i - 1) \<noteq> parent \<or> prev_id blk \<noteq> parent))"
      "(if (of_nat i :: u64) = 0 then [] else parent) = parent"
      unfolding h by auto
  qed
  let ?r = "blank_supply_record\<lparr>sr_height := of_nat i, sr_hash := block_id_by_height cv (of_nat i),
      sr_parent_hash := parent, coinbase_atomic := ?cb, fees_atomic := g, minted_atomic := ?cb - g\<rparr>"
  have "read_record L (\<lambda>_. cv) t (of_nat i) parent = Inr ?r"
    unfolding read_record_def Let_def blk txs(1) option.case prod.case g(1) m(1)
    using id link txs(2) m(2) by (simp only: simp_thms if_True if_False list.simps)
  then show ?thesis using g(2) cb id by simp
qed

lemma append_coherent:
  assumes "indexed_prefix L cv rs" "length rs < unat (current_height cv)"
    and r: "sr_height r = of_nat (length rs)" "sr_hash r = block_id_by_height cv (of_nat (length rs))"
      "sr_hash r \<noteq> []" "sr_parent_hash r = (if rs = [] then [] else sr_hash (last rs))"
      "unat (coinbase_atomic r) = chain_coinbase L cv (length rs)"
      "unat (fees_atomic r) = chain_fees L cv (length rs)"
    and le: "chain_fees L cv (length rs) \<le> chain_coinbase L cv (length rs)"
  shows "\<exists>rs'. append_supply_record rs r = Some rs' \<and> indexed_prefix L cv rs' \<and> length rs' = Suc (length rs)"
proof -
  have wf: "ledger_wf rs" using assms(1) by (simp add: indexed_prefix_def)
  have len: "length rs < 2 ^ 64" using assms(2) unat_u64_less [of "current_height cv"] by simp
  have "fees_atomic r \<le> coinbase_atomic r" using le r(5,6) by (simp add: word_le_nat_alt)
  then have m: "minted_delta (coinbase_atomic r) (fees_atomic r)
      = Some (coinbase_atomic r - fees_atomic r)" by (simp add: minted_delta_def)
  have z: "sr_height r = 0 \<longleftrightarrow> rs = []"
    using r(1) of_nat_u64 [OF len] by (auto simp: word_unat_eq_iff)
  obtain cc cf cm where sums:
      "checked_supply_add (prior cumulative_coinbase rs) (ucast (coinbase_atomic r)) = Some cc"
      "checked_supply_add (prior cumulative_fees rs) (ucast (fees_atomic r)) = Some cf"
      "checked_supply_add (prior cumulative_minted rs) (ucast (coinbase_atomic r - fees_atomic r)) = Some cm"
    using totals_never_overflow [OF wf len] by metis
  have parent: "sr_height r = 0 \<longrightarrow> sr_parent_hash r = []"
      "0 < sr_height r \<longrightarrow> sr_parent_hash r = sr_hash (last rs)"
    using r(4) z by (auto simp: word_gt_0)
  have "\<exists>rs'. append_supply_record rs r = Some rs'"
    using sums parent m r(3) r(1) by (simp add: append_supply_record_def size_u64_def)
  then obtain rs' where ap: "append_supply_record rs r = Some rs'" by blast
  then have wf': "ledger_wf rs'" by (rule ledger.app_wf [OF wf])
  from ap obtain r' where r': "rs' = rs @ [r']" "sr_hash r' = sr_hash r"
      "coinbase_atomic r' = coinbase_atomic r" "fees_atomic r' = fees_atomic r"
    by (rule append_supply_record_SomeD)
  have "indexed_prefix L cv rs'"
    unfolding indexed_prefix_def
  proof (intro conjI wf')
    show "length rs' \<le> unat (current_height cv)" using assms(2) r'(1) by simp
    show "list_all (\<lambda>i. sr_hash (rs' ! i) = block_id_by_height cv (of_nat i)
        \<and> unat (coinbase_atomic (rs' ! i)) = chain_coinbase L cv i
        \<and> unat (fees_atomic (rs' ! i)) = chain_fees L cv i) [0..<length rs']"
      using assms(1) r' r(2,5,6) by (simp add: indexed_prefix_def list_all_iff nth_append)
  qed
  with ap r'(1) show ?thesis by simp
qed

lemma index_batch_coherent:
  "chain_coherent L cv \<Longrightarrow> indexed_prefix L cv c \<Longrightarrow> target \<le> current_height cv \<Longrightarrow>
    \<exists>c' t'. index_batch L (\<lambda>_. cv) target c t = Inr (c', t') \<and> indexed_prefix L cv c'
            \<and> length c' = max (length c) (unat target)"
proof (induction "unat target - length c" arbitrary: c t)
  case 0
  then show ?case by (simp add: index_batch.simps)
next
  case (Suc k)
  then have True: "length c < unat target" by simp
  let ?parent = "if c = [] then [] else sr_hash (last c)"
  have lt: "length c < unat (current_height cv)"
    using True Suc.prems(3) by (simp add: word_le_nat_alt)
  then have len: "length c < 2 ^ 64" using unat_u64_less [of "current_height cv"] by simp
  have bc: "block_coherent L cv (length c)"
    using Suc.prems(1) lt by (simp add: chain_coherent_def list_all_iff)
  have le: "chain_fees L cv (length c) \<le> chain_coinbase L cv (length c)"
    using bc by (simp add: block_coherent_def split: option.splits)
  have par: "?parent = (if length c = 0 then [] else block_id_by_height cv (of_nat (length c - 1)))"
    using indexed_prefix_nth(1) [OF Suc.prems(2), of "length c - 1"]
    by (cases "c = []") (simp_all add: last_conv_nth del: of_nat_diff One_nat_def)
  have ne: "?parent \<noteq> []" if "length c \<noteq> 0"
  proof -
    have "block_coherent L cv (length c - 1)"
      using Suc.prems(1) lt by (simp add: chain_coherent_def list_all_iff)
    then have "block_id_by_height cv (of_nat (length c - 1)) \<noteq> []"
      by (simp add: block_coherent_def split: option.splits)
    with par that show ?thesis by simp
  qed
  obtain r where r: "read_record L (\<lambda>_. cv) t (of_nat (length c)) ?parent = Inr r"
      "sr_height r = of_nat (length c)" "sr_hash r = block_id_by_height cv (of_nat (length c))"
      "sr_hash r \<noteq> []" "sr_parent_hash r = ?parent"
      "unat (coinbase_atomic r) = chain_coinbase L cv (length c)"
      "unat (fees_atomic r) = chain_fees L cv (length c)"
    using read_record_coherent [OF bc len par] ne by blast
  obtain c1 where c1: "append_supply_record c r = Some c1" "indexed_prefix L cv c1"
      "length c1 = Suc (length c)"
    using append_coherent [OF Suc.prems(2) lt r(2-7) le] by blast
  have step: "index_batch L (\<lambda>_. cv) target c t = index_batch L (\<lambda>_. cv) target c1 (t + 4)"
    using r(1) c1(1) True by (simp add: index_batch.simps [of _ _ _ c] size_u64_def)
  have "k = unat target - length c1" using Suc.hyps(2) c1(3) by simp
  from Suc.hyps(1) [OF this Suc.prems(1) c1(2) Suc.prems(3), of "t + 4"]
  show ?case using step c1(3) True by auto
qed

lemma rollback_indexed:
  assumes "indexed_prefix L cv rs"
  shows "fst (rollback_supply_records rs (current_height cv) (chain_at (\<lambda>_. cv)) t) = rs"
proof (cases "rs = []")
  case False
  let ?i = "length rs - 1"
  have i: "?i < length rs" "last rs = rs ! ?i" using False by (simp_all add: last_conv_nth)
  have "length rs \<le> unat (current_height cv)" using assms by (simp add: indexed_prefix_def)
  with i(1) have "?i < unat (current_height cv)" by linarith
  moreover then have "unat (of_nat ?i :: u64) = ?i"
    using unat_u64_less [of "current_height cv"] by (intro of_nat_u64) linarith
  ultimately have "sr_height (last rs) < current_height cv"
    using indexed_prefix_nth(4) [OF assms i(1)] i(2) unfolding word_less_nat_alt by metis
  moreover have "block_id_by_height cv (sr_height (last rs)) = sr_hash (last rs)"
    using indexed_prefix_nth(1,4) [OF assms i(1)] i(2) by metis
  ultimately show ?thesis
    using False by (simp add: rollback_supply_records.simps [of rs] chain_at_def)
qed simp

definition io_ok :: "io_outcome \<Rightarrow> bool" where
  "io_ok io \<longleftrightarrow> io_open io \<and> io_flush io \<and> io_sync io \<and> io_rename io"

text \<open>What stays true of an index that follows a chain standing still.\<close>

definition following :: "core_lib \<Rightarrow> chain_view \<Rightarrow> supply_index \<Rightarrow> bool" where
  "following L cv si \<longleftrightarrow>
     indexed_prefix L cv (records si) \<and> genesis_hash si = block_id_by_height cv 0
     \<and> 0 < batch_size si \<and> batch_size si \<le> 4096 \<and> \<not> stop_requested si"

definition good_chain :: "core_lib \<Rightarrow> chain_view \<Rightarrow> bool" where
  "good_chain L cv \<longleftrightarrow> chain_coherent L cv \<and> 0 < unat (current_height cv)
     \<and> unat (current_height cv) + 4096 < 2 ^ 64"

lemma finish_update_frame [simp]:
  "genesis_hash (finish_update w t now n tip si c) = genesis_hash si"
  "batch_size (finish_update w t now n tip si c) = batch_size si"
  "stop_requested (finish_update w t now n tip si c) = stop_requested si"
  by (simp_all add: finish_update_def publish_def Let_def)

lemma size_u64_eq_iff:
  "length xs < 2 ^ 64 \<Longrightarrow> n = size_u64 xs \<longleftrightarrow> length xs = unat n"
  using size_u64_exact [of xs] by (auto simp: word_unat_eq_iff)

lemma update_still:
  assumes good: "good_chain L cv" and fol: "following L cv si" and io: "io_ok io"
  shows "\<exists>si' dsk'. update_once L (\<lambda>_. cv) t now io (si, dsk) = (Inr (), si', dsk') \<and> following L cv si'
      \<and> batch_size si' = batch_size si
      \<and> length (records si') = min (unat (current_height cv)) (length (records si) + unat (batch_size si))
      \<and> (complete (snapshot si') \<longleftrightarrow> length (records si') = unat (current_height cv))"
proof -
  let ?n = "current_height cv" and ?c = "records si"
  have pre: "indexed_prefix L cv ?c" and gen: "genesis_hash si = block_id_by_height cv 0"
    and b: "0 < batch_size si" "batch_size si \<le> 4096" and go: "\<not> stop_requested si"
    using fol by (simp_all add: following_def)
  have coh: "chain_coherent L cv" and n: "0 < unat ?n" "unat ?n + 4096 < 2 ^ 64"
    using good by (simp_all add: good_chain_def)
  have len: "length ?c \<le> unat ?n" using pre by (simp add: indexed_prefix_def)
  have ub: "unat (batch_size si) \<le> 4096" using b(2) by (simp add: word_le_nat_alt)
  have uc: "unat (size_u64 ?c) = length ?c" using len n by (intro size_u64_exact) linarith
  have sum: "unat (size_u64 ?c + batch_size si) = length ?c + unat (batch_size si)"
    using uc ub len n by (subst unat_add_no_overflow) simp_all
  let ?target = "min ?n (size_u64 ?c + batch_size si)"
  have tgt: "unat ?target = min (unat ?n) (length ?c + unat (batch_size si))"
    using sum by (simp add: min_def word_le_nat_alt)
  obtain t1 where rb: "rollback_supply_records ?c ?n (chain_at (\<lambda>_. cv)) (t + 3) = (?c, t1)"
    using rollback_indexed [OF pre, of "t + 3"] by (metis prod.collapse)
  have "?target \<le> ?n" by simp
  from index_batch_coherent [OF coh pre this, of t1] obtain c' t2 where
    ib: "index_batch L (\<lambda>_. cv) ?target ?c t1 = Inr (c', t2)" and pre': "indexed_prefix L cv c'"
    and len': "length c' = max (length ?c) (unat ?target)" by blast
  have l': "length c' = min (unat ?n) (length ?c + unat (batch_size si))"
    using len' tgt len by simp
  have "c' \<noteq> []" using l' n(1) b(1) by (auto simp: word_less_nat_alt)
  then have "length c' - 1 < length c'" "last c' = c' ! (length c' - 1)"
    by (simp_all add: last_conv_nth)
  then have anchor: "block_id_by_height cv (sr_height (last c')) = sr_hash (last c')"
    using indexed_prefix_nth(1,4) [OF pre'] by metis
  obtain dsk' where pe: "persist si c' io dsk = (Inr (), dsk')"
    using io by (simp add: persist_def io_ok_def Let_def)
  let ?si' = "finish_update (\<lambda>_. cv) (t2 + 1) now ?n (block_id_by_height cv (?n - 1)) si c'"
  have n0: "?n \<noteq> 0" using n(1) by auto
  have up: "update_once L (\<lambda>_. cv) t now io (si, dsk) = (Inr (), ?si', dsk')"
    using gen rb ib anchor pe n0 by (simp add: update_once_def Let_def)
  have "length c' < 2 ^ 64" using l' n by simp
  then have comp: "complete (snapshot ?si') \<longleftrightarrow> length c' = unat ?n"
    using n0 \<open>c' \<noteq> []\<close> by (simp add: finish_update_def publish_def Let_def size_u64_eq_iff word_gt_0)
  have "following L cv ?si'" using pre' gen b go by (simp add: following_def)
  with up comp l' show ?thesis by simp
qed

lemma run_rounds_still:
  assumes good: "good_chain L cv"
  shows "following L cv si \<Longrightarrow> list_all (\<lambda>(t, t', now, io). io_ok io) rounds \<Longrightarrow> rounds \<noteq> [] \<Longrightarrow>
     following L cv (fst (run_rounds L (\<lambda>_. cv) rounds (si, dsk)))
     \<and> length (records (fst (run_rounds L (\<lambda>_. cv) rounds (si, dsk))))
         = min (unat (current_height cv)) (length (records si) + length rounds * unat (batch_size si))
     \<and> (complete (snapshot (fst (run_rounds L (\<lambda>_. cv) rounds (si, dsk))))
         \<longleftrightarrow> length (records (fst (run_rounds L (\<lambda>_. cv) rounds (si, dsk)))) = unat (current_height cv))"
proof (induction rounds arbitrary: si dsk)
  case (Cons rd rest)
  obtain t t' now io where rd: "rd = (t, t', now, io)" by (metis prod_cases4)
  have io: "io_ok io" using Cons.prems(2) rd by simp
  obtain si' dsk' where up: "update_once L (\<lambda>_. cv) t now io (si, dsk) = (Inr (), si', dsk')"
    and si': "following L cv si'" "batch_size si' = batch_size si"
      "length (records si') = min (unat (current_height cv)) (length (records si) + unat (batch_size si))"
      "complete (snapshot si') \<longleftrightarrow> length (records si') = unat (current_height cv)"
    using update_still [OF good Cons.prems(1) io, of t now dsk] by blast
  have go: "\<not> stop_requested si" using Cons.prems(1) by (simp add: following_def)
  have step: "run_rounds L (\<lambda>_. cv) (rd # rest) (si, dsk) = run_rounds L (\<lambda>_. cv) rest (si', dsk')"
    using up rd go by (simp add: run_round_def)
  show ?case
  proof (cases "rest = []")
    case True
    with step si' show ?thesis by simp
  next
    case False
    have "list_all (\<lambda>(t, t', now, io). io_ok io) rest" using Cons.prems(2) by simp
    from Cons.IH [OF si'(1) this False, of dsk'] show ?thesis
      unfolding step si'(2,3) by (simp add: min_def)
  qed
qed simp

lemma following_totals:
  assumes "indexed_prefix L cv rs"
  shows "int (total_upto minted_atomic rs)
    = (\<Sum>i<length rs. int (chain_coinbase L cv i) - int (chain_fees L cv i))"
proof -
  have wf: "ledger_wf rs" using assms by (simp add: indexed_prefix_def)
  have tot: "total_upto f rs = (\<Sum>i<length rs. unat (f (rs ! i)))" for f :: "supply_record \<Rightarrow> u64"
    by (simp add: total_upto_def sum_list_sum_nth atLeast0LessThan)
  have "int (total_upto minted_atomic rs)
      = int (total_upto coinbase_atomic rs) - int (total_upto fees_atomic rs)"
    using ledger_wf_balance [OF wf] by simp
  also have "\<dots> = (\<Sum>i<length rs. int (chain_coinbase L cv i)) - (\<Sum>i<length rs. int (chain_fees L cv i))"
    using indexed_prefix_nth(2,3) [OF assms] by (simp add: tot)
  finally show ?thesis by (simp add: sum_subtractf)
qed


lemma sample_chain_good: "good_chain sample_core (sample_chain 2)"
proof -
  have "block_coherent sample_core (sample_chain 2) 0" "block_coherent sample_core (sample_chain 2) 1"
    by (simp_all add: block_coherent_def chain_fees_def chain_coinbase_def get_block_by_height_def
        sample_chain_def sample_core_def sample_block_def sample_tx_def)
  moreover have "[0..<unat (2 :: u64)] = [0, 1]" by (simp add: upt_rec)
  moreover have "current_height (sample_chain 2) = 2" by (simp add: sample_chain_def)
  ultimately show ?thesis by (simp add: good_chain_def chain_coherent_def)
qed

lemma sample_index_following: "following sample_core (sample_chain 2) sample_index"
  by (simp add: following_def indexed_prefix_def sample_index_def sample_chain_def ledger.wf_Nil)


end
