(* ===== verification/Amounts.thy ===== *)
theory Amounts
  imports Prelude
begin

text \<open>
  Exact amounts and network quantities: \<open>src/exact_amount.h\<close> (atomic units to decimal text),
  \<open>src/hashrate.h\<close> (exact ratios and the SI display of the estimated hashrate), and the
  difficulty helpers \<open>make_difficulty\<close> and \<open>get_metric_prefix\<close> of \<open>src/tools.cpp\<close>. Boost's
  \<open>uint128_t\<close> and \<open>uint256_t\<close> are 128-bit and 256-bit words: their arithmetic is unchecked and
  wraps. \<open>COIN\<close> and \<open>CRYPTONOTE_DISPLAY_DECIMAL_POINT\<close> belong to the core and are arguments.
\<close>

section \<open>Fixed-point text\<close>

text \<open>\<open>std::setw\<close> with \<open>std::setfill\<close>, and \<open>std::string::insert(0, n, c)\<close>: padding on the left.\<close>

definition pad_left :: "nat \<Rightarrow> char \<Rightarrow> string \<Rightarrow> string" where
  "pad_left w c s = replicate (w - length s) c @ s"

text \<open>\<open>insert(size() - k, 1, '.')\<close>: a point before the last \<open>k\<close> characters.\<close>

definition insert_point :: "nat \<Rightarrow> string \<Rightarrow> string" where
  "insert_point k s = take (length s - k) s @ ''.'' @ drop (length s - k) s"

definition format_atomic_amount :: "u64 \<Rightarrow> u64 \<Rightarrow> nat \<Rightarrow> string" where
  "format_atomic_amount amount coin decimal_places =
     (if coin = 0 then ''unavailable''
      else let out = u64_to_string (amount div coin) in
        if decimal_places > 0
        then out @ ''.'' @ pad_left decimal_places CHR ''0'' (u64_to_string (amount mod coin))
        else out)"

definition format_atomic_decimal_string :: "string \<Rightarrow> nat \<Rightarrow> string" where
  "format_atomic_decimal_string atomic decimal_places =
     (if atomic = [] \<or> \<not> list_all is_digit atomic then ''unavailable''
      else
        let stripped = dropWhile (\<lambda>c. c = CHR ''0'') atomic;
            normalized = (if stripped = [] then ''0'' else stripped)
        in if decimal_places = 0 then normalized
           else
             let padded = (if length normalized \<le> decimal_places
                           then pad_left (decimal_places + 1) CHR ''0'' normalized
                           else normalized)
             in insert_point decimal_places padded)"

text \<open>\<open>xmr_amount_to_str\<close> of \<open>src/tools.h\<close>; its format argument is ignored by the code.\<close>

definition xmr_amount_to_str :: "u64 \<Rightarrow> nat \<Rightarrow> u64 \<Rightarrow> bool \<Rightarrow> string" where
  "xmr_amount_to_str coin display_decimals xmr_amount zero_to_question_mark =
     (if zero_to_question_mark \<and> xmr_amount = 0 then ''?''
      else format_atomic_amount xmr_amount coin display_decimals)"

section \<open>Ratios and the hashrate display\<close>

fun scale_loop :: "nat \<Rightarrow> u256 \<Rightarrow> u256" where
  "scale_loop 0 scale = scale"
| "scale_loop (Suc i) scale = scale_loop i (scale * 10)"

definition decimal_ratio :: "u128 \<Rightarrow> u128 \<Rightarrow> nat \<Rightarrow> string" where
  "decimal_ratio numerator denominator decimals =
     (if denominator = 0 then ''unavailable''
      else
        let scale = scale_loop decimals 1;
            scaled = (ucast numerator * scale) div ucast denominator;
            digits = nat_to_dec (unat scaled)
        in if decimals = 0 then digits
           else
             let padded = (if length digits \<le> decimals
                           then pad_left (decimals + 1) CHR ''0'' digits else digits)
             in insert_point decimals padded)"

definition hashrate_units :: "string list" where
  "hashrate_units = [''H/s'', ''kH/s'', ''MH/s'', ''GH/s'', ''TH/s'', ''PH/s'', ''EH/s'']"

function hashrate_unit_loop :: "u128 \<Rightarrow> u128 \<Rightarrow> nat \<Rightarrow> u128 \<times> nat" where
  "hashrate_unit_loop difficulty divisor unit =
     (if unit + 1 < length hashrate_units \<and> divisor * 1000 \<le> difficulty
      then hashrate_unit_loop difficulty (divisor * 1000) (unit + 1)
      else (divisor, unit))"
  by pat_completeness auto
termination
  by (relation "measure (\<lambda>(d, v, unit). length hashrate_units - unit)") auto

declare hashrate_unit_loop.simps [simp del]

definition format_hashrate_si :: "u128 \<Rightarrow> u64 \<Rightarrow> string" where
  "format_hashrate_si difficulty target =
     (if target = 0 then ''unavailable''
      else case hashrate_unit_loop difficulty (ucast target) 0 of
             (divisor, unit) \<Rightarrow>
               decimal_ratio difficulty divisor 3 @ '' '' @ hashrate_units ! unit)"

section \<open>Difficulty words\<close>

definition make_difficulty :: "u64 \<Rightarrow> u64 \<Rightarrow> u128" where
  "make_difficulty low high = push_bit 64 (ucast high) + ucast low"

text \<open>
  \<open>get_metric_prefix\<close> writes its two reference arguments; the conversion of a difficulty to a
  \<open>double\<close> divided by 1000 is the parameter \<open>as_thousands\<close>, and the zero prefix is \<open>None\<close>.
\<close>

definition metric_prefixes :: "char list" where
  "metric_prefixes = [CHR ''k'', CHR ''M'', CHR ''G'', CHR ''T'']"

fun metric_prefix_loop :: "(u128 \<Rightarrow> 'd) \<Rightarrow> u128 \<Rightarrow> 'd \<Rightarrow> char list \<Rightarrow> 'd \<times> char option" where
  "metric_prefix_loop as_thousands hr hr_d [] = (hr_d, None)"
| "metric_prefix_loop as_thousands hr hr_d (p # ps) =
     (if hr < 1000000 then (as_thousands hr, Some p)
      else metric_prefix_loop as_thousands (hr div 1000) hr_d ps)"

definition get_metric_prefix :: "(u128 \<Rightarrow> 'd) \<Rightarrow> u128 \<Rightarrow> 'd \<Rightarrow> 'd \<times> char option" where
  "get_metric_prefix as_thousands hr hr_d =
     (if hr < 1000 then (hr_d, None)
      else metric_prefix_loop as_thousands hr hr_d metric_prefixes)"

section \<open>The shared shape of fixed-point text\<close>

text \<open>
  \<open>fixed_point d n\<close> is the decimal expansion of \<open>n / 10 ^ d\<close> with all \<open>d\<close> places: the
  specification both formatters and \<open>decimal_ratio\<close> are proved against.
\<close>

definition fixed_point :: "nat \<Rightarrow> nat \<Rightarrow> string" where
  "fixed_point d n =
     (if d = 0 then nat_to_dec n
      else nat_to_dec (n div 10 ^ d) @ ''.'' @ pad_left d CHR ''0'' (nat_to_dec (n mod 10 ^ d)))"

lemma nat_to_dec_small: "n < 10 \<Longrightarrow> nat_to_dec n = [digit_char n]"
  by (subst nat_to_dec.simps) simp

lemma nat_to_dec_step: "10 \<le> n \<Longrightarrow> nat_to_dec n = nat_to_dec (n div 10) @ [digit_char (n mod 10)]"
  by (subst nat_to_dec.simps) simp

lemma nat_to_dec_length_pos: "0 < length (nat_to_dec n)"
  by simp

lemma digit_char_zero [simp]: "digit_char 0 = CHR ''0''"
  by code_simp

lemma pad_left_one [simp]: "pad_left (Suc 0) c (nat_to_dec n) = nat_to_dec n"
  by (simp add: pad_left_def Suc_leI)

lemma length_pad_left: "length (pad_left w c s) = max w (length s)"
  by (simp add: pad_left_def)

lemma pad_left_Suc:
  assumes "0 < d"
  shows "pad_left (Suc d) CHR ''0'' (nat_to_dec n) =
         pad_left d CHR ''0'' (nat_to_dec (n div 10)) @ [digit_char (n mod 10)]"
proof (cases "n < 10")
  case True
  then have "pad_left d CHR ''0'' (nat_to_dec (n div 10)) = replicate d CHR ''0''"
    using assms by (cases d) (simp_all add: pad_left_def nat_to_dec_small replicate_append_same)
  with True show ?thesis by (simp add: pad_left_def nat_to_dec_small)
next
  case False
  then show ?thesis by (simp add: pad_left_def nat_to_dec_step)
qed

lemma dec_value_append: "dec_value (s @ t) = dec_value s * 10 ^ length t + dec_value t"
proof (induction t rule: rev_induct)
  case (snoc c t)
  then show ?case
    by (simp flip: append_assoc add: algebra_simps)
qed simp

lemma dec_value_replicate_zero [simp]: "dec_value (replicate k CHR ''0'') = 0"
  by (induction k) (simp_all add: replicate_append_same [symmetric] digit_val_def)

lemma dec_value_pad_left [simp]: "dec_value (pad_left w CHR ''0'' s) = dec_value s"
  by (simp add: pad_left_def dec_value_append)

lemma pad_left_digits: "list_all is_digit s \<Longrightarrow> list_all is_digit (pad_left w CHR ''0'' s)"
  by (auto simp: pad_left_def list_all_iff is_digit_def)

lemma fixed_point_pad:
  assumes "0 < d"
  shows "nat_to_dec (n div 10 ^ d) @ pad_left d CHR ''0'' (nat_to_dec (n mod 10 ^ d)) =
         pad_left (Suc d) CHR ''0'' (nat_to_dec n)"
  using assms
proof (induction d arbitrary: n)
  case (Suc d)
  show ?case
  proof (cases "d = 0")
    case True
    then show ?thesis
      using pad_left_Suc [of 1 n] pad_left_one [of "CHR ''0''" "n mod 10"]
      by (simp add: nat_to_dec_small)
  next
    case False
    let ?m = "n div 10"
    have split: "n div 10 ^ Suc d = ?m div 10 ^ d" "(n mod 10 ^ Suc d) div 10 = ?m mod 10 ^ d"
        "(n mod 10 ^ Suc d) mod 10 = n mod 10"
      by (simp_all add: div_mult2_eq mod_mult2_eq)
    have "nat_to_dec (n div 10 ^ Suc d) @ pad_left (Suc d) CHR ''0'' (nat_to_dec (n mod 10 ^ Suc d))
          = (nat_to_dec (?m div 10 ^ d) @ pad_left d CHR ''0'' (nat_to_dec (?m mod 10 ^ d)))
            @ [digit_char (n mod 10)]"
      using False by (simp only: pad_left_Suc split append_assoc)
    also have "\<dots> = pad_left (Suc d) CHR ''0'' (nat_to_dec ?m) @ [digit_char (n mod 10)]"
      using Suc.IH [of ?m] False by simp
    also have "\<dots> = pad_left (Suc (Suc d)) CHR ''0'' (nat_to_dec n)"
      by (simp only: pad_left_Suc)
    finally show ?thesis .
  qed
qed simp

lemma length_pad_mod [simp]:
  "0 < d \<Longrightarrow> length (pad_left d CHR ''0'' (nat_to_dec (n mod 10 ^ d))) = d"
  using nat_to_dec_length_le [of "n mod 10 ^ d" d] by (simp add: length_pad_left max_def)

lemma insert_point_fixed_point:
  assumes "0 < d"
  shows "insert_point d (pad_left (Suc d) CHR ''0'' (nat_to_dec n)) = fixed_point d n"
proof -
  let ?w = "nat_to_dec (n div 10 ^ d)" and ?f = "pad_left d CHR ''0'' (nat_to_dec (n mod 10 ^ d))"
  have "insert_point d (?w @ ?f) = ?w @ ''.'' @ ?f"
    using assms by (simp add: insert_point_def)
  then show ?thesis
    using fixed_point_pad [OF assms, of n] assms by (simp add: fixed_point_def)
qed

text \<open>The padding branch of the code is the unconditional padding.\<close>

lemma pad_if_short:
  "(if length s \<le> d then pad_left (d + 1) c s else s) = pad_left (Suc d) c s"
  by (simp add: pad_left_def)

lemma fixed_point_value:
  assumes "0 < d"
  shows "\<exists>w f. fixed_point d n = w @ ''.'' @ f \<and> length f = d \<and> list_all is_digit (w @ f)
           \<and> w \<noteq> [] \<and> dec_value (w @ f) = n"
proof (intro exI conjI)
  let ?w = "nat_to_dec (n div 10 ^ d)" and ?f = "pad_left d CHR ''0'' (nat_to_dec (n mod 10 ^ d))"
  show "fixed_point d n = ?w @ ''.'' @ ?f" using assms by (simp add: fixed_point_def)
  show "length ?f = d" using assms by simp
  show "list_all is_digit (?w @ ?f)" by (simp add: pad_left_digits)
  show "?w \<noteq> []" by simp
  show "dec_value (?w @ ?f) = n"
    using assms by (simp add: dec_value_append div_mult_mod_eq)
qed

section \<open>The formatters meet the specification\<close>

lemma unat_ten_power: "d \<le> 19 \<Longrightarrow> unat ((10 :: u64) ^ d) = 10 ^ d"
proof -
  assume "d \<le> 19"
  then have "(10::nat) ^ d \<le> 10 ^ 19" by (rule power_increasing) simp
  also have "\<dots> < 2 ^ 64" by simp
  finally have lt: "(10::nat) ^ d < 2 ^ 64" .
  have "(10 :: u64) ^ d = of_nat (10 ^ d)" by simp
  then show ?thesis
    using lt by (simp only: unsigned_of_nat take_bit_nat_eq_self_iff) (simp add: take_bit_nat_eq_self)
qed

lemma format_atomic_amount_fixed_point:
  assumes "d \<le> 19"
  shows "format_atomic_amount a (10 ^ d) d = fixed_point d (unat a)"
proof -
  have nz: "(10 :: u64) ^ d \<noteq> 0"
    using unat_ten_power [OF assms] by (metis power_eq_0_iff unat_0 zero_neq_numeral)
  then show ?thesis
    using unat_ten_power [OF assms]
    by (cases "d = 0")
       (simp_all add: format_atomic_amount_def fixed_point_def u64_to_string_def Let_def
          unat_div unat_mod)
qed

lemma zero_digit_iff: "n < 10 \<Longrightarrow> digit_char n = CHR ''0'' \<longleftrightarrow> n = 0"
  by (metis digit_char_zero digit_val_digit_char zero_less_numeral)

lemma hd_nat_to_dec: "n \<noteq> 0 \<Longrightarrow> hd (nat_to_dec n) \<noteq> CHR ''0''"
proof (induction n rule: nat_to_dec.induct)
  case (1 n)
  show ?case
  proof (cases "n < 10")
    case True
    with 1 show ?thesis by (simp add: nat_to_dec_small zero_digit_iff)
  next
    case False
    then have "hd (nat_to_dec n) = hd (nat_to_dec (n div 10))"
      by (subst nat_to_dec_step) simp_all
    with 1 False show ?thesis by simp
  qed
qed

lemma dropWhile_zero_nat_to_dec:
  "(if dropWhile (\<lambda>c. c = CHR ''0'') (nat_to_dec n) = [] then ''0''
    else dropWhile (\<lambda>c. c = CHR ''0'') (nat_to_dec n)) = nat_to_dec n"
proof (cases "n = 0")
  case True
  then show ?thesis by (simp add: nat_to_dec_small)
next
  case False
  then obtain c cs where "nat_to_dec n = c # cs" "c \<noteq> CHR ''0''"
    using hd_nat_to_dec [of n] by (cases "nat_to_dec n") auto
  then show ?thesis by simp
qed

lemma format_atomic_decimal_string_nat:
  "format_atomic_decimal_string (nat_to_dec n) d = fixed_point d n"
  unfolding format_atomic_decimal_string_def Let_def dropWhile_zero_nat_to_dec pad_if_short
  by (simp add: insert_point_fixed_point) (simp add: fixed_point_def)

lemma scale_loop_eq: "scale_loop k s = s * 10 ^ k"
  by (induction k arbitrary: s) (simp_all add: mult.assoc)

lemma unat_scale_loop:
  assumes "k \<le> 38"
  shows "unat (scale_loop k 1) = 10 ^ k"
proof -
  have "(10::nat) ^ k \<le> 10 ^ 38" using assms by (rule power_increasing) simp
  also have "\<dots> < 2 ^ 256" by simp
  finally have lt: "(10::nat) ^ k < 2 ^ 256" .
  have "scale_loop k 1 = of_nat (10 ^ k)" by (simp add: scale_loop_eq)
  then show ?thesis
    using lt by (simp only: unsigned_of_nat) (simp add: take_bit_nat_eq_self)
qed

lemma unat_ucast_u128_u256 [simp]: "unat (ucast (x :: u128) :: u256) = unat x"
  by (simp add: unsigned_ucast_eq take_bit_nat_eq_self_iff order_less_trans [OF unat_u128_less])

lemma decimal_ratio_fixed_point:
  assumes "den \<noteq> 0" and "k \<le> 38"
  shows "decimal_ratio num den k = fixed_point k (unat num * 10 ^ k div unat den)"
proof -
  have "(10::nat) ^ k \<le> 10 ^ 38" using assms(2) by (rule power_increasing) simp
  then have "unat num * 10 ^ k < 2 ^ 128 * 10 ^ 38"
    using unat_u128_less [of num] by (intro mult_less_le_imp_less) auto
  also have "\<dots> < (2::nat) ^ 256" by simp
  finally have "unat num * 10 ^ k < 2 ^ 256" .
  then have "unat (ucast num * scale_loop k 1 :: u256) = unat num * 10 ^ k"
    by (simp add: unat_word_ariths unat_scale_loop assms(2))
  then show ?thesis
    using assms(1) unfolding decimal_ratio_def Let_def pad_if_short
    by (simp add: insert_point_fixed_point unat_div) (simp add: fixed_point_def)
qed

section \<open>The unit of the hashrate display\<close>

lemma hashrate_unit_loop_spec:
  assumes "unit < 7" "unat divisor = unat target * 1000 ^ unit" "0 < unit \<longrightarrow> divisor \<le> difficulty"
    and "hashrate_unit_loop difficulty divisor unit = (v, u)"
  shows "u < 7 \<and> unat v = unat (target :: u64) * 1000 ^ u
    \<and> (0 < u \<longrightarrow> unat target * 1000 ^ u \<le> unat difficulty)
    \<and> (u < 6 \<longrightarrow> unat difficulty < unat target * 1000 ^ (u + 1))"
  using assms
proof (induction difficulty divisor unit rule: hashrate_unit_loop.induct)
  case (1 difficulty divisor unit)
  have n: "length hashrate_units = 7" by (simp add: hashrate_units_def)
  show ?case
  proof (cases "unit < 6")
    case False
    with "1.prems" show ?thesis
      by (auto simp: hashrate_unit_loop.simps [of difficulty divisor unit] n word_le_nat_alt)
  next
    case True
    then have "(1000::nat) ^ unit \<le> 1000 ^ 5" by (intro power_increasing) auto
    then have "unat target * 1000 ^ unit * 1000 < 2 ^ 64 * 1000 ^ 5 * 1000"
      using unat_u64_less [of target] by (intro mult_less_le_imp_less mult_strict_right_mono) auto
    also have "\<dots> < (2::nat) ^ 128" by simp
    finally have m: "unat (divisor * 1000) = unat target * 1000 ^ (unit + 1)"
      using "1.prems"(2) by (simp add: unat_word_ariths mult.assoc mult.commute)
    show ?thesis
    proof (cases "divisor * 1000 \<le> difficulty")
      case c: True
      have g: "unit + 1 < length hashrate_units \<and> divisor * 1000 \<le> difficulty"
        using True c n by simp
      show ?thesis
      proof (rule "1.IH" [OF g])
        show "unit + 1 < 7" using True by simp
        show "unat (divisor * 1000) = unat target * 1000 ^ (unit + 1)" by (rule m)
        show "0 < unit + 1 \<longrightarrow> divisor * 1000 \<le> difficulty" using c by simp
        show "hashrate_unit_loop difficulty (divisor * 1000) (unit + 1) = (v, u)"
          using "1.prems"(4) g by (simp add: hashrate_unit_loop.simps [of difficulty divisor unit])
      qed
    next
      case False
      with "1.prems" m show ?thesis
        by (auto simp: hashrate_unit_loop.simps [of difficulty divisor unit] word_le_nat_alt)
    qed
  qed
qed

lemma make_difficulty_value: "unat (make_difficulty low high) = unat high * 2 ^ 64 + unat low"
proof -
  have h: "unat high * 2 ^ 64 < 2 ^ 128" "unat high * 2 ^ 64 + unat low < 2 ^ 128"
    using unat_u64_less [of high] unat_u64_less [of low] by simp_all
  have "unat (push_bit 64 (ucast high :: u128)) = unat high * 2 ^ 64"
    using h(1) by (simp add: push_bit_eq_mult unat_word_ariths)
  with h(2) show ?thesis
    by (simp add: make_difficulty_def unat_word_ariths)
qed

text \<open>
  C22. A printed amount is exact: with \<open>COIN = 10 ^ d\<close> the text is digits, a point and exactly
  \<open>d\<close> digits, the integer part has no superfluous zero, and reading the digits back gives the
  number of atomic units.
\<close>

theorem amount_text_exact:
  assumes "0 < d" "d \<le> 19"
  shows "\<exists>w f. format_atomic_amount a (10 ^ d) d = w @ ''.'' @ f \<and> length f = d
           \<and> list_all is_digit (w @ f) \<and> w = nat_to_dec (unat a div 10 ^ d)
           \<and> dec_value (w @ f) = unat a"
proof -
  let ?w = "nat_to_dec (unat a div 10 ^ d)"
  let ?f = "pad_left d CHR ''0'' (nat_to_dec (unat a mod 10 ^ d))"
  have "format_atomic_amount a (10 ^ d) d = ?w @ ''.'' @ ?f"
    using assms by (simp add: format_atomic_amount_fixed_point fixed_point_def)
  moreover have "list_all is_digit (?w @ ?f)" by (simp add: pad_left_digits)
  moreover have "dec_value (?w @ ?f) = unat a"
    using assms div_mult_mod_eq [of "unat a" "10 ^ d"] by (simp add: dec_value_append)
  ultimately show ?thesis using assms by fastforce
qed

theorem amount_text_exact_witness:
  "\<exists>w f. format_atomic_amount 1234567890123 (10 ^ 8) 8 = w @ ''.'' @ f \<and> length f = 8
     \<and> dec_value (w @ f) = 1234567890123"
  using amount_text_exact [of 8 1234567890123] by fastforce

text \<open>
  The two formatters agree: formatting the decimal text of an amount gives what formatting
  the amount itself gives.
\<close>

theorem amount_formatters_agree:
  assumes "d \<le> 19"
  shows "format_atomic_decimal_string (u64_to_string a) d = format_atomic_amount a (10 ^ d) d"
  using assms
  by (simp add: u64_to_string_def format_atomic_decimal_string_nat format_atomic_amount_fixed_point)

theorem amount_formatters_agree_witness:
  "format_atomic_decimal_string (u64_to_string 5) 8 = format_atomic_amount 5 (10 ^ 8) 8"
  by (rule amount_formatters_agree) simp

text \<open>
  The displayed hashrate is the exact quotient of difficulty and block time, truncated to
  three places in the largest unit whose value is at least one.
\<close>

theorem hashrate_display_exact:
  assumes "target \<noteq> 0"
  shows "\<exists>u < 7. format_hashrate_si difficulty target =
             fixed_point 3 (unat difficulty * 1000 div (unat target * 1000 ^ u)) @ '' '' @ hashrate_units ! u
           \<and> (0 < u \<longrightarrow> unat target * 1000 ^ u \<le> unat difficulty)
           \<and> (u < 6 \<longrightarrow> unat difficulty < unat target * 1000 ^ (u + 1))"
proof -
  obtain v u where vu: "hashrate_unit_loop difficulty (ucast target) 0 = (v, u)" by fastforce
  have spec: "u < 7 \<and> unat v = unat target * 1000 ^ u
    \<and> (0 < u \<longrightarrow> unat target * 1000 ^ u \<le> unat difficulty)
    \<and> (u < 6 \<longrightarrow> unat difficulty < unat target * 1000 ^ (u + 1))"
    using hashrate_unit_loop_spec [of 0 "ucast target" target difficulty v u] vu by simp
  have "unat target \<noteq> 0" using assms by (metis unat_eq_zero)
  then have "v \<noteq> 0" using spec by (metis mult_eq_0_iff power_eq_0_iff unat_0 zero_neq_numeral)
  then have "decimal_ratio difficulty v 3 = fixed_point 3 (unat difficulty * 1000 div unat v)"
    by (simp add: decimal_ratio_fixed_point)
  then have "format_hashrate_si difficulty target =
      fixed_point 3 (unat difficulty * 1000 div (unat target * 1000 ^ u)) @ '' '' @ hashrate_units ! u"
    using assms vu spec by (simp add: format_hashrate_si_def)
  with spec show ?thesis by (intro exI [of _ u] conjI) simp_all
qed

theorem hashrate_display_exact_witness:
  "\<exists>u < 7. format_hashrate_si 123456789 120 =
      fixed_point 3 (unat (123456789 :: u128) * 1000 div (unat (120 :: u64) * 1000 ^ u)) @ '' '' @ hashrate_units ! u"
proof -
  have "(120 :: u64) \<noteq> 0" by simp
  from hashrate_display_exact [OF this, of 123456789] show ?thesis by (elim exE conjE) (intro exI conjI)
qed

end
