(* ===== verification/Pagination.thy ===== *)
theory Pagination
  imports Prelude
begin

text \<open>
  \<open>src/pagination.h\<close>: strict parsing of request numbers, bounded pagination, and the window of
  block heights of a page, newest first. All quantities are \<open>uint64_t\<close>, with their wrap-around.
\<close>

record bounded_pagination =
  page :: u64
  limit :: u64
  offset :: u64

record descending_block_range =
  range_begin :: u64
  end_exclusive :: u64
  returned_count :: u64
  range_empty :: bool

text \<open>The default member initialisers, which \<open>return {}\<close> yields.\<close>

definition empty_range :: descending_block_range where
  "empty_range = \<lparr>range_begin = 0, end_exclusive = 0, returned_count = 0, range_empty = True\<rparr>"

definition make_descending_block_range :: "u64 \<Rightarrow> u64 \<Rightarrow> u64 \<Rightarrow> descending_block_range" where
  "make_descending_block_range block_count off lim =
     (if lim = 0 \<or> block_count \<le> off then empty_range
      else
        let end_excl = block_count - off;
            begin_h = (if lim < end_excl then end_excl - lim else 0)
        in \<lparr>range_begin = begin_h, end_exclusive = end_excl,
            returned_count = end_excl - begin_h, range_empty = False\<rparr>)"

definition parse_uint64_strict :: "string \<Rightarrow> u64 option" where
  "parse_uint64_strict input =
     (if input = [] then None
      else case from_chars_u64 input of
             Parsed n v \<Rightarrow> (if n = length input then Some v else None)
           | _ \<Rightarrow> None)"

definition parse_bounded_pagination ::
    "string \<Rightarrow> string \<Rightarrow> u64 \<Rightarrow> bounded_pagination option" where
  "parse_bounded_pagination page_text limit_text maximum_limit =
     (case parse_uint64_strict page_text of
        None \<Rightarrow> None
      | Some p \<Rightarrow>
        (case parse_uint64_strict limit_text of
           None \<Rightarrow> None
         | Some l \<Rightarrow>
           if l = 0 \<or> maximum_limit < l \<or> u64_max div l < p then None
           else Some \<lparr>page = p, limit = l, offset = p * l\<rparr>))"

text \<open>
  The heights a page shows, as the descending loops of \<open>json_transactions\<close>, \<open>json_overview\<close> and
  \<open>index2\<close> visit them: from \<open>end_exclusive - 1\<close> down to \<open>begin\<close>.
\<close>

definition range_heights :: "descending_block_range \<Rightarrow> nat list" where
  "range_heights r = rev [unat (range_begin r)..<unat (end_exclusive r)]"

section \<open>Strict parsing\<close>

lemma parse_uint64_strict_iff:
  "parse_uint64_strict s = Some v \<longleftrightarrow>
     s \<noteq> [] \<and> list_all is_digit s \<and> dec_value s < 2 ^ 64 \<and> v = of_nat (dec_value s)"
proof -
  have full: "length (takeWhile is_digit s) = length s \<longleftrightarrow> list_all is_digit s"
    by (metis list_all_iff length_takeWhile_le nless_le takeWhile_eq_all_conv
        takeWhile_eq_take take_all_iff order_refl)
  show ?thesis
    by (cases "list_all is_digit s")
       (auto simp: parse_uint64_strict_def from_chars_u64_def Let_def full
          split: if_splits)
qed

interpretation strict_u64: text_codec u64_to_string parse_uint64_strict "{c. \<not> is_digit c}"
proof
  show "parse_uint64_strict (u64_to_string x) = Some x" for x
    using unat_u64_less [of x] by (simp add: parse_uint64_strict_iff u64_to_string_def)
  show "c \<in> {c. \<not> is_digit c} \<Longrightarrow> c \<notin> set (u64_to_string x)" for c x
    by (simp add: u64_to_string_def nat_to_dec_no_char)
qed

section \<open>Windows of heights\<close>

lemma range_of_page:
  assumes "lim \<noteq> 0" "off < block_count"
  shows "unat (end_exclusive (make_descending_block_range block_count off lim))
           = unat block_count - unat off"
    and "unat (range_begin (make_descending_block_range block_count off lim))
           = unat block_count - unat off - unat lim"
proof -
  have ne: "\<not> block_count \<le> off" using assms(2) by simp
  have e: "unat (block_count - off) = unat block_count - unat off"
    using assms(2) by (simp add: unat_sub less_imp_le)
  then show "unat (end_exclusive (make_descending_block_range block_count off lim))
           = unat block_count - unat off"
    using assms ne by (simp add: make_descending_block_range_def Let_def)
  have "lim < block_count - off \<Longrightarrow>
      unat (block_count - off - lim) = unat block_count - unat off - unat lim"
    by (simp add: unat_sub less_imp_le e)
  moreover have "\<not> lim < block_count - off \<Longrightarrow> unat block_count - unat off - unat lim = 0"
    by (simp add: word_less_nat_alt e)
  ultimately show "unat (range_begin (make_descending_block_range block_count off lim))
           = unat block_count - unat off - unat lim"
    using assms ne by (simp add: make_descending_block_range_def Let_def)
qed

lemma range_heights_page:
  "range_heights (make_descending_block_range block_count off lim) =
     rev [unat block_count - unat off - unat lim..<unat block_count - unat off]"
proof (cases "lim = 0 \<or> block_count \<le> off")
  case True
  then show ?thesis
    by (auto simp: make_descending_block_range_def empty_range_def range_heights_def word_le_nat_alt)
next
  case False
  then show ?thesis
    by (auto simp: range_heights_def range_of_page not_le)
qed

text \<open>Consecutive pages cut the heights below the block count into adjacent windows.\<close>

lemma rev_window_append:
  "a \<le> b \<Longrightarrow> b \<le> c \<Longrightarrow> rev [b..<c] @ rev [a..<b] = rev [a..<(c::nat)]"
  by (metis le_iff_add rev_append upt_add_eq_append)

lemma concat_windows:
  "concat (map (\<lambda>k. rev [n - k * l - l..<n - k * l]) [0..<m]) = rev [n - m * l..<(n::nat)]"
proof (induction m)
  case (Suc m)
  have "n - m * l - l = n - Suc m * l" by simp
  then show ?case
    using Suc rev_window_append [of "n - Suc m * l" "n - m * l" n] by simp
qed simp

text \<open>
  Strict number parsing accepts exactly the non-empty texts of digits whose value fits
  64 bits, and returns that value: no sign, no white space, no trailing text, no wrap-around.
\<close>

theorem strict_parse_exact:
  "parse_uint64_strict s = Some v \<longleftrightarrow>
     s \<noteq> [] \<and> list_all is_digit s \<and> dec_value s < 2 ^ 64 \<and> unat v = dec_value s"
proof -
  have "v = of_nat (dec_value s) \<longleftrightarrow> unat v = dec_value s" if "dec_value s < 2 ^ 64"
    using that by (auto simp: word_unat_eq_iff unsigned_of_nat take_bit_nat_eq_self)
  then show ?thesis by (auto simp: parse_uint64_strict_iff)
qed

lemma offset_guard: "l \<noteq> 0 \<Longrightarrow> p \<le> u64_max div l \<longleftrightarrow> unat p * unat l < 2 ^ 64"
proof -
  assume "l \<noteq> 0"
  then have "0 < unat l" by (simp add: word_gt_0 unat_gt_0)
  then have "unat p \<le> (2 ^ 64 - 1) div unat l \<longleftrightarrow> unat p * unat l \<le> 2 ^ 64 - 1"
    by (rule less_eq_div_iff_mult_less_eq)
  then show ?thesis
    by (auto simp: word_le_nat_alt unat_div u64_max_def unsigned_minus_1_eq_mask mask_eq_exp_minus_1)
qed

lemma pagination_offset:
  assumes "parse_bounded_pagination p l m = Some pg"
  shows "unat (offset pg) = unat (page pg) * unat (limit pg)" "limit pg \<noteq> 0" "limit pg \<le> m"
proof -
  from assms have pg: "page pg \<le> u64_max div limit pg" "offset pg = page pg * limit pg" "limit pg \<noteq> 0" "limit pg \<le> m"
    by (auto simp: parse_bounded_pagination_def split: option.splits if_splits)
  then show "limit pg \<noteq> 0" "limit pg \<le> m" by auto
  show "unat (offset pg) = unat (page pg) * unat (limit pg)"
    using pg offset_guard [of "limit pg" "page pg"] by (simp add: unat_word_ariths)
qed

text \<open>
  Bounded pagination accepts a page and a limit exactly when the limit is between one and
  the maximum and the offset fits 64 bits; the offset is then the exact product.
\<close>

theorem pagination_accepts_exactly:
  "parse_bounded_pagination (u64_to_string p) (u64_to_string l) m =
     (if l \<noteq> 0 \<and> l \<le> m \<and> unat p * unat l < 2 ^ 64
      then Some \<lparr>page = p, limit = l, offset = of_nat (unat p * unat l)\<rparr> else None)"
proof -
  have "of_nat (unat p * unat l) = p * l" by simp
  with offset_guard show ?thesis
    by (cases "l = 0"; cases "l \<le> m"; cases "p \<le> u64_max div l")
       (auto simp: parse_bounded_pagination_def strict_u64.decode_encode not_less not_le)
qed

text \<open>
  C21. The pages of the block list partition the chain: putting the windows of pages \<open>0\<close> to
  \<open>m - 1\<close> one after the other lists every height once, newest first, as soon as the pages reach
  the genesis block.
\<close>

theorem pages_partition_heights:
  assumes "m * l < 2 ^ 64" "unat n \<le> m * l"
  shows "concat (map (\<lambda>k. range_heights (make_descending_block_range n (of_nat (k * l)) (of_nat l))) [0..<m])
           = rev [0..<unat n]"
proof -
  have small: "l < 2 ^ 64" if "0 < m" using assms(1) that
    by (metis One_nat_def Suc_leI le_trans mult.commute mult.right_neutral mult_le_mono2 not_le)
  have "range_heights (make_descending_block_range n (of_nat (k * l)) (of_nat l))
      = rev [unat n - k * l - l..<unat n - k * l]" if "k < m" for k
  proof -
    have "k * l \<le> m * l" using that by (intro mult_le_mono1) simp
    then have "k * l < 2 ^ 64" "l < 2 ^ 64" using assms(1) small that by linarith+
    then have "unat (of_nat (k * l) :: u64) = k * l" "unat (of_nat l :: u64) = l"
      by (simp_all only: unsigned_of_nat) (simp_all add: take_bit_nat_eq_self)
    then show ?thesis by (simp only: range_heights_page)
  qed
  then have eq: "map (\<lambda>k. range_heights (make_descending_block_range n (of_nat (k * l)) (of_nat l))) [0..<m]
      = map (\<lambda>k. rev [unat n - k * l - l..<unat n - k * l]) [0..<m]"
    by simp
  show ?thesis unfolding eq concat_windows using assms(2) by simp
qed

theorem pages_partition_heights_witness:
  "concat (map (\<lambda>k. range_heights (make_descending_block_range 57 (of_nat (k * 25)) (of_nat 25))) [0..<3])
     = rev [0..<57]"
  using pages_partition_heights [of 3 25 57] by simp

end
