(* ===== verification/Rpc_Calls.thy ===== *)
theory Rpc_Calls
  imports Core_View "HOL-Library.Multiset"
begin

text \<open>
  \<open>src/rpccalls.cpp\<close> and \<open>src/rpccalls.h\<close>: the calls to the daemon over one HTTP connection. The
  HTTP client of the core (\<open>http_simple_client\<close>, \<open>invoke_http_json\<close>) is not part of the
  repository: its answers are the fields of \<open>http_env\<close>, functions of how many connections and
  requests were made before. The client's state here is what the calls observe of it and the
  paths of the requests handed to it, in order. The mutex \<open>m_daemon_rpc_mutex\<close> makes each call
  one step. Diagnostics on \<open>cerr\<close> are not modelled.
\<close>

section \<open>The connection\<close>

record http_client =
  hc_connected :: bool
  hc_connects :: nat
  hc_sent :: "string list"

record http_env =
  net_connect :: "nat \<Rightarrow> bool"
  net_stays :: "nat \<Rightarrow> bool"
  status_ok :: string
  status_busy :: string

definition client_connect :: "http_env \<Rightarrow> http_client \<Rightarrow> bool \<times> http_client" where
  "client_connect E c =
     (let ok = net_connect E (hc_connects c)
      in (ok, c\<lparr>hc_connected := ok, hc_connects := hc_connects c + 1\<rparr>))"

definition client_disconnect :: "http_client \<Rightarrow> http_client" where
  "client_disconnect c = c\<lparr>hc_connected := False\<rparr>"

text \<open>
  One request: \<open>call n\<close> is what the client does with its \<open>n\<close>-th request, given the response
  object, which a failed request may have filled in part.
\<close>

definition client_send ::
    "http_env \<Rightarrow> (nat \<Rightarrow> 'res \<Rightarrow> bool \<times> 'res) \<Rightarrow> string \<Rightarrow> 'res \<Rightarrow> http_client \<Rightarrow>
       bool \<times> 'res \<times> http_client" where
  "client_send E call path res c =
     (let n = length (hc_sent c) in
      case call n res of
        (ok, res') \<Rightarrow> (ok, res', c\<lparr>hc_sent := hc_sent c @ [path], hc_connected := net_stays E n\<rparr>))"

definition connect_to_monero_daemon :: "http_env \<Rightarrow> http_client \<Rightarrow> bool \<times> http_client" where
  "connect_to_monero_daemon E c = (if hc_connected c then (True, c) else client_connect E c)"

fun reconnect_loop ::
    "nat \<Rightarrow> http_env \<Rightarrow> ('res \<Rightarrow> http_client \<Rightarrow> bool \<times> 'res \<times> http_client) \<Rightarrow> 'res \<Rightarrow> http_client \<Rightarrow>
       bool \<times> 'res \<times> http_client" where
  "reconnect_loop 0 E invocation res c = (False, res, c)"
| "reconnect_loop (Suc n) E invocation res c =
     (case connect_to_monero_daemon E c of
        (False, c1) \<Rightarrow> reconnect_loop n E invocation res (client_disconnect c1)
      | (True, c1) \<Rightarrow>
        (case invocation res c1 of
           (True, res', c2) \<Rightarrow> (True, res', c2)
         | (False, res', c2) \<Rightarrow> reconnect_loop n E invocation res' (client_disconnect c2)))"

definition invoke_with_reconnect ::
    "http_env \<Rightarrow> ('res \<Rightarrow> http_client \<Rightarrow> bool \<times> 'res \<times> http_client) \<Rightarrow> bool \<Rightarrow> 'res \<Rightarrow> http_client \<Rightarrow>
       bool \<times> 'res \<times> http_client" where
  "invoke_with_reconnect E invocation retry_safe res c =
     reconnect_loop (if retry_safe then 2 else 1) E invocation res c"

section \<open>Proxying wallet requests\<close>

record raw_response =
  raw_status :: int
  raw_body :: string
  raw_content_type :: string

definition default_raw_response :: raw_response where
  "default_raw_response = \<lparr>raw_status = 502, raw_body = [], raw_content_type = []\<rparr>"

record http_response_info =
  m_response_code :: int
  m_body :: string
  m_mime_tipe :: string

definition default_maximum_response_bytes :: nat where
  "default_maximum_response_bytes = 12 * 1024 * 1024"

text \<open>
  \<open>post n path body content_type\<close> is the outcome of the client's \<open>n\<close>-th request: its success
  and the response pointer (\<open>None\<close> for a null pointer). The invocation clears the pointer first.
\<close>

definition proxy_wallet_request ::
    "http_env \<Rightarrow> (nat \<Rightarrow> string \<Rightarrow> string \<Rightarrow> string \<Rightarrow> bool \<times> http_response_info option) \<Rightarrow>
       string \<Rightarrow> string \<Rightarrow> string \<Rightarrow> raw_response \<Rightarrow> bool \<Rightarrow> nat \<Rightarrow> http_client \<Rightarrow>
       bool \<times> raw_response \<times> http_client" where
  "proxy_wallet_request E post path body content_type response retry_safe maximum_response_bytes c =
     (case invoke_with_reconnect E
             (\<lambda>_. client_send E (\<lambda>n _. post n path body content_type) path None)
             retry_safe None c of
        (ok, upstream, c') \<Rightarrow>
          (if \<not> ok then (False, response, c')
           else case upstream of
                  None \<Rightarrow> (False, response, c')
                | Some u \<Rightarrow>
                  if maximum_response_bytes < length (m_body u) then (False, response, c')
                  else (True, \<lparr>raw_status = m_response_code u, raw_body = m_body u,
                               raw_content_type = (if m_mime_tipe u = [] then content_type
                                                   else m_mime_tipe u)\<rparr>, c')))"

section \<open>Typed calls\<close>

text \<open>
  A response object of the daemon: its status and the members a call reads. The response a call
  returns is \<open>Some\<close> when the call returns \<open>true\<close> (and assigns its output argument).
\<close>

record 'p rpc_res =
  res_status :: string
  res_data :: 'p

type_synonym 'p json_call = "nat \<Rightarrow> 'p rpc_res \<Rightarrow> bool \<times> 'p rpc_res"

definition invoke_json ::
    "http_env \<Rightarrow> 'p json_call \<Rightarrow> string \<Rightarrow> bool \<Rightarrow> 'p rpc_res \<Rightarrow> http_client \<Rightarrow>
       bool \<times> 'p rpc_res \<times> http_client" where
  "invoke_json E call path retry_safe res c =
     invoke_with_reconnect E (client_send E call path) retry_safe res c"

definition get_base_fee_estimate ::
    "http_env \<Rightarrow> u64 json_call \<Rightarrow> u64 rpc_res \<Rightarrow> http_client \<Rightarrow> bool \<times> u64 \<times> http_client" where
  "get_base_fee_estimate E call res c =
     (case invoke_json E call ''/get_fee_estimate'' True res c of
        (r, res', c') \<Rightarrow> (r, res_data res', c'))"

definition get_current_height ::
    "http_env \<Rightarrow> u64 json_call \<Rightarrow> u64 rpc_res \<Rightarrow> http_client \<Rightarrow> u64 \<times> http_client" where
  "get_current_height E call res c =
     (case invoke_json E call ''/getheight'' True res c of
        (r, res', c') \<Rightarrow> (if \<not> r then (0, c') else (res_data res', c')))"

text \<open>The members of \<open>tx_info\<close> the explorer reads.\<close>

record tx_info =
  id_hash :: string
  tx_blob_hex :: string
  tx_json :: string
  ti_blob_size :: u64
  ti_weight :: u64
  ti_fee :: u64
  receive_time :: u64

text \<open>
  The comparison of \<open>std::sort\<close>: later receive times first. The order of equal times is not
  specified by C++; here they keep theirs.
\<close>

definition sort_by_receive_time :: "tx_info list \<Rightarrow> tx_info list" where
  "sort_by_receive_time txs = sort_key (\<lambda>t. - int (unat (receive_time t))) txs"

definition get_mempool ::
    "http_env \<Rightarrow> tx_info list json_call \<Rightarrow> tx_info list rpc_res \<Rightarrow> http_client \<Rightarrow>
       tx_info list option \<times> http_client" where
  "get_mempool E call res c =
     (case invoke_json E call ''/get_transaction_pool'' True res c of
        (r, res', c') \<Rightarrow>
          if \<not> r \<or> res_status res' \<noteq> status_ok E then (None, c')
          else (Some (sort_by_receive_time (res_data res')), c'))"

text \<open>\<open>commit_tx\<close>: the data of the response is its reason; the error message is \<open>Inl\<close>.\<close>

definition commit_tx ::
    "http_env \<Rightarrow> string json_call \<Rightarrow> string rpc_res \<Rightarrow> http_client \<Rightarrow> (string + unit) \<times> http_client" where
  "commit_tx E call res c =
     (case invoke_json E call ''/sendrawtransaction'' False res c of
        (r, res', c') \<Rightarrow>
          if \<not> r \<or> res_status res' = ''Failed'' then (Inl (res_data res'), c') else (Inr (), c'))"

text \<open>
  The block of code that \<open>get_network_info\<close>, \<open>get_hardfork_info\<close>,
  \<open>get_dynamic_per_kb_fee_estimate\<close>, \<open>get_block\<close> and \<open>get_alt_blocks\<close> share: a busy daemon and
  any status but OK are errors.
\<close>

definition classify_status :: "http_env \<Rightarrow> string \<Rightarrow> bool \<Rightarrow> 'p rpc_res \<Rightarrow> string + 'p" where
  "classify_status E busy_text r res =
     (if r
      then let err = (if res_status res = status_busy E then busy_text
                      else if res_status res \<noteq> status_ok E then res_status res else [])
           in if err \<noteq> [] then Inl err else Inr (res_data res)
      else Inl ''not connected'')"

definition get_network_info ::
    "http_env \<Rightarrow> 'p json_call \<Rightarrow> 'p rpc_res \<Rightarrow> http_client \<Rightarrow> (string + 'p) \<times> http_client" where
  "get_network_info E call res c =
     (case invoke_json E call ''/json_rpc'' True res c of
        (r, res', c') \<Rightarrow> (classify_status E ''Daemon is busy. Please try again later.'' r res', c'))"

definition get_epose_info ::
    "http_env \<Rightarrow> 'p json_call \<Rightarrow> 'p rpc_res \<Rightarrow> http_client \<Rightarrow> 'p option \<times> http_client" where
  "get_epose_info E call res c =
     (case invoke_json E call ''/json_rpc'' True res c of
        (r, res', c') \<Rightarrow>
          if \<not> r \<or> res_status res' \<noteq> status_ok E then (None, c') else (Some (res_data res'), c'))"

definition get_service_nodes ::
    "http_env \<Rightarrow> 'p json_call \<Rightarrow> 'p rpc_res \<Rightarrow> http_client \<Rightarrow> 'p option \<times> http_client" where
  "get_service_nodes E call res c =
     (case invoke_json E call ''/get_service_nodes'' True res c of
        (r, res', c') \<Rightarrow>
          if \<not> r \<or> res_status res' \<noteq> status_ok E then (None, c') else (Some (res_data res'), c'))"

text \<open>The data of the next two responses carry the flags \<open>ready\<close> and \<open>mapping_available\<close>.\<close>

definition get_epose_service_endpoint_v2 ::
    "http_env \<Rightarrow> ('p \<Rightarrow> bool) \<Rightarrow> 'p json_call \<Rightarrow> 'p rpc_res \<Rightarrow> http_client \<Rightarrow> 'p option \<times> http_client" where
  "get_epose_service_endpoint_v2 E ready call res c =
     (case invoke_json E call ''/get_epose_service_endpoint_v2'' True res c of
        (r, res', c') \<Rightarrow>
          if \<not> r \<or> res_status res' \<noteq> status_ok E \<or> \<not> ready (res_data res') then (None, c')
          else (Some (res_data res'), c'))"

definition get_service_rewards ::
    "http_env \<Rightarrow> 'p json_call \<Rightarrow> 'p rpc_res \<Rightarrow> http_client \<Rightarrow> 'p option \<times> http_client" where
  "get_service_rewards E call res c =
     (case invoke_json E call ''/get_service_rewards'' True res c of
        (r, res', c') \<Rightarrow>
          if \<not> r \<or> res_status res' \<noteq> status_ok E then (None, c') else (Some (res_data res'), c'))"

definition get_epose_block_reward ::
    "http_env \<Rightarrow> ('p \<Rightarrow> bool) \<Rightarrow> 'p json_call \<Rightarrow> 'p rpc_res \<Rightarrow> http_client \<Rightarrow> 'p option \<times> http_client" where
  "get_epose_block_reward E mapping_available call res c =
     (case invoke_json E call ''/get_epose_block_reward'' True res c of
        (r, res', c') \<Rightarrow>
          if \<not> r \<or> res_status res' \<noteq> status_ok E \<or> \<not> mapping_available (res_data res') then (None, c')
          else (Some (res_data res'), c'))"

definition get_hardfork_info ::
    "http_env \<Rightarrow> 'p json_call \<Rightarrow> 'p rpc_res \<Rightarrow> http_client \<Rightarrow> (string + 'p) \<times> http_client" where
  "get_hardfork_info E call res c =
     (case invoke_json E call ''/json_rpc'' True res c of
        (r, res', c') \<Rightarrow> (classify_status E ''daemon is busy. Please try again later.'' r res', c'))"

definition get_dynamic_per_kb_fee_estimate ::
    "http_env \<Rightarrow> u64 json_call \<Rightarrow> u64 rpc_res \<Rightarrow> http_client \<Rightarrow> (string + u64) \<times> http_client" where
  "get_dynamic_per_kb_fee_estimate E call res c =
     (case invoke_json E call ''/json_rpc'' True res c of
        (r, res', c') \<Rightarrow> (classify_status E ''daemon is busy. Please try again later.'' r res', c'))"

text \<open>
  \<open>get_block\<close>: \<open>from_hex\<close> is \<open>parse_hexstr_to_binbuff\<close> and \<open>parse_block\<close> is
  \<open>parse_and_validate_block_from_blob\<close>, both of the core.
\<close>

definition rpc_get_block ::
    "http_env \<Rightarrow> (string \<Rightarrow> blob option) \<Rightarrow> (blob \<Rightarrow> block option) \<Rightarrow> string json_call \<Rightarrow> string rpc_res \<Rightarrow>
       http_client \<Rightarrow> block option \<times> http_client" where
  "rpc_get_block E from_hex parse_block call res c =
     (case invoke_json E call ''/json_rpc'' True res c of
        (r, res', c') \<Rightarrow>
          (case classify_status E ''daemon is busy. Please try again later.'' r res' of
             Inl e \<Rightarrow> (None, c')
           | Inr blob_hex \<Rightarrow>
             (case from_hex blob_hex of
                None \<Rightarrow> (None, c')
              | Some bin \<Rightarrow> (parse_block bin, c'))))"

text \<open>\<open>get_alt_blocks\<close> connects once more than the others, before the retry loop.\<close>

definition get_alt_blocks ::
    "http_env \<Rightarrow> string list json_call \<Rightarrow> string list rpc_res \<Rightarrow> http_client \<Rightarrow>
       string list option \<times> http_client" where
  "get_alt_blocks E call res c =
     (case connect_to_monero_daemon E c of
        (False, c1) \<Rightarrow> (None, c1)
      | (True, c1) \<Rightarrow>
        (case invoke_json E call ''/get_alt_blocks_hashes'' True res c1 of
           (r, res', c') \<Rightarrow>
             if r \<and> res_status res' \<noteq> status_busy E \<and> res_status res' = status_ok E
             then (Some (res_data res'), c') else (None, c')))"

section \<open>How often a request is sent\<close>

lemma connect_frame:
  "connect_to_monero_daemon E c = (b, c') \<Longrightarrow> hc_sent c' = hc_sent c \<and> (b \<longrightarrow> hc_connected c')"
  by (auto simp: connect_to_monero_daemon_def client_connect_def Let_def split: if_splits)

lemma client_send_frame:
  "client_send E call path res c = (b, res', c') \<Longrightarrow> hc_sent c' = hc_sent c @ [path]"
  by (auto simp: client_send_def Let_def split: prod.splits)

text \<open>The loop sends the request at most once per attempt, and drops the transport on failure.\<close>

lemma reconnect_loop_sent:
  assumes send: "\<And>res c b res' c'. ivk res c = (b, res', c') \<Longrightarrow> hc_sent c' = hc_sent c @ [path]"
  shows "reconnect_loop n E ivk res c = (b, res', c') \<Longrightarrow>
    \<exists>k \<le> n. hc_sent c' = hc_sent c @ replicate k path \<and> (b \<longrightarrow> 0 < k)
      \<and> (\<not> b \<longrightarrow> 0 < n \<longrightarrow> \<not> hc_connected c')"
proof (induction n arbitrary: res c)
  case (Suc n)
  obtain ok c1 where con: "connect_to_monero_daemon E c = (ok, c1)" by fastforce
  have c1: "hc_sent c1 = hc_sent c" using connect_frame [OF con] by simp
  show ?case
  proof (cases ok)
    case False
    have go: "reconnect_loop n E ivk res (client_disconnect c1) = (b, res', c')"
      using Suc.prems con False by simp
    from Suc.IH [OF this] obtain k where
      "k \<le> n" "hc_sent c' = hc_sent c @ replicate k path" "b \<longrightarrow> 0 < k"
      "\<not> b \<longrightarrow> 0 < n \<longrightarrow> \<not> hc_connected c'"
      by (auto simp: client_disconnect_def c1)
    moreover have "\<not> b \<Longrightarrow> n = 0 \<Longrightarrow> \<not> hc_connected c'"
      using go by (auto simp: client_disconnect_def)
    ultimately show ?thesis by (intro exI [of _ k]) auto
  next
    case True
    obtain b1 res1 c2 where iv: "ivk res c1 = (b1, res1, c2)" by (metis prod_cases3)
    have c2: "hc_sent c2 = hc_sent c @ [path]" using send [OF iv] c1 by simp
    show ?thesis
    proof (cases b1)
      case True
      with Suc.prems con \<open>ok\<close> iv c2 show ?thesis by (intro exI [of _ 1]) auto
    next
      case False
      have go: "reconnect_loop n E ivk res1 (client_disconnect c2) = (b, res', c')"
        using Suc.prems con \<open>ok\<close> iv False by simp
      from Suc.IH [OF this] obtain k where
        "k \<le> n" "hc_sent c' = hc_sent c @ path # replicate k path"
        "\<not> b \<longrightarrow> 0 < n \<longrightarrow> \<not> hc_connected c'"
        by (auto simp: client_disconnect_def c2)
      moreover have "\<not> b \<Longrightarrow> n = 0 \<Longrightarrow> \<not> hc_connected c'"
        using go by (auto simp: client_disconnect_def)
      ultimately show ?thesis by (intro exI [of _ "Suc k"]) auto
    qed
  qed
qed auto

lemma invoke_sent:
  assumes "\<And>res c b res' c'. ivk res c = (b, res', c') \<Longrightarrow> hc_sent c' = hc_sent c @ [path]"
    and "invoke_with_reconnect E ivk retry_safe res c = (b, res', c')"
  shows "\<exists>k \<le> (if retry_safe then 2 else 1). hc_sent c' = hc_sent c @ replicate k path
    \<and> (b \<longrightarrow> 0 < k) \<and> (\<not> b \<longrightarrow> \<not> hc_connected c')"
proof -
  let ?n = "if retry_safe then 2 else 1 :: nat"
  have "0 < ?n" by simp
  moreover have "\<exists>k \<le> ?n. hc_sent c' = hc_sent c @ replicate k path \<and> (b \<longrightarrow> 0 < k)
      \<and> (\<not> b \<longrightarrow> 0 < ?n \<longrightarrow> \<not> hc_connected c')"
    by (rule reconnect_loop_sent [OF assms(1) assms(2) [unfolded invoke_with_reconnect_def]])
  ultimately show ?thesis by blast
qed

lemma invoke_json_sent:
  assumes "invoke_json E call path retry_safe res c = (b, res', c')"
  shows "\<exists>k \<le> (if retry_safe then 2 else 1). hc_sent c' = hc_sent c @ replicate k path
    \<and> (b \<longrightarrow> 0 < k) \<and> (\<not> b \<longrightarrow> \<not> hc_connected c')"
proof (rule invoke_sent)
  show "hc_sent c' = hc_sent c @ [path]" if "client_send E call path res c = (b, res', c')" for res c b res' c'
    using that by (rule client_send_frame)
  show "invoke_with_reconnect E (client_send E call path) retry_safe res c = (b, res', c')"
    using assms by (simp add: invoke_json_def)
qed

lemma proxy_wallet_sent:
  assumes "proxy_wallet_request E post path body ctype resp retry_safe bound c = (ok, resp', c')"
  shows "(\<exists>k. k \<le> (if retry_safe then 2 else 1) \<and> hc_sent c' = hc_sent c @ replicate k path \<and> (ok \<longrightarrow> 0 < k))
    \<and> (if ok then length (raw_body resp') \<le> bound else resp' = resp)"
proof -
  let ?ivk = "\<lambda>_ :: http_response_info option. client_send E (\<lambda>n _. post n path body ctype) path None"
  obtain b up where iv: "invoke_with_reconnect E ?ivk retry_safe None c = (b, up, c')"
    and rest: "ok \<longrightarrow> b" "if ok then length (raw_body resp') \<le> bound else resp' = resp"
    using assms by (auto simp: proxy_wallet_request_def split: prod.splits if_splits option.splits)
  have "hc_sent c' = hc_sent c @ [path]" if "?ivk res c = (b, res', c')" for res c b res' c'
    using that by (rule client_send_frame)
  then have "\<exists>k \<le> (if retry_safe then 2 else 1). hc_sent c' = hc_sent c @ replicate k path
      \<and> (b \<longrightarrow> 0 < k) \<and> (\<not> b \<longrightarrow> \<not> hc_connected c')"
    using iv by (rule invoke_sent)
  with rest show ?thesis by blast
qed

text \<open>
  A transaction submission is handed to the daemon's connection at most once, whatever the
  network does, and exactly once when it is reported accepted; a failed transport is dropped.
\<close>

theorem commit_tx_sent_at_most_once:
  assumes "commit_tx E call res c = (out, c')"
  shows "hc_sent c' = hc_sent c \<and> (\<exists>e. out = Inl e)
    \<or> hc_sent c' = hc_sent c @ [''/sendrawtransaction'']"
proof -
  obtain r res' where iv: "invoke_json E call ''/sendrawtransaction'' False res c = (r, res', c')"
    and out: "out = (if \<not> r \<or> res_status res' = ''Failed'' then Inl (res_data res') else Inr ())"
    using assms by (auto simp: commit_tx_def split: prod.splits if_splits)
  from invoke_json_sent [OF iv] obtain k where
    "k \<le> 1" "hc_sent c' = hc_sent c @ replicate k ''/sendrawtransaction''" "r \<longrightarrow> 0 < k" by auto
  then show ?thesis using out by (cases k) auto
qed

definition sample_env :: http_env where
  "sample_env = \<lparr>net_connect = (\<lambda>_. True), net_stays = (\<lambda>_. True), status_ok = ''OK'', status_busy = ''BUSY''\<rparr>"

definition sample_client :: http_client where
  "sample_client = \<lparr>hc_connected = True, hc_connects = 0, hc_sent = []\<rparr>"

theorem commit_tx_sent_at_most_once_witness:
  "hc_sent (snd (commit_tx sample_env (\<lambda>n res. (False, res)) \<lparr>res_status = [], res_data = ''no reply''\<rparr> sample_client))
     = [''/sendrawtransaction'']"
proof -
  let ?run = "commit_tx sample_env (\<lambda>n res. (False, res)) \<lparr>res_status = [], res_data = ''no reply''\<rparr> sample_client"
  have "?run = (Inl ''no reply'', \<lparr>hc_connected = False, hc_connects = 0, hc_sent = [''/sendrawtransaction'']\<rparr>)"
    by (simp add: commit_tx_def invoke_json_def invoke_with_reconnect_def connect_to_monero_daemon_def
        client_send_def client_disconnect_def sample_client_def sample_env_def Let_def)
  with commit_tx_sent_at_most_once [OF this] show ?thesis by (simp add: sample_client_def)
qed

text \<open>
  A proxied wallet request is sent at most twice when it may be retried and at most once
  when it may not; a response is delivered only from a request that was sent, and is never
  larger than the bound; otherwise the caller's response object is left alone.
\<close>

theorem proxy_wallet_request_bounded:
  assumes "proxy_wallet_request E post path body ctype resp retry_safe bound c = (ok, resp', c')"
  shows "(\<exists>k. k \<le> (if retry_safe then 2 else 1) \<and> hc_sent c' = hc_sent c @ replicate k path \<and> (ok \<longrightarrow> 0 < k))
    \<and> (if ok then length (raw_body resp') \<le> bound else resp' = resp)"
  using proxy_wallet_sent [OF assms] .

theorem proxy_wallet_request_bounded_witness:
  "let out = proxy_wallet_request sample_env
       (\<lambda>n p b t. (True, Some \<lparr>m_response_code = 200, m_body = ''abc'', m_mime_tipe = []\<rparr>))
       ''/get_outs'' [] ''application/json'' default_raw_response True 2 sample_client
   in \<not> fst out \<and> fst (snd out) = default_raw_response"
proof -
  let ?post = "\<lambda>(n :: nat) (p :: string) (b :: string) (t :: string).
      (True, Some \<lparr>m_response_code = 200, m_body = ''abc'', m_mime_tipe = []\<rparr>)"
  obtain ok r c where run: "proxy_wallet_request sample_env ?post ''/get_outs'' [] ''application/json''
      default_raw_response True 2 sample_client = (ok, r, c)"
    by (metis prod_cases3)
  then have "\<not> ok"
    by (simp add: proxy_wallet_request_def invoke_with_reconnect_def numeral_2_eq_2
        connect_to_monero_daemon_def client_send_def sample_client_def Let_def)
  with proxy_wallet_request_bounded [OF run] run show ?thesis by simp
qed

text \<open>The mempool list is the daemon's list, reordered so that the newest come first.\<close>

theorem get_mempool_sorted:
  assumes "get_mempool E call res c = (Some txs, c')"
  shows "sorted_wrt (\<lambda>s t. receive_time t \<le> receive_time s) txs
    \<and> (\<exists>r res'. invoke_json E call ''/get_transaction_pool'' True res c = (True, res', c')
         \<and> mset txs = mset (res_data res'))"
proof -
  obtain res' where iv: "invoke_json E call ''/get_transaction_pool'' True res c = (True, res', c')"
    and txs: "txs = sort_by_receive_time (res_data res')"
    using assms by (auto simp: get_mempool_def split: prod.splits if_splits)
  have "sorted (map (\<lambda>t. - int (unat (receive_time t))) txs)"
    unfolding txs sort_by_receive_time_def by (rule sorted_sort_key)
  then have "sorted_wrt (\<lambda>s t. receive_time t \<le> receive_time s) txs"
    by (simp add: sorted_map word_le_def)
  with iv txs show ?thesis by (auto simp: sort_by_receive_time_def)
qed

theorem get_mempool_sorted_witness:
  "let t = (\<lambda>n. \<lparr>id_hash = [], tx_blob_hex = [], tx_json = [], ti_blob_size = 0, ti_weight = 0, ti_fee = 0, receive_time = n\<rparr>);
       out = get_mempool sample_env (\<lambda>n _. (True, \<lparr>res_status = ''OK'', res_data = [t 3, t 9]\<rparr>))
               \<lparr>res_status = [], res_data = []\<rparr> sample_client
   in \<exists>txs. fst out = Some txs \<and> sorted_wrt (\<lambda>s t. receive_time t \<le> receive_time s) txs"
proof -
  let ?t = "\<lambda>n. \<lparr>id_hash = [], tx_blob_hex = [], tx_json = [], ti_blob_size = 0, ti_weight = 0, ti_fee = 0, receive_time = n\<rparr>"
  let ?out = "get_mempool sample_env (\<lambda>n _. (True, \<lparr>res_status = ''OK'', res_data = [?t 3, ?t 9]\<rparr>))
               \<lparr>res_status = [], res_data = []\<rparr> sample_client"
  obtain txs c where run: "?out = (Some txs, c)"
    by (simp add: get_mempool_def invoke_json_def invoke_with_reconnect_def numeral_2_eq_2 Let_def
        connect_to_monero_daemon_def client_send_def sample_client_def sample_env_def)
  with get_mempool_sorted [OF run] show ?thesis by (simp add: Let_def)
qed

end
