(* ===== verification/Json.thy ===== *)
theory Json
  imports Prelude
begin

text \<open>
  JSON values as the handlers build and read them through \<open>nlohmann::json\<close>. The library itself
  is third-party code: its parser and its printer are parameters where they are used. An object
  is an association list with distinct keys in the order of their first assignment (the library
  prints the keys sorted, which no handler observes). Floating-point members carry the value the
  caller's formatter produced, of an arbitrary type coded as text.
\<close>

datatype json =
    JNull
  | JBool bool
  | JNum int
  | JFloat string
  | JStr string
  | JArr "json list"
  | JObj "(string \<times> json) list"

abbreviation JU64 :: "u64 \<Rightarrow> json" where
  "JU64 x \<equiv> JNum (int (unat x))"

fun is_object :: "json \<Rightarrow> bool" where
  "is_object (JObj _) = True"
| "is_object _ = False"

fun is_string :: "json \<Rightarrow> bool" where
  "is_string (JStr _) = True"
| "is_string _ = False"

text \<open>\<open>contains(key)\<close>, and \<open>at(key)\<close> with \<open>None\<close> for the exception.\<close>

fun jat :: "json \<Rightarrow> string \<Rightarrow> json option" where
  "jat (JObj kvs) k = map_of kvs k"
| "jat _ k = None"

definition jcontains :: "json \<Rightarrow> string \<Rightarrow> bool" where
  "jcontains j k \<longleftrightarrow> jat j k \<noteq> None"

text \<open>
  \<open>value(key, default)\<close> for a string default: the default when the key is missing, an exception
  (\<open>None\<close>) when the value is not an object or the member is not a string.
\<close>

fun jvalue_string :: "json \<Rightarrow> string \<Rightarrow> string \<Rightarrow> string option" where
  "jvalue_string (JObj kvs) k d =
     (case map_of kvs k of
        None \<Rightarrow> Some d
      | Some (JStr s) \<Rightarrow> Some s
      | Some _ \<Rightarrow> None)"
| "jvalue_string _ k d = None"

text \<open>
  \<open>j[key] = v\<close>: an assignment replaces the member or adds it; a null value becomes an object.
  On any other value the library throws, which no handler does.
\<close>

fun jput :: "string \<Rightarrow> json \<Rightarrow> (string \<times> json) list \<Rightarrow> (string \<times> json) list" where
  "jput k v [] = [(k, v)]"
| "jput k v ((k', v') # kvs) = (if k' = k then (k, v) # kvs else (k', v') # jput k v kvs)"

fun jset :: "string \<Rightarrow> json \<Rightarrow> json \<Rightarrow> json" where
  "jset k v (JObj kvs) = JObj (jput k v kvs)"
| "jset k v JNull = JObj [(k, v)]"
| "jset k v j = j"

text \<open>\<open>j.push_back(v)\<close>: a null value becomes an array.\<close>

fun jpush :: "json \<Rightarrow> json \<Rightarrow> json" where
  "jpush (JArr vs) v = JArr (vs @ [v])"
| "jpush JNull v = JArr [v]"
| "jpush j v = j"

text \<open>Reading a path of members and array positions.\<close>

definition jget :: "string \<Rightarrow> json \<Rightarrow> json" where
  "jget k j = (case jat j k of None \<Rightarrow> JNull | Some v \<Rightarrow> v)"

fun jelems :: "json \<Rightarrow> json list" where
  "jelems (JArr vs) = vs"
| "jelems _ = []"

lemma map_of_jput [simp]: "map_of (jput k v kvs) = (map_of kvs)(k \<mapsto> v)"
  by (induction k v kvs rule: jput.induct) auto

lemma jget_jset_same [simp]: "is_object j \<Longrightarrow> jget k (jset k v j) = v"
  by (cases j) (simp_all add: jget_def)

lemma jget_jset_other [simp]: "k \<noteq> k' \<Longrightarrow> is_object j \<Longrightarrow> jget k (jset k' v j) = jget k j"
  by (cases j) (simp_all add: jget_def)

lemma is_object_jset [simp]: "is_object j \<Longrightarrow> is_object (jset k v j)"
  by (cases j) simp_all

lemma jget_JObj_Nil [simp]: "jget k (JObj []) = JNull"
  by (simp add: jget_def)

lemma jget_JObj_Cons [simp]: "jget k (JObj ((k', v) # kvs)) = (if k' = k then v else jget k (JObj kvs))"
  by (simp add: jget_def)

lemma jelems_jpush [simp]: "jelems (jpush (JArr vs) v) = vs @ [v]"
  by simp

end
