(* ===== verification/Responses.thy ===== *)
theory Responses
  imports Json
begin

text \<open>
  HTTP responses of \<open>main.cpp\<close>: Crow's response object (third-party code, seen through its status
  code, header list and body) and the two response classes of the explorer, which fix the headers
  and derive the status code of an API answer from its JSend envelope.
\<close>

record response =
  code :: nat
  headers :: "(string \<times> string) list"
  body :: string

definition blank_response :: response where
  "blank_response = \<lparr>code = 200, headers = [], body = []\<rparr>"

text \<open>\<open>add_header\<close> adds an entry; \<open>set_header\<close> removes the entries of the key first.\<close>

definition add_header :: "string \<Rightarrow> string \<Rightarrow> response \<Rightarrow> response" where
  "add_header k v r = r\<lparr>headers := headers r @ [(k, v)]\<rparr>"

definition set_header :: "string \<Rightarrow> string \<Rightarrow> response \<Rightarrow> response" where
  "set_header k v r = r\<lparr>headers := filter (\<lambda>(k', _). k' \<noteq> k) (headers r) @ [(k, v)]\<rparr>"

definition common_headers :: "(string \<times> string) list" where
  "common_headers =
     [(''Cache-Control'', ''no-store''),
      (''Referrer-Policy'', ''no-referrer''),
      (''X-Content-Type-Options'', ''nosniff''),
      (''X-Frame-Options'', ''DENY''),
      (''Permissions-Policy'', ''camera=(), microphone=(), geolocation=()'')]"

definition content_security_policy :: string where
  "content_security_policy =
     ''default-src 'self'; style-src 'self' 'unsafe-inline'; script-src 'self' 'unsafe-inline'; '' @
     ''img-src 'self' data:; connect-src 'self'; object-src 'none'; base-uri 'none'; '' @
     ''frame-ancestors 'none'; form-action 'self'' @ [CHR 0x27]"

definition htmlresponse :: "string \<Rightarrow> response" where
  "htmlresponse text =
     \<lparr>code = 200,
      headers = [(''Content-Type'', ''text/html; charset=utf-8'')] @ common_headers
                @ [(''Content-Security-Policy'', content_security_policy)],
      body = text\<rparr>"

text \<open>\<open>jsonresponse\<close>: \<open>dump\<close> is the printer of the JSON library.\<close>

definition json_status_code :: "json \<Rightarrow> nat" where
  "json_status_code j =
     (case jat j ''status'' of
        Some (JStr status) \<Rightarrow>
          (if status = ''fail'' then 400 else if status = ''error'' then 503 else 200)
      | _ \<Rightarrow> 200)"

definition jsonresponse :: "(json \<Rightarrow> string) \<Rightarrow> json \<Rightarrow> response" where
  "jsonresponse dump j =
     \<lparr>code = json_status_code j,
      headers = [(''Access-Control-Allow-Origin'', ''*''),
                 (''Access-Control-Allow-Headers'', ''Content-Type''),
                 (''Content-Type'', ''application/json'')] @ common_headers,
      body = dump j\<rparr>"

lemma map_of_append_first: "map_of (kvs @ lvs) k = (case map_of kvs k of None \<Rightarrow> map_of lvs k | Some v \<Rightarrow> Some v)"
  by (auto simp: map_add_def split: option.splits)

end
