(* ===== verification/Wallet_Rpc.thy ===== *)
theory Wallet_Rpc
  imports Rpc_Calls Responses
begin

text \<open>
  The wallet gateway: the allow-list of \<open>src/wallet_rpc_policy.h\<close> and the handler
  \<open>wallet_rpc_handler\<close> of \<open>main.cpp\<close>, which checks a browser wallet's request, bounds the number
  of requests in flight and forwards it to the restricted node over one of a pool of connections.
  The JSON parser is a parameter (\<open>None\<close> for the exception it throws).
\<close>

section \<open>Policy\<close>

datatype wallet_rpc_policy_result = Allowed | Malformed | Forbidden

definition wallet_rpc_paths :: "string list" where
  "wallet_rpc_paths =
     [''/json_rpc'', ''/getblocks.bin'', ''/getblocks_by_height.bin'',
      ''/gethashes.bin'', ''/get_o_indexes.bin'', ''/get_output_distribution.bin'',
      ''/get_outs'', ''/get_outs.bin'', ''/get_transactions'', ''/gettransactions'',
      ''/get_transaction_pool_hashes.bin'', ''/is_key_image_spent'',
      ''/send_raw_transaction'', ''/submit_raw_tx'', ''/sendrawtransaction'']"

definition wallet_rpc_path_allowed :: "string \<Rightarrow> bool" where
  "wallet_rpc_path_allowed path \<longleftrightarrow> path \<in> set wallet_rpc_paths"

definition transaction_submission_paths :: "string list" where
  "transaction_submission_paths =
     [''/send_raw_transaction'', ''/submit_raw_tx'', ''/sendrawtransaction'']"

definition wallet_rpc_path_retry_safe :: "string \<Rightarrow> bool" where
  "wallet_rpc_path_retry_safe path \<longleftrightarrow>
     wallet_rpc_path_allowed path \<and> path \<notin> set transaction_submission_paths"

definition wallet_rpc_methods :: "string list" where
  "wallet_rpc_methods =
     [''get_info'', ''get_version'', ''get_block_count'', ''get_fee_estimate'',
      ''get_last_block_header'', ''get_block_header_by_height'', ''getblockheaderbyheight'',
      ''get_block_headers_range'', ''getblockheadersrange'', ''hard_fork_info'',
      ''get_output_histogram'', ''get_transactions'']"

text \<open>
  \<open>authorize_wallet_json_rpc\<close>: the conditions are evaluated from left to right and every
  exception is a malformed request; the method is written only when the envelope is accepted.
\<close>

definition authorize_wallet_json_rpc ::
    "(string \<Rightarrow> json option) \<Rightarrow> string \<Rightarrow> string \<Rightarrow> wallet_rpc_policy_result \<times> string" where
  "authorize_wallet_json_rpc parse text method =
     (case parse text of
        None \<Rightarrow> (Malformed, method)
      | Some payload \<Rightarrow>
        if \<not> is_object payload then (Malformed, method)
        else (case jvalue_string payload ''jsonrpc'' [] of
           None \<Rightarrow> (Malformed, method)
         | Some version \<Rightarrow>
           if version \<noteq> ''2.0'' \<or> \<not> jcontains payload ''id'' then (Malformed, method)
           else (case jat payload ''method'' of
                   Some (JStr m) \<Rightarrow>
                     (if m \<in> set wallet_rpc_methods then Allowed else Forbidden, m)
                 | _ \<Rightarrow> (Malformed, method))))"

section \<open>The handler\<close>

datatype http_method = Get | Head | Post | Options | Other

record request =
  req_method :: http_method
  req_origin :: string
  req_body :: string

definition origin_allowed :: "string \<Rightarrow> bool" where
  "origin_allowed origin \<longleftrightarrow>
     origin = ''https://wallet.qwertycoin.org''
     \<or> 18 < length origin \<and> starts_with ''https://'' origin
       \<and> str_find ''.pages.dev'' origin = Some (length origin - 10)"

definition gateway_headers :: "string \<Rightarrow> response" where
  "gateway_headers origin =
     (let r0 = (if origin_allowed origin
                then add_header ''Vary'' ''Origin''
                       (add_header ''Access-Control-Allow-Origin'' origin blank_response)
                else blank_response)
      in add_header ''Cache-Control'' ''no-store''
           (add_header ''X-Content-Type-Options'' ''nosniff''
             (add_header ''Access-Control-Allow-Headers'' ''Content-Type''
               (add_header ''Access-Control-Allow-Methods'' ''POST, OPTIONS'' r0))))"

definition json_error :: "nat \<Rightarrow> string \<Rightarrow> response \<Rightarrow> response" where
  "json_error status text r =
     (set_header ''Content-Type'' ''application/json'' r)\<lparr>code := status, body := text\<rparr>"

definition is_binary :: "string \<Rightarrow> bool" where
  "is_binary path \<longleftrightarrow> ends_with ''.bin'' path"

text \<open>
  The handler up to the admission: \<open>Inl\<close> is an answer, \<open>Inr\<close> the response under construction of
  a request that may be forwarded.
\<close>

definition wallet_rpc_precheck ::
    "(string \<Rightarrow> json option) \<Rightarrow> request \<Rightarrow> string \<Rightarrow> response + response" where
  "wallet_rpc_precheck parse req requested_path =
     (let r = gateway_headers (req_origin req); path = CHR ''/'' # requested_path in
      if req_method req = Options then Inl (r\<lparr>code := 204\<rparr>)
      else if \<not> wallet_rpc_path_allowed path
      then Inl (json_error 403 ''{\"error\":\"RPC path not allowed\"}'' r)
      else if (if is_binary path then 2 * 1024 * 1024 else 256 * 1024) < length (req_body req)
      then Inl (json_error 413 ''{\"error\":\"RPC request too large\"}'' r)
      else if path = ''/json_rpc''
      then (case authorize_wallet_json_rpc parse (req_body req) [] of
              (Allowed, _) \<Rightarrow> Inr r
            | (Malformed, _) \<Rightarrow>
                Inl (json_error 400 ''{\"error\":\"Malformed JSON-RPC envelope; batches and notifications are not accepted\"}'' r)
            | (Forbidden, _) \<Rightarrow> Inl (json_error 403 ''{\"error\":\"JSON-RPC method not allowed\"}'' r))
      else Inr r)"

text \<open>
  The gateway's shared state: the two atomic \<open>unsigned\<close> counters and the connections of the pool.
\<close>

record gateway =
  inflight :: "32 word"
  next_slot :: "32 word"
  pool :: "http_client list"

type_synonym post_fn = "nat \<Rightarrow> string \<Rightarrow> string \<Rightarrow> string \<Rightarrow> bool \<times> http_response_info option"

text \<open>The forwarding of an admitted request; \<open>posts slot\<close> answers the requests of one connection.\<close>

definition wallet_rpc_forward ::
    "http_env \<Rightarrow> (nat \<Rightarrow> post_fn) \<Rightarrow> request \<Rightarrow> string \<Rightarrow> response \<Rightarrow> gateway \<Rightarrow> response \<times> gateway" where
  "wallet_rpc_forward E posts req path r g =
     (let binary = is_binary path;
          content_type = (if binary then ''application/octet-stream'' else ''application/json'');
          retry_safe = (path = ''/json_rpc'' \<or> wallet_rpc_path_retry_safe path);
          slot = unat (next_slot g) mod length (pool g);
          g1 = g\<lparr>next_slot := next_slot g + 1\<rparr>
      in case proxy_wallet_request E (posts slot) path (req_body req) content_type
                default_raw_response retry_safe default_maximum_response_bytes (pool g1 ! slot) of
           (False, _, c) \<Rightarrow>
             (json_error 502 ''{\"error\":\"Restricted QWC node unavailable\"}'' r,
              g1\<lparr>pool := (pool g1)[slot := c]\<rparr>)
         | (True, upstream, c) \<Rightarrow>
             ((set_header ''Content-Type'' content_type r)\<lparr>code := nat (raw_status upstream),
                                                            body := raw_body upstream\<rparr>,
              g1\<lparr>pool := (pool g1)[slot := c]\<rparr>))"

text \<open>
  The whole handler, run without interference: \<open>fetch_add\<close> returns the old value, and the guard
  object decrements the counter when the handler returns.
\<close>

definition wallet_rpc_handler ::
    "(string \<Rightarrow> json option) \<Rightarrow> http_env \<Rightarrow> (nat \<Rightarrow> post_fn) \<Rightarrow> request \<Rightarrow> string \<Rightarrow> gateway \<Rightarrow>
       response \<times> gateway" where
  "wallet_rpc_handler parse E posts req requested_path g =
     (case wallet_rpc_precheck parse req requested_path of
        Inl r \<Rightarrow> (r, g)
      | Inr r \<Rightarrow>
        let g1 = g\<lparr>inflight := inflight g + 1\<rparr> in
        if 16 \<le> inflight g
        then (json_error 429 ''{\"error\":\"Wallet RPC gateway busy\"}'' (set_header ''Retry-After'' ''1'' r),
              g1\<lparr>inflight := inflight g1 - 1\<rparr>)
        else case wallet_rpc_forward E posts req (CHR ''/'' # requested_path) r g1 of
               (r', g2) \<Rightarrow> (r', g2\<lparr>inflight := inflight g2 - 1\<rparr>))"

section \<open>Concurrent requests\<close>

text \<open>
  The counter under concurrency. A request thread increments it, and either forwards and later
  decrements, or was refused and later decrements: between the two atomic operations of a refusal
  the counter counts the refused request as well. \<open>forwarding\<close> and \<open>refusing\<close> count the
  threads in the two phases; at most \<open>threads\<close> run at a time, the 16-bit number of worker threads
  the server is configured with.
\<close>

record gateway_run =
  gr_inflight :: "32 word"
  forwarding :: nat
  refusing :: nat

inductive gateway_step :: "16 word \<Rightarrow> gateway_run \<Rightarrow> gateway_run \<Rightarrow> bool" for threads where
  admit: "gr_inflight s < 16 \<Longrightarrow> forwarding s + refusing s < unat threads \<Longrightarrow>
    gateway_step threads s (s\<lparr>gr_inflight := gr_inflight s + 1, forwarding := forwarding s + 1\<rparr>)"
| refuse: "16 \<le> gr_inflight s \<Longrightarrow> forwarding s + refusing s < unat threads \<Longrightarrow>
    gateway_step threads s (s\<lparr>gr_inflight := gr_inflight s + 1, refusing := refusing s + 1\<rparr>)"
| refused: "0 < refusing s \<Longrightarrow>
    gateway_step threads s (s\<lparr>gr_inflight := gr_inflight s - 1, refusing := refusing s - 1\<rparr>)"
| finished: "0 < forwarding s \<Longrightarrow>
    gateway_step threads s (s\<lparr>gr_inflight := gr_inflight s - 1, forwarding := forwarding s - 1\<rparr>)"

inductive_cases gateway_stepE: "gateway_step threads s s'"

definition gateway_start :: gateway_run where
  "gateway_start = \<lparr>gr_inflight = 0, forwarding = 0, refusing = 0\<rparr>"

definition gateway_inv :: "16 word \<Rightarrow> gateway_run \<Rightarrow> bool" where
  "gateway_inv threads s \<longleftrightarrow>
     unat (gr_inflight s) = forwarding s + refusing s \<and> forwarding s \<le> 16
     \<and> forwarding s + refusing s \<le> unat threads"

lemma unat_u32_less: "unat (x :: 32 word) < 2 ^ 32"
  using unsigned_less [of x, where ?'a = nat] by simp

lemma unat_inc_u32: "unat (x :: 32 word) + 1 < 2 ^ 32 \<Longrightarrow> unat (x + 1) = unat x + 1"
  by (subst unat_add_no_overflow) simp_all

lemma unat_dec_u32: "0 < unat (x :: 32 word) \<Longrightarrow> unat (x - 1) = unat x - 1"
  by (subst unat_sub) (simp_all add: word_le_nat_alt)

lemma unat_u16_less: "unat (x :: 16 word) < 2 ^ 16"
  using unsigned_less [of x, where ?'a = nat] by simp

lemma gateway_step_keeps:
  assumes "gateway_inv threads s" "gateway_step threads s s'"
  shows "gateway_inv threads s'"
  using assms(2)
proof cases
  case admit
  then show ?thesis using assms(1) unat_u16_less [of threads]
    by (auto simp: gateway_inv_def unat_inc_u32 word_less_nat_alt)
next
  case refuse
  then show ?thesis using assms(1) unat_u16_less [of threads]
    by (auto simp: gateway_inv_def unat_inc_u32)
next
  case refused
  then show ?thesis using assms(1) by (auto simp: gateway_inv_def unat_dec_u32)
next
  case finished
  then show ?thesis using assms(1) by (auto simp: gateway_inv_def unat_dec_u32)
qed

interpretation gateway_system: invariant_system "gateway_step threads" "gateway_inv threads" for threads
  by unfold_locales (rule gateway_step_keeps)

section \<open>Properties of the gateway\<close>

text \<open>
  C18. At every moment at most sixteen wallet requests are being forwarded, whatever the
  interleaving of the request threads, and the counter is exactly the number of threads between
  their increment and their decrement: it never wraps, and returns to zero when they are done.
\<close>

theorem gateway_bounds_inflight:
  assumes "steps (gateway_step threads) gateway_start s"
  shows "forwarding s \<le> 16 \<and> unat (gr_inflight s) = forwarding s + refusing s"
proof -
  have "gateway_inv threads gateway_start" by (simp add: gateway_inv_def gateway_start_def)
  from gateway_system.steps_keep [OF assms this] show ?thesis by (simp add: gateway_inv_def)
qed

theorem gateway_bounds_inflight_witness:
  "forwarding (gateway_start\<lparr>gr_inflight := gr_inflight gateway_start + 1,
                             forwarding := forwarding gateway_start + 1\<rparr>) \<le> 16"
proof -
  have "gateway_step 8 gateway_start (gateway_start\<lparr>gr_inflight := gr_inflight gateway_start + 1,
      forwarding := forwarding gateway_start + 1\<rparr>)"
    by (rule gateway_step.admit) (simp_all add: gateway_start_def)
  from gateway_bounds_inflight [OF steps.step [where step = "gateway_step 8", OF steps.stop this]]
  show ?thesis by simp
qed



text \<open>
  The cross-origin header is granted only to the wallet's own origin and to https origins
  whose host ends in \<open>.pages.dev\<close>.
\<close>

theorem cors_only_for_wallet_origins:
  assumes "map_of (headers (gateway_headers origin)) ''Access-Control-Allow-Origin'' = Some v"
  shows "v = origin \<and> (origin = ''https://wallet.qwertycoin.org''
    \<or> starts_with ''https://'' origin \<and> ends_with ''.pages.dev'' origin)"
proof -
  have "origin_allowed origin \<and> v = origin"
    using assms
    by (cases "origin_allowed origin")
       (simp_all add: gateway_headers_def Let_def add_header_def blank_response_def)
  then show ?thesis
    using str_find_at_end [of "''.pages.dev''" origin] by (auto simp: origin_allowed_def)
qed

theorem cors_only_for_wallet_origins_witness:
  "map_of (headers (gateway_headers ''https://demo.pages.dev'')) ''Access-Control-Allow-Origin''
     = Some ''https://demo.pages.dev'' \<and> ends_with ''.pages.dev'' ''https://demo.pages.dev''"
proof -
  have "map_of (headers (gateway_headers ''https://demo.pages.dev'')) ''Access-Control-Allow-Origin''
     = Some ''https://demo.pages.dev''"
    by (simp add: gateway_headers_def Let_def add_header_def blank_response_def origin_allowed_def
        starts_with_def)
  with cors_only_for_wallet_origins [OF this] show ?thesis by auto
qed



end
