(* ===== verification/Tools.thy ===== *)
theory Tools
  imports Core_View
begin

text \<open>
  \<open>src/tools.cpp\<close>, \<open>src/tools.h\<close> and \<open>src/transaction_amounts.h\<close>: sums over transactions, the
  summary of a transaction's inputs and outputs, payment ids, age arithmetic, decoding of
  submitted forms and of printable text. Sums are \<open>uint64_t\<close> and wrap.
\<close>

section \<open>Paths\<close>

definition is_separator :: "char \<Rightarrow> bool" where
  "is_separator c \<longleftrightarrow> c = CHR ''/''"

definition remove_trailing_path_separator :: "string \<Rightarrow> string" where
  "remove_trailing_path_separator in_path =
     (if in_path \<noteq> [] \<and> is_separator (last in_path) then butlast in_path else in_path)"

text \<open>\<open>data_dir\<close> is \<open>tools::get_default_data_dir()\<close> of the core.\<close>

definition get_default_lmdb_folder :: "string \<Rightarrow> network_type \<Rightarrow> string" where
  "get_default_lmdb_folder data_dir nt =
     (let d1 = (if nt = TESTNET then data_dir @ ''/testnet'' else data_dir);
          d2 = (if nt = STAGENET then d1 @ ''/stagenet'' else d1)
      in d2 @ ''/lmdb'')"

definition get_blockchain_path ::
    "string \<Rightarrow> (string \<Rightarrow> bool) \<Rightarrow> string option \<Rightarrow> network_type \<Rightarrow> bool \<times> string" where
  "get_blockchain_path data_dir is_directory bc_path nt =
     (let p = (case bc_path of Some q \<Rightarrow> q | None \<Rightarrow> get_default_lmdb_folder data_dir nt)
      in if \<not> is_directory p then (False, p) else (True, remove_trailing_path_separator p))"

section \<open>Sums over inputs and outputs\<close>

fun input_of :: "txin_v \<Rightarrow> txin_to_key option" where
  "input_of (TxinToKey k) = Some k"
| "input_of _ = None"

definition get_key_images :: "transaction \<Rightarrow> txin_to_key list" where
  "get_key_images tx = List.map_filter input_of (vin tx)"

fun sum_outputs_loop :: "tx_out list \<Rightarrow> u64 \<Rightarrow> u64" where
  "sum_outputs_loop [] acc = acc"
| "sum_outputs_loop (x # xs) acc = sum_outputs_loop xs (acc + out_amount x)"

definition sum_money_in_outputs :: "transaction \<Rightarrow> u64" where
  "sum_money_in_outputs tx = sum_outputs_loop (vout tx) 0"

fun sum_inputs_loop :: "txin_v list \<Rightarrow> u64 \<Rightarrow> u64" where
  "sum_inputs_loop [] acc = acc"
| "sum_inputs_loop (x # xs) acc =
     (case input_of x of
        None \<Rightarrow> sum_inputs_loop xs acc
      | Some k \<Rightarrow> sum_inputs_loop xs (acc + in_amount k))"

definition sum_money_in_inputs :: "transaction \<Rightarrow> u64" where
  "sum_money_in_inputs tx = sum_inputs_loop (vin tx) 0"

fun count_nonrct_loop :: "txin_v list \<Rightarrow> u64 \<Rightarrow> u64" where
  "count_nonrct_loop [] acc = acc"
| "count_nonrct_loop (x # xs) acc =
     (case input_of x of
        None \<Rightarrow> count_nonrct_loop xs acc
      | Some k \<Rightarrow> count_nonrct_loop xs (if in_amount k \<noteq> 0 then acc + 1 else acc))"

definition count_nonrct_inputs :: "transaction \<Rightarrow> u64" where
  "count_nonrct_inputs tx = count_nonrct_loop (vin tx) 0"

definition sum_money_in_tx :: "transaction \<Rightarrow> u64 \<times> u64" where
  "sum_money_in_tx tx = (sum_money_in_inputs tx, sum_money_in_outputs tx)"

fun sum_money_loop :: "transaction list \<Rightarrow> u64 \<times> u64 \<Rightarrow> u64 \<times> u64" where
  "sum_money_loop [] acc = acc"
| "sum_money_loop (tx # txs) (i, j) =
     sum_money_loop txs (i + sum_money_in_inputs tx, j + sum_money_in_outputs tx)"

definition sum_money_in_txs :: "transaction list \<Rightarrow> u64 \<times> u64" where
  "sum_money_in_txs txs = sum_money_loop txs (0, 0)"

fun sum_fees_loop :: "core_lib \<Rightarrow> transaction list \<Rightarrow> u64 \<Rightarrow> u64" where
  "sum_fees_loop L [] acc = acc"
| "sum_fees_loop L (tx # txs) acc = sum_fees_loop L txs (acc + get_tx_fee L tx)"

definition sum_fees_in_txs :: "core_lib \<Rightarrow> transaction list \<Rightarrow> u64" where
  "sum_fees_in_txs L txs = sum_fees_loop L txs 0"

text \<open>
  \<open>get_ouputs\<close>: an output without a public key leaves a tuple of default values (the null key).
\<close>

type_synonym output_tuple = "hash \<times> u64 \<times> 8 word option"

fun view_tag_of :: "txout_target \<Rightarrow> 8 word option" where
  "view_tag_of (TxoutToTaggedKey k t) = Some t"
| "view_tag_of _ = None"

definition output_tuple_of :: "core_lib \<Rightarrow> tx_out \<Rightarrow> output_tuple" where
  "output_tuple_of L x =
     (case get_output_public_key L x of
        None \<Rightarrow> (null_hash, 0, None)
      | Some k \<Rightarrow> (k, out_amount x, view_tag_of (out_target x)))"

definition get_ouputs :: "core_lib \<Rightarrow> transaction \<Rightarrow> output_tuple list" where
  "get_ouputs L tx = map (output_tuple_of L) (vout tx)"

fun outputs_tuple_loop :: "core_lib \<Rightarrow> tx_out list \<Rightarrow> nat \<Rightarrow> (hash \<times> u64 \<times> u64) list" where
  "outputs_tuple_loop L [] n = []"
| "outputs_tuple_loop L (x # xs) n =
     (case get_output_public_key L x of
        None \<Rightarrow> outputs_tuple_loop L xs (Suc n)
      | Some k \<Rightarrow> (k, out_amount x, of_nat n) # outputs_tuple_loop L xs (Suc n))"

definition get_ouputs_tuple :: "core_lib \<Rightarrow> transaction \<Rightarrow> (hash \<times> u64 \<times> u64) list" where
  "get_ouputs_tuple L tx = outputs_tuple_loop L (vout tx) 0"

fun mixin_loop :: "txin_v list \<Rightarrow> u64 \<Rightarrow> u64" where
  "mixin_loop [] mixin_no = mixin_no"
| "mixin_loop (x # xs) mixin_no =
     (case input_of x of
        None \<Rightarrow> mixin_loop xs mixin_no
      | Some k \<Rightarrow>
        let m = size_u64 (key_offsets k) in if 0 < m then m else mixin_loop xs m)"

definition get_mixin_no :: "transaction \<Rightarrow> u64" where
  "get_mixin_no tx = mixin_loop (vin tx) 0"

definition get_mixin_no_in_txs :: "transaction list \<Rightarrow> u64 list" where
  "get_mixin_no_in_txs txs = map get_mixin_no txs"

text \<open>
  \<open>summary_of_in_out_rct\<close>: the two loops in one pass each, as the code has them. An output
  without a key is not added to the output sum.
\<close>

fun summary_outputs ::
    "core_lib \<Rightarrow> tx_out list \<Rightarrow> u64 \<times> output_tuple list \<Rightarrow> u64 \<times> output_tuple list" where
  "summary_outputs L [] acc = acc"
| "summary_outputs L (x # xs) (amount, keys) =
     (case get_output_public_key L x of
        None \<Rightarrow> summary_outputs L xs (amount, keys @ [(null_hash, 0, None)])
      | Some k \<Rightarrow>
        summary_outputs L xs
          (amount + out_amount x, keys @ [(k, out_amount x, view_tag_of (out_target x))]))"

record in_summary =
  is_inputs :: u64
  is_mixin :: u64
  is_nonrct :: u64
  is_keys :: "txin_to_key list"

fun summary_inputs :: "txin_v list \<Rightarrow> in_summary \<Rightarrow> in_summary" where
  "summary_inputs [] acc = acc"
| "summary_inputs (x # xs) acc =
     (case input_of x of
        None \<Rightarrow> summary_inputs xs acc
      | Some k \<Rightarrow>
        summary_inputs xs
          \<lparr>is_inputs = is_inputs acc + in_amount k,
           is_mixin = (if is_mixin acc = 0 then size_u64 (key_offsets k) else is_mixin acc),
           is_nonrct = (if in_amount k \<noteq> 0 then is_nonrct acc + 1 else is_nonrct acc),
           is_keys = is_keys acc @ [k]\<rparr>)"

definition summary_of_in_out_rct ::
    "core_lib \<Rightarrow> transaction \<Rightarrow> output_tuple list \<Rightarrow> txin_to_key list \<Rightarrow>
       (u64 \<times> u64 \<times> u64 \<times> u64) \<times> output_tuple list \<times> txin_to_key list" where
  "summary_of_in_out_rct L tx output_pub_keys input_key_imgs =
     (case summary_outputs L (vout tx) (0, output_pub_keys) of
        (xmr_outputs, keys) \<Rightarrow>
          let s = summary_inputs (vin tx)
                    \<lparr>is_inputs = 0, is_mixin = 0, is_nonrct = 0, is_keys = input_key_imgs\<rparr>
          in ((xmr_outputs, is_inputs s, is_mixin s, is_nonrct s), keys, is_keys s))"

definition transaction_amounts_confidential :: "core_lib \<Rightarrow> transaction \<Rightarrow> bool" where
  "transaction_amounts_confidential L tx \<longleftrightarrow> \<not> is_coinbase L tx \<and> rct_type tx \<noteq> rct_type_null L"

section \<open>Extra fields\<close>

text \<open>
  \<open>get_payment_id\<close>: \<open>nonce_of\<close> is the extra nonce the core's parser finds (\<open>None\<close> when parsing
  fails or there is none), \<open>enc_id\<close> and \<open>plain_id\<close> read an encrypted and a plain id from it.
  The result is the flag and the two output arguments.
\<close>

definition get_payment_id ::
    "(blob \<Rightarrow> string option) \<Rightarrow> (string \<Rightarrow> hash option) \<Rightarrow> (string \<Rightarrow> hash option) \<Rightarrow> blob \<Rightarrow>
       bool \<times> hash \<times> hash" where
  "get_payment_id nonce_of enc_id plain_id extra =
     (case nonce_of extra of
        None \<Rightarrow> (False, null_hash, null_hash8)
      | Some nonce \<Rightarrow>
        (case enc_id nonce of
           Some id8 \<Rightarrow> (True, null_hash, id8)
         | None \<Rightarrow>
           (case plain_id nonce of
              Some pid \<Rightarrow> (True, pid, null_hash8)
            | None \<Rightarrow> (False, null_hash, null_hash8))))"

text \<open>
  \<open>get_tx_pub_key_from_received_outs\<close>: \<open>pub_keys\<close> are the public-key fields of the extra, in
  order; the second one wins when there are two.
\<close>

definition get_tx_pub_key_from_received_outs :: "(blob \<Rightarrow> hash list) \<Rightarrow> transaction \<Rightarrow> hash" where
  "get_tx_pub_key_from_received_outs pub_keys tx =
     (case pub_keys (tx_extra tx) of
        [] \<Rightarrow> null_hash
      | [k] \<Rightarrow> k
      | k # k2 # _ \<Rightarrow> k2)"

section \<open>Time\<close>

definition timestamp_difference :: "u64 \<Rightarrow> u64 \<Rightarrow> u64 \<times> u64 \<times> u64 \<times> u64 \<times> u64" where
  "timestamp_difference t1 t2 =
     (let d0 = (if t1 < t2 then t2 - t1 else t1 - t2);
          years = d0 div 31536000; d1 = d0 - years * 31536000;
          days = d1 div 86400; d2 = d1 - days * 86400;
          hours = d2 div 3600; d3 = d2 - hours * 3600;
          minutes = d3 div 60; d4 = d3 - minutes * 60
      in (years, days, hours, minutes, d4))"

text \<open>
  \<open>gmtime_r\<close> and \<open>strftime\<close> with the format \<open>%F %T\<close>: the proleptic Gregorian calendar date of a
  count of days since 1970-01-01, and the time of day. A \<open>uint64_t\<close> is converted to the signed
  \<open>time_t\<close>.
\<close>

definition civil_from_days :: "int \<Rightarrow> int \<times> int \<times> int" where
  "civil_from_days days =
     (let z = days + 719468; era = z div 146097; doe = z mod 146097;
          yoe = (doe - doe div 1460 + doe div 36524 - doe div 146096) div 365;
          doy = doe - (365 * yoe + yoe div 4 - yoe div 100);
          mp = (5 * doy + 2) div 153;
          d = doy - (153 * mp + 2) div 5 + 1;
          m = (if mp < 10 then mp + 3 else mp - 9);
          y = yoe + era * 400 + (if m \<le> 2 then 1 else 0)
      in (y, m, d))"

definition two_digits :: "int \<Rightarrow> string" where
  "two_digits n = (if n < 10 then CHR ''0'' # nat_to_dec (nat n) else nat_to_dec (nat n))"

definition int_to_dec :: "int \<Rightarrow> string" where
  "int_to_dec n = (if n < 0 then CHR ''-'' # nat_to_dec (nat (- n)) else nat_to_dec (nat n))"

definition timestamp_to_str_gm :: "u64 \<Rightarrow> string" where
  "timestamp_to_str_gm timestamp =
     (let s = sint timestamp; sod = s mod 86400 in
      case civil_from_days (s div 86400) of
        (y, m, d) \<Rightarrow>
          int_to_dec y @ ''-'' @ two_digits m @ ''-'' @ two_digits d @ '' '' @
          two_digits (sod div 3600) @ '':'' @ two_digits (sod mod 3600 div 60) @ '':'' @
          two_digits (sod mod 60))"

section \<open>Submitted text\<close>

definition is_hex :: "char \<Rightarrow> bool" where
  "is_hex c \<longleftrightarrow> is_digit c \<or> (let n = of_char c :: nat in 65 \<le> n \<and> n \<le> 70 \<or> 97 \<le> n \<and> n \<le> 102)"

definition hex_val :: "char \<Rightarrow> nat" where
  "hex_val c =
     (let n = of_char c :: nat in
      if is_digit c then n - 48 else if n \<le> 70 then n - 55 else n - 87)"

definition hex_value :: "string \<Rightarrow> nat" where
  "hex_value s = foldl (\<lambda>acc c. 16 * acc + hex_val c) 0 s"

text \<open>
  \<open>is >> std::hex >> value\<close> on a short text: white space is skipped, a sign and a \<open>0x\<close> prefix
  are accepted, and the digits end at the first other character; no digits is a failure.
\<close>

definition read_hex_int :: "string \<Rightarrow> int option" where
  "read_hex_int s =
     (let r = dropWhile is_space s;
          signed = (r \<noteq> [] \<and> (hd r = CHR ''+'' \<or> hd r = CHR ''-''));
          neg = (r \<noteq> [] \<and> hd r = CHR ''-'');
          r1 = (if signed then tl r else r);
          r2 = (if starts_with ''0x'' r1 \<or> starts_with ''0X'' r1 then drop 2 r1 else r1);
          ds = takeWhile is_hex r2
      in if ds = [] then None
         else Some (if neg then - int (hex_value ds) else int (hex_value ds)))"

text \<open>\<open>url_decode\<close>: \<open>None\<close> is the result \<open>false\<close>; a value is cast to \<open>char\<close> modulo 256.\<close>

fun url_decode_loop :: "string \<Rightarrow> string \<Rightarrow> string option" where
  "url_decode_loop [] out = Some out"
| "url_decode_loop (c # cs) out =
     (if c = CHR ''%''
      then (case cs of
              a # b # rest \<Rightarrow>
                (case read_hex_int [a, b] of
                   Some v \<Rightarrow> url_decode_loop rest (out @ [char_of (nat (v mod 256))])
                 | None \<Rightarrow> None)
            | _ \<Rightarrow> None)
      else if c = CHR ''+'' then url_decode_loop cs (out @ '' '')
      else url_decode_loop cs (out @ [c]))"

definition url_decode :: "string \<Rightarrow> string option" where
  "url_decode s = url_decode_loop s []"

text \<open>\<open>parse_crow_post_data\<close>: the map of the submitted fields; a piece without \<open>=\<close> ends the loop.\<close>

fun post_fields :: "string list \<Rightarrow> (string \<rightharpoonup> string) \<Rightarrow> (string \<rightharpoonup> string)" where
  "post_fields [] body = body"
| "post_fields (it # rest) body =
     (case str_find ''='' it of
        None \<Rightarrow> body
      | Some pos \<Rightarrow> post_fields rest (body(take pos it \<mapsto> drop (pos + 1) it)))"

definition parse_crow_post_data :: "string \<Rightarrow> (string \<rightharpoonup> string)" where
  "parse_crow_post_data req_body =
     (case url_decode req_body of
        None \<Rightarrow> Map.empty
      | Some tmp \<Rightarrow> post_fields (split_at CHR ''&'' tmp) Map.empty)"

definition good_char :: "char \<Rightarrow> bool" where
  "good_char c \<longleftrightarrow>
     (let n = of_char c :: nat in
      65 \<le> n \<and> n \<le> 90 \<or> 97 \<le> n \<and> n \<le> 122 \<or> 48 \<le> n \<and> n \<le> 57)
     \<or> c = CHR ''+'' \<or> c = CHR ''/'' \<or> c = CHR ''=''"

definition remove_bad_chars :: "string \<Rightarrow> string" where
  "remove_bad_chars s = filter good_char s"

text \<open>\<open>make_printable\<close>: \<open>char\<close> is signed, and \<open>std::hex\<close> prints the 32-bit pattern of the \<open>int\<close>.\<close>

fun nat_to_hex :: "nat \<Rightarrow> string" where
  "nat_to_hex n =
     (let d = (\<lambda>k. if k < 10 then char_of (48 + k) else char_of (87 + k)) in
      if n < 16 then [d n] else nat_to_hex (n div 16) @ [d (n mod 16)])"

declare nat_to_hex.simps [simp del]

definition printable_char :: "char \<Rightarrow> string" where
  "printable_char c =
     (let n = of_char c :: nat in
      if 32 \<le> n \<and> n \<le> 126 then [c]
      else if n \<le> 7 then [CHR 0x5C, CHR ''0'', CHR ''0'', char_of (48 + n)]
      else ''0x'' @ nat_to_hex (if n < 128 then n else 2 ^ 32 - 256 + n))"

definition make_printable :: "string \<Rightarrow> string" where
  "make_printable in_s = concat (map printable_char in_s)"

section \<open>Containers\<close>

text \<open>
  \<open>chunks\<close>: the pieces the callback receives; the loop runs at least once, also on an empty range.
  A chunk length of zero would not advance; the callers pass positive constants.
\<close>

function chunks :: "nat \<Rightarrow> 'a list \<Rightarrow> 'a list list" where
  "chunks k xs =
     (let piece = (if length xs < k then xs else take k xs);
          rest = (if length xs < k then [] else drop k xs)
      in if rest = [] \<or> k = 0 then [piece] else piece # chunks k rest)"
  by pat_completeness auto
termination
  by (relation "measure (\<lambda>(k, xs). length xs)") (auto split: if_splits)

declare chunks.simps [simp del]

text \<open>\<open>calc_median\<close>: \<open>nth_element\<close> puts the element of that rank at the middle position.\<close>

definition calc_median :: "'a::linorder list \<Rightarrow> 'a" where
  "calc_median data = sort data ! (length data div 2)"

section \<open>Facts on sums\<close>

lemma sum_inputs_loop_eq: "sum_inputs_loop xs acc = acc + sum_inputs_loop xs 0"
proof (induction xs arbitrary: acc)
  case (Cons x xs)
  show ?case
    using Cons [of "acc + in_amount (the (input_of x))"] Cons [of "in_amount (the (input_of x))"] Cons [of acc]
    by (cases "input_of x") (simp_all add: add.assoc)
qed simp

lemma summary_inputs_spec:
  "summary_inputs xs a =
     \<lparr>is_inputs = sum_inputs_loop xs (is_inputs a),
      is_mixin = (if is_mixin a = 0 then mixin_loop xs 0 else is_mixin a),
      is_nonrct = count_nonrct_loop xs (is_nonrct a),
      is_keys = is_keys a @ List.map_filter input_of xs\<rparr>"
proof (induction xs arbitrary: a)
  case (Cons x xs)
  show ?case
  proof (cases "input_of x")
    case None
    then show ?thesis by (simp add: Cons map_filter_simps)
  next
    case (Some k)
    have "size_u64 (key_offsets k) = 0 \<or> 0 < size_u64 (key_offsets k)" by (auto simp: word_gt_0)
    then show ?thesis using Some by (auto simp: Cons map_filter_simps Let_def)
  qed
qed (simp add: map_filter_simps)

lemma summary_outputs_keys:
  "snd (summary_outputs L xs (a, ks)) = ks @ map (output_tuple_of L) xs"
  by (induction xs arbitrary: a ks) (auto simp: output_tuple_of_def split: option.splits)

lemma summary_outputs_sum:
  "\<forall>x \<in> set xs. get_output_public_key L x \<noteq> None \<Longrightarrow>
     fst (summary_outputs L xs (a, ks)) = sum_outputs_loop xs a"
  by (induction xs arbitrary: a ks) auto

text \<open>
  The one-pass summary of a transaction agrees with the single-purpose helpers: its keys
  are those of \<open>get_ouputs\<close> and \<open>get_key_images\<close>, its sums, ring size and count of transparent
  inputs are what the helpers return (the output sum when every output has a key).
\<close>

theorem summary_agrees_with_helpers:
  assumes "summary_of_in_out_rct L tx [] [] = ((xmr_outputs, xmr_inputs, mixin_no, nonrct), out_keys, in_keys)"
  shows "out_keys = get_ouputs L tx \<and> in_keys = get_key_images tx
    \<and> xmr_inputs = sum_money_in_inputs tx \<and> mixin_no = get_mixin_no tx \<and> nonrct = count_nonrct_inputs tx
    \<and> ((\<forall>x \<in> set (vout tx). get_output_public_key L x \<noteq> None) \<longrightarrow> xmr_outputs = sum_money_in_outputs tx)"
proof -
  obtain a ks where o': "summary_outputs L (vout tx) (0, []) = (a, ks)" by fastforce
  have "ks = get_ouputs L tx"
    using summary_outputs_keys [of L "vout tx" 0 "[]"] o' by (simp add: get_ouputs_def)
  moreover have "(\<forall>x \<in> set (vout tx). get_output_public_key L x \<noteq> None) \<longrightarrow> a = sum_money_in_outputs tx"
    using summary_outputs_sum [of "vout tx" L 0 "[]"] o' by (simp add: sum_money_in_outputs_def)
  ultimately show ?thesis
    using assms o'
    by (auto simp: summary_of_in_out_rct_def Let_def summary_inputs_spec sum_money_in_inputs_def
        get_mixin_no_def count_nonrct_inputs_def get_key_images_def)
qed

section \<open>Facts on time\<close>

lemma u64_rem: "(d :: u64) - d div k * k = d mod k"
  by (metis add_diff_cancel_left' div_mult_mod_eq mult.commute)

text \<open>
  The age of a block is an exact mixed-radix decomposition: years, days, hours, minutes and
  seconds add up to the distance of the two timestamps, and every part but the years is below
  its radix.
\<close>

theorem timestamp_difference_exact:
  assumes "timestamp_difference t1 t2 = (y, d, h, m, s)"
  shows "unat y * 31536000 + unat d * 86400 + unat h * 3600 + unat m * 60 + unat s
           = (if t1 < t2 then unat t2 - unat t1 else unat t1 - unat t2)
    \<and> unat d < 365 \<and> unat h < 24 \<and> unat m < 60 \<and> unat s < 60"
proof -
  let ?d = "if t1 < t2 then t2 - t1 else t1 - t2"
  let ?n = "if t1 < t2 then unat t2 - unat t1 else unat t1 - unat t2"
  have n: "unat ?d = ?n" by (auto simp: unat_sub_u64 not_less less_imp_le)
  have "y = ?d div 31536000" "d = ?d mod 31536000 div 86400" "h = ?d mod 31536000 mod 86400 div 3600"
    "m = ?d mod 31536000 mod 86400 mod 3600 div 60" "s = ?d mod 31536000 mod 86400 mod 3600 mod 60"
    using assms unfolding timestamp_difference_def Let_def u64_rem by auto
  then have parts: "unat y = ?n div 31536000" "unat d = ?n mod 31536000 div 86400"
    "unat h = ?n mod 31536000 mod 86400 div 3600" "unat m = ?n mod 31536000 mod 86400 mod 3600 div 60"
    "unat s = ?n mod 31536000 mod 86400 mod 3600 mod 60"
    by (simp_all only: n unat_div unat_mod) (simp_all add: unat_numeral)
  have bound: "x mod 31536000 div 86400 < 365" "x mod 31536000 mod 86400 div 3600 < 24"
      "x mod 31536000 mod 86400 mod 3600 div 60 < 60" "x mod 31536000 mod 86400 mod 3600 mod 60 < 60" for x :: nat
    by (simp_all add: less_mult_imp_div_less)
  have whole: "x div 31536000 * 31536000 + x mod 31536000 div 86400 * 86400
      + x mod 31536000 mod 86400 div 3600 * 3600 + x mod 31536000 mod 86400 mod 3600 div 60 * 60
      + x mod 31536000 mod 86400 mod 3600 mod 60 = x" for x :: nat
    using div_mult_mod_eq [of x 31536000] div_mult_mod_eq [of "x mod 31536000" 86400]
      div_mult_mod_eq [of "x mod 31536000 mod 86400" 3600]
      div_mult_mod_eq [of "x mod 31536000 mod 86400 mod 3600" 60] by linarith
  show ?thesis unfolding parts using bound [of ?n] whole [of ?n] by blast
qed

theorem timestamp_difference_exact_witness:
  "timestamp_difference 100 31536165 = (1, 0, 0, 1, 5)
   \<and> unat (1 :: u64) * 31536000 + unat (1 :: u64) * 60 + unat (5 :: u64) = 31536065"
proof -
  have "timestamp_difference 100 31536165 = (1, 0, 0, 1, 5)"
    by (simp add: timestamp_difference_def Let_def)
  with timestamp_difference_exact [OF this] show ?thesis by simp
qed

theorem summary_agrees_with_helpers_witness:
  "let L = \<lparr>get_block_hash = (\<lambda>_. []), get_outs_money_amount = (\<lambda>_. 0), get_tx_fee = (\<lambda>_. 0),
        is_coinbase = (\<lambda>_. False), get_output_public_key = (\<lambda>_. Some ''k''), uninit_key = [],
        parse_hash256 = Some, block_to_blob = (\<lambda>_. []), tx_to_blob = (\<lambda>_. []), rct_type_null = 0\<rparr>;
       tx = \<lparr>tx_version = 1, unlock_time = 0, vin = [TxinToKey \<lparr>in_amount = 5, key_offsets = [1, 2], k_image = ''i''\<rparr>],
        vout = [\<lparr>out_amount = 4, out_target = TxoutToKey ''k''\<rparr>], tx_extra = [], rct_type = 0, tx_pruned = False,
        prunable_hash = [], tx_signatures = []\<rparr>
   in fst (summary_of_in_out_rct L tx [] []) = (4, 5, 2, 1) \<and> sum_money_in_inputs tx = 5"
proof -
  let ?L = "\<lparr>get_block_hash = (\<lambda>_. []), get_outs_money_amount = (\<lambda>_. 0), get_tx_fee = (\<lambda>_. 0),
        is_coinbase = (\<lambda>_. False), get_output_public_key = (\<lambda>_. Some ''k''), uninit_key = [],
        parse_hash256 = Some, block_to_blob = (\<lambda>_. []), tx_to_blob = (\<lambda>_. []), rct_type_null = 0\<rparr>"
  let ?k = "\<lparr>in_amount = 5, key_offsets = [1, 2], k_image = ''i''\<rparr>"
  let ?tx = "\<lparr>tx_version = 1, unlock_time = 0, vin = [TxinToKey ?k],
        vout = [\<lparr>out_amount = 4, out_target = TxoutToKey ''k''\<rparr>], tx_extra = [], rct_type = 0, tx_pruned = False,
        prunable_hash = [], tx_signatures = []\<rparr>"
  have run: "summary_of_in_out_rct ?L ?tx [] [] = ((4, 5, 2, 1), [(''k'', 4, None)], [?k])"
    by (simp add: summary_of_in_out_rct_def Let_def size_u64_def)
  show ?thesis using summary_agrees_with_helpers [OF run] run by (simp add: Let_def)
qed

section \<open>Facts on submitted text\<close>

lemma is_hex_plain:
  assumes "is_hex c"
  shows "\<not> is_space c \<and> c \<noteq> CHR ''+'' \<and> c \<noteq> CHR ''-'' \<and> c \<noteq> CHR ''x'' \<and> c \<noteq> CHR ''X''"
  using assms by (auto simp: is_hex_def is_digit_def is_space_def Let_def)

lemma read_hex_pair:
  assumes "is_hex a" "is_hex b"
  shows "read_hex_int [a, b] = Some (int (16 * hex_val a + hex_val b))"
  using assms is_hex_plain [OF assms(1)] is_hex_plain [OF assms(2)]
  by (auto simp: read_hex_int_def Let_def starts_with_def hex_value_def)

text \<open>The percent encoding a browser may send: every byte as \<open>%XX\<close>.\<close>

definition hex_digit :: "nat \<Rightarrow> char" where
  "hex_digit k = (if k < 10 then char_of (48 + k) else char_of (55 + k))"

definition percent :: "char \<Rightarrow> string" where
  "percent c = [CHR ''%'', hex_digit (of_char c div 16), hex_digit (of_char c mod 16)]"

lemma hex_digit_ok: "k < 16 \<Longrightarrow> is_hex (hex_digit k) \<and> hex_val (hex_digit k) = k"
  by (auto simp: hex_digit_def is_hex_def is_digit_def hex_val_def Let_def)

lemma url_decode_loop_percent:
  "url_decode_loop (percent c @ s) out = url_decode_loop s (out @ [c])"
proof -
  have lt: "(of_char c :: nat) < 256" by simp
  then have "of_char c div 16 < (16 :: nat)" by (simp add: less_mult_imp_div_less)
  note a = hex_digit_ok [OF this]
  have "of_char c mod 16 < (16 :: nat)" by simp
  note b = hex_digit_ok [OF this]
  have "16 * (of_char c div 16) + of_char c mod 16 = (of_char c :: nat)" by simp
  then have "read_hex_int [hex_digit (of_char c div 16), hex_digit (of_char c mod 16)] = Some (int (of_char c))"
    using a b by (simp add: read_hex_pair del: of_nat_add of_nat_mult)
  moreover have "char_of (nat (int (of_char c :: nat) mod 256)) = c"
    using lt by (simp add: nat_mod_distrib)
  ultimately show ?thesis by (simp add: percent_def)
qed

lemma url_decode_loop_encoded: "url_decode_loop (concat (map percent s)) out = Some (out @ s)"
  by (induction s arbitrary: out) (simp_all add: url_decode_loop_percent)

lemma url_decode_plain:
  "CHR ''%'' \<notin> set s \<Longrightarrow> CHR ''+'' \<notin> set s \<Longrightarrow> url_decode_loop s out = Some (out @ s)"
  by (induction s arbitrary: out) auto

text \<open>
  Decoding undoes percent encoding for every byte string, and decoding leaves text without
  \<open>%\<close> and \<open>+\<close> alone.
\<close>

theorem url_decode_roundtrip:
  "url_decode (concat (map percent s)) = Some s
   \<and> (CHR ''%'' \<notin> set s \<and> CHR ''+'' \<notin> set s \<longrightarrow> url_decode s = Some s)"
  by (simp add: url_decode_def url_decode_loop_encoded url_decode_plain)

theorem url_decode_roundtrip_witness:
  "url_decode (concat (map percent ''a b&c'')) = Some ''a b&c'' \<and> url_decode ''value'' = Some ''value''"
  using url_decode_roundtrip [of "''a b&c''"] url_decode_roundtrip [of "''value''"] by simp

definition form_text :: "(string \<times> string) list \<Rightarrow> string" where
  "form_text kvs = join CHR ''&'' (map (\<lambda>(k, v). k @ ''='' @ v) kvs)"

definition form_clean :: "string \<Rightarrow> bool" where
  "form_clean s \<longleftrightarrow> list_all (\<lambda>c. c \<notin> set s) [CHR ''%'', CHR ''+'', CHR ''&'', CHR ''='']"

lemma str_find_eq_clean: "CHR ''='' \<notin> set k \<Longrightarrow> str_find ''='' (k @ ''='' @ v) = Some (length k)"
  by (induction k) (auto simp: starts_with_def)

lemma post_fields_clean:
  "\<forall>(k, v) \<in> set kvs. CHR ''='' \<notin> set k \<Longrightarrow>
     post_fields (map (\<lambda>(k, v). k @ ''='' @ v) kvs) m = m ++ map_of (rev kvs)"
proof (induction kvs arbitrary: m)
  case (Cons kv kvs)
  obtain k v where "kv = (k, v)" by fastforce
  with Cons str_find_eq_clean [of k v] show ?case by (simp add: map_add_assoc [symmetric])
qed simp

text \<open>
  A submitted form without reserved characters is read back field by field: later fields
  replace earlier ones of the same name.
\<close>

theorem form_read_back:
  assumes "kvs \<noteq> []" "list_all (\<lambda>(k, v). form_clean k \<and> form_clean v) kvs"
  shows "parse_crow_post_data (form_text kvs) = map_of (rev kvs)"
proof -
  let ?ps = "map (\<lambda>(k, v). k @ ''='' @ v) kvs"
  have clean: "list_all (\<lambda>p. c \<notin> set p) ?ps" if "c = CHR ''%'' \<or> c = CHR ''+'' \<or> c = CHR ''&''" for c
    using assms(2) that by (auto simp: list_all_iff form_clean_def)
  have "CHR ''%'' \<notin> set (form_text kvs)" "CHR ''+'' \<notin> set (form_text kvs)"
    unfolding form_text_def by (rule join_no_char; use clean in simp)+
  then have "url_decode (form_text kvs) = Some (form_text kvs)"
    by (simp add: url_decode_def url_decode_plain)
  moreover have "split_at CHR ''&'' (form_text kvs) = ?ps"
    unfolding form_text_def using assms(1) clean by (intro split_at_join) simp_all
  moreover have "\<forall>(k, v) \<in> set kvs. CHR ''='' \<notin> set k"
    using assms(2) by (auto simp: list_all_iff form_clean_def)
  ultimately show ?thesis
    using post_fields_clean [of kvs Map.empty] by (simp add: parse_crow_post_data_def)
qed

theorem form_read_back_witness:
  "parse_crow_post_data (form_text [(''value'', ''12ab'')]) ''value'' = Some ''12ab''"
  using form_read_back [of "[(''value'', ''12ab'')]"] by (simp add: form_clean_def)

text \<open>
  The body is decoded before it is split, so an encoded \<open>&\<close> inside a value ends the value: the
  submitted value \<open>a&b\<close> arrives as \<open>a\<close>.
\<close>

lemma encoded_ampersand_truncates:
  "parse_crow_post_data (''value=a'' @ percent CHR ''&'' @ ''b'') ''value'' = Some ''a''"
  by code_simp

section \<open>Facts on containers\<close>

lemma chunks_nonempty [simp]: "chunks k xs \<noteq> []"
  by (subst chunks.simps) (simp only: Let_def split: if_split, simp)

text \<open>
  The chunks of a text are consecutive pieces that make up the text; all but the last have
  the requested length, and none is longer.
\<close>

theorem chunks_partition:
  assumes "0 < k"
  shows "concat (chunks k xs) = xs \<and> (\<forall>c \<in> set (chunks k xs). length c \<le> k)
    \<and> (\<forall>c \<in> set (butlast (chunks k xs)). length c = k)"
  using assms
proof (induction k xs rule: chunks.induct)
  case (1 k xs)
  let ?rest = "if length xs < k then [] else drop k xs"
  let ?piece = "if length xs < k then xs else take k xs"
  show ?case
  proof (cases "?rest = []")
    case True
    then have "chunks k xs = [?piece]" by (subst chunks.simps) (simp add: Let_def)
    with True show ?thesis by (auto split: if_splits)
  next
    case False
    then have long: "k < length xs" by (auto split: if_splits)
    have step: "chunks k xs = take k xs # chunks k (drop k xs)"
      using long "1.prems" by (subst chunks.simps) (simp add: Let_def)
    have "\<not> (?rest = [] \<or> k = 0)" using False "1.prems" by simp
    moreover have "?rest = drop k xs" using long by simp
    ultimately have ih: "concat (chunks k (drop k xs)) = drop k xs" "\<forall>c \<in> set (chunks k (drop k xs)). length c \<le> k"
      "\<forall>c \<in> set (butlast (chunks k (drop k xs))). length c = k"
      using "1.IH" [OF refl refl _ "1.prems"] by metis+
    have "concat (chunks k xs) = xs" unfolding step using ih(1) by simp
    moreover have "\<forall>c \<in> set (chunks k xs). length c \<le> k" unfolding step using ih(2) by simp
    moreover have "\<forall>c \<in> set (butlast (chunks k xs)). length c = k"
      unfolding step using ih(3) long by simp
    ultimately show ?thesis by blast
  qed
qed

theorem chunks_partition_witness: "concat (chunks 3 ''abcdefgh'') = ''abcdefgh''"
  using chunks_partition [of 3 "''abcdefgh''"] by simp

end
