(* ===== verification/Mempool.thy ===== *)
theory Mempool
  imports Tools Amounts Rpc_Calls
begin

text \<open>
  \<open>src/MempoolStatus.cpp\<close> and \<open>src/MempoolStatus.h\<close>: the background thread that mirrors the
  transaction pool and the daemon's network information, and the snapshots the request handlers
  take of them. The pool and the daemon's answers are arguments; a result under the mutex
  \<open>mempool_mutx\<close> is one step. Text made from floating-point numbers is the business of the
  formatting library: the functions of \<open>float_text\<close> stand for it.
\<close>

record float_text =
  kib_text :: "u64 \<Rightarrow> string"
  half_kib_text :: "u64 \<Rightarrow> string"
  fee_rate_text :: "u64 \<Rightarrow> u64 \<Rightarrow> string"
  fee_rate_micro_text :: "u64 \<Rightarrow> u64 \<Rightarrow> string"
  times_million :: "u64 \<Rightarrow> u64"

section \<open>State\<close>

record mempool_tx =
  mt_tx_hash :: hash
  mt_tx :: transaction
  mt_receive_time :: u64
  sum_inputs :: u64
  sum_outputs :: u64
  no_inputs :: u64
  no_outputs :: u64
  num_nonrct_inputs :: u64
  confidential_amounts :: bool
  mixin_no :: u64
  fee_str :: string
  fee_micro_str :: string
  payed_for_kB_str :: string
  payed_for_kB_micro_str :: string
  xmr_inputs_str :: string
  xmr_outputs_str :: string
  timestamp_str :: string
  txsize :: string

text \<open>\<open>char[10]\<close> members keep the first ten characters \<open>strncpy\<close> copies.\<close>

record network_info =
  ni_status :: u64
  ni_height :: u64
  ni_target_height :: u64
  ni_difficulty :: u64
  ni_difficulty_top64 :: u64
  ni_target :: u64
  ni_tx_count :: u64
  ni_tx_pool_size :: u64
  ni_alt_blocks_count :: u64
  ni_outgoing :: u64
  ni_incoming :: u64
  ni_white_peerlist_size :: u64
  ni_grey_peerlist_size :: u64
  ni_nettype :: network_type
  ni_top_block_hash :: hash
  ni_cumulative_difficulty :: u64
  ni_cumulative_difficulty_top64 :: u64
  ni_block_size_limit :: u64
  ni_block_size_median :: u64
  ni_block_weight_limit :: u64
  ni_block_size_limit_str :: string
  ni_block_size_median_str :: string
  ni_start_time :: u64
  ni_current_hf_version :: u64
  ni_hash_rate :: u64
  ni_hash_rate_top64 :: u64
  ni_fee_per_kb :: u64
  ni_info_timestamp :: u64
  ni_current :: bool

definition get_status_uint :: "http_env \<Rightarrow> string \<Rightarrow> u64" where
  "get_status_uint E status =
     (if status = status_ok E then 1 else if status = status_busy E then 2 else 0)"

text \<open>
  \<open>get_status_string\<close>: the last branch builds a string from a null pointer, which is undefined
  behaviour (\<open>None\<close>).
\<close>

definition get_status_string :: "http_env \<Rightarrow> u64 \<Rightarrow> string option" where
  "get_status_string E status =
     (if status = 1 then Some (status_ok E) else if status = 2 then Some (status_busy E) else None)"

record mempool_status =
  mempool_txs :: "mempool_tx list option"
  mempool_no :: u64
  mempool_size :: u64
  mempool_info_timestamp :: u64
  current_network_info :: network_info
  mempool_refresh_time :: u64
  mempool_is_running :: bool
  rpc_initialized :: bool

record mempool_snapshot =
  transactions :: "mempool_tx list"
  total_count :: u64
  size_bytes :: u64
  mp_observed_at :: u64

section \<open>Reading the pool\<close>

definition mempool_entry ::
    "core_lib \<Rightarrow> float_text \<Rightarrow> u64 \<Rightarrow> nat \<Rightarrow> tx_info \<Rightarrow> transaction \<Rightarrow> hash \<Rightarrow> mempool_tx" where
  "mempool_entry L F coin decimals info tx txh =
     (case summary_of_in_out_rct L tx [] [] of
        ((outputs, inputs, mixin, nonrct), output_pub_keys, input_key_imgs) \<Rightarrow>
          let confidential = transaction_amounts_confidential L tx;
              amount_str = (\<lambda>a. xmr_amount_to_str coin decimals a True)
          in \<lparr>mt_tx_hash = txh, mt_tx = tx, mt_receive_time = receive_time info,
              sum_inputs = inputs, sum_outputs = outputs,
              no_inputs = size_u64 input_key_imgs, no_outputs = size_u64 output_pub_keys,
              num_nonrct_inputs = nonrct, confidential_amounts = confidential, mixin_no = mixin,
              fee_str = xmr_amount_to_str coin decimals (ti_fee info) False,
              fee_micro_str = xmr_amount_to_str coin decimals (times_million F (ti_fee info)) False,
              payed_for_kB_str = fee_rate_text F (ti_fee info) (ti_blob_size info),
              payed_for_kB_micro_str = fee_rate_micro_text F (ti_fee info) (ti_blob_size info),
              xmr_inputs_str = (if confidential then ''confidential'' else amount_str inputs),
              xmr_outputs_str = (if confidential then ''confidential'' else amount_str outputs),
              timestamp_str = timestamp_to_str_gm (receive_time info),
              txsize = kib_text F (ti_blob_size info)\<rparr>)"

text \<open>The loop over the pool; a transaction that cannot be parsed abandons the whole reading.\<close>

fun mempool_entries ::
    "core_lib \<Rightarrow> float_text \<Rightarrow> u64 \<Rightarrow> nat \<Rightarrow> (string \<Rightarrow> (transaction \<times> hash) option) \<Rightarrow> tx_info list \<Rightarrow>
       mempool_tx list \<Rightarrow> u64 \<Rightarrow> (mempool_tx list \<times> u64) option" where
  "mempool_entries L F coin decimals parse_tx [] acc bytes = Some (acc, bytes)"
| "mempool_entries L F coin decimals parse_tx (info # infos) acc bytes =
     (case parse_tx (tx_blob_hex info) of
        None \<Rightarrow> None
      | Some (tx, txh) \<Rightarrow>
        mempool_entries L F coin decimals parse_tx infos
          (acc @ [mempool_entry L F coin decimals info tx txh]) (bytes + ti_blob_size info))"

definition read_mempool ::
    "core_lib \<Rightarrow> float_text \<Rightarrow> u64 \<Rightarrow> nat \<Rightarrow> (string \<Rightarrow> (transaction \<times> hash) option) \<Rightarrow> u64 \<Rightarrow>
       tx_info list option \<Rightarrow> mempool_status \<Rightarrow> bool \<times> mempool_status" where
  "read_mempool L F coin decimals parse_tx now pool_infos ms =
     (case pool_infos of
        None \<Rightarrow> (False, ms)
      | Some infos \<Rightarrow>
        (case mempool_entries L F coin decimals parse_tx (sort_by_receive_time infos) [] 0 of
           None \<Rightarrow> (False, ms)
         | Some (txs, bytes) \<Rightarrow>
           (True, ms\<lparr>mempool_no := size_u64 txs, mempool_size := bytes,
                     mempool_info_timestamp := now, mempool_txs := Some txs\<rparr>)))"

section \<open>Reading the network information\<close>

record rpc_info =
  ri_status :: string
  ri_height :: u64
  ri_target_height :: u64
  ri_difficulty :: u64
  ri_difficulty_top64 :: u64
  ri_wide_difficulty :: u128
  ri_target :: u64
  ri_tx_count :: u64
  ri_tx_pool_size :: u64
  ri_alt_blocks_count :: u64
  ri_outgoing :: u64
  ri_incoming :: u64
  ri_white_peerlist_size :: u64
  ri_testnet :: bool
  ri_stagenet :: bool
  ri_cumulative_difficulty :: u64
  ri_cumulative_difficulty_top64 :: u64
  ri_block_size_limit :: u64
  ri_block_size_median :: u64
  ri_block_weight_limit :: u64
  ri_start_time :: u64
  ri_top_block_hash :: string

text \<open>\<open>blank\<close> carries the members the code leaves unassigned (the default initialisers).\<close>

definition network_info_of ::
    "http_env \<Rightarrow> float_text \<Rightarrow> network_info \<Rightarrow> u64 \<Rightarrow> rpc_info \<Rightarrow> u64 \<Rightarrow> u64 \<Rightarrow> network_info" where
  "network_info_of E F blank now r fee_estimated hf_version =
     (let hash_rate = ri_wide_difficulty r div ucast (ri_target r) in
      blank\<lparr>ni_status := get_status_uint E (ri_status r), ni_height := ri_height r,
        ni_target_height := ri_target_height r, ni_difficulty := ri_difficulty r,
        ni_difficulty_top64 := ri_difficulty_top64 r, ni_target := ri_target r,
        ni_hash_rate := ucast hash_rate, ni_hash_rate_top64 := ucast (drop_bit 64 hash_rate),
        ni_tx_count := ri_tx_count r, ni_tx_pool_size := ri_tx_pool_size r,
        ni_alt_blocks_count := ri_alt_blocks_count r, ni_outgoing := ri_outgoing r,
        ni_incoming := ri_incoming r, ni_white_peerlist_size := ri_white_peerlist_size r,
        ni_nettype := (if ri_testnet r then TESTNET else if ri_stagenet r then STAGENET else MAINNET),
        ni_cumulative_difficulty := ri_cumulative_difficulty r,
        ni_cumulative_difficulty_top64 := ri_cumulative_difficulty_top64 r,
        ni_block_size_limit := ri_block_size_limit r, ni_block_size_median := ri_block_size_median r,
        ni_block_weight_limit := ri_block_weight_limit r, ni_start_time := ri_start_time r,
        ni_block_size_limit_str := take 10 (half_kib_text F (ri_block_size_limit r)),
        ni_block_size_median_str := take 10 (kib_text F (ri_block_size_median r)),
        ni_top_block_hash := ri_top_block_hash r, ni_fee_per_kb := fee_estimated,
        ni_info_timestamp := now, ni_current_hf_version := hf_version, ni_current := True\<rparr>)"

text \<open>The three answers of the daemon are read in order; the first failure ends the reading.\<close>

definition read_network_info ::
    "http_env \<Rightarrow> float_text \<Rightarrow> network_info \<Rightarrow> u64 \<Rightarrow> string + rpc_info \<Rightarrow> string + u64 \<Rightarrow> string + u64 \<Rightarrow>
       mempool_status \<Rightarrow> bool \<times> mempool_status" where
  "read_network_info E F blank now info fee hardfork ms =
     (if \<not> rpc_initialized ms then (False, ms)
      else case info of
        Inl _ \<Rightarrow> (False, ms)
      | Inr r \<Rightarrow>
        (case fee of
           Inl _ \<Rightarrow> (False, ms)
         | Inr fee_estimated \<Rightarrow>
           (case hardfork of
              Inl _ \<Rightarrow> (False, ms)
            | Inr hf_version \<Rightarrow>
              if ri_target r = 0 then (False, ms)
              else (True, ms\<lparr>current_network_info :=
                                network_info_of E F blank now r fee_estimated hf_version\<rparr>))))"

section \<open>The thread\<close>

definition start_mempool_status_thread :: "mempool_status \<Rightarrow> mempool_status" where
  "start_mempool_status_thread ms =
     (let ms1 = ms\<lparr>mempool_refresh_time := max 1 (mempool_refresh_time ms)\<rparr> in
      if mempool_is_running ms1 then ms1
      else ms1\<lparr>rpc_initialized := True, mempool_is_running := True\<rparr>)"

definition loop_index_divider :: "mempool_status \<Rightarrow> u64" where
  "loop_index_divider ms = max 1 (60 div mempool_refresh_time ms)"

text \<open>
  One iteration of the loop: \<open>net\<close> is the reading of the network information (made only when the
  index is a multiple of the divider) and \<open>pool_read\<close> that of the pool.
\<close>

definition mempool_iteration ::
    "(mempool_status \<Rightarrow> bool \<times> mempool_status) \<Rightarrow> (mempool_status \<Rightarrow> bool \<times> mempool_status) \<Rightarrow>
       u64 \<times> mempool_status \<Rightarrow> u64 \<times> mempool_status" where
  "mempool_iteration net pool_read st =
     (case st of (loop_index, ms) \<Rightarrow>
      let (index1, ms1) =
            (if loop_index mod loop_index_divider ms = 0
             then (case net ms of
                     (False, m) \<Rightarrow>
                       (loop_index, m\<lparr>current_network_info := (current_network_info m)\<lparr>ni_current := False\<rparr>\<rparr>)
                   | (True, m) \<Rightarrow> (0, m))
             else (loop_index, ms));
          ms2 = snd (pool_read ms1)
      in (index1 + 1, ms2))"

section \<open>Taking snapshots\<close>

definition get_mempool_txs_n :: "mempool_status \<Rightarrow> u64 \<Rightarrow> mempool_tx list" where
  "get_mempool_txs_n ms no_of_tx =
     (case mempool_txs ms of
        None \<Rightarrow> []
      | Some txs \<Rightarrow> take (unat (min no_of_tx (size_u64 txs))) txs)"

definition get_mempool_snapshot :: "mempool_status \<Rightarrow> u64 \<Rightarrow> mempool_snapshot" where
  "get_mempool_snapshot ms no_of_tx =
     (let source = (case mempool_txs ms of Some txs \<Rightarrow> txs | None \<Rightarrow> []);
          n = min no_of_tx (size_u64 source);
          bounded = (if n = size_u64 source then source else take (unat n) source)
      in \<lparr>transactions = bounded, total_count = mempool_no ms, size_bytes = mempool_size ms,
          mp_observed_at = mempool_info_timestamp ms\<rparr>)"

section \<open>The invariant of the mirror\<close>

text \<open>
  There is a published list, the counter describes the list it was published with, and the list
  is sorted by arrival.
\<close>

definition mirror_ok :: "mempool_status \<Rightarrow> bool" where
  "mirror_ok ms \<longleftrightarrow>
     (case mempool_txs ms of
        None \<Rightarrow> False
      | Some txs \<Rightarrow> mempool_no ms = size_u64 txs
          \<and> sorted_wrt (\<lambda>s t. mt_receive_time t \<le> mt_receive_time s) txs)"

lemma mempool_entries_spec:
  "mempool_entries L F coin decimals parse_tx infos acc bytes = Some (txs, b) \<Longrightarrow>
     \<exists>es. txs = acc @ es \<and> map mt_receive_time es = map receive_time infos
        \<and> b = bytes + sum_list (map ti_blob_size infos)"
proof (induction infos arbitrary: acc bytes)
  case (Cons info infos)
  then obtain tx h where p: "parse_tx (tx_blob_hex info) = Some (tx, h)"
    by (auto split: option.splits)
  let ?e = "mempool_entry L F coin decimals info tx h"
  have t: "mt_receive_time ?e = receive_time info"
    by (simp add: mempool_entry_def Let_def split: prod.splits)
  from Cons.prems p have "mempool_entries L F coin decimals parse_tx infos (acc @ [?e]) (bytes + ti_blob_size info)
      = Some (txs, b)" by simp
  from Cons.IH [OF this] obtain es where "txs = (acc @ [?e]) @ es" "map mt_receive_time es = map receive_time infos"
    "b = bytes + ti_blob_size info + sum_list (map ti_blob_size infos)" by blast
  then show ?case using t by (intro exI [of _ "?e # es"]) (simp add: add.assoc)
qed simp

lemma mempool_entries_None:
  "mempool_entries L F coin decimals parse_tx infos acc bytes = None \<Longrightarrow>
     \<exists>info \<in> set infos. parse_tx (tx_blob_hex info) = None"
  by (induction infos arbitrary: acc bytes) (auto split: option.splits)

lemma sort_by_receive_time_sorted:
  "sorted_wrt (\<lambda>s t. t \<le> s) (map receive_time (sort_by_receive_time infos))"
proof -
  have "sorted (map (\<lambda>t. - int (unat (receive_time t))) (sort_by_receive_time infos))"
    unfolding sort_by_receive_time_def by (rule sorted_sort_key)
  then show ?thesis by (simp add: sorted_map sorted_wrt_map word_le_def)
qed

lemma read_mempool_ok:
  assumes "mirror_ok ms"
  shows "mirror_ok (snd (read_mempool L F coin decimals parse_tx now pool_infos ms))"
proof (cases "fst (read_mempool L F coin decimals parse_tx now pool_infos ms)")
  case False
  then show ?thesis
    using assms by (auto simp: read_mempool_def split: option.splits)
next
  case True
  then obtain infos txs b where r: "pool_infos = Some infos"
    "mempool_entries L F coin decimals parse_tx (sort_by_receive_time infos) [] 0 = Some (txs, b)"
    by (auto simp: read_mempool_def split: option.splits)
  from mempool_entries_spec [OF r(2)]
  have "map mt_receive_time txs = map receive_time (sort_by_receive_time infos)" by auto
  then have "sorted_wrt (\<lambda>s t. t \<le> s) (map mt_receive_time txs)"
    using sort_by_receive_time_sorted [of infos] by simp
  then have "sorted_wrt (\<lambda>s t. mt_receive_time t \<le> mt_receive_time s) txs"
    by (simp add: sorted_wrt_map)
  with r show ?thesis by (simp add: read_mempool_def mirror_ok_def)
qed

lemma read_network_info_frame:
  "mempool_txs (snd (read_network_info E F blank now info fee hf ms)) = mempool_txs ms"
  "mempool_no (snd (read_network_info E F blank now info fee hf ms)) = mempool_no ms"
  by (simp_all add: read_network_info_def split: sum.split)

lemma mirror_ok_cong:
  "mempool_txs m = mempool_txs m' \<Longrightarrow> mempool_no m = mempool_no m' \<Longrightarrow> mirror_ok m = mirror_ok m'"
  by (cases "mempool_txs m'") (simp_all add: mirror_ok_def)

text \<open>
  The life of the mirror: the thread is started, and iterates with arbitrary answers of the pool,
  the parser and the daemon.
\<close>

inductive mempool_step :: "u64 \<times> mempool_status \<Rightarrow> u64 \<times> mempool_status \<Rightarrow> bool" where
  start_thread: "mempool_step (i, ms) (0, start_mempool_status_thread ms)"
| iterate: "mempool_step st
    (mempool_iteration (read_network_info E F blank now info fee hf)
       (read_mempool L F coin decimals parse_tx now' pool_infos) st)"

lemma mempool_step_keeps:
  assumes "mirror_ok (snd s)" "mempool_step s s'"
  shows "mirror_ok (snd s')"
  using assms(2)
proof cases
  case (start_thread i ms)
  have "mirror_ok (start_mempool_status_thread ms) = mirror_ok ms"
    by (rule mirror_ok_cong) (simp_all add: start_mempool_status_thread_def Let_def)
  with start_thread assms(1) show ?thesis by simp
next
  case (iterate E F blank now info fee hf L coin decimals parse_tx now' pool_infos)
  obtain i ms where st: "s = (i, ms)" by fastforce
  obtain b m where net: "read_network_info E F blank now info fee hf ms = (b, m)" by fastforce
  have same: "mempool_txs m = mempool_txs ms" "mempool_no m = mempool_no ms"
    using read_network_info_frame [of E F blank now info fee hf ms] net by simp_all
  have m: "mirror_ok m" using same assms(1) st mirror_ok_cong by (metis snd_conv)
  have m': "mirror_ok (m\<lparr>current_network_info := n\<rparr>)" for n
    using m mirror_ok_cong [of "m\<lparr>current_network_info := n\<rparr>" m] by simp
  show ?thesis
    using iterate assms(1) st net m m' read_mempool_ok
    by (cases b) (auto simp: mempool_iteration_def Let_def)
qed

interpretation mempool_system: invariant_system mempool_step "\<lambda>s. mirror_ok (snd s)"
  by unfold_locales (rule mempool_step_keeps)

text \<open>The initial values of the static members.\<close>

definition initial_status :: "network_info \<Rightarrow> mempool_status" where
  "initial_status ni =
     \<lparr>mempool_txs = Some [], mempool_no = 0, mempool_size = 0, mempool_info_timestamp = 0,
      current_network_info = ni, mempool_refresh_time = 10, mempool_is_running = False,
      rpc_initialized = False\<rparr>"


definition sample_network_info :: network_info where
  "sample_network_info =
     \<lparr>ni_status = 0, ni_height = 0, ni_target_height = 0, ni_difficulty = 0, ni_difficulty_top64 = 0,
      ni_target = 0, ni_tx_count = 0, ni_tx_pool_size = 0, ni_alt_blocks_count = 0, ni_outgoing = 0,
      ni_incoming = 0, ni_white_peerlist_size = 0, ni_grey_peerlist_size = 0, ni_nettype = MAINNET,
      ni_top_block_hash = [], ni_cumulative_difficulty = 0, ni_cumulative_difficulty_top64 = 0,
      ni_block_size_limit = 0, ni_block_size_median = 0, ni_block_weight_limit = 0,
      ni_block_size_limit_str = [], ni_block_size_median_str = [], ni_start_time = 0,
      ni_current_hf_version = 0, ni_hash_rate = 0, ni_hash_rate_top64 = 0, ni_fee_per_kb = 0,
      ni_info_timestamp = 0, ni_current = False\<rparr>"


text \<open>
  Reading the pool is all or nothing: when the pool cannot be read or one of its
  transactions cannot be parsed nothing changes; otherwise every transaction is published, with
  the sum of the blob sizes.
\<close>

theorem read_mempool_all_or_nothing:
  "case read_mempool L F coin decimals parse_tx now pool_infos ms of
     (False, ms') \<Rightarrow> ms' = ms \<and> (pool_infos = None
       \<or> (\<exists>infos info. pool_infos = Some infos \<and> info \<in> set infos \<and> parse_tx (tx_blob_hex info) = None))
   | (True, ms') \<Rightarrow> \<exists>infos txs. pool_infos = Some infos \<and> mempool_txs ms' = Some txs
       \<and> length txs = length infos \<and> mempool_size ms' = sum_list (map ti_blob_size infos)
       \<and> current_network_info ms' = current_network_info ms"
proof (cases pool_infos)
  case None
  then show ?thesis by (simp add: read_mempool_def)
next
  case (Some infos)
  let ?r = "mempool_entries L F coin decimals parse_tx (sort_by_receive_time infos) [] 0"
  have ms: "mset (sort_by_receive_time infos) = mset infos" by (simp add: sort_by_receive_time_def)
  show ?thesis
  proof (cases ?r)
    case None
    then have "\<exists>info \<in> set (sort_by_receive_time infos). parse_tx (tx_blob_hex info) = None"
      by (rule mempool_entries_None)
    with None Some show ?thesis
      by (auto simp: read_mempool_def sort_by_receive_time_def)
  next
    case r: (Some res)
    obtain txs b where res: "res = (txs, b)" by fastforce
    from mempool_entries_spec [OF r [unfolded res]]
    have t: "map mt_receive_time txs = map receive_time (sort_by_receive_time infos)"
      and b: "b = sum_list (map ti_blob_size (sort_by_receive_time infos))" by auto
    have "length txs = length infos"
      using arg_cong [OF t, of length] ms by (metis length_map size_mset)
    moreover have "b = sum_list (map ti_blob_size infos)"
      using b ms by (metis mset_map sum_mset_sum_list)
    ultimately show ?thesis using Some r res by (simp add: read_mempool_def)
  qed
qed

end
