(* ===== verification/Epose.thy ===== *)
theory Epose
  imports Core_View "HOL-Library.List_Lexorder" "HOL-Library.Char_ord"
begin

unbundle bit_operations_syntax

text \<open>
  Views of the EPoSE service-node protocol: \<open>src/epose_endpoint_view.h\<close> (advertised endpoints),
  \<open>src/epose_snapshot.h\<close> (chain anchors), \<open>src/epose_reward_view.h\<close> (the checked reward mapping of
  a block) and \<open>src/epose_telemetry.h\<close>, \<open>src/epose_telemetry.cpp\<close> (telemetry fetched from
  endpoints that strangers advertise). Boost.Asio and the HTTP client are parameters.
\<close>

section \<open>Advertised endpoints\<close>

definition epose_endpoint_transport_name :: "u64 \<Rightarrow> string" where
  "epose_endpoint_transport_name transport =
     (if transport = 1 then ''tcp_ipv4'' else if transport = 2 then ''tcp_ipv6''
      else if transport = 3 then ''dns'' else ''unknown'')"

definition valid_epose_advertised_endpoint ::
    "bool \<Rightarrow> string \<Rightarrow> string \<Rightarrow> string \<Rightarrow> string \<Rightarrow> string \<Rightarrow> u64 \<Rightarrow> u64 \<Rightarrow> bool" where
  "valid_epose_advertised_endpoint ready descriptor_hash expected_descriptor_hash
       service_public_key expected_service_public_key host port transport \<longleftrightarrow>
     ready \<and> expected_descriptor_hash \<noteq> [] \<and> descriptor_hash = expected_descriptor_hash
     \<and> expected_service_public_key \<noteq> [] \<and> service_public_key = expected_service_public_key
     \<and> host \<noteq> [] \<and> 0 < port \<and> port \<le> 65535 \<and> 1 \<le> transport \<and> transport \<le> 3"

definition format_epose_endpoint_authority :: "string \<Rightarrow> u64 \<Rightarrow> u64 \<Rightarrow> string" where
  "format_epose_endpoint_authority host port transport =
     (if host = [] \<or> port = 0 \<or> 65535 < port then []
      else if transport = 2 then ''['' @ host @ '']:'' @ u64_to_string port
      else host @ '':'' @ u64_to_string port)"

section \<open>Chain anchors\<close>

record epose_chain_anchor =
  anchor_block_count :: u64
  anchor_tip_hash :: string

definition valid_epose_chain_anchor :: "epose_chain_anchor \<Rightarrow> bool" where
  "valid_epose_chain_anchor a \<longleftrightarrow> 0 < anchor_block_count a \<and> length (anchor_tip_hash a) = 64"

definition same_epose_chain_anchor :: "epose_chain_anchor \<Rightarrow> epose_chain_anchor \<Rightarrow> bool" where
  "same_epose_chain_anchor lhs rhs \<longleftrightarrow>
     valid_epose_chain_anchor lhs \<and> valid_epose_chain_anchor rhs
     \<and> anchor_block_count lhs = anchor_block_count rhs \<and> anchor_tip_hash lhs = anchor_tip_hash rhs"

definition epose_reward_matches_anchor :: "epose_chain_anchor \<Rightarrow> u64 \<Rightarrow> bool" where
  "epose_reward_matches_anchor a reward_height \<longleftrightarrow>
     valid_epose_chain_anchor a \<and> reward_height = anchor_block_count a"

section \<open>The reward mapping of a block\<close>

record epose_reward_output =
  ro_index :: u64
  ro_amount :: u64
  ro_public_key :: string

record epose_reward_response =
  rr_mapping_available :: bool
  rr_block_hash :: string
  rr_parent_hash :: string
  rr_height :: u64
  rr_qualification_hash :: string
  rr_payout_epoch :: u64
  rr_source_epoch :: u64
  rr_qualified_count :: u64
  rr_scheduled_subsidy :: u64
  rr_transaction_fees :: u64
  rr_miner_subsidy :: u64
  rr_miner_fees :: u64
  rr_issued_subsidy :: u64
  rr_emission_advance :: u64
  rr_coinbase_total :: u64
  rr_miner_reward :: u64
  rr_service_reward :: u64
  rr_permanently_unissued :: u64
  rr_service_reward_active :: bool
  rr_payment_proof_valid :: bool
  rr_payee_service_public_key :: string
  rr_reward_view_public_key :: string
  rr_reward_spend_public_key :: string
  rr_service_outputs :: "epose_reward_output list"

record epose_reward_view =
  payout_epoch :: u64
  source_epoch :: u64
  qualified_count :: u64
  scheduled_subsidy :: u64
  transaction_fees :: u64
  miner_subsidy :: u64
  miner_fees :: u64
  issued_subsidy :: u64
  emission_advance :: u64
  coinbase_total :: u64
  miner_reward :: u64
  service_reward :: u64
  permanently_unissued :: u64
  service_reward_active :: bool
  qualification_hash :: string
  payee_service_public_key :: string
  service_outputs :: "epose_reward_output list"

definition lower_hex_char :: "char \<Rightarrow> bool" where
  "lower_hex_char c \<longleftrightarrow>
     (let n = of_char c :: nat in 48 \<le> n \<and> n \<le> 57 \<or> 97 \<le> n \<and> n \<le> 102)"

definition is_lower_hex_64 :: "string \<Rightarrow> bool" where
  "is_lower_hex_64 s \<longleftrightarrow> length s = 64 \<and> list_all lower_hex_char s"

text \<open>The loop over the service outputs: seen indices, total and the outputs accepted so far.\<close>

fun reward_outputs_loop ::
    "nat \<Rightarrow> epose_reward_output list \<Rightarrow> u64 list \<Rightarrow> u64 \<Rightarrow> epose_reward_output list \<Rightarrow>
       (u64 \<times> epose_reward_output list) option" where
  "reward_outputs_loop count [] seen output_total outputs = Some (output_total, outputs)"
| "reward_outputs_loop count (x # xs) seen output_total outputs =
     (if count \<le> unat (ro_index x) \<or> ro_index x \<in> set seen
         \<or> \<not> is_lower_hex_64 (ro_public_key x) \<or> u64_max - ro_amount x < output_total
      then None
      else reward_outputs_loop count xs (ro_index x # seen) (output_total + ro_amount x)
             (outputs @ [x]))"

definition reward_sums_ok :: "epose_reward_response \<Rightarrow> bool" where
  "reward_sums_ok r \<longleftrightarrow>
     \<not> u64_max - rr_service_reward r < rr_miner_subsidy r
     \<and> (let issued_from_components = rr_miner_subsidy r + rr_service_reward r in
        \<not> u64_max - rr_permanently_unissued r < issued_from_components
        \<and> (let scheduled_from_components = issued_from_components + rr_permanently_unissued r in
           \<not> (u64_max - rr_service_reward r < rr_miner_reward r
              \<or> rr_miner_reward r + rr_service_reward r \<noteq> rr_coinbase_total r
              \<or> u64_max - rr_transaction_fees r < rr_issued_subsidy r
              \<or> rr_issued_subsidy r + rr_transaction_fees r \<noteq> rr_coinbase_total r
              \<or> u64_max - rr_miner_fees r < rr_miner_subsidy r
              \<or> rr_miner_subsidy r + rr_miner_fees r \<noteq> rr_miner_reward r
              \<or> rr_miner_fees r \<noteq> rr_transaction_fees r
              \<or> rr_issued_subsidy r \<noteq> issued_from_components
              \<or> rr_scheduled_subsidy r \<noteq> scheduled_from_components
              \<or> rr_emission_advance r \<noteq> rr_scheduled_subsidy r)))"

definition make_epose_reward_view ::
    "epose_reward_response \<Rightarrow> string \<Rightarrow> u64 \<Rightarrow> u64 \<Rightarrow> nat \<Rightarrow> epose_reward_view option" where
  "make_epose_reward_view r expected_block_hash expected_height expected_coinbase_total
       expected_coinbase_output_count =
     (if \<not> rr_mapping_available r \<or> rr_block_hash r \<noteq> expected_block_hash
         \<or> rr_height r \<noteq> expected_height \<or> rr_coinbase_total r \<noteq> expected_coinbase_total
         \<or> \<not> is_lower_hex_64 (rr_block_hash r) \<or> \<not> is_lower_hex_64 (rr_parent_hash r)
         \<or> \<not> is_lower_hex_64 (rr_qualification_hash r)
      then None
      else if \<not> reward_sums_ok r then None
      else case reward_outputs_loop expected_coinbase_output_count (rr_service_outputs r) [] 0 [] of
             None \<Rightarrow> None
           | Some (output_total, outputs) \<Rightarrow>
             if (if rr_service_reward_active r
                 then \<not> rr_payment_proof_valid r \<or> rr_service_reward r = 0
                      \<or> rr_qualified_count r = 0 \<or> outputs = []
                      \<or> output_total \<noteq> rr_service_reward r
                      \<or> \<not> is_lower_hex_64 (rr_payee_service_public_key r)
                      \<or> \<not> is_lower_hex_64 (rr_reward_view_public_key r)
                      \<or> \<not> is_lower_hex_64 (rr_reward_spend_public_key r)
                 else rr_payment_proof_valid r \<or> rr_service_reward r \<noteq> 0 \<or> outputs \<noteq> [])
             then None
             else Some
               \<lparr>payout_epoch = rr_payout_epoch r, source_epoch = rr_source_epoch r,
                qualified_count = rr_qualified_count r, scheduled_subsidy = rr_scheduled_subsidy r,
                transaction_fees = rr_transaction_fees r, miner_subsidy = rr_miner_subsidy r,
                miner_fees = rr_miner_fees r, issued_subsidy = rr_issued_subsidy r,
                emission_advance = rr_emission_advance r, coinbase_total = rr_coinbase_total r,
                miner_reward = rr_miner_reward r, service_reward = rr_service_reward r,
                permanently_unissued = rr_permanently_unissued r,
                service_reward_active = rr_service_reward_active r,
                qualification_hash = rr_qualification_hash r,
                payee_service_public_key = rr_payee_service_public_key r,
                service_outputs = outputs\<rparr>)"

section \<open>Telemetry\<close>

datatype epose_telemetry_state =
    Reported | NotReported | EndpointUnavailable | Unreachable | Rejected | NotCheckedCapacity

record epose_remote_telemetry =
  te_state :: epose_telemetry_state
  te_version :: u64
  te_software_version :: string
  te_tip_height :: u64
  te_tip_hash :: string
  te_synchronized :: bool
  te_observed_at_unix :: u64

record epose_tip_assessment =
  ta_status :: string
  ta_blocks_behind :: u64

definition is_lower_hex_telemetry_hash :: "string \<Rightarrow> bool" where
  "is_lower_hex_telemetry_hash s \<longleftrightarrow> length s = 64 \<and> list_all lower_hex_char s"

definition valid_epose_software_version :: "string \<Rightarrow> bool" where
  "valid_epose_software_version s \<longleftrightarrow>
     s \<noteq> [] \<and> length s \<le> 64 \<and> list_all (\<lambda>c. 0x20 \<le> (of_char c :: nat) \<and> (of_char c :: nat) \<le> 0x7e) s"

definition ascii_letter :: "char \<Rightarrow> bool" where
  "ascii_letter c \<longleftrightarrow>
     (let n = of_char c :: nat in 65 \<le> n \<and> n \<le> 90 \<or> 97 \<le> n \<and> n \<le> 122)"

definition dns_char :: "char \<Rightarrow> bool" where
  "dns_char c \<longleftrightarrow> ascii_letter c \<or> is_digit c \<or> c = CHR ''-''"

text \<open>
  The loop of \<open>valid_epose_dns_name\<close> on the part of the host from \<open>label_start\<close> on; \<open>None\<close> is the
  early \<open>return false\<close>.
\<close>

function dns_loop :: "string \<Rightarrow> bool \<Rightarrow> bool option" where
  "dns_loop rest has_non_numeric =
     (if rest = [] then Some has_non_numeric
      else
        let label = takeWhile (\<lambda>c. c \<noteq> CHR ''.'') rest;
            after = dropWhile (\<lambda>c. c \<noteq> CHR ''.'') rest
        in if label = [] \<or> 63 < length label \<or> hd label = CHR ''-'' \<or> last label = CHR ''-''
              \<or> \<not> list_all dns_char label
           then None
           else
             let flag = (has_non_numeric \<or> list_ex (\<lambda>c. ascii_letter c \<or> c = CHR ''-'') label)
             in if after = [] then Some flag else dns_loop (tl after) flag)"
  by pat_completeness auto
termination
proof (relation "measure (\<lambda>(rest, f). length rest)", goal_cases)
  case (2 rest f label after flag)
  then have "length after \<le> length rest" "0 < length rest"
    by (simp_all add: length_dropWhile_le)
  then have "length (tl after) < length rest" unfolding length_tl by linarith
  then show ?case by simp
qed simp

declare dns_loop.simps [simp del]

definition valid_epose_dns_name :: "string \<Rightarrow> bool" where
  "valid_epose_dns_name host \<longleftrightarrow>
     \<not> (host = [] \<or> 253 < length host \<or> hd host = CHR ''.'' \<or> last host = CHR ''.'')
     \<and> dns_loop host False = Some True"

datatype ip_address = V4 "8 word" "8 word" "8 word" "8 word" | V6 "8 word list"

fun is_v4 :: "ip_address \<Rightarrow> bool" where
  "is_v4 (V4 a b c d) = True"
| "is_v4 (V6 _) = False"

definition is_v6 :: "ip_address \<Rightarrow> bool" where
  "is_v6 address \<longleftrightarrow> \<not> is_v4 address"

text \<open>
  What the code uses of Boost.Asio: \<open>from_string\<close>, \<open>to_string\<close>, the classification of unspecified,
  loopback and multicast addresses, and the resolver with its deadline (\<open>None\<close> for a failure).
\<close>

record asio_lib =
  ip_from_string :: "string \<Rightarrow> ip_address option"
  ip_to_string :: "ip_address \<Rightarrow> string"
  ip_special :: "ip_address \<Rightarrow> bool"
  dns_resolve :: "string \<Rightarrow> u64 \<Rightarrow> ip_address list option"

fun is_public_epose_address :: "asio_lib \<Rightarrow> ip_address \<Rightarrow> bool" where
  "is_public_epose_address A (V4 a b c d) =
     (if ip_special A (V4 a b c d) then False
      else \<not> (a = 0 \<or> a = 10 \<or> a = 127 \<or> 224 \<le> a
              \<or> a = 100 \<and> 64 \<le> b \<and> b \<le> 127
              \<or> a = 169 \<and> b = 254
              \<or> a = 172 \<and> 16 \<le> b \<and> b \<le> 31
              \<or> a = 192 \<and> b = 0 \<and> c = 0
              \<or> a = 192 \<and> b = 0 \<and> c = 2
              \<or> a = 192 \<and> b = 88 \<and> c = 99
              \<or> a = 192 \<and> b = 168
              \<or> a = 198 \<and> (b = 18 \<or> b = 19)
              \<or> a = 198 \<and> b = 51 \<and> c = 100
              \<or> a = 203 \<and> b = 0 \<and> c = 113))"
| "is_public_epose_address A (V6 bytes) =
     (if ip_special A (V6 bytes) then False
      else
        let global_unicast = ((bytes ! 0) AND 0xe0 = 0x20);
            documentation = (bytes ! 0 = 0x20 \<and> bytes ! 1 = 0x01 \<and> bytes ! 2 = 0x0d \<and> bytes ! 3 = 0xb8);
            ipv4_mapped = (list_all (\<lambda>v. v = 0) (take 10 bytes) \<and> bytes ! 10 = 0xff \<and> bytes ! 11 = 0xff)
        in global_unicast \<and> \<not> documentation \<and> \<not> ipv4_mapped)"

definition is_public_epose_literal :: "asio_lib \<Rightarrow> string \<Rightarrow> bool" where
  "is_public_epose_literal A literal =
     (case ip_from_string A literal of None \<Rightarrow> False | Some a \<Rightarrow> is_public_epose_address A a)"

definition assess_epose_tip :: "u64 \<Rightarrow> string \<Rightarrow> u64 \<Rightarrow> string \<Rightarrow> epose_tip_assessment" where
  "assess_epose_tip remote_height remote_hash observer_tip_height canonical_hash_at_remote_height =
     (if \<not> is_lower_hex_telemetry_hash remote_hash
      then \<lparr>ta_status = ''invalid_report'', ta_blocks_behind = 0\<rparr>
      else if observer_tip_height < remote_height
      then \<lparr>ta_status = ''ahead_unverified'', ta_blocks_behind = 0\<rparr>
      else if \<not> is_lower_hex_telemetry_hash canonical_hash_at_remote_height
      then \<lparr>ta_status = ''observer_unavailable'', ta_blocks_behind = 0\<rparr>
      else if remote_hash \<noteq> canonical_hash_at_remote_height
      then \<lparr>ta_status = ''hash_mismatch'', ta_blocks_behind = 0\<rparr>
      else if remote_height = observer_tip_height
      then \<lparr>ta_status = ''same_tip'', ta_blocks_behind = 0\<rparr>
      else \<lparr>ta_status = ''canonical_behind'', ta_blocks_behind = observer_tip_height - remote_height\<rparr>)"

definition maximum_response_bytes :: nat where
  "maximum_response_bytes = 16 * 1024"

definition maximum_dns_addresses :: nat where
  "maximum_dns_addresses = 8"

text \<open>
  \<open>bounded_http_client::handle_target_data\<close>: a piece is refused (\<open>None\<close>) when it would exceed the
  bound, else it is counted and passed on.
\<close>

definition handle_target_data :: "string \<Rightarrow> nat \<Rightarrow> nat option" where
  "handle_target_data piece received_bytes =
     (if maximum_response_bytes - received_bytes < length piece then None
      else Some (received_bytes + length piece))"

fun receive_pieces :: "string list \<Rightarrow> nat \<Rightarrow> nat option" where
  "receive_pieces [] received = Some received"
| "receive_pieces (p # ps) received =
     (case handle_target_data p received of None \<Rightarrow> None | Some r \<Rightarrow> receive_pieces ps r)"

definition numeric_authority_of :: "asio_lib \<Rightarrow> ip_address \<Rightarrow> u64 \<Rightarrow> string" where
  "numeric_authority_of A address port =
     (if is_v6 address then ''['' @ ip_to_string A address @ '']:'' @ u64_to_string port
      else ip_to_string A address @ '':'' @ u64_to_string port)"

text \<open>
  The loop over the resolved addresses, \<open>addresses\<close> being the set of their texts: \<open>None\<close> is the
  security rejection.
\<close>

fun collect_addresses :: "asio_lib \<Rightarrow> ip_address list \<Rightarrow> string list \<Rightarrow> string list option" where
  "collect_addresses A [] addresses = Some addresses"
| "collect_addresses A (a # as) addresses =
     (if \<not> is_public_epose_address A a then None
      else let addresses' = List.insert (ip_to_string A a) addresses in
        if maximum_dns_addresses < length addresses' then None
        else collect_addresses A as addresses')"

text \<open>
  \<open>resolve_public_endpoint\<close>: \<open>Inl True\<close> is a security rejection, \<open>Inl False\<close> another failure,
  \<open>Inr\<close> the numeric authority. A \<open>std::set\<close> of strings starts with the least one.
\<close>

definition resolve_public_endpoint :: "asio_lib \<Rightarrow> string \<Rightarrow> u64 \<Rightarrow> u64 \<Rightarrow> bool + string" where
  "resolve_public_endpoint A host port transport =
     (if port = 0 \<or> 65535 < port \<or> transport < 1 \<or> 3 < transport then Inl True
      else if transport = 1 \<or> transport = 2
      then (case ip_from_string A host of
              None \<Rightarrow> Inl True
            | Some address \<Rightarrow>
              if transport = 1 \<and> \<not> is_v4 address \<or> transport = 2 \<and> \<not> is_v6 address
                 \<or> \<not> is_public_epose_address A address
              then Inl True
              else Inr (numeric_authority_of A address port))
      else if \<not> valid_epose_dns_name host then Inl True
      else (case dns_resolve A host port of
              None \<Rightarrow> Inl False
            | Some results \<Rightarrow>
              (case collect_addresses A results [] of
                 None \<Rightarrow> Inl True
               | Some addresses \<Rightarrow>
                 if addresses = [] then Inl False
                 else (case ip_from_string A (Min (set addresses)) of
                         None \<Rightarrow> Inl False
                       | Some address \<Rightarrow> Inr (numeric_authority_of A address port)))))"

record endpoint_telemetry_response =
  et_status :: string
  et_ready :: bool
  et_service_public_key :: string
  et_descriptor_hash :: string
  et_telemetry_available :: bool
  et_telemetry_version :: u64
  et_software_version :: string
  et_tip_height :: u64
  et_tip_hash :: string
  et_synchronized :: bool

text \<open>
  \<open>fetch_epose_remote_telemetry\<close>: \<open>ask authority\<close> is the outcome of connecting to the numeric
  authority and of the request (\<open>None\<close> for a failure), \<open>ok\<close> the status text of the core.
\<close>

definition fetch_epose_remote_telemetry ::
    "asio_lib \<Rightarrow> string \<Rightarrow> (string \<Rightarrow> endpoint_telemetry_response option) \<Rightarrow> u64 \<Rightarrow>
       string \<Rightarrow> u64 \<Rightarrow> u64 \<Rightarrow> string \<Rightarrow> string \<Rightarrow> epose_remote_telemetry" where
  "fetch_epose_remote_telemetry A ok ask now host port transport descriptor_hash service_public_key =
     (let result = \<lparr>te_state = Unreachable, te_version = 0, te_software_version = [], te_tip_height = 0,
                    te_tip_hash = [], te_synchronized = False, te_observed_at_unix = now\<rparr>
      in case resolve_public_endpoint A host port transport of
           Inl security_rejected \<Rightarrow>
             result\<lparr>te_state := (if security_rejected then Rejected else Unreachable)\<rparr>
         | Inr authority \<Rightarrow>
           (case ask authority of
              None \<Rightarrow> result
            | Some r \<Rightarrow>
              if et_status r \<noteq> ok \<or> \<not> et_ready r \<or> et_descriptor_hash r \<noteq> descriptor_hash
                 \<or> et_service_public_key r \<noteq> service_public_key
              then result\<lparr>te_state := Rejected\<rparr>
              else if \<not> et_telemetry_available r then result\<lparr>te_state := NotReported\<rparr>
              else if et_telemetry_version r \<noteq> 1 \<or> \<not> valid_epose_software_version (et_software_version r)
                      \<or> \<not> is_lower_hex_telemetry_hash (et_tip_hash r)
              then result\<lparr>te_state := Rejected\<rparr>
              else result\<lparr>te_state := Reported, te_version := et_telemetry_version r,
                          te_software_version := et_software_version r, te_tip_height := et_tip_height r,
                          te_tip_hash := et_tip_hash r, te_synchronized := et_synchronized r\<rparr>))"

section \<open>The reward mapping balances\<close>

lemma reward_outputs_loop_spec:
  "reward_outputs_loop count xs seen t outs = Some (t', outs') \<Longrightarrow>
     outs' = outs @ xs \<and> unat t' = unat t + sum_list (map (\<lambda>x. unat (ro_amount x)) xs)
     \<and> distinct (map ro_index xs) \<and> set (map ro_index xs) \<inter> set seen = {}
     \<and> (\<forall>x \<in> set xs. unat (ro_index x) < count \<and> is_lower_hex_64 (ro_public_key x))"
proof (induction count xs seen t outs rule: reward_outputs_loop.induct)
  case (2 count x xs seen t outs)
  from "2.prems" have g: "\<not> (count \<le> unat (ro_index x) \<or> ro_index x \<in> set seen
      \<or> \<not> is_lower_hex_64 (ro_public_key x) \<or> u64_max - ro_amount x < t)"
    and go: "reward_outputs_loop count xs (ro_index x # seen) (t + ro_amount x) (outs @ [x]) = Some (t', outs')"
    by (auto split: if_splits)
  have "unat (t + ro_amount x) = unat t + unat (ro_amount x)"
    using g u64_add_exact [of t "ro_amount x"] by (simp add: not_less add.commute)
  with "2.IH" [OF g go] g show ?case by auto
qed simp

lemma reward_sums_exact:
  assumes "reward_sums_ok r"
  shows "unat (rr_miner_reward r) + unat (rr_service_reward r) = unat (rr_coinbase_total r)"
    and "unat (rr_issued_subsidy r) + unat (rr_transaction_fees r) = unat (rr_coinbase_total r)"
    and "unat (rr_miner_subsidy r) + unat (rr_transaction_fees r) = unat (rr_miner_reward r)"
    and "unat (rr_miner_subsidy r) + unat (rr_service_reward r) = unat (rr_issued_subsidy r)"
    and "unat (rr_issued_subsidy r) + unat (rr_permanently_unissued r) = unat (rr_scheduled_subsidy r)"
    and "rr_emission_advance r = rr_scheduled_subsidy r"
proof -
  have ex: "unat (a + b) = unat a + unat b" if "\<not> u64_max - b < a" for a b :: u64
    using u64_add_exact [of a b] that by (simp add: add.commute not_less)
  note g = assms [unfolded reward_sums_ok_def Let_def]
  show "unat (rr_miner_reward r) + unat (rr_service_reward r) = unat (rr_coinbase_total r)"
    using g ex [of "rr_service_reward r" "rr_miner_reward r"] by auto
  show "unat (rr_issued_subsidy r) + unat (rr_transaction_fees r) = unat (rr_coinbase_total r)"
    using g ex [of "rr_transaction_fees r" "rr_issued_subsidy r"] by auto
  show "unat (rr_miner_subsidy r) + unat (rr_transaction_fees r) = unat (rr_miner_reward r)"
    using g ex [of "rr_miner_fees r" "rr_miner_subsidy r"] by auto
  show "unat (rr_miner_subsidy r) + unat (rr_service_reward r) = unat (rr_issued_subsidy r)"
    using g ex [of "rr_service_reward r" "rr_miner_subsidy r"] by auto
  show "unat (rr_issued_subsidy r) + unat (rr_permanently_unissued r) = unat (rr_scheduled_subsidy r)"
    using g ex [of "rr_permanently_unissued r" "rr_miner_subsidy r + rr_service_reward r"] by auto
  show "rr_emission_advance r = rr_scheduled_subsidy r" using g by auto
qed

text \<open>
  C39. A reward mapping is shown only when it balances exactly, over the natural numbers: the
  miner's and the service node's rewards make up the coinbase, so do the issued subsidy and the
  fees, the schedule is the issued plus the permanently unissued part, and the service outputs
  are distinct outputs of the coinbase whose amounts sum to the service reward.
\<close>

theorem reward_view_balances:
  assumes "make_epose_reward_view r block_hash height coinbase count = Some v"
  shows "unat (miner_reward v) + unat (service_reward v) = unat coinbase
    \<and> unat (issued_subsidy v) + unat (transaction_fees v) = unat coinbase
    \<and> unat (issued_subsidy v) + unat (permanently_unissued v) = unat (scheduled_subsidy v)
    \<and> sum_list (map (\<lambda>x. unat (ro_amount x)) (service_outputs v)) = unat (service_reward v)
    \<and> distinct (map ro_index (service_outputs v))
    \<and> (\<forall>x \<in> set (service_outputs v). unat (ro_index x) < count)
    \<and> (service_reward_active v \<longleftrightarrow> service_reward v \<noteq> 0)"
proof -
  from assms obtain t outs where sums: "reward_sums_ok r" and cb: "rr_coinbase_total r = coinbase"
    and lp: "reward_outputs_loop count (rr_service_outputs r) [] 0 [] = Some (t, outs)"
    and act: "if rr_service_reward_active r then rr_service_reward r \<noteq> 0 \<and> t = rr_service_reward r
              else rr_service_reward r = 0 \<and> outs = []"
    and v: "miner_reward v = rr_miner_reward r" "service_reward v = rr_service_reward r"
      "issued_subsidy v = rr_issued_subsidy r" "transaction_fees v = rr_transaction_fees r"
      "permanently_unissued v = rr_permanently_unissued r" "scheduled_subsidy v = rr_scheduled_subsidy r"
      "service_reward_active v = rr_service_reward_active r" "service_outputs v = outs"
    unfolding make_epose_reward_view_def by (auto split: if_splits option.splits)
  note sp = reward_outputs_loop_spec [OF lp]
  have "sum_list (map (\<lambda>x. unat (ro_amount x)) outs) = unat (rr_service_reward r)"
    using sp act by (auto split: if_splits)
  with reward_sums_exact [OF sums] sp act cb show ?thesis
    unfolding v by (auto split: if_splits)
qed

section \<open>Host names\<close>

definition dns_label :: "string \<Rightarrow> bool" where
  "dns_label l \<longleftrightarrow> l \<noteq> [] \<and> length l \<le> 63 \<and> list_all dns_char l \<and> hd l \<noteq> CHR ''-'' \<and> last l \<noteq> CHR ''-''"

lemma split_at_takeWhile:
  "split_at sep s = takeWhile (\<lambda>c. c \<noteq> sep) s #
     (if dropWhile (\<lambda>c. c \<noteq> sep) s = [] then [] else split_at sep (tl (dropWhile (\<lambda>c. c \<noteq> sep) s)))"
  by (induction s) auto

lemma dns_loop_spec:
  "s \<noteq> [] \<Longrightarrow> last s \<noteq> CHR ''.'' \<Longrightarrow>
   dns_loop s f = (if list_all dns_label (split_at CHR ''.'' s)
     then Some (f \<or> list_ex (list_ex (\<lambda>c. ascii_letter c \<or> c = CHR ''-'')) (split_at CHR ''.'' s))
     else None)"
proof (induction s f rule: dns_loop.induct)
  case (1 s f)
  let ?l = "takeWhile (\<lambda>c. c \<noteq> CHR ''.'') s" and ?a = "dropWhile (\<lambda>c. c \<noteq> CHR ''.'') s"
  let ?bad = "?l = [] \<or> 63 < length ?l \<or> hd ?l = CHR ''-'' \<or> last ?l = CHR ''-'' \<or> \<not> list_all dns_char ?l"
  let ?f = "f \<or> list_ex (\<lambda>c. ascii_letter c \<or> c = CHR ''-'') ?l"
  have bad: "?bad \<longleftrightarrow> \<not> dns_label ?l" by (auto simp: dns_label_def)
  show ?case
  proof (cases ?bad)
    case True
    then have "dns_loop s f = None"
      using "1.prems"(1) by (subst dns_loop.simps) (simp only: Let_def if_True if_False)
    moreover have "\<not> list_all dns_label (split_at CHR ''.'' s)"
      using True bad by (subst split_at_takeWhile) simp
    ultimately show ?thesis by simp
  next
    case ok: False
    then have lab: "dns_label ?l" using bad by blast
    show ?thesis
    proof (cases "?a = []")
      case True
      have "dns_loop s f = Some ?f"
        using "1.prems"(1) ok True
        by (subst dns_loop.simps) (simp only: Let_def if_True if_False refl)
      moreover have "split_at CHR ''.'' s = [?l]" using True by (subst split_at_takeWhile) simp
      ultimately show ?thesis using lab by simp
    next
      case False
      have "last s = last ?a" using False by (metis last_appendR takeWhile_dropWhile_id)
      moreover have "hd ?a = CHR ''.''" using False hd_dropWhile [of "\<lambda>c. c \<noteq> CHR ''.''" s] by simp
      ultimately have "last ?a \<noteq> hd ?a" using "1.prems"(2) by metis
      then have t: "tl ?a \<noteq> []" "last (tl ?a) \<noteq> CHR ''.''"
        using \<open>last s = last ?a\<close> "1.prems"(2) by (metis last_ConsL last_tl list.collapse False)+
      have step: "dns_loop s f = dns_loop (tl ?a) ?f"
        using "1.prems"(1) ok False by (subst dns_loop.simps) (simp only: Let_def if_True if_False)
      have sp: "split_at CHR ''.'' s = ?l # split_at CHR ''.'' (tl ?a)"
        using False by (subst split_at_takeWhile) (simp only: if_False)
      show ?thesis
        using "1.IH" [OF "1.prems"(1) refl refl ok refl False t] lab unfolding step sp by auto
    qed
  qed
qed

lemma split_at_list_ex:
  "\<not> P sep \<Longrightarrow> list_ex (list_ex P) (split_at sep s) = list_ex P s"
  by (induction s) (auto split: list.splits)

lemma split_at_last: "s \<noteq> [] \<Longrightarrow> last s = sep \<Longrightarrow> [] \<in> set (tl (split_at sep s))"
proof (induction s)
  case (Cons c s)
  then show ?case by (cases "s = []") (auto split: list.splits)
qed simp

text \<open>
  The host-name check is the usual grammar: at most 253 characters, labels between the dots
  of one to 63 letters, digits and hyphens that neither start nor end with a hyphen, and at least
  one character that is no digit, so that no numeric address passes as a name.
\<close>

theorem dns_name_grammar:
  "valid_epose_dns_name host \<longleftrightarrow>
     length host \<le> 253 \<and> list_all dns_label (split_at CHR ''.'' host)
     \<and> list_ex (\<lambda>c. ascii_letter c \<or> c = CHR ''-'') host"
proof -
  have dot: "\<not> (ascii_letter CHR ''.'' \<or> CHR ''.'' = CHR ''-'')" by (simp add: ascii_letter_def)
  have empty: "\<not> list_all dns_label (split_at CHR ''.'' host)"
    if "host = [] \<or> hd host = CHR ''.'' \<or> last host = CHR ''.''"
  proof -
    have "[] \<in> set (split_at CHR ''.'' host)"
    proof (cases "host \<noteq> [] \<and> last host = CHR ''.''")
      case True
      then show ?thesis
        using split_at_last [of host "CHR ''.''"] list.set_sel(2) [OF split_at_nonempty] by blast
    next
      case False
      with that show ?thesis by (cases host) auto
    qed
    then show ?thesis by (auto simp: list_all_iff dns_label_def)
  qed
  show ?thesis
  proof (cases "host = [] \<or> hd host = CHR ''.'' \<or> last host = CHR ''.''")
    case True
    with empty show ?thesis unfolding valid_epose_dns_name_def by blast
  next
    case False
    then have ne: "host \<noteq> []" "last host \<noteq> CHR ''.''" by auto
    show ?thesis
      using False
      unfolding valid_epose_dns_name_def dns_loop_spec [OF ne] split_at_list_ex [where P = "\<lambda>c. ascii_letter c \<or> c = CHR ''-''", OF dot]
      by (auto split: if_splits)
  qed
qed

definition sample_reward :: epose_reward_response where
  "sample_reward =
     \<lparr>rr_mapping_available = True, rr_block_hash = replicate 64 CHR ''a'', rr_parent_hash = replicate 64 CHR ''b'',
      rr_height = 7, rr_qualification_hash = replicate 64 CHR ''c'', rr_payout_epoch = 2, rr_source_epoch = 1,
      rr_qualified_count = 3, rr_scheduled_subsidy = 110, rr_transaction_fees = 5, rr_miner_subsidy = 60,
      rr_miner_fees = 5, rr_issued_subsidy = 100, rr_emission_advance = 110, rr_coinbase_total = 105,
      rr_miner_reward = 65, rr_service_reward = 40, rr_permanently_unissued = 10,
      rr_service_reward_active = True, rr_payment_proof_valid = True,
      rr_payee_service_public_key = replicate 64 CHR ''d'', rr_reward_view_public_key = replicate 64 CHR ''e'',
      rr_reward_spend_public_key = replicate 64 CHR ''f'',
      rr_service_outputs = [\<lparr>ro_index = 1, ro_amount = 30, ro_public_key = replicate 64 CHR ''1''\<rparr>,
        \<lparr>ro_index = 2, ro_amount = 10, ro_public_key = replicate 64 CHR ''2''\<rparr>]\<rparr>"

theorem reward_view_balances_witness:
  "\<exists>v. make_epose_reward_view sample_reward (replicate 64 CHR ''a'') 7 105 3 = Some v
     \<and> unat (miner_reward v) + unat (service_reward v) = 105"
proof -
  have "is_lower_hex_64 (replicate 64 c) \<longleftrightarrow> lower_hex_char c" for c
    by (simp add: is_lower_hex_64_def list_all_iff)
  then have "make_epose_reward_view sample_reward (replicate 64 CHR ''a'') 7 105 3 \<noteq> None"
    by (simp add: make_epose_reward_view_def reward_sums_ok_def sample_reward_def lower_hex_char_def
        u64_max_def Let_def)
  then obtain v where v: "make_epose_reward_view sample_reward (replicate 64 CHR ''a'') 7 105 3 = Some v" by auto
  with reward_view_balances [OF v] show ?thesis by simp
qed

section \<open>Endpoints that strangers advertise\<close>

lemma collect_addresses_spec:
  "collect_addresses A as acc = Some texts \<Longrightarrow>
     (\<forall>a \<in> set as. is_public_epose_address A a) \<and> set texts = ip_to_string A ` set as \<union> set acc
     \<and> (distinct acc \<longrightarrow> distinct texts) \<and> (length acc \<le> maximum_dns_addresses \<longrightarrow> length texts \<le> maximum_dns_addresses)"
proof (induction A as acc rule: collect_addresses.induct)
  case (2 A a as acc)
  let ?acc = "List.insert (ip_to_string A a) acc"
  from "2.prems" have g: "\<not> \<not> is_public_epose_address A a" "\<not> maximum_dns_addresses < length ?acc"
    and go: "collect_addresses A as ?acc = Some texts"
    by (auto simp: Let_def split: if_splits)
  from "2.IH" [OF g(1) refl g(2) go] g show ?case by auto
qed simp

text \<open>
  C40. The explorer never connects to an address that is not public: an authority is produced
  only for a valid port and from a public address; for a host name, every address the name
  resolves to is public and there are at most eight. The reading of a printed address gives the
  address back, as Boost documents.
\<close>

theorem resolved_endpoint_is_public:
  assumes "\<forall>a. ip_from_string A (ip_to_string A a) = Some a"
    and "resolve_public_endpoint A host port transport = Inr authority"
  shows "0 < port \<and> port \<le> 65535
    \<and> (\<exists>a. is_public_epose_address A a \<and> authority = numeric_authority_of A a port)
    \<and> (transport = 3 \<longrightarrow> valid_epose_dns_name host \<and> (\<exists>as. dns_resolve A host port = Some as
         \<and> (\<forall>a \<in> set as. is_public_epose_address A a) \<and> card (ip_to_string A ` set as) \<le> 8))"
proof -
  have port: "0 < port" "port \<le> 65535" and tr: "\<not> (transport < 1 \<or> 3 < transport)"
    using assms(2) by (auto simp: resolve_public_endpoint_def word_gt_0 split: if_splits)
  show ?thesis
  proof (cases "transport = 1 \<or> transport = 2")
    case True
    then have "transport \<noteq> 3" by auto
    moreover from True obtain a where "is_public_epose_address A a" "authority = numeric_authority_of A a port"
      using assms(2) port tr by (auto simp: resolve_public_endpoint_def split: if_splits option.splits)
    ultimately show ?thesis using port by blast
  next
    case False
    then obtain as texts a where dns: "valid_epose_dns_name host" "dns_resolve A host port = Some as"
      and texts: "collect_addresses A as [] = Some texts" "texts \<noteq> []"
      and a: "ip_from_string A (Min (set texts)) = Some a" "authority = numeric_authority_of A a port"
      using assms(2) port tr
      by (auto simp: resolve_public_endpoint_def split: if_splits option.splits)
    note sp = collect_addresses_spec [OF texts(1)]
    have "Min (set texts) \<in> set texts" using texts(2) by simp
    then obtain b where "b \<in> set as" "Min (set texts) = ip_to_string A b" using sp by auto
    then have "is_public_epose_address A a" using sp a(1) assms(1) by simp
    moreover have "card (ip_to_string A ` set as) \<le> 8"
      using sp distinct_card [of texts] by (simp add: maximum_dns_addresses_def)
    ultimately show ?thesis using port dns a(2) sp by blast
  qed
qed

text \<open>
  Telemetry is reported as such only when a public endpoint answered, under the descriptor
  and the service key that were asked for, with a known version, a printable software version and
  a well-formed tip hash; the reported values are those of the answer.
\<close>

theorem reported_telemetry_is_checked:
  assumes "fetch_epose_remote_telemetry A ok ask now host port transport desc key = t"
    and "te_state t = Reported"
  shows "\<exists>authority r. resolve_public_endpoint A host port transport = Inr authority \<and> ask authority = Some r
    \<and> et_descriptor_hash r = desc \<and> et_service_public_key r = key \<and> et_telemetry_version r = 1
    \<and> is_lower_hex_telemetry_hash (te_tip_hash t) \<and> valid_epose_software_version (te_software_version t)
    \<and> te_tip_height t = et_tip_height r \<and> te_tip_hash t = et_tip_hash r \<and> te_observed_at_unix t = now"
  using assms unfolding fetch_epose_remote_telemetry_def
  by (auto simp: Let_def split: sum.splits option.splits if_splits)

text \<open>
  The tip assessment is right: a node is called synchronised or a number of blocks behind
  only when its hash is the canonical hash at its height, and the number is the distance of the
  heights.
\<close>

theorem tip_assessment_sound:
  "(ta_status (assess_epose_tip h x n canonical) = ''same_tip'' \<longleftrightarrow>
      is_lower_hex_telemetry_hash x \<and> x = canonical \<and> h = n)
   \<and> (ta_status (assess_epose_tip h x n canonical) = ''canonical_behind'' \<longleftrightarrow>
      is_lower_hex_telemetry_hash x \<and> x = canonical \<and> h < n)
   \<and> unat (ta_blocks_behind (assess_epose_tip h x n canonical)) =
      (if ta_status (assess_epose_tip h x n canonical) = ''canonical_behind'' then unat n - unat h else 0)"
  by (auto simp: assess_epose_tip_def not_less unat_sub_u64)

text \<open>
  A telemetry response is bounded: the pieces the client accepts never exceed 16 KiB in
  total, however they are cut.
\<close>

theorem telemetry_response_bounded:
  assumes "receive_pieces ps 0 = Some n"
  shows "n = length (concat ps) \<and> n \<le> 16384"
proof -
  have "receive_pieces ps r = Some n \<Longrightarrow> r \<le> maximum_response_bytes \<Longrightarrow>
      n = r + length (concat ps) \<and> n \<le> maximum_response_bytes" for r
  proof (induction ps arbitrary: r)
    case (Cons p ps)
    then have "receive_pieces ps (r + length p) = Some n" "r + length p \<le> maximum_response_bytes"
      by (auto simp: handle_target_data_def split: if_splits)
    from Cons.IH [OF this] show ?case by simp
  qed simp
  from this [OF assms] show ?thesis by (simp add: maximum_response_bytes_def)
qed

theorem telemetry_response_bounded_witness: "length (concat [''abc'', ''de'']) \<le> 16384"
proof -
  have "receive_pieces [''abc'', ''de''] 0 = Some 5"
    by (simp add: handle_target_data_def maximum_response_bytes_def)
  from telemetry_response_bounded [OF this] show ?thesis by simp
qed

text \<open>An instance of the library for which printing and reading are inverse.\<close>

definition byte_of :: "char \<Rightarrow> 8 word" where
  "byte_of c = of_nat (of_char c)"

definition char_of_byte :: "8 word \<Rightarrow> char" where
  "char_of_byte b = char_of (unat b)"

lemma byte_of_char_of_byte: "byte_of (char_of_byte b) = b"
proof -
  have "unat b < 256" using unsigned_less [of b, where ?'a = nat] by simp
  then show ?thesis by (simp add: byte_of_def char_of_byte_def)
qed

definition sample_asio :: asio_lib where
  "sample_asio = \<lparr>ip_from_string = (\<lambda>s. if s = [] then None
        else if hd s = CHR ''4'' \<and> length s = 5
        then Some (V4 (byte_of (s ! 1)) (byte_of (s ! 2)) (byte_of (s ! 3)) (byte_of (s ! 4)))
        else Some (V6 (map byte_of (tl s)))),
     ip_to_string = (\<lambda>a. case a of V4 a b c d \<Rightarrow> ''4'' @ map char_of_byte [a, b, c, d]
                        | V6 bs \<Rightarrow> ''6'' @ map char_of_byte bs),
     ip_special = (\<lambda>_. False), dns_resolve = (\<lambda>h p. Some [V4 9 9 9 9])\<rparr>"

lemma sample_asio_inverse: "\<forall>a. ip_from_string sample_asio (ip_to_string sample_asio a) = Some a"
proof
  fix a
  show "ip_from_string sample_asio (ip_to_string sample_asio a) = Some a"
    by (cases a) (simp_all add: sample_asio_def byte_of_char_of_byte comp_def)
qed

lemma sample_resolve:
  "resolve_public_endpoint sample_asio (ip_to_string sample_asio (V4 9 9 9 9)) 80 1
     = Inr (numeric_authority_of sample_asio (V4 9 9 9 9) 80)"
  using sample_asio_inverse
  by (simp add: resolve_public_endpoint_def is_v6_def) (simp add: sample_asio_def)

theorem resolved_endpoint_is_public_witness:
  "\<exists>a. is_public_epose_address sample_asio a
     \<and> numeric_authority_of sample_asio (V4 9 9 9 9) 80 = numeric_authority_of sample_asio a 80"
  using resolved_endpoint_is_public [OF sample_asio_inverse sample_resolve] by blast

theorem reported_telemetry_is_checked_witness:
  "\<exists>t :: epose_remote_telemetry. te_state t = Reported \<and> is_lower_hex_telemetry_hash (te_tip_hash t)"
proof -
  let ?r = "\<lparr>et_status = ''OK'', et_ready = True, et_service_public_key = ''k'', et_descriptor_hash = ''d'',
      et_telemetry_available = True, et_telemetry_version = 1, et_software_version = ''1.0'', et_tip_height = 5,
      et_tip_hash = replicate 64 CHR ''a'', et_synchronized = True\<rparr>"
  let ?t = "fetch_epose_remote_telemetry sample_asio ''OK'' (\<lambda>_. Some ?r) 9
      (ip_to_string sample_asio (V4 9 9 9 9)) 80 1 ''d'' ''k''"
  have "te_state ?t = Reported"
    by (simp add: fetch_epose_remote_telemetry_def sample_resolve Let_def valid_epose_software_version_def
        is_lower_hex_telemetry_hash_def list_all_iff lower_hex_char_def)
  from reported_telemetry_is_checked [OF refl this] this show ?thesis by blast
qed

end
