(* ===== verification/Page.thy ===== *)
theory Page
  imports Mempool Json
begin

text \<open>
  The helpers of \<open>src/page.h\<close> that the JSON handlers share: details of a transaction
  (\<open>get_tx_details\<close>, \<open>get_tx_json\<close>), finding a transaction in the chain or the pool, ages, ring
  offsets and the view of the network information. An exception that leaves a function is \<open>Inl\<close>.
\<close>

section \<open>What the page code calls\<close>

text \<open>
  The functions of the core, beside those of \<open>core_lib\<close>, and the constants it defines;
  \<open>json_double\<close> is the JSON value of a 64-bit number converted to \<open>double\<close>, \<open>show_hash\<close> the stream
  output of a hash, and the last two are the core's JSON dump of an object, parsed again (\<open>None\<close> for
  the exception the callers catch).
\<close>

record page_lib =
  pl_core :: core_lib
  pl_float :: float_text
  pl_coin :: u64
  pl_decimals :: nat
  get_transaction_hash :: "transaction \<Rightarrow> hash"
  pruned_transaction_hash :: "transaction \<Rightarrow> hash option"
  get_object_blobsize :: "transaction \<Rightarrow> u64"
  extra_pub_keys :: "blob \<Rightarrow> hash list"
  additional_tx_pub_keys :: "transaction \<Rightarrow> hash list"
  extra_nonce :: "blob \<Rightarrow> string option"
  encrypted_payment_id :: "string \<Rightarrow> hash option"
  plain_payment_id :: "string \<Rightarrow> hash option"
  buff_to_hex :: "blob \<Rightarrow> string"
  absolute_output_offsets :: "u64 list \<Rightarrow> u64 list"
  json_double :: "u64 \<Rightarrow> json"
  fee_grace_blocks :: u64
  show_hash :: "hash \<Rightarrow> string"
  obj_to_json_tx :: "transaction \<Rightarrow> json option"
  obj_to_json_block :: "block \<Rightarrow> json option"

text \<open>One view of the database: the chain, and the further queries of the page code.\<close>

record page_view =
  pv_chain :: chain_view
  block_weight :: "u64 \<Rightarrow> u64"
  block_difficulty :: "u64 \<Rightarrow> u128"
  block_by_hash :: "hash \<Rightarrow> block option"
  block_height_of :: "hash \<Rightarrow> u64"
  tx_block_height :: "hash \<Rightarrow> db_exn + u64"
  num_outputs :: "u64 \<Rightarrow> u64"
  output_keys :: "u64 \<Rightarrow> u64 list \<Rightarrow> (hash \<times> u64) list option"
  output_tx_and_index :: "u64 \<Rightarrow> u64 \<Rightarrow> (hash \<times> u64) option"

type_synonym page_world = "nat \<Rightarrow> page_view"

section \<open>Details of a transaction\<close>

text \<open>
  \<open>td_blk_height\<close> is \<open>None\<close> while the member is uninitialised: \<open>get_tx_details\<close> writes it on one
  of its two branches only.
\<close>

record tx_details =
  td_hash :: hash
  td_pk :: hash
  td_additional_pks :: "hash list"
  td_xmr_inputs :: u64
  td_xmr_outputs :: u64
  td_num_nonrct_inputs :: u64
  td_fee :: u64
  td_mixin_no :: u64
  td_size :: u64
  td_blk_height :: "u64 option"
  td_version :: u64
  td_confidential_amounts :: bool
  td_unlock_time :: u64
  td_no_confirmations :: u64
  td_extra :: blob
  td_payment_id :: hash
  td_payment_id8 :: hash
  td_signatures :: "string list list"
  td_input_key_imgs :: "txin_to_key list"
  td_output_pub_keys :: "output_tuple list"

definition tx_hash_of :: "page_lib \<Rightarrow> transaction \<Rightarrow> hash" where
  "tx_hash_of P tx =
     (if \<not> tx_pruned tx then get_transaction_hash P tx
      else case pruned_transaction_hash P tx of None \<Rightarrow> null_hash | Some h \<Rightarrow> h)"

definition tx_fee_of :: "page_lib \<Rightarrow> transaction \<Rightarrow> bool \<Rightarrow> u64" where
  "tx_fee_of P tx coinbase =
     (if \<not> coinbase \<and> vin tx \<noteq> [] \<and> hd (vin tx) \<noteq> TxinGen then get_tx_fee (pl_core P) tx else 0)"

definition get_tx_details ::
    "page_lib \<Rightarrow> page_view \<Rightarrow> transaction \<Rightarrow> bool \<Rightarrow> u64 \<Rightarrow> u64 \<Rightarrow> db_exn + tx_details" where
  "get_tx_details P v tx coinbase blk_height bc_height =
     (case summary_of_in_out_rct (pl_core P) tx [] [] of
        ((outputs, inputs, mixin, nonrct), out_keys, in_keys) \<Rightarrow>
      case get_payment_id (extra_nonce P) (encrypted_payment_id P) (plain_payment_id P) (tx_extra tx) of
        (_, pid, pid8) \<Rightarrow>
      let txh = tx_hash_of P tx;
          txd = \<lparr>td_hash = txh, td_pk = get_tx_pub_key_from_received_outs (extra_pub_keys P) tx,
                 td_additional_pks = additional_tx_pub_keys P tx, td_xmr_inputs = inputs,
                 td_xmr_outputs = outputs, td_num_nonrct_inputs = nonrct,
                 td_fee = tx_fee_of P tx coinbase, td_mixin_no = mixin,
                 td_size = get_object_blobsize P tx, td_blk_height = None, td_version = tx_version tx,
                 td_confidential_amounts = transaction_amounts_confidential (pl_core P) tx,
                 td_unlock_time = unlock_time tx, td_no_confirmations = 0, td_extra = tx_extra tx,
                 td_payment_id = pid, td_payment_id8 = pid8, td_signatures = tx_signatures tx,
                 td_input_key_imgs = in_keys, td_output_pub_keys = out_keys\<rparr>
      in if blk_height = 0 \<and> have_tx (pv_chain v) txh
         then (case tx_block_height v txh of
                 Inl e \<Rightarrow> Inl e
               | Inr h \<Rightarrow>
                 Inr (txd\<lparr>td_blk_height := Some h,
                          td_no_confirmations := current_height (pv_chain v) - h\<rparr>))
         else Inr (txd\<lparr>td_no_confirmations := bc_height - blk_height\<rparr>))"

definition is_ringct :: "page_lib \<Rightarrow> transaction \<Rightarrow> bool" where
  "is_ringct P tx \<longleftrightarrow> transaction_amounts_confidential (pl_core P) tx"

definition amount_qwc :: "page_lib \<Rightarrow> u64 \<Rightarrow> string" where
  "amount_qwc P a = xmr_amount_to_str (pl_coin P) (pl_decimals P) a False"

definition jnull_or :: "bool \<Rightarrow> string \<Rightarrow> json" where
  "jnull_or hide s = (if hide then JNull else JStr s)"

definition get_tx_json :: "page_lib \<Rightarrow> transaction \<Rightarrow> tx_details \<Rightarrow> json" where
  "get_tx_json P tx txd =
     (let ringct = is_ringct P tx in
      JObj [(''tx_hash'', JStr (td_hash txd)),
            (''tx_fee_atomic'', JStr (u64_to_string (td_fee txd))),
            (''tx_fee_qwc'', JStr (amount_qwc P (td_fee txd))),
            (''mixin'', JU64 (td_mixin_no txd)),
            (''tx_size_bytes'', JU64 (td_size txd)),
            (''outputs_atomic'', jnull_or ringct (u64_to_string (td_xmr_outputs txd))),
            (''outputs_qwc'', jnull_or ringct (amount_qwc P (td_xmr_outputs txd))),
            (''inputs_atomic'', jnull_or ringct (u64_to_string (td_xmr_inputs txd))),
            (''inputs_qwc'', jnull_or ringct (amount_qwc P (td_xmr_inputs txd))),
            (''amount_availability'', JStr (if ringct then ''confidential'' else ''public'')),
            (''tx_version'', JU64 (td_version txd)),
            (''is_ringct'', JBool ringct),
            (''rct_type'', JNum (int (unat (rct_type tx)))),
            (''coinbase'', JBool (is_coinbase (pl_core P) tx)),
            (''extra'', JStr (buff_to_hex P (td_extra txd))),
            (''payment_id'', JStr (if td_payment_id txd \<noteq> null_hash then td_payment_id txd else [])),
            (''payment_id8'', JStr (if td_payment_id8 txd \<noteq> null_hash8 then td_payment_id8 txd else []))])"

section \<open>Finding a transaction\<close>

text \<open>\<open>search_mempool\<close>: the null hash selects every transaction; another hash ends the loop.\<close>

fun search_mempool_loop :: "hash \<Rightarrow> mempool_tx list \<Rightarrow> mempool_tx list \<Rightarrow> mempool_tx list" where
  "search_mempool_loop txh [] found = found"
| "search_mempool_loop txh (m # ms) found =
     (if txh = mt_tx_hash m \<or> txh = null_hash
      then (if txh \<noteq> null_hash then found @ [m] else search_mempool_loop txh ms (found @ [m]))
      else search_mempool_loop txh ms found)"

definition search_mempool :: "mempool_status \<Rightarrow> hash \<Rightarrow> mempool_tx list" where
  "search_mempool ms txh =
     (case mempool_txs ms of None \<Rightarrow> [] | Some txs \<Rightarrow> search_mempool_loop txh txs [])"

text \<open>
  \<open>find_tx\<close>: the transaction, whether it is from the pool, and its receive time (0 for a
  transaction of the chain, where the output argument is left alone); \<open>None\<close> is \<open>false\<close>.
\<close>

definition find_tx ::
    "page_view \<Rightarrow> mempool_status \<Rightarrow> hash \<Rightarrow> db_exn + (transaction \<times> bool \<times> u64) option" where
  "find_tx v ms txh =
     (case micro_get_tx (pv_chain v) txh of
        Inl e \<Rightarrow> Inl e
      | Inr (Some tx) \<Rightarrow> Inr (Some (tx, False, 0))
      | Inr None \<Rightarrow>
        (case search_mempool ms txh of
           [] \<Rightarrow> Inr None
         | m # _ \<Rightarrow> Inr (Some (mt_tx m, True, mt_receive_time m))))"

definition find_tx_for_json ::
    "page_lib \<Rightarrow> page_view \<Rightarrow> mempool_status \<Rightarrow> string \<Rightarrow> db_exn + (string + transaction \<times> bool \<times> u64)" where
  "find_tx_for_json P v ms tx_hash_str =
     (case parse_str_secret_key (pl_core P) tx_hash_str of
        None \<Rightarrow> Inr (Inl (''Cant parse tx hash: '' @ tx_hash_str))
      | Some txh \<Rightarrow>
        (case find_tx v ms txh of
           Inl e \<Rightarrow> Inl e
         | Inr None \<Rightarrow> Inr (Inl (''Cant find tx hash: '' @ tx_hash_str))
         | Inr (Some r) \<Rightarrow> Inr (Inr r)))"

text \<open>\<open>page::get_tx\<close>, for the pages: the transaction and its hash.\<close>

definition page_get_tx ::
    "(string \<Rightarrow> hash option) \<Rightarrow> page_view \<Rightarrow> mempool_status \<Rightarrow> string \<Rightarrow> db_exn + (transaction \<times> hash) option" where
  "page_get_tx hex_to_pod v ms tx_hash_str =
     (case hex_to_pod tx_hash_str of
        None \<Rightarrow> Inr None
      | Some txh \<Rightarrow>
        (case micro_get_tx (pv_chain v) txh of
           Inl e \<Rightarrow> Inl e
         | Inr (Some tx) \<Rightarrow> Inr (Some (tx, txh))
         | Inr None \<Rightarrow>
           (case search_mempool ms txh of
              [] \<Rightarrow> Inr None
            | m # _ \<Rightarrow> Inr (Some (mt_tx m, txh)))))"

section \<open>Ages, offsets, submitted data\<close>

definition pad_dec :: "nat \<Rightarrow> u64 \<Rightarrow> string" where
  "pad_dec w n = pad_left w CHR ''0'' (u64_to_string n)"

definition get_age :: "u64 \<Rightarrow> u64 \<Rightarrow> bool \<Rightarrow> string \<times> string" where
  "get_age timestamp1 timestamp2 full_format =
     (case timestamp_difference timestamp1 timestamp2 of
        (y, d, h, m, s) \<Rightarrow>
          if 0 < y \<or> full_format
          then (pad_dec 2 y @ '':'' @ pad_dec 3 d @ '':'' @ pad_dec 2 h @ '':'' @ pad_dec 2 m @ '':'' @ pad_dec 2 s,
                ''[y:d:h:m:s]'')
          else if 0 < d
          then (pad_dec 2 d @ '':'' @ pad_dec 2 h @ '':'' @ pad_dec 2 m @ '':'' @ pad_dec 2 s, ''[d:h:m:s]'')
          else (pad_dec 2 h @ '':'' @ pad_dec 2 m @ '':'' @ pad_dec 2 s, ''[h:m:s]''))"

fun offsets_loop :: "u64 \<Rightarrow> u64 list \<Rightarrow> bool \<Rightarrow> bool" where
  "offsets_loop available [] offset_too_large = offset_too_large"
| "offsets_loop available (x # xs) offset_too_large =
     offsets_loop available xs (if available \<le> x then True else offset_too_large)"

definition are_absolute_offsets_good :: "page_view \<Rightarrow> u64 list \<Rightarrow> txin_to_key \<Rightarrow> bool" where
  "are_absolute_offsets_good v absolute_offsets in_key \<longleftrightarrow>
     \<not> offsets_loop (num_outputs v (in_amount in_key)) absolute_offsets False"

text \<open>\<open>boost::trim\<close> and \<open>boost::erase_all\<close> of \<open>clean_post_data\<close>.\<close>

definition trim :: "string \<Rightarrow> string" where
  "trim s = rev (dropWhile is_space (rev (dropWhile is_space s)))"

function erase_all :: "string \<Rightarrow> string \<Rightarrow> string" where
  "erase_all pat s =
     (if pat = [] \<or> s = [] then s
      else if starts_with pat s then erase_all pat (drop (length pat) s)
      else hd s # erase_all pat (tl s))"
  by pat_completeness auto
termination
  by (relation "measure (\<lambda>(pat, s). length s)") (auto simp: neq_Nil_conv)

declare erase_all.simps [simp del]

definition clean_post_data :: "string \<Rightarrow> string" where
  "clean_post_data raw_tx_data =
     erase_all ''-----END CERTIFICATE-----''
       (erase_all ''-----BEGIN CERTIFICATE-----''
         (erase_all [CHR 0x0A] (erase_all [CHR 0x0D, CHR 0x0A] (trim raw_tx_data))))"

section \<open>Network information\<close>

definition get_monero_network_info :: "mempool_status \<Rightarrow> bool \<times> json" where
  "get_monero_network_info ms =
     (let n = current_network_info ms;
          difficulty = make_difficulty (ni_difficulty n) (ni_difficulty_top64 n)
      in (ni_current n,
          JObj [(''status'', JBool (ni_current n)),
                (''current'', JBool (ni_current n)),
                (''height'', JU64 (ni_height n)),
                (''target_height'', JU64 (ni_target_height n)),
                (''difficulty'', JStr (nat_to_dec (unat difficulty))),
                (''target'', JU64 (ni_target n)),
                (''estimated_hashrate_hps'', JStr (decimal_ratio difficulty (ucast (ni_target n)) 8)),
                (''estimated_hashrate_display'', JStr (format_hashrate_si difficulty (ni_target n))),
                (''hashrate_estimator'', JStr ''next_block_difficulty_divided_by_target_interval''),
                (''tx_count'', JU64 (ni_tx_count n)),
                (''tx_pool_size'', JU64 (ni_tx_pool_size n)),
                (''alt_blocks_count'', JU64 (ni_alt_blocks_count n)),
                (''outgoing_connections_count'', JU64 (ni_outgoing n)),
                (''incoming_connections_count'', JU64 (ni_incoming n)),
                (''white_peerlist_size'', JU64 (ni_white_peerlist_size n)),
                (''grey_peerlist_size'', JU64 (ni_grey_peerlist_size n)),
                (''testnet'', JBool (ni_nettype n = TESTNET)),
                (''stagenet'', JBool (ni_nettype n = STAGENET)),
                (''top_block_hash'', JStr (ni_top_block_hash n)),
                (''cumulative_difficulty'',
                   JStr (nat_to_dec (unat (make_difficulty (ni_cumulative_difficulty n)
                                                           (ni_cumulative_difficulty_top64 n))))),
                (''block_size_limit'', JU64 (ni_block_size_limit n)),
                (''block_size_median'', JU64 (ni_block_size_median n)),
                (''start_time'', JU64 (ni_start_time n)),
                (''fee_per_kb'', JU64 (ni_fee_per_kb n)),
                (''current_hf_version'', JU64 (ni_current_hf_version n)),
                (''observed_at_unix'', JU64 (ni_info_timestamp n))]))"

section \<open>Facts on finding transactions\<close>

lemma search_mempool_loop_spec:
  "txh \<noteq> null_hash \<Longrightarrow>
   search_mempool_loop txh ms found =
     found @ (case List.find (\<lambda>m. mt_tx_hash m = txh) ms of None \<Rightarrow> [] | Some m \<Rightarrow> [m])"
  by (induction ms arbitrary: found) auto

lemma search_mempool_null: "search_mempool_loop null_hash ms found = found @ ms"
  by (induction ms arbitrary: found) auto

lemma offsets_loop_spec: "offsets_loop n xs b \<longleftrightarrow> b \<or> (\<exists>x \<in> set xs. n \<le> x)"
  by (induction xs arbitrary: b) auto

text \<open>
  A transaction is found where it is: for a hash other than the null hash, a transaction of
  the chain is returned as such, else the first pool transaction with that hash, with its receive
  time; the search fails only when neither has it.
\<close>

theorem find_tx_correct:
  assumes "txh \<noteq> null_hash" "micro_get_tx (pv_chain v) txh = Inr found" "mempool_txs ms = Some txs"
  shows "find_tx v ms txh = Inr (case found of
      Some tx \<Rightarrow> Some (tx, False, 0)
    | None \<Rightarrow> map_option (\<lambda>m. (mt_tx m, True, mt_receive_time m)) (List.find (\<lambda>m. mt_tx_hash m = txh) txs))"
  using assms
  by (auto simp: find_tx_def search_mempool_def search_mempool_loop_spec split: option.splits)

text \<open>
  The null hash is no exception in the code but a wildcard: a request for it that the chain does
  not answer returns the newest transaction of the pool, whatever its hash.
\<close>

lemma find_tx_null_hash:
  assumes "micro_get_tx (pv_chain v) null_hash = Inr None" "mempool_txs ms = Some (m # rest)"
  shows "find_tx v ms null_hash = Inr (Some (mt_tx m, True, mt_receive_time m))"
  using assms by (simp add: find_tx_def search_mempool_def search_mempool_null)

lemma are_absolute_offsets_good_iff:
  "are_absolute_offsets_good v offs k \<longleftrightarrow> (\<forall>x \<in> set offs. x < num_outputs v (in_amount k))"
  by (auto simp: are_absolute_offsets_good_def offsets_loop_spec not_le)

section \<open>A small chain\<close>

text \<open>A chain of one block and a library to read it with, for the examples below.\<close>

definition plain_core :: core_lib where
  "plain_core = \<lparr>get_block_hash = prev_id, get_outs_money_amount = (\<lambda>tx. sum_list (map out_amount (vout tx))),
     get_tx_fee = (\<lambda>_. 7), is_coinbase = (\<lambda>tx. vin tx = [TxinGen]),
     get_output_public_key = (\<lambda>x. case out_target x of TxoutToKey k \<Rightarrow> Some k | _ \<Rightarrow> None),
     uninit_key = [], parse_hash256 = (\<lambda>s. if length s = 64 then Some s else None),
     block_to_blob = (\<lambda>_. []), tx_to_blob = (\<lambda>_. []), rct_type_null = 0\<rparr>"

definition sample_lib :: page_lib where
  "sample_lib = \<lparr>pl_core = plain_core,
     pl_float = \<lparr>kib_text = u64_to_string, half_kib_text = u64_to_string,
       fee_rate_text = (\<lambda>_ _. []), fee_rate_micro_text = (\<lambda>_ _. []), times_million = (\<lambda>x. x * 1000000)\<rparr>,
     pl_coin = 100000000, pl_decimals = 8, get_transaction_hash = tx_extra,
     pruned_transaction_hash = (\<lambda>_. None), get_object_blobsize = (\<lambda>_. 100), extra_pub_keys = (\<lambda>_. []),
     additional_tx_pub_keys = (\<lambda>_. []), extra_nonce = (\<lambda>_. None), encrypted_payment_id = (\<lambda>_. None),
     plain_payment_id = (\<lambda>_. None), buff_to_hex = (\<lambda>b. b), absolute_output_offsets = (\<lambda>xs. xs),
     json_double = JU64, fee_grace_blocks = 10, show_hash = (\<lambda>h. h),
     obj_to_json_tx = (\<lambda>_. None), obj_to_json_block = (\<lambda>_. None)\<rparr>"

definition sample_coinbase :: transaction where
  "sample_coinbase = \<lparr>tx_version = 2, unlock_time = 0, vin = [TxinGen],
     vout = [\<lparr>out_amount = 5, out_target = TxoutToKey ''aa''\<rparr>], tx_extra = ''cb'', rct_type = 0,
     tx_pruned = False, prunable_hash = [], tx_signatures = []\<rparr>"

definition genesis_block :: block where
  "genesis_block = \<lparr>major_version = 1, minor_version = 0, blk_timestamp = 60, prev_id = [], blk_nonce = 0,
     miner_tx = sample_coinbase, tx_hashes = []\<rparr>"

definition sample_view :: page_view where
  "sample_view = \<lparr>pv_chain = \<lparr>current_height = 1, block_id_by_height = (\<lambda>_. replicate 64 CHR ''a''),
       block_from_height = (\<lambda>_. Inr genesis_block), have_tx = (\<lambda>_. False), db_get_tx = (\<lambda>_. Inl TX_DNE),
       db_get_pruned_tx = (\<lambda>_. Inl TX_DNE), get_transactions = (\<lambda>_. (True, [], []))\<rparr>,
     block_weight = (\<lambda>_. 300), block_difficulty = (\<lambda>_. 1), block_by_hash = (\<lambda>_. Some genesis_block),
     block_height_of = (\<lambda>_. 0), tx_block_height = (\<lambda>_. Inl TX_DNE), num_outputs = (\<lambda>_. 0),
     output_keys = (\<lambda>_ _. None), output_tx_and_index = (\<lambda>_ _. None)\<rparr>"

lemma sample_view_simps:
  "current_height (pv_chain sample_view) = 1" "\<not> have_tx (pv_chain sample_view) h"
  "get_block_by_height (pv_chain sample_view) i = Some genesis_block"
  "get_transactions (pv_chain sample_view) hs = (True, [], [])"
  "miner_tx genesis_block = sample_coinbase" "tx_hashes genesis_block = []"
  "block_id_by_height (pv_chain sample_view) i = replicate 64 CHR ''a''"
  by (simp_all add: sample_view_def genesis_block_def get_block_by_height_def)

lemma get_tx_details_fresh:
  assumes "\<not> have_tx (pv_chain v) (tx_hash_of P tx)"
  shows "\<exists>txd. get_tx_details P v tx coinbase h height = Inr txd"
proof -
  obtain a b c d ks is' where "summary_of_in_out_rct (pl_core P) tx [] [] = ((a, b, c, d), ks, is')"
    by (metis prod.exhaust)
  moreover obtain e pid pid8 where
    "get_payment_id (extra_nonce P) (encrypted_payment_id P) (plain_payment_id P) (tx_extra tx) = (e, pid, pid8)"
    by (metis prod.exhaust)
  ultimately show ?thesis using assms by (simp add: get_tx_details_def Let_def)
qed

definition sample_pool_tx :: mempool_tx where
  "sample_pool_tx = \<lparr>mt_tx_hash = replicate 64 CHR ''b'', mt_tx = sample_coinbase, mt_receive_time = 99,
     sum_inputs = 0, sum_outputs = 5, no_inputs = 0, no_outputs = 1, num_nonrct_inputs = 0,
     confidential_amounts = False, mixin_no = 0, fee_str = [], fee_micro_str = [], payed_for_kB_str = [],
     payed_for_kB_micro_str = [], xmr_inputs_str = [], xmr_outputs_str = [], timestamp_str = [], txsize = []\<rparr>"

theorem find_tx_correct_witness:
  "find_tx sample_view ((initial_status sample_network_info)\<lparr>mempool_txs := Some [sample_pool_tx]\<rparr>)
     (replicate 64 CHR ''b'') = Inr (Some (sample_coinbase, True, 99))"
proof -
  have "replicate 64 CHR ''b'' \<noteq> null_hash" by (simp add: null_hash_def)
  moreover have "micro_get_tx (pv_chain sample_view) (replicate 64 CHR ''b'') = Inr None"
    by (simp add: micro_get_tx_def sample_view_simps)
  ultimately show ?thesis
    by (subst find_tx_correct [where found = None and txs = "[sample_pool_tx]"])
      (simp_all add: sample_pool_tx_def)
qed

end
