(* ===== verification/Page_Json.thy ===== *)
theory Page_Json
  imports Page Pagination Epose Supply_Index
begin

text \<open>
  The handlers of the JSON API of \<open>src/page.h\<close> for transactions, blocks, lists of blocks, the
  pool, the network information and the supply. A handler is a function of the observations of
  the database (\<open>w t\<close> is observation \<open>t\<close>; the calls inside one \<open>get_tx_details\<close> see one view),
  of the pool's mirror and of the answers of the daemon; \<open>Inl\<close> is an exception that leaves it.
\<close>

section \<open>Envelopes\<close>

definition jsend :: "string \<Rightarrow> json \<Rightarrow> json" where
  "jsend status data = JObj [(''status'', JStr status), (''data'', data)]"

definition fail_title :: "string \<Rightarrow> json" where
  "fail_title title = jsend ''fail'' (JObj [(''title'', JStr title)])"

definition error_message :: "json \<Rightarrow> string \<Rightarrow> json" where
  "error_message data msg =
     JObj [(''status'', JStr ''error''), (''data'', data), (''message'', JStr msg)]"

section \<open>One transaction\<close>

definition output_json :: "page_lib \<Rightarrow> bool \<Rightarrow> output_tuple \<Rightarrow> json" where
  "output_json P confidential out =
     (case out of (k, amount, tag) \<Rightarrow>
        JObj [(''public_key'', JStr k),
              (''amount_atomic'', jnull_or confidential (u64_to_string amount)),
              (''amount_qwc'', jnull_or confidential (amount_qwc P amount)),
              (''amount_availability'', JStr (if confidential then ''confidential'' else ''public''))])"

text \<open>
  The ring members of an input: a missing output ends the list (\<open>break\<close>), a list of output data
  that is too short is the exception of \<open>outputs.at\<close> (\<open>None\<close>).
\<close>

fun mixins_json :: "page_view \<Rightarrow> u64 \<Rightarrow> (hash \<times> u64) list \<Rightarrow> u64 list \<Rightarrow> json \<Rightarrow> json option" where
  "mixins_json v amount outs [] acc = Some acc"
| "mixins_json v amount [] (x # xs) acc = None"
| "mixins_json v amount ((k, h) # outs) (x # xs) acc =
     (case output_tx_and_index v amount x of
        None \<Rightarrow> Some acc
      | Some (txh, _) \<Rightarrow>
        mixins_json v amount outs xs
          (jpush acc (JObj [(''public_key'', JStr k), (''tx_hash'', JStr txh), (''block_no'', JU64 h)])))"

definition input_json :: "page_lib \<Rightarrow> bool \<Rightarrow> txin_to_key \<Rightarrow> json \<Rightarrow> json" where
  "input_json P confidential k mixins =
     JObj [(''key_image'', JStr (k_image k)),
           (''amount_atomic'', jnull_or confidential (u64_to_string (in_amount k))),
           (''amount_qwc'', jnull_or confidential (amount_qwc P (in_amount k))),
           (''amount_availability'', JStr (if confidential then ''confidential'' else ''public'')),
           (''mixins'', mixins)]"

text \<open>
  The loop over the inputs: an input with an offset out of range is skipped, outputs that cannot
  be read are an error.
\<close>

fun inputs_json ::
    "page_lib \<Rightarrow> page_view \<Rightarrow> bool \<Rightarrow> txin_to_key list \<Rightarrow> json \<Rightarrow> db_exn + json option" where
  "inputs_json P v confidential [] acc = Inr (Some acc)"
| "inputs_json P v confidential (k # ks) acc =
     (let offsets = absolute_output_offsets P (key_offsets k) in
      if \<not> are_absolute_offsets_good v offsets k then inputs_json P v confidential ks acc
      else case output_keys v (in_amount k) offsets of
             None \<Rightarrow> Inr None
           | Some outs \<Rightarrow>
             (case mixins_json v (in_amount k) outs offsets JNull of
                None \<Rightarrow> Inl OTHER_EXN
              | Some mixins \<Rightarrow>
                inputs_json P v confidential ks (jpush acc (input_json P confidential k mixins))))"

text \<open>
  The block of a transaction found in the chain: \<open>Inl\<close> the answer when it cannot be read, \<open>Inr\<close> its
  height and timestamp.
\<close>

definition tx_block ::
    "page_world \<Rightarrow> nat \<Rightarrow> hash \<Rightarrow> string \<Rightarrow> json + u64 \<times> u64" where
  "tx_block w t txh tx_hash_str =
     (case tx_block_height (w t) txh of
        Inl _ \<Rightarrow> Inl (error_message JNull
                  (''Tx does not exist in blockchain, but was there before: '' @ tx_hash_str))
      | Inr h \<Rightarrow>
        (case get_block_by_height (pv_chain (w (t + 1))) h of
           None \<Rightarrow> Inl (fail_title (''Cant get block: '' @ u64_to_string h))
         | Some blk \<Rightarrow> Inr (h, blk_timestamp blk)))"

definition transaction_data :: "json \<Rightarrow> u64 \<Rightarrow> u64 \<Rightarrow> u64 \<Rightarrow> json \<Rightarrow> json \<Rightarrow> u64 \<Rightarrow> json" where
  "transaction_data j_tx tx_timestamp blk_height confirmations outputs inputs bc_height =
     jset ''current_height'' (JU64 bc_height)
       (jset ''inputs'' inputs
         (jset ''outputs'' outputs
           (jset ''confirmations'' (JU64 confirmations)
             (jset ''block_height'' (JU64 blk_height)
               (jset ''timestamp_utc'' (JStr (timestamp_to_str_gm tx_timestamp))
                 (jset ''timestamp'' (JU64 tx_timestamp) j_tx))))))"

definition json_transaction ::
    "page_lib \<Rightarrow> page_world \<Rightarrow> nat \<Rightarrow> mempool_status \<Rightarrow> string \<Rightarrow> db_exn + json" where
  "json_transaction P w t ms tx_hash_str =
     (case parse_str_secret_key (pl_core P) tx_hash_str of
        None \<Rightarrow> Inr (fail_title (''Cant parse tx hash: '' @ tx_hash_str))
      | Some txh \<Rightarrow>
      (case find_tx (w t) ms txh of
         Inl e \<Rightarrow> Inl e
       | Inr None \<Rightarrow> Inr (fail_title (''Cant find tx hash: '' @ tx_hash_str))
       | Inr (Some (tx, found_in_mempool, receive)) \<Rightarrow>
       (case (if found_in_mempool then Inr (0, receive) else tx_block w (t + 1) txh tx_hash_str) of
          Inl answer \<Rightarrow> Inr answer
        | Inr (blk_height, tx_timestamp) \<Rightarrow>
          let bc_height = current_height (pv_chain (w (t + 3)));
              coinbase = is_coinbase (pl_core P) tx
          in (case get_tx_details P (w (t + 4)) tx coinbase blk_height bc_height of
             Inl e \<Rightarrow> Inl e
           | Inr txd \<Rightarrow>
             let confidential = (\<not> coinbase \<and> rct_type tx \<noteq> rct_type_null (pl_core P));
                 outputs = foldl jpush JNull (map (output_json P confidential) (td_output_pub_keys txd))
             in (case inputs_json P (w (t + 5)) confidential (td_input_key_imgs txd) JNull of
                Inl e \<Rightarrow> Inl e
              | Inr None \<Rightarrow> Inr (error_message JNull ''Failed to retrive outputs (mixins) used in key images'')
              | Inr (Some inputs) \<Rightarrow>
                Inr (jsend ''success''
                  (transaction_data (get_tx_json P tx txd) tx_timestamp blk_height
                     (if found_in_mempool then 0 else td_no_confirmations txd) outputs inputs bc_height)))))))"

definition json_rawtransaction ::
    "page_lib \<Rightarrow> page_world \<Rightarrow> nat \<Rightarrow> mempool_status \<Rightarrow> string \<Rightarrow> db_exn + json" where
  "json_rawtransaction P w t ms tx_hash_str =
     (case parse_str_secret_key (pl_core P) tx_hash_str of
        None \<Rightarrow> Inr (fail_title (''Cant parse tx hash: '' @ tx_hash_str))
      | Some txh \<Rightarrow>
      (case find_tx (w t) ms txh of
         Inl e \<Rightarrow> Inl e
       | Inr None \<Rightarrow> Inr (fail_title (''Cant find tx hash: '' @ tx_hash_str))
       | Inr (Some (tx, found_in_mempool, receive)) \<Rightarrow>
       (case (if found_in_mempool then Inr (0, receive) else tx_block w (t + 1) txh tx_hash_str) of
          Inl answer \<Rightarrow> Inr answer
        | Inr _ \<Rightarrow>
          (case obj_to_json_tx P tx of
             None \<Rightarrow> Inr (error_message JNull ''Faild parsing raw tx data into json'')
           | Some j \<Rightarrow> Inr (jsend ''success'' j)))))"

section \<open>One block\<close>

text \<open>
  The first half of \<open>json_block\<close> and \<open>json_rawblock\<close>: a text of at most eight characters is a
  height, one of 64 characters a hash; \<open>Inl\<close> is the title of the failure.
\<close>

definition lookup_block ::
    "page_lib \<Rightarrow> page_world \<Rightarrow> nat \<Rightarrow> u64 \<Rightarrow> string \<Rightarrow> string + (u64 \<times> hash \<times> block)" where
  "lookup_block P w t current_blockchain_height s =
     (if length s \<le> 8
      then (case lexical_cast_u64 s of
              None \<Rightarrow> Inl (''Cant parse block number: '' @ s)
            | Some h \<Rightarrow>
              if current_blockchain_height < h
              then Inl (''Requested block is higher than blockchain: '' @ u64_to_string h @ '', ''
                        @ u64_to_string current_blockchain_height)
              else case get_block_by_height (pv_chain (w t)) h of
                     None \<Rightarrow> Inl (''Cant get block: '' @ u64_to_string h)
                   | Some blk \<Rightarrow> Inr (h, block_id_by_height (pv_chain (w (t + 1))) h, blk))
      else if length s = 64
      then (case parse_str_secret_key (pl_core P) s of
              None \<Rightarrow> Inl (''Cant parse blk hash: '' @ s)
            | Some bh \<Rightarrow>
              (case block_by_hash (w t) bh of
                 None \<Rightarrow> Inl (''Cant get block: '' @ show_hash P bh)
               | Some blk \<Rightarrow> Inr (block_height_of (w (t + 1)) bh, bh, blk)))
      else Inl (''Cant find blk using search string: '' @ s))"

text \<open>The loop over the transactions of a block: \<open>Inr None\<close> when one cannot be read.\<close>

fun block_txs_json ::
    "page_lib \<Rightarrow> page_world \<Rightarrow> nat \<Rightarrow> u64 \<Rightarrow> u64 \<Rightarrow> hash list \<Rightarrow> json list \<Rightarrow> u64 \<Rightarrow>
       db_exn + (json list \<times> u64) option" where
  "block_txs_json P w t blk_height bc_height [] acc fees_total = Inr (Some (acc, fees_total))"
| "block_txs_json P w t blk_height bc_height (txh # txhs) acc fees_total =
     (case micro_get_tx (pv_chain (w t)) txh of
        Inl e \<Rightarrow> Inl e
      | Inr None \<Rightarrow> Inr None
      | Inr (Some tx) \<Rightarrow>
        (case get_tx_details P (w (t + 1)) tx False blk_height bc_height of
           Inl e \<Rightarrow> Inl e
         | Inr txd \<Rightarrow>
           block_txs_json P w (t + 2) blk_height bc_height txhs
             (acc @ [get_tx_json P tx txd]) (fees_total + td_fee txd)))"

definition reward_output_json :: "page_lib \<Rightarrow> epose_reward_output \<Rightarrow> json" where
  "reward_output_json P out =
     JObj [(''index'', JU64 (ro_index out)),
           (''amount_atomic'', JStr (u64_to_string (ro_amount out))),
           (''amount_qwc'', JStr (format_atomic_amount (ro_amount out) (pl_coin P) 8)),
           (''public_key'', JStr (ro_public_key out))]"

definition reward_json :: "page_lib \<Rightarrow> epose_reward_view option \<Rightarrow> json" where
  "reward_json P view =
     (case view of
        None \<Rightarrow> JObj [(''availability'', JStr ''unavailable'')]
      | Some v \<Rightarrow>
        let atomic = (\<lambda>a. JStr (u64_to_string a));
            qwc = (\<lambda>a. JStr (format_atomic_amount a (pl_coin P) 8))
        in JObj [(''availability'', JStr ''canonical''),
             (''payment_proof_valid'', JBool (service_reward_active v)),
             (''service_reward_active'', JBool (service_reward_active v)),
             (''payout_epoch'', JU64 (payout_epoch v)),
             (''source_epoch'', JU64 (source_epoch v)),
             (''source_qualified_count'', JU64 (qualified_count v)),
             (''scheduled_subsidy_atomic'', atomic (scheduled_subsidy v)),
             (''transaction_fees_atomic'', atomic (transaction_fees v)),
             (''miner_subsidy_atomic'', atomic (miner_subsidy v)),
             (''miner_fees_atomic'', atomic (miner_fees v)),
             (''issued_subsidy_atomic'', atomic (issued_subsidy v)),
             (''emission_advance_atomic'', atomic (emission_advance v)),
             (''coinbase_total_atomic'', atomic (coinbase_total v)),
             (''coinbase_total_qwc'', qwc (coinbase_total v)),
             (''miner_reward_atomic'', atomic (miner_reward v)),
             (''miner_reward_qwc'', qwc (miner_reward v)),
             (''service_reward_atomic'', atomic (service_reward v)),
             (''service_reward_qwc'', qwc (service_reward v)),
             (''permanently_unissued_atomic'', atomic (permanently_unissued v)),
             (''qualification_hash'', JStr (qualification_hash v)),
             (''payee_service_public_key'',
                if service_reward_active v then JStr (payee_service_public_key v) else JNull),
             (''service_outputs'', JArr (map (reward_output_json P) (service_outputs v)))])"

text \<open>\<open>reward_of\<close> is the answer of \<open>rpc.get_epose_block_reward\<close> for a block hash.\<close>

definition json_block ::
    "page_lib \<Rightarrow> page_world \<Rightarrow> nat \<Rightarrow> (hash \<Rightarrow> epose_reward_response option) \<Rightarrow> string \<Rightarrow> db_exn + json" where
  "json_block P w t reward_of s =
     (let current = current_height (pv_chain (w t)) in
      case lookup_block P w (t + 1) current s of
        Inl title \<Rightarrow> Inr (fail_title title)
      | Inr (h, bh, blk) \<Rightarrow>
        let blk_size = block_weight (w (t + 3)) h in
        (case get_tx_details P (w (t + 4)) (miner_tx blk) True h current of
           Inl e \<Rightarrow> Inl e
         | Inr txd_coinbase \<Rightarrow>
           let reward = (case reward_of bh of
                           None \<Rightarrow> None
                         | Some r \<Rightarrow> make_epose_reward_view r bh h (td_xmr_outputs txd_coinbase)
                                      (length (vout (miner_tx blk))))
           in (case block_txs_json P w (t + 5) h current (tx_hashes blk)
                      [get_tx_json P (miner_tx blk) txd_coinbase] 0 of
              Inl e \<Rightarrow> Inl e
            | Inr None \<Rightarrow> Inr (error_message JNull (''Cant get transactions in block: '' @ u64_to_string h))
            | Inr (Some (txs, _)) \<Rightarrow>
              Inr (jsend ''success''
                (JObj [(''block_height'', JU64 h), (''hash'', JStr bh),
                       (''timestamp'', JU64 (blk_timestamp blk)),
                       (''timestamp_utc'', JStr (timestamp_to_str_gm (blk_timestamp blk))),
                       (''size'', JU64 blk_size), (''txs'', JArr txs),
                       (''current_height'', JU64 current), (''epose_reward'', reward_json P reward)])))))"

definition json_rawblock ::
    "page_lib \<Rightarrow> page_world \<Rightarrow> nat \<Rightarrow> string \<Rightarrow> json" where
  "json_rawblock P w t s =
     (let current = current_height (pv_chain (w t)) in
      case lookup_block P w (t + 1) current s of
        Inl title \<Rightarrow> fail_title title
      | Inr (h, bh, blk) \<Rightarrow>
        (case obj_to_json_block P blk of
           None \<Rightarrow> error_message JNull ''Faild parsing raw blk data into json''
         | Some j \<Rightarrow> jsend ''success'' j))"

section \<open>Pages of blocks\<close>

definition maximum_expanded_transactions :: nat where
  "maximum_expanded_transactions = 5000"

fun details_json ::
    "page_lib \<Rightarrow> page_world \<Rightarrow> nat \<Rightarrow> u64 \<Rightarrow> u64 \<Rightarrow> transaction list \<Rightarrow> json list \<Rightarrow> db_exn + json list" where
  "details_json P w t blk_height bc_height [] acc = Inr acc"
| "details_json P w t blk_height bc_height (tx # txs) acc =
     (case get_tx_details P (w t) tx False blk_height bc_height of
        Inl e \<Rightarrow> Inl e
      | Inr txd \<Rightarrow> details_json P w (t + 1) blk_height bc_height txs (acc @ [get_tx_json P tx txd]))"

definition block_row ::
    "page_lib \<Rightarrow> u64 \<Rightarrow> int \<Rightarrow> hash \<Rightarrow> u64 \<Rightarrow> block \<Rightarrow> json list \<Rightarrow> json" where
  "block_row P now i bh weight blk txs =
     JObj [(''height'', JNum i), (''hash'', JStr bh),
           (''age'', JStr (fst (get_age now (blk_timestamp blk) False))),
           (''size'', json_double P weight), (''timestamp'', JU64 (blk_timestamp blk)),
           (''timestamp_utc'', JStr (timestamp_to_str_gm (blk_timestamp blk))),
           (''txs'', JArr txs)]"

text \<open>How the loop over a page ends; the rows and the count of transactions so far come with it.\<close>

datatype page_loop =
    LoopThrow db_exn
  | LoopFail string "json list"
  | LoopError string "json list"
  | LoopDone "json list" nat nat

text \<open>
  The loop of \<open>json_transactions\<close> over the heights \<open>i\<close>, which are \<open>int64_t\<close> in the code and are
  converted back to unsigned where the database is asked.
\<close>

fun page_blocks ::
    "page_lib \<Rightarrow> page_world \<Rightarrow> nat \<Rightarrow> u64 \<Rightarrow> u64 \<Rightarrow> int list \<Rightarrow> json list \<Rightarrow> nat \<Rightarrow> page_loop" where
  "page_blocks P w t now height [] rows expanded = LoopDone rows expanded t"
| "page_blocks P w t now height (i # is) rows expanded =
     (let h = word_of_int i in
      case get_block_by_height (pv_chain (w t)) h of
        None \<Rightarrow> LoopError (''Cant get block: '' @ int_to_dec i) rows
      | Some blk \<Rightarrow>
        let weight = block_weight (w (t + 1)) h; bh = block_id_by_height (pv_chain (w (t + 2))) h in
        if maximum_expanded_transactions - expanded < length (tx_hashes blk) + 1
        then LoopFail ''Requested page exceeds the expanded transaction response budget'' rows
        else
          (case get_transactions (pv_chain (w (t + 3))) (tx_hashes blk) of
             (ok, txs, missed) \<Rightarrow>
               if \<not> ok \<or> missed \<noteq> [] \<or> length txs + 1 \<noteq> length (tx_hashes blk) + 1
               then LoopError (''Cant get transactions in block: '' @ int_to_dec i)
                      (rows @ [block_row P now i bh weight blk []])
               else
                 (case details_json P w (t + 4) h height (miner_tx blk # txs) [] of
                    Inl e \<Rightarrow> LoopThrow e
                  | Inr j_txs \<Rightarrow>
                    page_blocks P w (t + 5 + length txs) now height is
                      (rows @ [block_row P now i bh weight blk j_txs])
                      (expanded + length (tx_hashes blk) + 1))))"

text \<open>The heights of the loop: \<open>i = end_height\<close> down to \<open>start_height\<close>.\<close>

definition page_heights :: "descending_block_range \<Rightarrow> int list" where
  "page_heights r =
     (let start_height = (if range_empty r then 0 else sint (range_begin r));
          end_height = (if range_empty r then - 1 else sint (end_exclusive r - 1))
      in rev [start_height..end_height])"

text \<open>The height a page refers to: the live one, or the one of the snapshot the client names.\<close>

definition page_snapshot :: "page_world \<Rightarrow> nat \<Rightarrow> u64 \<Rightarrow> string \<Rightarrow> string \<Rightarrow> u64 option" where
  "page_snapshot w t live_height count_text tip_text =
     (if count_text = [] \<and> tip_text = [] then Some live_height
      else if count_text = [] \<or> length tip_text \<noteq> 64 then None
      else case parse_uint64_strict count_text of
             None \<Rightarrow> None
           | Some height \<Rightarrow>
             if height = 0 \<or> live_height < height
                \<or> block_id_by_height (pv_chain (w t)) (height - 1) \<noteq> tip_text
             then None else Some height)"

text \<open>The members of the answer's data object once the loop has ended.\<close>

definition page_data :: "bounded_pagination \<Rightarrow> u64 \<Rightarrow> hash \<Rightarrow> json list \<Rightarrow> nat \<Rightarrow> (string \<times> json) list" where
  "page_data pg height tip rows expanded =
     [(''blocks'', JArr rows), (''page'', JU64 (page pg)), (''limit'', JU64 (limit pg)),
      (''current_height'', JU64 height), (''block_count'', JU64 height),
      (''tip_height'', JU64 (if 0 < height then height - 1 else 0)), (''tip_hash'', JStr tip),
      (''snapshot_block_count'', JU64 height), (''snapshot_tip_hash'', JStr tip),
      (''returned_count'', JNum (int (length rows))),
      (''expanded_transaction_count'', JNum (int expanded)),
      (''maximum_expanded_transactions'', JNum (int maximum_expanded_transactions))]"

definition json_transactions ::
    "page_lib \<Rightarrow> page_world \<Rightarrow> nat \<Rightarrow> u64 \<Rightarrow> string \<Rightarrow> string \<Rightarrow> string \<Rightarrow> string \<Rightarrow> db_exn + json" where
  "json_transactions P w t now page_text limit_text count_text tip_text =
     (case parse_bounded_pagination page_text limit_text 100 of
        None \<Rightarrow> Inr (fail_title ''Pagination requires page >= 0 and limit between 1 and 100'')
      | Some pg \<Rightarrow>
        (case page_snapshot w (t + 1) (current_height (pv_chain (w t))) count_text tip_text of
           None \<Rightarrow> Inr (fail_title ''Pagination snapshot is invalid or was reorganized; restart from page 0'')
         | Some height \<Rightarrow>
           let tip = (if 0 < height then block_id_by_height (pv_chain (w (t + 2))) (height - 1) else []);
               range = make_descending_block_range height (offset pg) (limit pg)
           in (case page_blocks P w (t + 3) now height (page_heights range) [] 0 of
              LoopThrow e \<Rightarrow> Inl e
            | LoopFail title rows \<Rightarrow>
              Inr (jsend ''fail'' (JObj [(''blocks'', JArr rows), (''title'', JStr title)]))
            | LoopError msg rows \<Rightarrow> Inr (error_message (JObj [(''blocks'', JArr rows)]) msg)
            | LoopDone rows expanded t' \<Rightarrow>
              if 0 < height \<and> (current_height (pv_chain (w t')) < height
                    \<or> block_id_by_height (pv_chain (w (t' + 1))) (height - 1) \<noteq> tip)
              then Inr (error_message (JObj (page_data pg height tip rows expanded))
                     ''Canonical chain changed while serializing this page'')
              else Inr (jsend ''success''
                     (JObj (page_data pg height tip rows expanded
                        @ [(''total_page_no'', JU64 (if 0 < height then (height - 1) div limit pg else 0))]))))))"

section \<open>The pool\<close>

fun mempool_page_json ::
    "page_lib \<Rightarrow> page_view \<Rightarrow> u64 \<Rightarrow> mempool_tx list \<Rightarrow> json list \<Rightarrow> db_exn + json list" where
  "mempool_page_json P v height [] acc = Inr acc"
| "mempool_page_json P v height (m # ms) acc =
     (case get_tx_details P v (mt_tx m) False 1 height of
        Inl e \<Rightarrow> Inl e
      | Inr txd \<Rightarrow>
        mempool_page_json P v height ms
          (acc @ [jset ''timestamp_utc'' (JStr (timestamp_str m))
                   (jset ''timestamp'' (JU64 (mt_receive_time m)) (get_tx_json P (mt_tx m) txd))]))"

definition json_mempool ::
    "page_lib \<Rightarrow> page_world \<Rightarrow> nat \<Rightarrow> mempool_status \<Rightarrow> string \<Rightarrow> string \<Rightarrow> db_exn + json" where
  "json_mempool P w t ms page_text limit_text =
     (case parse_bounded_pagination page_text limit_text 100 of
        None \<Rightarrow> Inr (fail_title ''Pagination requires page >= 0 and limit between 1 and 100'')
      | Some pg \<Rightarrow>
        let height = current_height (pv_chain (w t));
            txs = (case mempool_txs ms of None \<Rightarrow> [] | Some l \<Rightarrow> l);
            no_mempool_txs = size_u64 txs;
            end_offset = (if no_mempool_txs \<le> offset pg then no_mempool_txs
                          else min no_mempool_txs (offset pg + limit pg));
            first = min (offset pg) no_mempool_txs;
            shown = take (unat end_offset - unat first) (drop (unat first) txs)
        in (case mempool_page_json P (w (t + 1)) height shown [] of
           Inl e \<Rightarrow> Inl e
         | Inr j_txs \<Rightarrow>
           Inr (jsend ''success''
             (JObj [(''txs'', JArr j_txs), (''page'', JU64 (page pg)), (''limit'', JU64 (limit pg)),
                    (''txs_no'', JU64 no_mempool_txs),
                    (''total_page_no'',
                       JU64 (if 0 < no_mempool_txs then (no_mempool_txs - 1) div limit pg else 0))]))))"

section \<open>Network, supply, fees, version\<close>

fun jerase :: "string \<Rightarrow> json \<Rightarrow> json" where
  "jerase k (JObj kvs) = JObj (filter (\<lambda>(k', _). k' \<noteq> k) kvs)"
| "jerase k j = j"

definition json_networkinfo ::
    "page_lib \<Rightarrow> page_world \<Rightarrow> nat \<Rightarrow> mempool_status \<Rightarrow> json" where
  "json_networkinfo P w t ms =
     (case get_monero_network_info ms of
        (False, _) \<Rightarrow> error_message JNull ''Cant get monero network info''
      | (True, info) \<Rightarrow>
        let fee = ni_fee_per_kb (current_network_info ms);
            fee_json = (if 0 < fee then JStr (u64_to_string fee) else JNull);
            snap = get_mempool_snapshot ms 0;
            count = current_height (pv_chain (w t));
            tip = (if 0 < count then get_block_by_height (pv_chain (w (t + 1))) (count - 1) else None);
            info1 = jerase ''fee_estimate'' (jerase ''fee_per_kb''
                      (jset ''fee_estimate_atomic'' fee_json (jset ''fee_per_kb_atomic'' fee_json info)));
            info2 = jset ''fee_estimate_availability'' (JStr (if 0 < fee then ''current'' else ''unavailable''))
                      (jset ''fee_estimate_grace_blocks'' (JU64 (fee_grace_blocks P)) info1);
            info3 = jset ''observer_mempool_observed_at_unix'' (JU64 (mp_observed_at snap))
                      (jset ''observer_mempool_size_bytes'' (JU64 (size_bytes snap))
                      (jset ''observer_mempool_count'' (JU64 (total_count snap)) info2));
            info4 = jset ''last_block_timestamp''
                      (case tip of Some blk \<Rightarrow> if 0 < blk_timestamp blk then JU64 (blk_timestamp blk) else JNull
                                 | None \<Rightarrow> JNull)
                      (jset ''observer_tip_height'' (if 0 < count then JU64 (count - 1) else JNull)
                      (jset ''observer_block_count'' (JU64 count) info3))
        in jsend ''success'' info4)"

definition emission_data :: "supply_snapshot \<Rightarrow> json" where
  "emission_data s =
     JObj ([(''availability'', JStr (availability s)), (''complete'', JBool (complete s)),
            (''calculation_version'', JStr (calculation_version s)),
            (''chain_reset_id'', JStr (ss_chain_reset_id s)),
            (''minted_supply_atomic'', JStr (minted_supply_atomic s)),
            (''minted_supply_qwc'', JStr (format_atomic_decimal_string (minted_supply_atomic s) 8)),
            (''gross_coinbase_atomic'', JStr (gross_coinbase_atomic s)),
            (''cumulative_fees_atomic'', JStr (cumulative_fees_atomic s)),
            (''block_count'', JU64 (ss_block_count s)), (''tip_height'', JU64 (tip_height s)),
            (''tip_hash'', JStr (tip_hash s)), (''genesis_hash'', JStr (ss_genesis_hash s)),
            (''indexed_block_count'', JU64 (indexed_block_count s)),
            (''indexed_through_height'', JU64 (indexed_through_height s)),
            (''indexed_through_hash'', JStr (indexed_through_hash s)),
            (''observed_at_unix'', JU64 (observed_at s))]
           @ (if ss_message s \<noteq> [] then [(''message'', JStr (ss_message s))] else []))"

definition json_emission :: "supply_index option \<Rightarrow> json" where
  "json_emission index =
     (case index of
        None \<Rightarrow> error_message JNull ''Supply index is unavailable''
      | Some si \<Rightarrow> jsend ''success'' (emission_data (snapshot si)))"

text \<open>\<open>fee_of\<close> is the answer of the daemon for a number of grace blocks; \<open>Inl\<close> its error text.\<close>

definition json_feeestimate :: "page_lib \<Rightarrow> (u64 \<Rightarrow> string + u64) \<Rightarrow> string \<Rightarrow> json" where
  "json_feeestimate P fee_of grace_blocks_str =
     (case (if grace_blocks_str = [] then Some (fee_grace_blocks P) else lexical_cast_u64 grace_blocks_str) of
        None \<Rightarrow> jset ''message'' (JStr (''Cant parse grace_blocks number: '' @ grace_blocks_str))
                  (jsend ''fail'' JNull)
      | Some grace_blocks \<Rightarrow>
        (case fee_of grace_blocks of
           Inl error_msg \<Rightarrow>
             error_message JNull (if error_msg = [] then ''Cant get dynamic fee estimate'' else error_msg)
         | Inr fee \<Rightarrow> jsend ''success''
             (JObj [(''fee'', JU64 fee), (''fee_per_kb'', JU64 fee), (''grace_blocks'', JU64 grace_blocks)])))"

text \<open>\<open>build\<close> lists the texts the build generates, by their keys.\<close>

definition json_version :: "(string \<times> string) list \<Rightarrow> u64 \<Rightarrow> page_world \<Rightarrow> nat \<Rightarrow> json" where
  "json_version build api w t =
     jsend ''success''
       (JObj (map (\<lambda>(k, v). (k, JStr v)) build
              @ [(''api_contract'', JStr ''v1''), (''api'', JU64 api),
                 (''blockchain_height'', JU64 (current_height (pv_chain (w t))))]))"

section \<open>Pages of blocks\<close>

lemma block_row_height [simp]: "jget ''height'' (block_row P now i bh weight blk txs) = JNum i"
  by (simp add: block_row_def)

lemma page_blocks_done:
  "page_blocks P w t now height hs rows expanded = LoopDone rows' expanded' t' \<Longrightarrow>
     map (jget ''height'') rows' = map (jget ''height'') rows @ map JNum hs
     \<and> (expanded \<le> maximum_expanded_transactions \<longrightarrow> expanded' \<le> maximum_expanded_transactions)
     \<and> t \<le> t'"
proof (induction hs arbitrary: t rows expanded)
  case (Cons i hs)
  from Cons.prems obtain bh weight blk js n where
    budget: "\<not> maximum_expanded_transactions - expanded < length (tx_hashes blk) + 1"
    and go: "page_blocks P w (t + 5 + n) now height hs (rows @ [block_row P now i bh weight blk js])
        (expanded + length (tx_hashes blk) + 1) = LoopDone rows' expanded' t'"
    by (auto simp: Let_def split: option.splits if_splits prod.splits sum.splits)
  from Cons.IH [OF go] budget show ?case by auto
qed simp

lemma sint_small: "unat (x :: u64) < 2 ^ 63 \<Longrightarrow> sint x = int (unat x)"
proof -
  assume "unat x < 2 ^ 63"
  then have "uint x < 2 ^ 63" by (metis of_nat_less_iff of_nat_numeral of_nat_power uint_nat)
  moreover have "- (2 ^ 63) \<le> uint x" by (rule order_trans [OF _ uint_ge_0]) simp
  ultimately have "signed_take_bit 63 (uint x) = uint x" by (intro signed_take_bit_int_eq_self)
  then show ?thesis by (simp add: sint_uint)
qed

lemma upto_of_upt: "map int [a..<b] = [int a..int b - 1]"
proof (induction b)
  case (Suc b)
  show ?case
  proof (cases "a \<le> b")
    case True
    have "[int a..int (Suc b) - 1] = [int a..int b - 1] @ [int b]"
      using True upto_rec2 [of "int a" "int b"] by simp
    with Suc True show ?thesis by simp
  next
    case False
    then show ?thesis by simp
  qed
qed simp

lemma page_heights_range:
  assumes "unat n < 2 ^ 63"
  shows "page_heights (make_descending_block_range n off lim)
    = map int (range_heights (make_descending_block_range n off lim))"
proof (cases "lim = 0 \<or> n \<le> off")
  case True
  then show ?thesis
    by (auto simp: make_descending_block_range_def empty_range_def page_heights_def range_heights_def)
next
  case False
  let ?r = "make_descending_block_range n off lim"
  have ne: "lim \<noteq> 0" "off < n" using False by auto
  note e = range_of_page [OF ne]
  have r: "\<not> range_empty ?r" using False by (simp add: make_descending_block_range_def Let_def)
  have pos: "0 < unat (end_exclusive ?r)" using ne(2) e(1) by (simp add: word_less_nat_alt)
  then have "end_exclusive ?r \<noteq> 0" by auto
  then have d: "unat (end_exclusive ?r - 1) = unat (end_exclusive ?r) - 1"
    by (simp add: unat_minus_one)
  have "sint (range_begin ?r) = int (unat (range_begin ?r))"
    using assms e(2) by (intro sint_small) linarith
  moreover have "sint (end_exclusive ?r - 1) = int (unat (end_exclusive ?r)) - 1"
  proof -
    have "sint (end_exclusive ?r - 1) = int (unat (end_exclusive ?r - 1))"
      using assms e(1) d by (intro sint_small) linarith
    then show ?thesis using d pos by simp
  qed
  ultimately have "page_heights ?r
      = rev [int (unat (range_begin ?r))..int (unat (end_exclusive ?r)) - 1]"
    using r by (simp only: page_heights_def Let_def if_False)
  also have "\<dots> = rev (map int [unat (range_begin ?r)..<unat (end_exclusive ?r)])"
    by (simp only: upto_of_upt)
  also have "\<dots> = map int (range_heights ?r)"
    using r by (simp only: range_heights_def if_False rev_map)
  finally show ?thesis .
qed

text \<open>
  C24. A successful page of blocks is the right window of one chain: its rows are the heights of
  the requested page of the snapshot, newest first; after the last row was read the chain still
  contained the snapshot's tip; and no page expands more than 5000 transactions.
\<close>

theorem page_of_blocks_exact:
  assumes "json_transactions P w t now page_text limit_text count_text tip_text = Inr j"
    and "jget ''status'' j = JStr ''success''"
    and "unat (current_height (pv_chain (w t))) < 2 ^ 63"
  shows "\<exists>pg height t'. t < t' \<and> parse_bounded_pagination page_text limit_text 100 = Some pg
    \<and> height \<le> current_height (pv_chain (w t))
    \<and> map (jget ''height'') (jelems (jget ''blocks'' (jget ''data'' j)))
        = map (\<lambda>h. JNum (int h)) (range_heights (make_descending_block_range height (offset pg) (limit pg)))
    \<and> (0 < height \<longrightarrow> height \<le> current_height (pv_chain (w t'))
         \<and> jget ''snapshot_tip_hash'' (jget ''data'' j) = JStr (block_id_by_height (pv_chain (w (t' + 1))) (height - 1)))
    \<and> (\<exists>n \<le> 5000. jget ''expanded_transaction_count'' (jget ''data'' j) = JNum (int n))"
proof -
  from assms(1,2) obtain pg height where pg: "parse_bounded_pagination page_text limit_text 100 = Some pg"
    and snap: "page_snapshot w (t + 1) (current_height (pv_chain (w t))) count_text tip_text = Some height"
    by (auto simp: json_transactions_def fail_title_def jsend_def split: option.splits)
  let ?range = "make_descending_block_range height (offset pg) (limit pg)"
  define tip where "tip = (if 0 < height then block_id_by_height (pv_chain (w (t + 2))) (height - 1) else [])"
  note j_eq = assms(1) [unfolded json_transactions_def pg option.case snap Let_def, folded tip_def]
  from j_eq assms(2) obtain rows expanded t' where
    lp: "page_blocks P w (t + 3) now height (page_heights ?range) [] 0 = LoopDone rows expanded t'"
    by (cases "page_blocks P w (t + 3) now height (page_heights ?range) [] 0")
      (auto simp: jsend_def error_message_def)
  note j_eq = j_eq [unfolded lp page_loop.case]
  have live: "\<not> (0 < height \<and> (current_height (pv_chain (w t')) < height
        \<or> block_id_by_height (pv_chain (w (t' + 1))) (height - 1) \<noteq> tip))"
    using j_eq assms(2) by (auto simp: error_message_def split: if_splits)
  have j: "jget ''blocks'' (jget ''data'' j) = JArr rows"
    "jget ''snapshot_tip_hash'' (jget ''data'' j) = JStr tip"
    "jget ''expanded_transaction_count'' (jget ''data'' j) = JNum (int expanded)"
    using j_eq [unfolded if_not_P [OF live]] by (auto simp: jsend_def page_data_def)
  have le: "height \<le> current_height (pv_chain (w t))"
    using snap by (auto simp: page_snapshot_def split: if_splits option.splits)
  then have "unat height < 2 ^ 63" using assms(3) by (simp add: word_le_nat_alt)
  note hs = page_heights_range [OF this, of "offset pg" "limit pg"]
  have rows: "map (jget ''height'') rows = map JNum (map int (range_heights ?range))" "expanded \<le> 5000"
    using page_blocks_done [OF lp] hs by (simp_all add: maximum_expanded_transactions_def)
  moreover have "t < t'" using page_blocks_done [OF lp] by simp
  ultimately show ?thesis
    using pg le live j by (intro exI [of _ pg] exI [of _ height] exI [of _ t']) (auto simp: not_less comp_def)
qed

lemma sample_pagination:
  "parse_bounded_pagination ''0'' ''25'' 100 = Some \<lparr>page = 0, limit = 25, offset = 0\<rparr>"
proof -
  have "parse_uint64_strict ''0'' = Some 0" "parse_uint64_strict ''25'' = Some 25"
    by (simp_all add: parse_uint64_strict_iff dec_value_def digit_val_def is_digit_def)
  then show ?thesis by (simp add: parse_bounded_pagination_def)
qed

lemma sample_page_success:
  obtains j where "json_transactions sample_lib (\<lambda>_. sample_view) 0 100 ''0'' ''25'' [] [] = Inr j"
    "jget ''status'' j = JStr ''success''"
proof -
  have hs: "page_heights (make_descending_block_range 1 0 25) = [0]"
    by (subst page_heights_range)
      (simp_all add: make_descending_block_range_def range_heights_def Let_def)
  obtain txd where "get_tx_details sample_lib sample_view sample_coinbase False 0 1 = Inr txd"
    using get_tx_details_fresh [of sample_view sample_lib sample_coinbase False 0 1]
    by (auto simp: sample_view_simps)
  then have "\<exists>r. page_blocks sample_lib (\<lambda>_. sample_view) (0 + 3) 100 1 [0] [] 0 = LoopDone [r] 1 8"
    by (simp add: Let_def maximum_expanded_transactions_def sample_view_simps)
  then obtain r where r: "page_blocks sample_lib (\<lambda>_. sample_view) 3 100 1 [0] [] 0 = LoopDone [r] 1 8" by auto
  have "\<exists>d. json_transactions sample_lib (\<lambda>_. sample_view) 0 100 ''0'' ''25'' [] [] = Inr (jsend ''success'' d)"
    by (simp add: json_transactions_def page_snapshot_def sample_pagination hs r sample_view_simps Let_def del: page_blocks.simps) blast
  then show ?thesis using that by (auto simp: jsend_def)
qed

theorem page_of_blocks_exact_witness:
  "\<exists>j. json_transactions sample_lib (\<lambda>_. sample_view) 0 100 ''0'' ''25'' [] [] = Inr j
     \<and> jget ''status'' j = JStr ''success''
     \<and> (\<exists>n \<le> 5000. jget ''expanded_transaction_count'' (jget ''data'' j) = JNum (int n))"
proof -
  obtain j where j: "json_transactions sample_lib (\<lambda>_. sample_view) 0 100 ''0'' ''25'' [] [] = Inr j"
    "jget ''status'' j = JStr ''success''" by (rule sample_page_success)
  have "unat (current_height (pv_chain sample_view)) < 2 ^ 63" by (simp add: sample_view_def)
  from page_of_blocks_exact [OF j this] j show ?thesis by blast
qed

section \<open>Amounts of confidential transactions\<close>

definition shows_amount :: "bool \<Rightarrow> json \<Rightarrow> bool" where
  "shows_amount public x \<longleftrightarrow>
     (if public then is_string (jget ''amount_atomic'' x) \<and> is_string (jget ''amount_qwc'' x)
      else jget ''amount_atomic'' x = JNull \<and> jget ''amount_qwc'' x = JNull)"

lemma jelems_jpush_list:
  "j = JNull \<or> j = JArr vs \<Longrightarrow> jelems (jpush j v) = jelems j @ [v] \<and> (\<exists>vs. jpush j v = JArr vs)"
  by auto

lemma input_json_amount: "shows_amount (\<not> c) (input_json P c k mx)"
  by (simp add: input_json_def shows_amount_def jnull_or_def)

lemma inputs_json_amounts:
  "inputs_json P v c ks acc = Inr (Some r) \<Longrightarrow> acc = JNull \<or> (\<exists>vs. acc = JArr vs) \<Longrightarrow>
     \<forall>x \<in> set (jelems acc). shows_amount (\<not> c) x \<Longrightarrow> \<forall>x \<in> set (jelems r). shows_amount (\<not> c) x"
proof (induction ks arbitrary: acc)
  case (Cons k ks)
  let ?offs = "absolute_output_offsets P (key_offsets k)"
  show ?case
  proof (cases "are_absolute_offsets_good v ?offs k")
    case False
    then show ?thesis using Cons.IH Cons.prems by (simp add: Let_def)
  next
    case True
    with Cons.prems(1) obtain mx where
      go: "inputs_json P v c ks (jpush acc (input_json P c k mx)) = Inr (Some r)" (is "inputs_json _ _ _ _ (jpush _ ?x) = _")
      by (auto simp: Let_def split: option.splits if_splits)
    from Cons.prems(2) have "jelems (jpush acc ?x) = jelems acc @ [?x]" "\<exists>vs. jpush acc ?x = JArr vs"
      by auto
    with Cons.IH [OF go] Cons.prems(3) input_json_amount show ?thesis by auto
  qed
qed simp

lemma foldl_jpush: "foldl jpush (JArr vs) xs = JArr (vs @ xs)"
  by (induction xs arbitrary: vs) auto

lemma jelems_foldl_jpush [simp]: "jelems (foldl jpush JNull xs) = xs"
  by (cases xs) (simp_all add: foldl_jpush)

lemma output_json_amount: "shows_amount (\<not> c) (output_json P c x)"
  by (cases x) (simp add: output_json_def shows_amount_def jnull_or_def)

lemma is_object_get_tx_json [simp]: "is_object (get_tx_json P tx txd)"
  by (simp add: get_tx_json_def Let_def)

lemma get_tx_json_amounts:
  assumes "transaction_amounts_confidential (pl_core P) tx"
  shows "jget ''outputs_atomic'' (get_tx_json P tx txd) = JNull" "jget ''outputs_qwc'' (get_tx_json P tx txd) = JNull"
    "jget ''inputs_atomic'' (get_tx_json P tx txd) = JNull" "jget ''inputs_qwc'' (get_tx_json P tx txd) = JNull"
  using assms by (simp_all add: get_tx_json_def is_ringct_def jnull_or_def Let_def)

lemma jget_transaction_data:
  "is_object tj \<Longrightarrow> jget ''inputs'' (transaction_data tj stamp h n outs ins height) = ins"
  "is_object tj \<Longrightarrow> jget ''outputs'' (transaction_data tj stamp h n outs ins height) = outs"
  "is_object tj \<Longrightarrow> k \<notin> {''inputs'', ''outputs'', ''current_height'', ''confirmations'', ''block_height'',
     ''timestamp'', ''timestamp_utc''} \<Longrightarrow> jget k (transaction_data tj stamp h n outs ins height) = jget k tj"
  by (auto simp: transaction_data_def)

lemma tx_block_fails: "tx_block w t txh s = Inl a \<Longrightarrow> jget ''status'' a \<noteq> JStr ''success''"
  by (auto simp: tx_block_def fail_title_def error_message_def jsend_def split: sum.splits option.splits)

lemma jget_error_message [simp]:
  "jget ''status'' (error_message d m) = JStr ''error''" "jget ''data'' (error_message d m) = d"
  by (simp_all add: error_message_def)

lemma jget_jsend [simp]: "jget ''status'' (jsend st d) = JStr st" "jget ''data'' (jsend st d) = d"
  by (simp_all add: jsend_def)


section \<open>A page of the pool\<close>

lemma mempool_page_json_hashes:
  "mempool_page_json P v height ms acc = Inr r \<Longrightarrow>
     map (jget ''tx_hash'') r = map (jget ''tx_hash'') acc @ map (\<lambda>m. JStr (tx_hash_of P (mt_tx m))) ms"
proof (induction ms arbitrary: acc)
  case (Cons m ms)
  from Cons.prems obtain txd where
    d: "get_tx_details P v (mt_tx m) False 1 height = Inr txd"
    and go: "mempool_page_json P v height ms
          (acc @ [jset ''timestamp_utc'' (JStr (timestamp_str m))
                   (jset ''timestamp'' (JU64 (mt_receive_time m)) (get_tx_json P (mt_tx m) txd))]) = Inr r"
    by (auto split: sum.splits)
  have "td_hash txd = tx_hash_of P (mt_tx m)"
    using d by (auto simp: get_tx_details_def Let_def split: prod.splits if_splits sum.splits)
  then have "jget ''tx_hash'' (get_tx_json P (mt_tx m) txd) = JStr (tx_hash_of P (mt_tx m))"
    by (simp add: get_tx_json_def Let_def)
  with Cons.IH [OF go] show ?case by simp
qed simp

definition sample_private :: transaction where
  "sample_private = \<lparr>tx_version = 2, unlock_time = 0,
     vin = [TxinToKey \<lparr>in_amount = 0, key_offsets = [4], k_image = ''ki''\<rparr>],
     vout = [\<lparr>out_amount = 0, out_target = TxoutToKey ''aa''\<rparr>], tx_extra = ''px'', rct_type = 6,
     tx_pruned = False, prunable_hash = [], tx_signatures = []\<rparr>"

definition sample_pool :: mempool_status where
  "sample_pool = (initial_status sample_network_info)
     \<lparr>mempool_txs := Some [sample_pool_tx\<lparr>mt_tx := sample_private\<rparr>]\<rparr>"

definition ring_view :: page_view where
  "ring_view = sample_view\<lparr>num_outputs := (\<lambda>_. 10), output_keys := (\<lambda>_ _. Some [(''kk'', 3)]),
     output_tx_and_index := (\<lambda>_ _. Some (''tt'', 0))\<rparr>"

lemma sample_private_found:
  "parse_str_secret_key (pl_core sample_lib) (replicate 64 CHR ''b'') = Some (replicate 64 CHR ''b'')"
  "find_tx ring_view sample_pool (replicate 64 CHR ''b'') = Inr (Some (sample_private, True, 99))"
proof -
  show "parse_str_secret_key (pl_core sample_lib) (replicate 64 CHR ''b'') = Some (replicate 64 CHR ''b'')"
    by (simp add: parse_str_secret_key_def sample_lib_def plain_core_def)
  have "replicate 64 CHR ''b'' \<noteq> null_hash" by (simp add: null_hash_def)
  then show "find_tx ring_view sample_pool (replicate 64 CHR ''b'') = Inr (Some (sample_private, True, 99))"
    by (simp add: find_tx_def micro_get_tx_def ring_view_def sample_view_def search_mempool_def
        sample_pool_def search_mempool_loop_spec sample_pool_tx_def)
qed

lemma sample_private_details:
  obtains txd where "get_tx_details sample_lib ring_view sample_private False 0 1 = Inr txd"
    "td_input_key_imgs txd = [\<lparr>in_amount = 0, key_offsets = [4], k_image = ''ki''\<rparr>]"
proof -
  have "\<exists>a b c d ks. summary_of_in_out_rct (pl_core sample_lib) sample_private [] []
      = ((a, b, c, d), ks, [\<lparr>in_amount = 0, key_offsets = [4], k_image = ''ki''\<rparr>])"
    by (simp add: summary_of_in_out_rct_def sample_private_def sample_lib_def plain_core_def Let_def size_u64_def)
  moreover obtain e pid pid8 where
    "get_payment_id (extra_nonce sample_lib) (encrypted_payment_id sample_lib) (plain_payment_id sample_lib)
       (tx_extra sample_private) = (e, pid, pid8)"
    by (metis prod.exhaust)
  ultimately show ?thesis
    using that by (auto simp add: get_tx_details_def Let_def ring_view_def sample_view_def)
qed


text \<open>
  A page of the pool is the window the client asked for: the transactions from position
  \<open>page * limit\<close> on, at most \<open>limit\<close> of them, in the order of the mirror; the count it reports is
  the size of the mirror.
\<close>

theorem mempool_page_exact:
  assumes "json_mempool P w t ms page_text limit_text = Inr j"
    and "parse_bounded_pagination page_text limit_text 100 = Some pg"
    and "mempool_txs ms = Some txs" "length txs < 2 ^ 63"
  shows "map (jget ''tx_hash'') (jelems (jget ''txs'' (jget ''data'' j)))
      = map (\<lambda>m. JStr (tx_hash_of P (mt_tx m))) (take (unat (limit pg)) (drop (unat (page pg) * unat (limit pg)) txs))
    \<and> jget ''txs_no'' (jget ''data'' j) = JNum (int (length txs))"
proof -
  let ?n = "size_u64 txs"
  have n: "unat ?n = length txs"
    using assms(4) by (simp add: size_u64_def unsigned_of_nat take_bit_nat_eq_self)
  define last' where "last' = (if ?n \<le> offset pg then ?n else min ?n (offset pg + limit pg))"
  define first where "first = min (offset pg) ?n"
  note off = pagination_offset [OF assms(2)]
  have win: "take (unat last' - unat first) (drop (unat first) txs)
      = take (unat (limit pg)) (drop (unat (page pg) * unat (limit pg)) txs)"
  proof (cases "?n \<le> offset pg")
    case True
    then show ?thesis using n off(1) by (simp add: last'_def first_def min_absorb2 word_le_nat_alt)
  next
    case False
    then have lt: "unat (offset pg) < length txs" using n by (simp add: word_le_nat_alt not_le)
    have "unat (limit pg) \<le> 100" using off(3) by (simp add: word_le_nat_alt)
    then have "unat (offset pg + limit pg) = unat (offset pg) + unat (limit pg)"
      using lt assms(4) by (intro unat_add_lem [THEN iffD1]) simp
    then have "unat last' = min (length txs) (unat (offset pg) + unat (limit pg))"
      using False n by (simp add: last'_def min_def word_le_nat_alt)
    moreover have "unat first = unat (offset pg)" using False by (simp add: first_def min_absorb1)
    ultimately show ?thesis using off(1) lt by (auto simp: min_def)
  qed
  note j = assms(1) [unfolded json_mempool_def assms(2) option.case assms(3) Let_def,
      folded last'_def first_def, unfolded win]
  let ?page = "mempool_page_json P (w (t + 1)) (current_height (pv_chain (w t)))
      (take (unat (limit pg)) (drop (unat (page pg) * unat (limit pg)) txs)) []"
  from j obtain r where r: "?page = Inr r" by (cases ?page) simp_all
  note j = j [unfolded r sum.case sum.inject, symmetric]
  show ?thesis using mempool_page_json_hashes [OF r] n by (simp add: j)
qed

lemma block_txs_json_length:
  "block_txs_json P w t h height hs acc fees = Inr (Some (txs, f)) \<Longrightarrow> length txs = length acc + length hs"
proof (induction hs arbitrary: t acc fees)
  case (Cons txh hs)
  from Cons.prems obtain t' x fees' where "block_txs_json P w t' h height hs (acc @ [x]) fees' = Inr (Some (txs, f))"
    by (auto split: sum.splits option.splits)
  from Cons.IH [OF this] show ?case by simp
qed simp

lemma reward_view_of_block:
  assumes "make_epose_reward_view r bh h coinbase n = Some v"
  shows "rr_block_hash r = bh \<and> rr_height r = h \<and> unat (miner_reward v) + unat (service_reward v) = unat coinbase"
proof -
  from assms have "reward_sums_ok r" "rr_coinbase_total r = coinbase" "rr_block_hash r = bh" "rr_height r = h"
    "miner_reward v = rr_miner_reward r" "service_reward v = rr_service_reward r"
    by (auto simp: make_epose_reward_view_def split: if_splits option.splits)
  then show ?thesis using reward_sums_exact(1) by auto
qed


theorem mempool_page_exact_witness:
  "\<exists>j. json_mempool sample_lib (\<lambda>_. ring_view) 0 sample_pool ''0'' ''25'' = Inr j
     \<and> map (jget ''tx_hash'') (jelems (jget ''txs'' (jget ''data'' j))) = [JStr ''px'']"
proof -
  have p: "mempool_txs sample_pool = Some [sample_pool_tx\<lparr>mt_tx := sample_private\<rparr>]"
    by (simp add: sample_pool_def)
  have "\<exists>txd. get_tx_details sample_lib ring_view sample_private False 1 1 = Inr txd"
    by (rule get_tx_details_fresh) (simp add: ring_view_def sample_view_def)
  then obtain j where j: "json_mempool sample_lib (\<lambda>_. ring_view) 0 sample_pool ''0'' ''25'' = Inr j"
    by (auto simp: json_mempool_def sample_pagination p size_u64_def ring_view_def sample_view_def)
  have "tx_hash_of sample_lib sample_private = ''px''"
    by (simp add: tx_hash_of_def sample_private_def sample_lib_def)
  with mempool_page_exact [OF j sample_pagination p] j show ?thesis by simp
qed

text \<open>The block of the small chain, with a daemon that has a mapping for it.\<close>

definition genesis_reward :: epose_reward_response where
  "genesis_reward = sample_reward\<lparr>rr_height := 0, rr_scheduled_subsidy := 5, rr_transaction_fees := 0,
     rr_miner_subsidy := 5, rr_miner_fees := 0, rr_issued_subsidy := 5, rr_emission_advance := 5,
     rr_coinbase_total := 5, rr_miner_reward := 5, rr_service_reward := 0, rr_permanently_unissued := 0,
     rr_service_reward_active := False, rr_payment_proof_valid := False, rr_service_outputs := []\<rparr>"

lemma genesis_details:
  obtains txd where "get_tx_details sample_lib sample_view sample_coinbase True 0 1 = Inr txd" "td_xmr_outputs txd = 5"
proof -
  have "\<exists>b c d ks is'. summary_of_in_out_rct (pl_core sample_lib) sample_coinbase [] [] = ((5, b, c, d), ks, is')"
    by (simp add: summary_of_in_out_rct_def sample_coinbase_def sample_lib_def plain_core_def Let_def)
  moreover obtain e pid pid8 where
    "get_payment_id (extra_nonce sample_lib) (encrypted_payment_id sample_lib) (plain_payment_id sample_lib)
       (tx_extra sample_coinbase) = (e, pid, pid8)"
    by (metis prod.exhaust)
  ultimately show ?thesis
    using that by (auto simp: get_tx_details_def Let_def sample_view_simps)
qed


end
