(* ===== verification/Epose_Snapshot.thy ===== *)
theory Epose_Snapshot
  imports Page_Json
begin

text \<open>
  The EPoSe snapshot of \<open>src/page.h\<close> (\<open>json_epose_snapshot\<close> and the sections served from it): a
  cache entry that is rebuilt from the daemon's answers between two captures of the chain's
  tip. The mutex of the cache makes one request one step on the state \<open>epose_cache\<close>. The answers
  of the daemon and of the service nodes during one attempt are the record \<open>epose_answers\<close>; the
  database is observed at the times the code asks it. \<open>None\<close> is an exception that leaves the
  handler.
\<close>

section \<open>Answers of the daemon\<close>

record epoch_info =
  ei_enabled :: bool
  ei_protocol_version :: u64
  ei_current_epoch :: u64
  ei_epoch_start_height :: u64
  ei_epoch_end_height :: u64
  ei_service_node_count :: u64
  ei_qualified_count :: u64
  ei_attestation_count :: u64
  ei_state_hash :: string
  ei_service_reward_bps :: u64
  ei_local_service_node :: bool
  ei_local_key_loaded :: bool
  ei_local_registered :: bool
  ei_local_active :: bool
  ei_local_qualified :: bool
  ei_local_expiry_epoch :: u64
  ei_local_public_key :: string
  ei_local_reward_address :: string
  ei_local_endpoint_commitment :: string

record service_node =
  sn_identity_id :: string
  sn_service_public_key :: string
  sn_operator_key :: string
  sn_reward_view_key :: string
  sn_reward_spend_key :: string
  sn_endpoint_commitment :: string
  sn_admission_hash :: string
  sn_descriptor_sequence :: u64
  sn_effective_epoch :: u64
  sn_registration_epoch :: u64
  sn_expiry_epoch :: u64
  sn_active :: bool
  sn_qualified :: bool

record service_nodes_info =
  si_nodes :: "service_node list"
  si_total_count :: u64
  si_returned_count :: u64

record service_rewards =
  sw_preview_available :: bool
  sw_service_reward_active :: bool
  sw_protocol_version :: u64
  sw_height :: u64
  sw_epoch :: u64
  sw_service_reward_bps :: u64
  sw_qualified_count :: u64
  sw_qualified_keys :: "string list"
  sw_expected_payee :: string
  sw_expected_view_key :: string
  sw_expected_spend_key :: string

record advertised_endpoint =
  ae_ready :: bool
  ae_descriptor_hash :: string
  ae_service_public_key :: string
  ae_host :: string
  ae_port :: u64
  ae_transport :: u64
  ae_version :: u64
  ae_service_kind :: u64
  ae_service_version :: u64

record telemetry_job =
  job_node_index :: nat
  job_descriptor_hash :: string
  job_service_public_key :: string
  job_host :: string
  job_port :: u64
  job_transport :: u64

text \<open>
  What one attempt is told: the three queries, the lookup of a signed descriptor, the telemetry
  fetched for the \<open>n\<close>-th job (the \<open>catch\<close> of the asynchronous call included), and the clock before
  the telemetry and at the end.
\<close>

record epose_answers =
  ea_info :: "epoch_info option"
  ea_nodes :: "service_nodes_info option"
  ea_rewards :: "service_rewards option"
  ea_endpoint :: "string \<Rightarrow> advertised_endpoint option"
  ea_fetch :: "nat \<Rightarrow> telemetry_job \<Rightarrow> epose_remote_telemetry"
  ea_telemetry_now :: u64
  ea_observed_at :: u64

section \<open>State\<close>

record epose_cache =
  es_snapshot :: json
  es_anchor :: epose_chain_anchor
  es_endpoints :: "string \<Rightarrow> json option"
  es_telemetry :: "string \<Rightarrow> (epose_remote_telemetry \<times> u64) option"
  es_time :: u64

definition blank_anchor :: epose_chain_anchor where
  "blank_anchor = \<lparr>anchor_block_count = 0, anchor_tip_hash = []\<rparr>"

definition blank_telemetry :: epose_remote_telemetry where
  "blank_telemetry = \<lparr>te_state = Unreachable, te_version = 0, te_software_version = [], te_tip_height = 0,
     te_tip_hash = [], te_synchronized = False, te_observed_at_unix = 0\<rparr>"

section \<open>Anchors\<close>

definition capture_epose_chain_anchor :: "page_world \<Rightarrow> nat \<Rightarrow> epose_chain_anchor option" where
  "capture_epose_chain_anchor w t =
     (let block_count = current_height (pv_chain (w t)) in
      if block_count = 0 then None
      else let tip = block_id_by_height (pv_chain (w (t + 1))) (block_count - 1);
               verified_block_count = current_height (pv_chain (w (t + 2))) in
        if verified_block_count \<noteq> block_count then None
        else if block_id_by_height (pv_chain (w (t + 3))) (verified_block_count - 1) \<noteq> tip then None
        else let anchor = \<lparr>anchor_block_count = block_count, anchor_tip_hash = tip\<rparr> in
          if valid_epose_chain_anchor anchor then Some anchor else None)"

definition epose_chain_anchor_is_current :: "page_world \<Rightarrow> nat \<Rightarrow> epose_chain_anchor \<Rightarrow> bool" where
  "epose_chain_anchor_is_current w t expected =
     (case capture_epose_chain_anchor w t of
        None \<Rightarrow> False
      | Some current \<Rightarrow> same_epose_chain_anchor expected current)"

section \<open>Telemetry as JSON\<close>

text \<open>The lambda \<open>telemetry_json\<close>; \<open>before\<close> is the attempt's first anchor.\<close>

definition telemetry_blank_json :: "string \<Rightarrow> u64 \<Rightarrow> (string \<times> json) list" where
  "telemetry_blank_json avail observed =
     [(''availability'', JStr avail), (''telemetry_version'', JNull), (''software_version'', JNull),
      (''tip_height'', JNull), (''tip_hash'', JNull), (''self_reported_synchronized'', JNull),
      (''chain_status'', JNull), (''blocks_behind'', JNull), (''observed_at_unix'', JU64 observed),
      (''source'', JStr ''service-node self-report with observer chain comparison'')]"

definition telemetry_json :: "page_view \<Rightarrow> epose_chain_anchor \<Rightarrow> epose_remote_telemetry \<Rightarrow> json" where
  "telemetry_json v before te =
     (case te_state te of
        NotReported \<Rightarrow> JObj (telemetry_blank_json ''not_reported'' (te_observed_at_unix te))
      | EndpointUnavailable \<Rightarrow> JObj (telemetry_blank_json ''endpoint_unavailable'' (te_observed_at_unix te))
      | Rejected \<Rightarrow> JObj (telemetry_blank_json ''rejected'' (te_observed_at_unix te))
      | NotCheckedCapacity \<Rightarrow> JObj (telemetry_blank_json ''not_checked_capacity'' (te_observed_at_unix te))
      | Unreachable \<Rightarrow> JObj (telemetry_blank_json ''unreachable'' (te_observed_at_unix te))
      | Reported \<Rightarrow>
        let canonical_hash = (if te_tip_height te < anchor_block_count before
                              then block_id_by_height (pv_chain v) (te_tip_height te) else []);
            assessment = assess_epose_tip (te_tip_height te) (te_tip_hash te)
                           (anchor_block_count before - 1) canonical_hash
        in JObj [(''availability'', JStr ''reported''), (''telemetry_version'', JU64 (te_version te)),
             (''software_version'', JStr (te_software_version te)), (''tip_height'', JU64 (te_tip_height te)),
             (''tip_hash'', JStr (te_tip_hash te)),
             (''self_reported_synchronized'', JBool (te_synchronized te)),
             (''chain_status'', JStr (ta_status assessment)),
             (''blocks_behind'', if ta_status assessment = ''canonical_behind''
                                 then JU64 (ta_blocks_behind assessment) else JNull),
             (''observed_at_unix'', JU64 (te_observed_at_unix te)),
             (''source'', JStr ''service-node self-report with observer chain comparison'')])"

section \<open>Advertised endpoints\<close>

definition unavailable_endpoint :: json where
  "unavailable_endpoint =
     JObj [(''availability'', JStr ''unavailable''), (''authority'', JNull), (''host'', JNull), (''port'', JNull),
           (''transport'', JNull), (''transport_code'', JNull), (''descriptor_version'', JNull),
           (''service_kind'', JNull), (''service_version'', JNull),
           (''source'', JStr ''core-validated signed descriptor'')]"

definition current_endpoint :: "advertised_endpoint \<Rightarrow> json" where
  "current_endpoint a =
     JObj [(''availability'', JStr ''current''),
           (''authority'', JStr (format_epose_endpoint_authority (ae_host a) (ae_port a) (ae_transport a))),
           (''host'', JStr (ae_host a)), (''port'', JU64 (ae_port a)),
           (''transport'', JStr (epose_endpoint_transport_name (ae_transport a))),
           (''transport_code'', JU64 (ae_transport a)), (''descriptor_version'', JU64 (ae_version a)),
           (''service_kind'', JU64 (ae_service_kind a)), (''service_version'', JU64 (ae_service_version a)),
           (''source'', JStr ''core-validated signed descriptor'')]"

definition node_endpoint :: "epose_answers \<Rightarrow> epose_cache \<Rightarrow> service_node \<Rightarrow> json" where
  "node_endpoint A c node =
     (case es_endpoints c (sn_endpoint_commitment node) of
        Some endpoint \<Rightarrow> endpoint
      | None \<Rightarrow>
        (case ea_endpoint A (sn_endpoint_commitment node) of
           None \<Rightarrow> unavailable_endpoint
         | Some a \<Rightarrow>
           if valid_epose_advertised_endpoint (ae_ready a) (ae_descriptor_hash a) (sn_endpoint_commitment node)
                (ae_service_public_key a) (sn_service_public_key node) (ae_host a) (ae_port a) (ae_transport a)
           then current_endpoint a else unavailable_endpoint))"

definition endpoint_is_current :: "json \<Rightarrow> bool" where
  "endpoint_is_current endpoint \<longleftrightarrow> jvalue_string endpoint ''availability'' ''unavailable'' = Some ''current''"

text \<open>\<open>endpoint.at(\<dots>).get<\<dots>>()\<close>: \<open>None\<close> is the exception of the JSON library.\<close>

definition job_of_endpoint :: "nat \<Rightarrow> service_node \<Rightarrow> json \<Rightarrow> telemetry_job option" where
  "job_of_endpoint idx node endpoint =
     (case (jat endpoint ''host'', jat endpoint ''port'', jat endpoint ''transport_code'') of
        (Some (JStr host), Some (JNum port), Some (JNum transport)) \<Rightarrow>
          Some \<lparr>job_node_index = idx, job_descriptor_hash = sn_endpoint_commitment node,
                job_service_public_key = sn_service_public_key node, job_host = host,
                job_port = word_of_int port, job_transport = word_of_int transport\<rparr>
      | _ \<Rightarrow> None)"

section \<open>The list of service nodes\<close>

definition node_json ::
    "epoch_info \<Rightarrow> service_rewards \<Rightarrow> string list \<Rightarrow> service_node \<Rightarrow> json \<Rightarrow> json \<Rightarrow> json" where
  "node_json info rewards qualified_keys node endpoint telemetry =
     JObj [(''identity_id'', JStr (sn_identity_id node)),
           (''service_public_key'', JStr (sn_service_public_key node)),
           (''operator_authorization_public_key'', JStr (sn_operator_key node)),
           (''reward_view_public_key'', JStr (sn_reward_view_key node)),
           (''reward_spend_public_key'', JStr (sn_reward_spend_key node)),
           (''endpoint_commitment'', JStr (sn_endpoint_commitment node)),
           (''admission_hash'', JStr (sn_admission_hash node)),
           (''descriptor_sequence'', JU64 (sn_descriptor_sequence node)),
           (''effective_epoch'', JU64 (sn_effective_epoch node)),
           (''registration_epoch'', JU64 (sn_registration_epoch node)),
           (''expiry_epoch'', JU64 (sn_expiry_epoch node)),
           (''protocol_active'', JBool (sn_active node)),
           (''qualified_for_current_epoch'', JBool (sn_qualified node)),
           (''qualified_for_source_epoch'', JBool (sn_service_public_key node \<in> set qualified_keys)),
           (''qualification_epoch'', JU64 (ei_current_epoch info)),
           (''qualification_availability'', JStr ''current''),
           (''source_qualification_epoch'', JU64 (sw_epoch rewards)),
           (''source_qualification_availability'', JStr ''finalized''),
           (''advertised_endpoint'', endpoint),
           (''node_telemetry'', telemetry),
           (''reachability'', JStr ''unsupported'')]"

definition maximum_telemetry_checks :: nat where
  "maximum_telemetry_checks = 64"

text \<open>A cached report that is young enough: below 60 seconds, below 15 for an unreachable node.\<close>

definition fresh_telemetry :: "epose_cache \<Rightarrow> u64 \<Rightarrow> string \<Rightarrow> epose_remote_telemetry option" where
  "fresh_telemetry c now commitment =
     (case es_telemetry c commitment of
        None \<Rightarrow> None
      | Some (te, stored) \<Rightarrow>
        if stored \<le> now \<and> now - stored < (if te_state te \<noteq> Unreachable then 60 else 15)
        then Some te else None)"

record node_scan =
  ns_nodes :: "json list"
  ns_endpoints :: "string \<Rightarrow> json option"
  ns_jobs :: "telemetry_job list"
  ns_active :: "string list"

definition blank_scan :: node_scan where
  "blank_scan = \<lparr>ns_nodes = [], ns_endpoints = Map.empty, ns_jobs = [], ns_active = []\<rparr>"

text \<open>
  The loop over the nodes, one observation of the database for each. \<open>emplace\<close> keeps the first
  entry of a key.
\<close>

definition scan_node ::
    "page_view \<Rightarrow> epose_answers \<Rightarrow> epose_cache \<Rightarrow> epose_chain_anchor \<Rightarrow> epoch_info \<Rightarrow> service_rewards \<Rightarrow>
       string list \<Rightarrow> service_node \<Rightarrow> node_scan \<Rightarrow> node_scan option" where
  "scan_node v A c before info rewards qualified_keys node sc =
     (let endpoint = node_endpoint A c node;
          row = (\<lambda>te. node_json info rewards qualified_keys node endpoint (telemetry_json v before te));
          commitment = sn_endpoint_commitment node
      in if \<not> endpoint_is_current endpoint
         then Some (sc\<lparr>ns_nodes := ns_nodes sc @ [row (blank_telemetry\<lparr>te_state := EndpointUnavailable\<rparr>)]\<rparr>)
         else
           let sc' = sc\<lparr>ns_endpoints := (if ns_endpoints sc commitment = None
                                         then (ns_endpoints sc)(commitment \<mapsto> endpoint) else ns_endpoints sc),
                        ns_active := commitment # ns_active sc\<rparr>
           in case fresh_telemetry c (ea_telemetry_now A) commitment of
                Some te \<Rightarrow> Some (sc'\<lparr>ns_nodes := ns_nodes sc @ [row te]\<rparr>)
              | None \<Rightarrow>
                if length (ns_jobs sc) < maximum_telemetry_checks
                then (case job_of_endpoint (length (ns_nodes sc)) node endpoint of
                        None \<Rightarrow> None
                      | Some job \<Rightarrow>
                        Some (sc'\<lparr>ns_nodes := ns_nodes sc @ [row (blank_telemetry\<lparr>te_state := EndpointUnavailable\<rparr>)],
                                  ns_jobs := ns_jobs sc @ [job]\<rparr>))
                else Some (sc'\<lparr>ns_nodes := ns_nodes sc @
                       [row (blank_telemetry\<lparr>te_state := NotCheckedCapacity,
                                              te_observed_at_unix := ea_telemetry_now A\<rparr>)]\<rparr>))"

fun scan_nodes ::
    "page_world \<Rightarrow> nat \<Rightarrow> epose_answers \<Rightarrow> epose_cache \<Rightarrow> epose_chain_anchor \<Rightarrow> epoch_info \<Rightarrow> service_rewards \<Rightarrow>
       string list \<Rightarrow> service_node list \<Rightarrow> node_scan \<Rightarrow> node_scan option" where
  "scan_nodes w t A c before info rewards keys [] sc = Some sc"
| "scan_nodes w t A c before info rewards keys (node # nodes) sc =
     (case scan_node (w t) A c before info rewards keys node sc of
        None \<Rightarrow> None
      | Some sc' \<Rightarrow> scan_nodes w (t + 1) A c before info rewards keys nodes sc')"

text \<open>
  The telemetry jobs. They run 32 at a time, but their results are collected in the order of the
  jobs.
\<close>

fun run_jobs ::
    "page_world \<Rightarrow> nat \<Rightarrow> epose_answers \<Rightarrow> epose_chain_anchor \<Rightarrow> nat \<Rightarrow> telemetry_job list \<Rightarrow>
       json list \<times> (string \<Rightarrow> (epose_remote_telemetry \<times> u64) option) \<Rightarrow>
       json list \<times> (string \<Rightarrow> (epose_remote_telemetry \<times> u64) option)" where
  "run_jobs w t A before n [] st = st"
| "run_jobs w t A before n (job # jobs) (nodes, cache) =
     (let te = ea_fetch A n job; i = job_node_index job in
      run_jobs w (t + 1) A before (n + 1) jobs
        (nodes[i := jset ''node_telemetry'' (telemetry_json (w t) before te) (nodes ! i)],
         cache(job_descriptor_hash job \<mapsto> (te, ea_telemetry_now A))))"

section \<open>The qualification set\<close>

text \<open>\<open>hex_to_pod\<close> is the parser of keys, with its result as \<open>pod_to_hex\<close> prints it.\<close>

fun qualified_loop :: "(string \<Rightarrow> hash option) \<Rightarrow> string list \<Rightarrow> bool \<Rightarrow> string list \<Rightarrow> bool \<times> string list" where
  "qualified_loop hex_to_pod [] valid keys = (valid, keys)"
| "qualified_loop hex_to_pod (k # ks) valid keys =
     (if valid \<and> hex_to_pod k = Some k
      then qualified_loop hex_to_pod ks (k \<notin> set keys) (List.insert k keys)
      else qualified_loop hex_to_pod ks False keys)"

section \<open>The sections\<close>

definition jupdate :: "(string \<times> json) list \<Rightarrow> json \<Rightarrow> json" where
  "jupdate kvs j = foldl (\<lambda>j (k, x). jset k x j) j kvs"

definition anchor_fields :: "epose_chain_anchor \<Rightarrow> u64 \<Rightarrow> (string \<times> json) list" where
  "anchor_fields before at =
     [(''snapshot_block_count'', JU64 (anchor_block_count before)),
      (''snapshot_tip_height'', JU64 (anchor_block_count before - 1)),
      (''snapshot_tip_hash'', JStr (anchor_tip_hash before)),
      (''snapshot_consistency'', JStr ''anchored''),
      (''observed_at_unix'', JU64 at),
      (''cache_seconds'', JNum 15)]"

definition info_data :: "epose_chain_anchor \<Rightarrow> epoch_info \<Rightarrow> json" where
  "info_data before info =
     JObj [(''enabled'', JBool (ei_enabled info)), (''protocol_version'', JU64 (ei_protocol_version info)),
           (''current_epoch'', JU64 (ei_current_epoch info)),
           (''epoch_start_height'', JU64 (ei_epoch_start_height info)),
           (''epoch_end_height'', JU64 (ei_epoch_end_height info)),
           (''observer_block_count'', JU64 (anchor_block_count before)),
           (''observer_tip_height'', JU64 (anchor_block_count before - 1)),
           (''service_node_count'', JU64 (ei_service_node_count info)),
           (''qualified_count'', JU64 (ei_qualified_count info)),
           (''qualification_availability'', JStr ''current''),
           (''attestation_count'', JU64 (ei_attestation_count info)),
           (''state_hash'', JStr (ei_state_hash info)),
           (''service_reward_bps'', JU64 (ei_service_reward_bps info)),
           (''local_service_node'', JBool (ei_local_service_node info)),
           (''local_service_node_key_loaded'', JBool (ei_local_key_loaded info)),
           (''local_service_node_registered'', JBool (ei_local_registered info)),
           (''local_service_node_active'', JBool (ei_local_active info)),
           (''local_service_node_qualified'', JBool (ei_local_qualified info)),
           (''local_service_node_expiry_epoch'', JU64 (ei_local_expiry_epoch info)),
           (''local_service_public_key'', JStr (ei_local_public_key info)),
           (''local_service_reward_address'', JStr (ei_local_reward_address info)),
           (''local_service_endpoint_commitment'', JStr (ei_local_endpoint_commitment info))]"

definition node_data :: "service_nodes_info \<Rightarrow> epoch_info \<Rightarrow> service_rewards \<Rightarrow> json list \<Rightarrow> json" where
  "node_data nodes_info info rewards nodes =
     JObj [(''service_nodes'', JArr nodes), (''total_count'', JU64 (si_total_count nodes_info)),
           (''returned_count'', JU64 (si_returned_count nodes_info)),
           (''current_epoch'', JU64 (ei_current_epoch info)), (''source_epoch'', JU64 (sw_epoch rewards)),
           (''source_qualified_count'', JU64 (sw_qualified_count rewards)),
           (''identity_key'', JStr ''identity_id''),
           (''endpoint_capability'', JStr ''signed_descriptor_lookup''),
           (''telemetry_capability'', JStr ''self_report_v1_observer_compared''),
           (''telemetry_maximum_checks'', JNum (int maximum_telemetry_checks)),
           (''reachability_capability'', JStr ''unsupported''),
           (''truncated'', JBool (si_returned_count nodes_info < si_total_count nodes_info))]"

definition reward_data :: "service_rewards \<Rightarrow> json" where
  "reward_data rewards =
     (let shown = (\<lambda>s. if sw_preview_available rewards then JStr s else JNull) in
      JObj [(''preview_available'', JBool (sw_preview_available rewards)),
            (''service_reward_active'', JBool (sw_service_reward_active rewards)),
            (''protocol_version'', JU64 (sw_protocol_version rewards)),
            (''height'', JU64 (sw_height rewards)), (''epoch'', JU64 (sw_epoch rewards)),
            (''service_reward_bps'', JU64 (sw_service_reward_bps rewards)),
            (''qualified_count'', JU64 (sw_qualified_count rewards)),
            (''expected_payee_service_public_key'', shown (sw_expected_payee rewards)),
            (''expected_reward_view_public_key'', shown (sw_expected_view_key rewards)),
            (''expected_reward_spend_public_key'', shown (sw_expected_spend_key rewards)),
            (''availability'', JStr (if sw_preview_available rewards then ''current'' else ''unsupported''))])"

definition snapshot_json ::
    "epose_chain_anchor \<Rightarrow> u64 \<Rightarrow> epoch_info \<Rightarrow> service_nodes_info \<Rightarrow> service_rewards \<Rightarrow> json list \<Rightarrow> json" where
  "snapshot_json before at info nodes_info rewards nodes =
     jsend ''success''
       (JObj [(''info'', jupdate (anchor_fields before at) (info_data before info)),
              (''service_nodes'', jupdate (anchor_fields before at) (node_data nodes_info info rewards nodes)),
              (''rewards'', jupdate (anchor_fields before at) (reward_data rewards))])"

section \<open>One attempt\<close>

text \<open>
  How an attempt ends: with the cached and returned success, with an immediate failure
  (\<open>return cache_failure(\<dots>)\<close>), with \<open>continue\<close> and its message and the time of the next
  observation, or with an exception.
\<close>

datatype attempt =
    Built json epose_cache
  | Failed string epose_cache
  | Retry string epose_cache nat
  | Thrown

definition finish_attempt ::
    "page_world \<Rightarrow> nat \<Rightarrow> epose_answers \<Rightarrow> epose_chain_anchor \<Rightarrow> epoch_info \<Rightarrow> service_nodes_info \<Rightarrow> service_rewards \<Rightarrow>
       (string \<Rightarrow> json option) \<Rightarrow> json list \<Rightarrow> epose_cache \<Rightarrow> attempt" where
  "finish_attempt w t A before info nodes_info rewards endpoints nodes c =
     (case capture_epose_chain_anchor w t of
        None \<Rightarrow> Retry ''Canonical chain changed while resolving the EPoSe snapshot'' c (t + 4)
      | Some after_all_queries \<Rightarrow>
        if \<not> same_epose_chain_anchor before after_all_queries
        then Retry ''Canonical chain changed while resolving the EPoSe snapshot'' c (t + 4)
        else
          let response = snapshot_json before (ea_observed_at A) info nodes_info rewards nodes
          in Built response
               (c\<lparr>es_endpoints := endpoints, es_snapshot := response, es_anchor := before,
                  es_time := ea_observed_at A\<rparr>))"

definition resolve_nodes ::
    "(string \<Rightarrow> hash option) \<Rightarrow> page_world \<Rightarrow> nat \<Rightarrow> epose_answers \<Rightarrow> epose_chain_anchor \<Rightarrow> epoch_info \<Rightarrow>
       service_nodes_info \<Rightarrow> service_rewards \<Rightarrow> epose_cache \<Rightarrow> attempt" where
  "resolve_nodes hex_to_pod w t A before info nodes_info rewards c =
     (case qualified_loop hex_to_pod (sw_qualified_keys rewards)
             (size_u64 (sw_qualified_keys rewards) = sw_qualified_count rewards) [] of
        (valid, keys) \<Rightarrow>
        if \<not> valid then Failed ''Core returned an inconsistent finalized EPoSe qualification set'' c
        else case scan_nodes w t A c before info rewards keys (si_nodes nodes_info) blank_scan of
               None \<Rightarrow> Thrown
             | Some sc \<Rightarrow>
               let t1 = t + length (si_nodes nodes_info);
                   (nodes, telemetry) = run_jobs w t1 A before 0 (ns_jobs sc) (ns_nodes sc, es_telemetry c);
                   c' = c\<lparr>es_telemetry := telemetry |` set (ns_active sc)\<rparr>
               in finish_attempt w (t1 + length (ns_jobs sc)) A before info nodes_info rewards
                    (ns_endpoints sc) nodes c')"

definition snapshot_attempt ::
    "(string \<Rightarrow> hash option) \<Rightarrow> page_world \<Rightarrow> nat \<Rightarrow> epose_answers \<Rightarrow> epose_cache \<Rightarrow> attempt" where
  "snapshot_attempt hex_to_pod w t A c =
     (case capture_epose_chain_anchor w t of
        None \<Rightarrow> Retry ''Canonical chain anchor is unavailable'' c (t + 4)
      | Some before \<Rightarrow>
        (case ea_info A of
           None \<Rightarrow> Failed ''Cant get EPoSe info'' c
         | Some info \<Rightarrow>
           (case ea_nodes A of
              None \<Rightarrow> Failed ''Cant get EPoSe service nodes'' c
            | Some nodes_info \<Rightarrow>
              (case ea_rewards A of
                 None \<Rightarrow> Failed ''Cant obtain finalized EPoSe reward-source qualification'' c
               | Some rewards \<Rightarrow>
                 (case capture_epose_chain_anchor w (t + 4) of
                    None \<Rightarrow> Retry ''Core EPoSe responses did not share one canonical block anchor'' c (t + 8)
                  | Some after_core_queries \<Rightarrow>
                    if \<not> same_epose_chain_anchor before after_core_queries
                       \<or> \<not> epose_reward_matches_anchor before (sw_height rewards)
                    then Retry ''Core EPoSe responses did not share one canonical block anchor'' c (t + 8)
                    else resolve_nodes hex_to_pod w (t + 8) A before info nodes_info rewards c)))))"

section \<open>The handler\<close>

definition cache_failure :: "u64 \<Rightarrow> string \<Rightarrow> epose_cache \<Rightarrow> json \<times> epose_cache" where
  "cache_failure request_time msg c =
     (let response = JObj [(''status'', JStr ''error''), (''message'', JStr msg),
            (''data'', JObj [(''snapshot_consistency'', JStr ''unavailable''), (''cache_seconds'', JNum 1)])]
      in (response, c\<lparr>es_snapshot := response, es_anchor := blank_anchor, es_time := request_time\<rparr>))"

definition is_success :: "json \<Rightarrow> bool" where
  "is_success j \<longleftrightarrow> jvalue_string j ''status'' ''error'' = Some ''success''"

text \<open>The cached answer, when it may be served; an answer that is a success needs its anchor.\<close>

definition serve_cached :: "page_world \<Rightarrow> nat \<Rightarrow> u64 \<Rightarrow> epose_cache \<Rightarrow> bool" where
  "serve_cached w t request_time c \<longleftrightarrow>
     es_snapshot c \<noteq> JNull \<and> es_time c \<le> request_time
     \<and> request_time - es_time c < (if is_success (es_snapshot c) then 15 else 1)
     \<and> (\<not> is_success (es_snapshot c) \<or> epose_chain_anchor_is_current w t (es_anchor c))"

fun snapshot_attempts ::
    "(string \<Rightarrow> hash option) \<Rightarrow> page_world \<Rightarrow> u64 \<Rightarrow> epose_answers list \<Rightarrow> nat \<Rightarrow> string \<Rightarrow> epose_cache \<Rightarrow>
       (json \<times> epose_cache) option" where
  "snapshot_attempts hex_to_pod w request_time [] t last_error c = Some (cache_failure request_time last_error c)"
| "snapshot_attempts hex_to_pod w request_time (A # As) t last_error c =
     (case snapshot_attempt hex_to_pod w t A c of
        Built j c' \<Rightarrow> Some (j, c')
      | Failed msg c' \<Rightarrow> Some (cache_failure request_time msg c')
      | Retry msg c' t' \<Rightarrow> snapshot_attempts hex_to_pod w request_time As t' msg c'
      | Thrown \<Rightarrow> None)"

text \<open>\<open>A1\<close> and \<open>A2\<close> are what the two attempts are told.\<close>

definition json_epose_snapshot ::
    "(string \<Rightarrow> hash option) \<Rightarrow> page_world \<Rightarrow> nat \<Rightarrow> u64 \<Rightarrow> epose_answers \<Rightarrow> epose_answers \<Rightarrow> epose_cache \<Rightarrow>
       (json \<times> epose_cache) option" where
  "json_epose_snapshot hex_to_pod w t request_time A1 A2 c =
     (if serve_cached w t request_time c then Some (es_snapshot c, c)
      else snapshot_attempts hex_to_pod w request_time [A1, A2] (t + 4)
             ''Canonical chain changed during EPoSe snapshot'' c)"

text \<open>\<open>json_epose_info\<close>, \<open>json_epose_service_nodes\<close> and \<open>json_epose_rewards\<close> name a section.\<close>

definition json_epose_snapshot_section :: "string \<Rightarrow> json \<Rightarrow> json" where
  "json_epose_snapshot_section section' snapshot' =
     (if \<not> is_success snapshot' then snapshot'
      else jsend ''success'' (jget section' (jget ''data'' snapshot')))"

section \<open>Every served snapshot is anchored\<close>

lemma capture_Some:
  assumes "capture_epose_chain_anchor w t = Some a"
  shows "valid_epose_chain_anchor a" "current_height (pv_chain (w t)) = anchor_block_count a"
    "block_id_by_height (pv_chain (w (t + 1))) (anchor_block_count a - 1) = anchor_tip_hash a"
  using assms by (auto simp: capture_epose_chain_anchor_def Let_def split: if_splits)

lemma same_anchor_eq: "same_epose_chain_anchor a b \<Longrightarrow> a = b"
  by (simp add: same_epose_chain_anchor_def)

definition carries_anchor :: "epose_chain_anchor \<Rightarrow> json \<Rightarrow> bool" where
  "carries_anchor a j \<longleftrightarrow>
     jget ''snapshot_block_count'' j = JU64 (anchor_block_count a)
     \<and> jget ''snapshot_tip_height'' j = JU64 (anchor_block_count a - 1)
     \<and> jget ''snapshot_tip_hash'' j = JStr (anchor_tip_hash a)"

lemma carries_anchor_jupdate: "is_object j \<Longrightarrow> carries_anchor a (jupdate (anchor_fields a stamp) j)"
  by (simp add: carries_anchor_def jupdate_def anchor_fields_def)

definition anchored :: "epose_chain_anchor \<Rightarrow> json \<Rightarrow> bool" where
  "anchored a j \<longleftrightarrow>
     carries_anchor a (jget ''info'' (jget ''data'' j))
     \<and> carries_anchor a (jget ''service_nodes'' (jget ''data'' j))
     \<and> carries_anchor a (jget ''rewards'' (jget ''data'' j))
     \<and> jget ''height'' (jget ''rewards'' (jget ''data'' j)) = JU64 (anchor_block_count a)"

lemma snapshot_json_anchored:
  assumes "sw_height rewards = anchor_block_count a"
  shows "is_success (snapshot_json a stamp info ni rewards nodes)" "anchored a (snapshot_json a stamp info ni rewards nodes)"
proof -
  show "is_success (snapshot_json a stamp info ni rewards nodes)"
    by (simp add: is_success_def snapshot_json_def jsend_def)
  have "is_object (info_data a info)" "is_object (node_data ni info rewards nodes)" "is_object (reward_data rewards)"
    by (simp_all add: info_data_def node_data_def reward_data_def Let_def)
  note c = this [THEN carries_anchor_jupdate]
  have "jget ''height'' (jupdate (anchor_fields a stamp) (reward_data rewards)) = JU64 (sw_height rewards)"
    by (simp add: jupdate_def anchor_fields_def reward_data_def Let_def)
  with c assms show "anchored a (snapshot_json a stamp info ni rewards nodes)"
    by (simp add: anchored_def snapshot_json_def)
qed

definition cache_ok :: "epose_cache \<Rightarrow> bool" where
  "cache_ok c \<longleftrightarrow> (is_success (es_snapshot c) \<longrightarrow> anchored (es_anchor c) (es_snapshot c))"

lemma finish_attempt_built:
  assumes "finish_attempt w t A a info ni rewards ends nodes c = Built j c'" "sw_height rewards = anchor_block_count a"
  shows "capture_epose_chain_anchor w t = Some (es_anchor c') \<and> es_snapshot c' = j \<and> anchored (es_anchor c') j"
  using assms snapshot_json_anchored(2)
  by (auto simp: finish_attempt_def Let_def dest: same_anchor_eq split: option.splits if_splits)

lemma resolve_nodes_built:
  assumes "resolve_nodes hp w t A a info ni rewards c = Built j c'" "sw_height rewards = anchor_block_count a"
  shows "\<exists>t' \<ge> t. capture_epose_chain_anchor w t' = Some (es_anchor c') \<and> es_snapshot c' = j \<and> anchored (es_anchor c') j"
proof -
  from assms(1) obtain m n ends nodes c1 where
    "finish_attempt w (t + m + n) A a info ni rewards ends nodes c1 = Built j c'"
    unfolding resolve_nodes_def Let_def by (auto split: prod.splits if_splits option.splits)
  from finish_attempt_built [OF this assms(2)] show ?thesis by (meson add_leE order_refl)
qed

lemma attempt_built:
  assumes "snapshot_attempt hp w t A c = Built j c'"
  shows "\<exists>t' \<ge> t. capture_epose_chain_anchor w t' = Some (es_anchor c') \<and> es_snapshot c' = j \<and> anchored (es_anchor c') j"
proof -
  from assms obtain a info ni rewards where
    go: "resolve_nodes hp w (t + 8) A a info ni rewards c = Built j c'" "sw_height rewards = anchor_block_count a"
    unfolding snapshot_attempt_def
    by (auto simp: epose_reward_matches_anchor_def split: option.splits if_splits)
  from resolve_nodes_built [OF this] show ?thesis by (meson add_leD1)
qed

lemma attempt_retry_time: "snapshot_attempt hp w t A c = Retry msg c' t' \<Longrightarrow> t \<le> t'"
  unfolding snapshot_attempt_def resolve_nodes_def finish_attempt_def Let_def
  by (auto split: option.splits if_splits prod.splits)

lemma cache_failure_ok:
  assumes "cache_failure now msg c = (j, c')"
  shows "es_snapshot c' = j" "\<not> is_success j"
  using assms by (auto simp: cache_failure_def Let_def is_success_def)

lemma attempts_anchored:
  assumes "snapshot_attempts hp w now As t err c = Some (j, c')"
  shows "es_snapshot c' = j
    \<and> (is_success j \<longrightarrow> (\<exists>t' \<ge> t. capture_epose_chain_anchor w t' = Some (es_anchor c') \<and> anchored (es_anchor c') j))"
  using assms
proof (induction As arbitrary: t err c)
  case Nil
  then show ?case using cache_failure_ok by simp
next
  case (Cons A As)
  show ?case
  proof (cases "snapshot_attempt hp w t A c")
    case (Built j1 c1)
    with Cons.prems attempt_built [OF this] show ?thesis by auto
  next
    case (Failed msg c1)
    with Cons.prems cache_failure_ok show ?thesis by simp
  next
    case (Retry msg c1 t1)
    with Cons.prems have "snapshot_attempts hp w now As t1 msg c1 = Some (j, c')" by simp
    from Cons.IH [OF this] attempt_retry_time [OF Retry] show ?thesis by (meson le_trans)
  qed (use Cons.prems in simp)
qed

lemma snapshot_anchored:
  assumes "json_epose_snapshot hp w t now A1 A2 c = Some (j, c')" "cache_ok c"
  shows "cache_ok c'"
    "is_success j \<Longrightarrow> \<exists>t' \<ge> t. capture_epose_chain_anchor w t' = Some (es_anchor c') \<and> anchored (es_anchor c') j"
proof -
  have "(cache_ok c') \<and> (is_success j \<longrightarrow>
      (\<exists>t' \<ge> t. capture_epose_chain_anchor w t' = Some (es_anchor c') \<and> anchored (es_anchor c') j))"
  proof (cases "serve_cached w t now c")
    case True
    with assms show ?thesis
      by (auto simp: json_epose_snapshot_def serve_cached_def epose_chain_anchor_is_current_def cache_ok_def
          dest: same_anchor_eq split: option.splits)
  next
    case False
    with assms(1) have "snapshot_attempts hp w now [A1, A2] (t + 4)
        ''Canonical chain changed during EPoSe snapshot'' c = Some (j, c')"
      by (simp add: json_epose_snapshot_def)
    from attempts_anchored [OF this] show ?thesis
      unfolding cache_ok_def by (meson add_leD1)
  qed
  then show "cache_ok c'"
    "is_success j \<Longrightarrow> \<exists>t' \<ge> t. capture_epose_chain_anchor w t' = Some (es_anchor c') \<and> anchored (es_anchor c') j"
    by blast+
qed

section \<open>Endpoints are validated before they are contacted\<close>

definition valid_endpoint_json :: "json \<Rightarrow> bool" where
  "valid_endpoint_json e \<longleftrightarrow>
     (\<exists>a. e = current_endpoint a \<and> ae_host a \<noteq> [] \<and> 0 < ae_port a \<and> ae_port a \<le> 65535
        \<and> 1 \<le> ae_transport a \<and> ae_transport a \<le> 3)"

definition endpoints_ok :: "(string \<Rightarrow> json option) \<Rightarrow> bool" where
  "endpoints_ok m \<longleftrightarrow> (\<forall>k e. m k = Some e \<longrightarrow> valid_endpoint_json e)"

definition job_ok :: "nat \<Rightarrow> telemetry_job \<Rightarrow> bool" where
  "job_ok n job \<longleftrightarrow> job_node_index job < n \<and> job_host job \<noteq> [] \<and> 0 < job_port job \<and> job_port job \<le> 65535
     \<and> 1 \<le> job_transport job \<and> job_transport job \<le> 3"

lemma node_endpoint_valid:
  assumes "endpoints_ok (es_endpoints c)" "endpoint_is_current (node_endpoint A c node)"
  shows "valid_endpoint_json (node_endpoint A c node)"
proof -
  have "\<not> endpoint_is_current unavailable_endpoint"
    by (simp add: endpoint_is_current_def unavailable_endpoint_def)
  with assms show ?thesis
    by (auto simp: node_endpoint_def endpoints_ok_def valid_endpoint_json_def valid_epose_advertised_endpoint_def
        split: option.splits if_splits)
qed

lemma job_of_valid_endpoint:
  assumes "valid_endpoint_json e"
  obtains job where "job_of_endpoint i node e = Some job" "i < n \<Longrightarrow> job_ok n job"
  using assms by (auto simp: valid_endpoint_json_def job_of_endpoint_def current_endpoint_def job_ok_def)

definition scan_ok :: "nat \<Rightarrow> node_scan \<Rightarrow> bool" where
  "scan_ok n sc \<longleftrightarrow> length (ns_nodes sc) = n \<and> length (ns_jobs sc) \<le> maximum_telemetry_checks
     \<and> (\<forall>job \<in> set (ns_jobs sc). job_ok n job) \<and> endpoints_ok (ns_endpoints sc)"

lemma job_ok_mono: "job_ok n job \<Longrightarrow> job_ok (Suc n) job"
  by (simp add: job_ok_def)

lemma scan_node_ok:
  assumes "endpoints_ok (es_endpoints c)" "scan_ok n sc"
  shows "\<exists>sc'. scan_node v A c a info rewards keys node sc = Some sc' \<and> scan_ok (Suc n) sc'"
proof -
  let ?e = "node_endpoint A c node"
  show ?thesis
  proof (cases "endpoint_is_current ?e")
    case False
    then show ?thesis
      using assms(2) by (auto simp: scan_node_def Let_def scan_ok_def job_ok_mono)
  next
    case True
    note ok = node_endpoint_valid [OF assms(1) True]
    then have ends: "endpoints_ok ((ns_endpoints sc)(k \<mapsto> ?e))" for k
      using assms(2) by (auto simp: endpoints_ok_def scan_ok_def)
    obtain job where job: "job_of_endpoint (length (ns_nodes sc)) node ?e = Some job" "job_ok (Suc n) job"
      using job_of_valid_endpoint [OF ok, of "length (ns_nodes sc)" node "Suc n"] assms(2) by (auto simp: scan_ok_def)
    show ?thesis
      using assms(2) True job ends
      by (cases "fresh_telemetry c (ea_telemetry_now A) (sn_endpoint_commitment node)";
          cases "length (ns_jobs sc) < maximum_telemetry_checks")
        (auto simp: scan_node_def Let_def scan_ok_def job_ok_mono)
  qed
qed

lemma scan_nodes_ok:
  assumes "endpoints_ok (es_endpoints c)" "scan_ok n sc"
  shows "\<exists>sc'. scan_nodes w t A c a info rewards keys nodes sc = Some sc' \<and> scan_ok (n + length nodes) sc'"
  using assms(2)
proof (induction nodes arbitrary: t n sc)
  case (Cons node nodes)
  obtain sc1 where "scan_node (w t) A c a info rewards keys node sc = Some sc1" "scan_ok (Suc n) sc1"
    using scan_node_ok [OF assms(1) Cons.prems] by blast
  with Cons.IH [of "Suc n" sc1 "t + 1"] show ?case by simp
qed simp

lemma blank_scan_ok: "scan_ok 0 blank_scan"
  by (simp add: scan_ok_def blank_scan_def endpoints_ok_def)

fun attempt_ok :: "attempt \<Rightarrow> bool" where
  "attempt_ok (Built j c) \<longleftrightarrow> endpoints_ok (es_endpoints c)"
| "attempt_ok (Failed msg c) \<longleftrightarrow> endpoints_ok (es_endpoints c)"
| "attempt_ok (Retry msg c t) \<longleftrightarrow> endpoints_ok (es_endpoints c)"
| "attempt_ok Thrown \<longleftrightarrow> False"

lemma finish_attempt_ok:
  "endpoints_ok (es_endpoints c) \<Longrightarrow> endpoints_ok ends \<Longrightarrow> attempt_ok (finish_attempt w t A a info ni rewards ends nodes c)"
  by (auto simp: finish_attempt_def Let_def split: option.splits)

lemma resolve_nodes_ok:
  assumes "endpoints_ok (es_endpoints c)"
  shows "attempt_ok (resolve_nodes hp w t A a info ni rewards c)"
proof -
  obtain valid keys where q: "qualified_loop hp (sw_qualified_keys rewards)
      (size_u64 (sw_qualified_keys rewards) = sw_qualified_count rewards) [] = (valid, keys)"
    by (metis prod.exhaust)
  obtain sc where sc: "scan_nodes w t A c a info rewards keys (si_nodes ni) blank_scan = Some sc"
    "endpoints_ok (ns_endpoints sc)"
    using scan_nodes_ok [OF assms blank_scan_ok] unfolding scan_ok_def by blast
  show ?thesis
    using assms sc by (auto simp: resolve_nodes_def q Let_def intro!: finish_attempt_ok split: prod.splits)
qed

lemma snapshot_attempt_ok:
  "endpoints_ok (es_endpoints c) \<Longrightarrow> attempt_ok (snapshot_attempt hp w t A c)"
  by (auto simp: snapshot_attempt_def intro: resolve_nodes_ok split: option.splits)

lemma snapshot_attempts_ok:
  "endpoints_ok (es_endpoints c) \<Longrightarrow>
     \<exists>j c'. snapshot_attempts hp w now As t err c = Some (j, c') \<and> endpoints_ok (es_endpoints c')"
proof (induction As arbitrary: t err c)
  case Nil
  then show ?case by (simp add: cache_failure_def Let_def)
next
  case (Cons A As)
  show ?case
  proof (cases "snapshot_attempt hp w t A c")
    case (Retry msg c1 t1)
    with snapshot_attempt_ok [OF Cons.prems, of hp w t A] Cons.IH [of c1 t1 msg] show ?thesis by simp
  qed (use snapshot_attempt_ok [OF Cons.prems, of hp w t A] in \<open>auto simp: cache_failure_def Let_def\<close>)
qed

lemma snapshot_total:
  assumes "endpoints_ok (es_endpoints c)"
  obtains j c' where "json_epose_snapshot hp w t now A1 A2 c = Some (j, c')" "endpoints_ok (es_endpoints c')"
proof (cases "serve_cached w t now c")
  case True
  then show ?thesis using that assms by (simp add: json_epose_snapshot_def)
next
  case False
  have "\<exists>j c'. snapshot_attempts hp w now [A1, A2] (t + 4)
      ''Canonical chain changed during EPoSe snapshot'' c = Some (j, c') \<and> endpoints_ok (es_endpoints c')"
    by (rule snapshot_attempts_ok [OF assms])
  with False show ?thesis using that by (auto simp: json_epose_snapshot_def simp del: snapshot_attempts.simps)
qed

section \<open>The cache of a running explorer\<close>

definition blank_epose_cache :: epose_cache where
  "blank_epose_cache = \<lparr>es_snapshot = JNull, es_anchor = blank_anchor, es_endpoints = Map.empty,
     es_telemetry = Map.empty, es_time = 0\<rparr>"

inductive epose_step :: "(string \<Rightarrow> hash option) \<Rightarrow> epose_cache \<Rightarrow> epose_cache \<Rightarrow> bool" for hp where
  request: "json_epose_snapshot hp w t now A1 A2 c = Some (j, c') \<Longrightarrow> epose_step hp c c'"

inductive_cases epose_stepE: "epose_step hp c c'"

definition epose_inv :: "epose_cache \<Rightarrow> bool" where
  "epose_inv c \<longleftrightarrow> cache_ok c \<and> endpoints_ok (es_endpoints c)"

lemma epose_step_keeps: "epose_inv c \<Longrightarrow> epose_step hp c c' \<Longrightarrow> epose_inv c'"
proof (erule epose_stepE)
  fix w t now A1 A2 j
  assume inv: "epose_inv c" and run: "json_epose_snapshot hp w t now A1 A2 c = Some (j, c')"
  obtain j1 c1 where "json_epose_snapshot hp w t now A1 A2 c = Some (j1, c1)" "endpoints_ok (es_endpoints c1)"
    using snapshot_total inv unfolding epose_inv_def by blast
  with run snapshot_anchored(1) [OF run] inv show "epose_inv c'" by (simp add: epose_inv_def)
qed

interpretation epose_system: invariant_system "epose_step hp" epose_inv for hp
  by unfold_locales (rule epose_step_keeps)

lemma blank_epose_inv: "epose_inv blank_epose_cache"
  by (simp add: epose_inv_def cache_ok_def blank_epose_cache_def is_success_def endpoints_ok_def)

lemma reachable_inv: "steps (epose_step hp) blank_epose_cache c \<Longrightarrow> cache_ok c \<and> endpoints_ok (es_endpoints c)"
  using epose_system.steps_keep blank_epose_inv unfolding epose_inv_def by blast


text \<open>
  The explorer contacts only endpoints it has validated, and only so many: in every reachable
  state the scan of a list of service nodes gives one row for each node and at most 64 telemetry
  jobs, each for an existing row, with a host, a port between 1 and 65535 and a known transport.
\<close>

theorem telemetry_jobs_bounded:
  assumes "steps (epose_step hp) blank_epose_cache c"
  shows "\<exists>sc. scan_nodes w t A c a info rewards keys nodes blank_scan = Some sc
    \<and> length (ns_nodes sc) = length nodes \<and> length (ns_jobs sc) \<le> 64
    \<and> (\<forall>job \<in> set (ns_jobs sc). job_node_index job < length (ns_nodes sc) \<and> job_host job \<noteq> []
         \<and> 0 < job_port job \<and> job_port job \<le> 65535 \<and> 1 \<le> job_transport job \<and> job_transport job \<le> 3)"
  using scan_nodes_ok [OF _ blank_scan_ok, of c w t A a info rewards keys nodes] reachable_inv [OF assms]
  by (auto simp: scan_ok_def job_ok_def maximum_telemetry_checks_def)

definition sample_epoch :: epoch_info where
  "sample_epoch = \<lparr>ei_enabled = True, ei_protocol_version = 2, ei_current_epoch = 0, ei_epoch_start_height = 0,
     ei_epoch_end_height = 10, ei_service_node_count = 1, ei_qualified_count = 0, ei_attestation_count = 0,
     ei_state_hash = [], ei_service_reward_bps = 0, ei_local_service_node = False, ei_local_key_loaded = False,
     ei_local_registered = False, ei_local_active = False, ei_local_qualified = False,
     ei_local_expiry_epoch = 0, ei_local_public_key = [], ei_local_reward_address = [],
     ei_local_endpoint_commitment = []\<rparr>"

definition sample_node :: service_node where
  "sample_node = \<lparr>sn_identity_id = ''id'', sn_service_public_key = ''sk'', sn_operator_key = [],
     sn_reward_view_key = [], sn_reward_spend_key = [], sn_endpoint_commitment = ''dd'', sn_admission_hash = [],
     sn_descriptor_sequence = 0, sn_effective_epoch = 0, sn_registration_epoch = 0, sn_expiry_epoch = 9,
     sn_active = True, sn_qualified = False\<rparr>"

definition sample_rewards :: service_rewards where
  "sample_rewards = \<lparr>sw_preview_available = False, sw_service_reward_active = False, sw_protocol_version = 2,
        sw_height = 1, sw_epoch = 0, sw_service_reward_bps = 0, sw_qualified_count = 0, sw_qualified_keys = [],
        sw_expected_payee = [], sw_expected_view_key = [], sw_expected_spend_key = []\<rparr>"

definition sample_answers :: epose_answers where
  "sample_answers =
     \<lparr>ea_info = Some sample_epoch,
      ea_nodes = Some \<lparr>si_nodes = [sample_node], si_total_count = 1, si_returned_count = 1\<rparr>,
      ea_rewards = Some sample_rewards,
      ea_endpoint = (\<lambda>_. Some \<lparr>ae_ready = True, ae_descriptor_hash = ''dd'', ae_service_public_key = ''sk'',
        ae_host = ''node.example'', ae_port = 8197, ae_transport = 3, ae_version = 2, ae_service_kind = 1,
        ae_service_version = 1\<rparr>),
      ea_fetch = (\<lambda>_ _. blank_telemetry), ea_telemetry_now = 100, ea_observed_at = 101\<rparr>"

lemma sample_capture:
  "capture_epose_chain_anchor (\<lambda>_. sample_view) t
     = Some \<lparr>anchor_block_count = 1, anchor_tip_hash = replicate 64 CHR ''a''\<rparr>"
  by (simp add: capture_epose_chain_anchor_def sample_view_simps valid_epose_chain_anchor_def Let_def)

definition sample_anchor :: epose_chain_anchor where
  "sample_anchor = \<lparr>anchor_block_count = 1, anchor_tip_hash = replicate 64 CHR ''a''\<rparr>"

lemma sample_attempt_built:
  "\<exists>stamp ni rewards nodes c'. snapshot_attempt Some (\<lambda>_. sample_view) t sample_answers blank_epose_cache
     = Built (snapshot_json sample_anchor stamp sample_epoch ni rewards nodes) c'"
proof -
  have same: "same_epose_chain_anchor sample_anchor sample_anchor"
    by (simp add: same_epose_chain_anchor_def valid_epose_chain_anchor_def sample_anchor_def)
  have ok: "endpoints_ok (es_endpoints blank_epose_cache)" by (simp add: blank_epose_cache_def endpoints_ok_def)
  have capture: "capture_epose_chain_anchor (\<lambda>_. sample_view) u = Some sample_anchor" for u
    by (simp add: sample_capture sample_anchor_def)
  have "\<exists>stamp c'. finish_attempt (\<lambda>_. sample_view) u A sample_anchor info ni rewards ends nodes c
      = Built (snapshot_json sample_anchor stamp info ni rewards nodes) c'"
    for u A info ni rewards ends nodes and c :: epose_cache
    using same by (auto simp: finish_attempt_def capture Let_def)
  then have "\<exists>stamp nodes c'. resolve_nodes Some (\<lambda>_. sample_view) u sample_answers sample_anchor info ni rewards blank_epose_cache
      = Built (snapshot_json sample_anchor stamp info ni rewards nodes) c'"
    if "sw_qualified_keys rewards = []" "sw_qualified_count rewards = 0" for u info ni rewards
    using that scan_nodes_ok [OF ok blank_scan_ok, of "\<lambda>_. sample_view" u sample_answers sample_anchor info rewards "[]" "si_nodes ni"]
    by (auto simp: resolve_nodes_def size_u64_def Let_def split: prod.splits) blast+
  note built = this [of sample_rewards "t + 8" sample_epoch "\<lparr>si_nodes = [sample_node], si_total_count = 1, si_returned_count = 1\<rparr>"]
  have "snapshot_attempt Some (\<lambda>_. sample_view) t sample_answers blank_epose_cache
      = resolve_nodes Some (\<lambda>_. sample_view) (t + 8) sample_answers sample_anchor sample_epoch
          \<lparr>si_nodes = [sample_node], si_total_count = 1, si_returned_count = 1\<rparr> sample_rewards blank_epose_cache"
    using same
    by (simp add: snapshot_attempt_def capture sample_answers_def [THEN arg_cong, of ea_info]
        sample_answers_def [THEN arg_cong, of ea_nodes] sample_answers_def [THEN arg_cong, of ea_rewards]
        epose_reward_matches_anchor_def valid_epose_chain_anchor_def sample_anchor_def [THEN arg_cong, of anchor_block_count]
        sample_anchor_def [THEN arg_cong, of anchor_tip_hash] sample_rewards_def [THEN arg_cong, of sw_height])
  with built show ?thesis by (auto simp: sample_rewards_def) blast
qed

lemma sample_snapshot_built:
  "\<exists>stamp ni rewards nodes c'. json_epose_snapshot Some (\<lambda>_. sample_view) t 100 sample_answers sample_answers blank_epose_cache
     = Some (snapshot_json sample_anchor stamp sample_epoch ni rewards nodes, c')"
proof -
  have "\<not> serve_cached (\<lambda>_. sample_view) t 100 blank_epose_cache"
    by (simp add: serve_cached_def blank_epose_cache_def)
  with sample_attempt_built [of "t + 4"] show ?thesis by (auto simp: json_epose_snapshot_def) blast
qed


theorem telemetry_jobs_bounded_witness:
  "\<exists>sc. scan_nodes (\<lambda>_. sample_view) 0 sample_answers blank_epose_cache blank_anchor sample_epoch sample_rewards [] [sample_node]
        blank_scan = Some sc \<and> length (ns_jobs sc) \<le> 64"
  using telemetry_jobs_bounded [OF steps.stop] by blast

end
