(* ===== verification/Service.thy ===== *)
theory Service
  imports Epose_Snapshot Responses
begin

text \<open>
  What stands above the single handlers: the overview with its five-second cache, the identity of
  the observed chain and the readiness probe built from it, the search of the API
  (\<open>src/page.h\<close>), and the checks and small routes of \<open>main.cpp\<close>.
\<close>

section \<open>Members of answers\<close>

text \<open>
  \<open>value(key, default)\<close> for the members the handlers read back from the answers of
  \<open>json_networkinfo\<close> and \<open>json_epose_info\<close>, which always have the type the default has; the
  numbers are read as \<open>unsigned\<close>, that is modulo \<open>2 ^ 32\<close>, where the code has \<open>0u\<close>.
\<close>

definition value_bool :: "json \<Rightarrow> string \<Rightarrow> bool \<Rightarrow> bool" where
  "value_bool j k d = (case jat j k of Some (JBool b) \<Rightarrow> b | _ \<Rightarrow> d)"

definition value_u64 :: "json \<Rightarrow> string \<Rightarrow> u64" where
  "value_u64 j k = (case jat j k of Some (JNum n) \<Rightarrow> word_of_int n | _ \<Rightarrow> 0)"

definition value_u32 :: "json \<Rightarrow> string \<Rightarrow> 32 word" where
  "value_u32 j k = (case jat j k of Some (JNum n) \<Rightarrow> word_of_int n | _ \<Rightarrow> 0)"

definition value_string :: "json \<Rightarrow> string \<Rightarrow> string" where
  "value_string j k = (case jat j k of Some (JStr s) \<Rightarrow> s | _ \<Rightarrow> [])"

section \<open>Overview\<close>

record overview_cache =
  oc_answer :: json
  oc_time :: u64

text \<open>The fees of a block, with the overflow check of the loop: \<open>None\<close> is the error.\<close>

fun overview_fees :: "core_lib \<Rightarrow> transaction list \<Rightarrow> u64 \<Rightarrow> u64 option" where
  "overview_fees L [] fees = Some fees"
| "overview_fees L (tx # txs) fees =
     (let fee = get_tx_fee L tx in
      if u64_max - fees < fee then None else overview_fees L txs (fees + fee))"

definition overview_row :: "page_lib \<Rightarrow> page_view \<Rightarrow> u64 \<Rightarrow> block \<Rightarrow> u64 \<Rightarrow> json" where
  "overview_row P v h blk fees =
     JObj [(''height'', JU64 h), (''hash'', JStr (block_id_by_height (pv_chain v) h)),
           (''timestamp'', JU64 (blk_timestamp blk)),
           (''regular_tx_count'', JNum (int (length (tx_hashes blk)))),
           (''total_tx_count'', JNum (int (length (tx_hashes blk) + 1))),
           (''difficulty'', JStr (nat_to_dec (unat (block_difficulty v h)))),
           (''fees_qwc'', JStr (format_atomic_amount fees (pl_coin P) 8)),
           (''coinbase_total_qwc'',
              JStr (format_atomic_amount (get_outs_money_amount (pl_core P) (miner_tx blk)) (pl_coin P) 8)),
           (''weight_kb'', JStr (kib_text (pl_float P) (block_weight v h)))]"

text \<open>
  The loop over the newest blocks, three observations each; \<open>Inl\<close> is the message of the error that
  ends it.
\<close>

fun overview_blocks ::
    "page_lib \<Rightarrow> page_world \<Rightarrow> nat \<Rightarrow> nat list \<Rightarrow> json list \<Rightarrow> string + json list \<times> nat" where
  "overview_blocks P w t [] rows = Inr (rows, t)"
| "overview_blocks P w t (h # hs) rows =
     (case get_block_by_height (pv_chain (w t)) (of_nat h) of
        None \<Rightarrow> Inl ''Cannot read a canonical overview block''
      | Some blk \<Rightarrow>
        (case get_transactions (pv_chain (w (t + 1))) (tx_hashes blk) of
           (ok, txs, missed) \<Rightarrow>
             if \<not> ok \<or> missed \<noteq> [] \<or> length txs \<noteq> length (tx_hashes blk)
             then Inl ''Cannot read every overview transaction''
             else case overview_fees (pl_core P) txs 0 of
                    None \<Rightarrow> Inl ''Overview fee total overflow''
                  | Some fees \<Rightarrow>
                    overview_blocks P w (t + 3) hs
                      (rows @ [overview_row P (w (t + 2)) (of_nat h) blk fees])))"

definition overview_pool_row :: "mempool_tx \<Rightarrow> json" where
  "overview_pool_row m =
     JObj [(''hash'', JStr (mt_tx_hash m)), (''timestamp'', JU64 (mt_receive_time m)),
           (''fee_qwc'', JStr (fee_str m)), (''outputs'', JStr (xmr_outputs_str m)),
           (''amount_availability'', JStr (if confidential_amounts m then ''confidential'' else ''public'')),
           (''input_count'', JU64 (no_inputs m)), (''output_count'', JU64 (no_outputs m)),
           (''size_kb'', JStr (txsize m))]"

definition overview_data ::
    "page_lib \<Rightarrow> u64 \<Rightarrow> json \<Rightarrow> json \<Rightarrow> json list \<Rightarrow> mempool_snapshot \<Rightarrow> u64 \<Rightarrow> u64 \<Rightarrow> hash \<Rightarrow> json" where
  "overview_data P now network supply blocks pool refresh block_count tip =
     JObj [(''network'', network), (''supply'', supply), (''blocks'', JArr blocks),
           (''mempool'', JObj [(''total_count'', JU64 (total_count pool)),
              (''returned_count'', JNum (int (length (transactions pool)))),
              (''size_kb'', JStr (kib_text (pl_float P) (size_bytes pool))),
              (''observed_at_unix'', JU64 (mp_observed_at pool)),
              (''refresh_interval_seconds'', JU64 refresh),
              (''transactions'', JArr (map overview_pool_row (transactions pool)))]),
           (''block_count'', JU64 block_count), (''tip_height'', JU64 (block_count - 1)),
           (''tip_hash'', JStr tip), (''rendered_at_unix'', JU64 now), (''cache_seconds'', JNum 5)]"

definition overview_error :: "string \<Rightarrow> json" where
  "overview_error msg = error_message JNull msg"

text \<open>The answer that is built when the cache has none, and whether it is stored.\<close>

definition build_overview ::
    "page_lib \<Rightarrow> page_world \<Rightarrow> nat \<Rightarrow> mempool_status \<Rightarrow> supply_index option \<Rightarrow> u64 \<Rightarrow> u64 \<Rightarrow> json \<times> bool" where
  "build_overview P w t ms index no_blocks_on_index now =
     (let network = json_networkinfo P w t ms; supply = json_emission index in
      if \<not> is_success network \<or> \<not> is_success supply
      then (overview_error ''Required overview snapshots are unavailable'', True)
      else
        let block_count = current_height (pv_chain (w (t + 2))) in
        if block_count = 0 then (overview_error ''Canonical chain is empty'', False)
        else
          let tip = block_id_by_height (pv_chain (w (t + 3))) (block_count - 1);
              range = make_descending_block_range block_count 0 (min (no_blocks_on_index + 1) 25)
          in case overview_blocks P w (t + 4) (range_heights range) [] of
               Inl msg \<Rightarrow> (overview_error msg, False)
             | Inr (blocks, t') \<Rightarrow>
               if current_height (pv_chain (w t')) \<noteq> block_count
                  \<or> block_id_by_height (pv_chain (w (t' + 1))) (block_count - 1) \<noteq> tip
               then (overview_error ''Canonical chain changed during overview snapshot'', False)
               else
                 let net = jget ''data'' network;
                     net' = jset ''rpc_db_anchor_matches''
                              (JBool (value_u64 net ''height'' = block_count \<and> value_string net ''top_block_hash'' = tip)) net
                 in (jsend ''success''
                       (overview_data P now net' (jget ''data'' supply) blocks (get_mempool_snapshot ms 25)
                          (mempool_refresh_time ms) block_count tip), True))"

definition json_overview ::
    "page_lib \<Rightarrow> page_world \<Rightarrow> nat \<Rightarrow> mempool_status \<Rightarrow> supply_index option \<Rightarrow> u64 \<Rightarrow> u64 \<Rightarrow> overview_cache \<Rightarrow>
       json \<times> overview_cache" where
  "json_overview P w t ms index no_blocks_on_index now c =
     (if oc_answer c \<noteq> JNull \<and> oc_time c \<le> now \<and> now - oc_time c < 5 then (oc_answer c, c)
      else case build_overview P w t ms index no_blocks_on_index now of
             (j, store) \<Rightarrow> (j, if store then \<lparr>oc_answer = j, oc_time = now\<rparr> else c))"

section \<open>Identity and readiness\<close>

text \<open>The constants of the build and of the core the explorer is compiled against.\<close>

record build_info =
  bi_core_sha :: string
  bi_explorer_sha :: string
  bi_expected_genesis :: hash
  bi_parameter_hash :: string

record identity_checks =
  ic_mainnet :: bool
  ic_snapshot_current :: bool
  ic_anchor_matches :: bool
  ic_hf17 :: bool
  ic_epose_v2 :: bool
  ic_genesis_matches :: bool
  ic_core_sha_recorded :: bool

definition core_sha_recorded :: "string \<Rightarrow> bool" where
  "core_sha_recorded sha \<longleftrightarrow> length sha = 40 \<and> list_all is_hex sha"

definition identity_checks_of ::
    "build_info \<Rightarrow> u64 \<Rightarrow> hash \<Rightarrow> hash \<Rightarrow> json \<Rightarrow> json \<Rightarrow> identity_checks" where
  "identity_checks_of B chain_height actual_genesis db_tip_hash net epose =
     \<lparr>ic_mainnet = (\<not> value_bool net ''testnet'' True \<and> \<not> value_bool net ''stagenet'' True),
      ic_snapshot_current = value_bool net ''current'' False,
      ic_anchor_matches = (value_u64 net ''height'' = chain_height
                           \<and> value_string net ''top_block_hash'' = db_tip_hash),
      ic_hf17 = (value_u32 net ''current_hf_version'' = 17),
      ic_epose_v2 = (value_bool epose ''enabled'' False \<and> value_u32 epose ''protocol_version'' = 2),
      ic_genesis_matches = (actual_genesis = bi_expected_genesis B),
      ic_core_sha_recorded = core_sha_recorded (bi_core_sha B)\<rparr>"

definition compatible :: "identity_checks \<Rightarrow> bool" where
  "compatible c \<longleftrightarrow> ic_mainnet c \<and> ic_snapshot_current c \<and> ic_anchor_matches c \<and> ic_hf17 c \<and> ic_epose_v2 c
     \<and> ic_genesis_matches c \<and> ic_core_sha_recorded c"

definition identity_data ::
    "build_info \<Rightarrow> u64 \<Rightarrow> hash \<Rightarrow> hash \<Rightarrow> json \<Rightarrow> json \<Rightarrow> json" where
  "identity_data B chain_height actual_genesis db_tip_hash net epose =
     (let c = identity_checks_of B chain_height actual_genesis db_tip_hash net epose;
          tip_height = chain_height - 1
      in JObj [(''network'', JStr (if ic_mainnet c then ''mainnet''
                                   else if value_bool net ''testnet'' False then ''testnet'' else ''stagenet'')),
           (''genesis_hash'', JStr actual_genesis), (''expected_genesis_hash'', JStr (bi_expected_genesis B)),
           (''genesis_matches'', JBool (ic_genesis_matches c)),
           (''consensus_parameter_fingerprint'', JStr (bi_parameter_hash B)),
           (''consensus_parameter_fingerprint_source'', JStr ''compiled core profile''),
           (''current_hf_version'', JNum (int (unat (value_u32 net ''current_hf_version'')))),
           (''epose_protocol_version'', JNum (int (unat (value_u32 epose ''protocol_version'')))),
           (''epose_enabled'', JBool (value_bool epose ''enabled'' False)),
           (''snapshot_current'', JBool (ic_snapshot_current c)),
           (''rpc_db_anchor_matches'', JBool (ic_anchor_matches c)),
           (''block_count'', JU64 chain_height), (''tip_height'', JU64 tip_height),
           (''chain_anchor'', JObj [(''height'', JU64 tip_height),
                                    (''hash'', JStr (value_string net ''top_block_hash''))]),
           (''db_chain_anchor'', JObj [(''height'', JU64 tip_height), (''hash'', JStr db_tip_hash)]),
           (''explorer_source_sha'', JStr (bi_explorer_sha B)), (''core_source_sha'', JStr (bi_core_sha B)),
           (''core_source_sha_recorded'', JBool (ic_core_sha_recorded c)),
           (''compatible'', JBool (compatible c))])"

text \<open>
  \<open>json_identity\<close>: \<open>t'\<close> is the time of the first observation after the EPoSe section was served;
  \<open>None\<close> is an exception of the snapshot handler.
\<close>

definition json_identity ::
    "page_lib \<Rightarrow> build_info \<Rightarrow> (string \<Rightarrow> hash option) \<Rightarrow> page_world \<Rightarrow> nat \<Rightarrow> nat \<Rightarrow> mempool_status \<Rightarrow> u64 \<Rightarrow>
       epose_answers \<Rightarrow> epose_answers \<Rightarrow> epose_cache \<Rightarrow> (json \<times> epose_cache) option" where
  "json_identity P B hex_to_pod w t t' ms now A1 A2 c =
     (let chain_height = current_height (pv_chain (w t)) in
      if chain_height = 0 then Some (error_message JNull ''Chain identity is unavailable'', c)
      else
        let network = json_networkinfo P w (t + 1) ms in
        (case json_epose_snapshot hex_to_pod w (t + 3) now A1 A2 c of
           None \<Rightarrow> None
         | Some (snap, c') \<Rightarrow>
           let epose = json_epose_snapshot_section ''info'' snap in
           if \<not> is_success network \<or> \<not> is_success epose
           then Some (error_message JNull ''Required observer identity data is unavailable'', c')
           else
             let actual_genesis = block_id_by_height (pv_chain (w t')) 0;
                 db_tip_hash = block_id_by_height (pv_chain (w (t' + 1))) (chain_height - 1)
             in Some (jsend ''success''
                  (identity_data B chain_height actual_genesis db_tip_hash (jget ''data'' network)
                     (jget ''data'' epose)), c')))"

text \<open>
  The readiness probe: \<open>probe\<close> is the answer of \<open>readiness_rpc.get_network_info\<close> (\<open>Inl\<close> its error)
  and \<open>ok_status\<close> the daemon's constant for OK.
\<close>

definition readyz ::
    "string \<Rightarrow> string + rpc_info \<Rightarrow> json \<Rightarrow> json \<Rightarrow> json" where
  "readyz ok_status probe identity supply =
     (case probe of
        Inl _ \<Rightarrow> JObj [(''status'', JStr ''error''),
                   (''message'', JStr ''Restricted wallet RPC probe is unavailable or incompatible'')]
      | Inr info \<Rightarrow>
        if ri_status info \<noteq> ok_status \<or> ri_testnet info \<or> ri_stagenet info \<or> ri_height info = 0 \<or> ri_target info = 0
        then JObj [(''status'', JStr ''error''),
                   (''message'', JStr ''Restricted wallet RPC probe is unavailable or incompatible'')]
        else if \<not> is_success identity \<or> \<not> value_bool (jget ''data'' identity) ''compatible'' False
                \<or> \<not> is_success supply \<or> \<not> value_bool (jget ''data'' supply) ''complete'' False
        then JObj [(''status'', JStr ''error''),
                   (''message'', JStr ''Observer identity, freshness, EPoSe v2 compatibility, or supply anchor is unverified'')]
        else jsend ''success''
               (JObj [(''wallet_rpc'', JObj [(''status'', JStr ''ready''), (''height'', JU64 (ri_height info)),
                                             (''target_height'', JU64 (ri_target_height info))]),
                      (''identity'', jget ''data'' identity), (''supply'', jget ''data'' supply)]))"

definition healthz :: json where
  "healthz = jsend ''success'' (JObj [(''process'', JStr ''running'')])"

section \<open>Searching\<close>

text \<open>
  \<open>json_search\<close>: a transaction, then a block by hash, or a block by height. \<open>t1\<close>, \<open>t2\<close> are the times
  of the first observations of the two calls.
\<close>

definition json_search ::
    "page_lib \<Rightarrow> page_world \<Rightarrow> nat \<Rightarrow> nat \<Rightarrow> mempool_status \<Rightarrow> (hash \<Rightarrow> epose_reward_response option) \<Rightarrow> string \<Rightarrow>
       db_exn + json" where
  "json_search P w t1 t2 ms reward_of search_text =
     (let found = (\<lambda>title data. Inr (jsend ''success'' (jset ''title'' (JStr title) data)));
          none = Inr (fail_title (''Nothing was found that matches search string: '' @ search_text));
          try_block = (case json_block P w t2 reward_of search_text of
                         Inl e \<Rightarrow> Inl e
                       | Inr j_block \<Rightarrow>
                         if jget ''status'' j_block = JStr ''success''
                         then found ''block'' (jget ''data'' j_block) else none)
      in if length search_text = 64
         then (case json_transaction P w t1 ms search_text of
                 Inl e \<Rightarrow> Inl e
               | Inr j_tx \<Rightarrow>
                 if jget ''status'' j_tx = JStr ''success'' then found ''transaction'' (jget ''data'' j_tx)
                 else try_block)
         else if length search_text \<le> 8 then try_block
         else none)"

text \<open>
  The search route of \<open>main.cpp\<close>: \<open>Inl\<close> is the status code and the text shown on the page without
  results, \<open>Inr\<close> the text handed to the search page.
\<close>

definition search_route :: "string \<Rightarrow> (nat \<times> string) + string" where
  "search_route req_body =
     (if 4096 < length req_body then Inl (413, ''request too large'')
      else case parse_crow_post_data req_body ''value'' of
             None \<Rightarrow> Inl (400, [])
           | Some v \<Rightarrow>
             if v = [] \<or> 128 < length v then Inl (400, remove_bad_chars (take 128 v))
             else Inr (remove_bad_chars v))"

section \<open>Start-up checks\<close>

definition nettype_of_flags :: "bool \<Rightarrow> bool \<Rightarrow> network_type option" where
  "nettype_of_flags testnet stagenet =
     (if testnet \<and> stagenet then None
      else Some (if testnet then TESTNET else if stagenet then STAGENET else MAINNET))"

definition reset_id_char :: "char \<Rightarrow> bool" where
  "reset_id_char c \<longleftrightarrow> ascii_letter c \<or> is_digit c \<or> c = CHR ''-'' \<or> c = CHR ''_'' \<or> c = CHR ''.''"

definition valid_reset_id :: "string option \<Rightarrow> bool" where
  "valid_reset_id opt =
     (case opt of
        None \<Rightarrow> False
      | Some s \<Rightarrow> s \<noteq> [] \<and> length s \<le> 128 \<and> list_all reset_id_char s)"

definition required_options_ok :: "string option \<Rightarrow> string option \<Rightarrow> string option \<Rightarrow> bool" where
  "required_options_ok daemon_url derived_data_path reset_id \<longleftrightarrow>
     (case daemon_url of None \<Rightarrow> False | Some s \<Rightarrow> s \<noteq> [])
     \<and> (case derived_data_path of None \<Rightarrow> False | Some s \<Rightarrow> s \<noteq> [])
     \<and> valid_reset_id reset_id"

text \<open>The login \<open>user:password\<close>; without a colon the whole text is the user.\<close>

definition daemon_login :: "string \<Rightarrow> string \<times> string" where
  "daemon_login s =
     (case str_find '':'' s of
        Some i \<Rightarrow> (take i s, drop (i + 1) s)
      | None \<Rightarrow> (s, []))"

section \<open>Static files\<close>

definition public_assets :: "(string \<times> string \<times> string) list" where
  "public_assets =
     [(''style.css'', ''./templates/css/style.css'', ''text/css; charset=utf-8''),
      (''epose-status.js'', ''./templates/assets/epose-status.js'', ''text/javascript; charset=utf-8''),
      (''qwertycoin-mark.svg'', ''./templates/assets/qwertycoin-mark.svg'', ''image/svg+xml''),
      (''favicon.svg'', ''./templates/assets/favicon.svg'', ''image/svg+xml''),
      (''favicon-16x16.png'', ''./templates/assets/favicon-16x16.png'', ''image/png''),
      (''favicon-32x32.png'', ''./templates/assets/favicon-32x32.png'', ''image/png''),
      (''favicon-192x192.png'', ''./templates/assets/favicon-192x192.png'', ''image/png''),
      (''apple-touch-icon.png'', ''./templates/assets/apple-touch-icon.png'', ''image/png'')]"

definition public_fonts :: "string list" where
  "public_fonts = [''archivo-latin-900.woff2'', ''inter-latin-400.woff2'', ''inter-latin-600.woff2'']"

text \<open>A route answers 404 (\<open>None\<close>) or with a file, its caching rule and its type.\<close>

definition asset_route :: "string \<Rightarrow> (string \<times> string \<times> string) option" where
  "asset_route name =
     (case map_of public_assets name of
        None \<Rightarrow> None
      | Some (path, mime) \<Rightarrow>
        Some (path,
              if name = ''style.css'' \<or> name = ''epose-status.js''
              then ''public, max-age=31536000, immutable'' else ''public, max-age=86400'', mime))"

definition font_route :: "string \<Rightarrow> (string \<times> string \<times> string) option" where
  "font_route name =
     (if name \<in> set public_fonts
      then Some (''./templates/assets/fonts/'' @ name, ''public, max-age=86400'', ''font/woff2'')
      else None)"

section \<open>The overview\<close>

lemma overview_fees_exact:
  "overview_fees L txs f = Some r \<Longrightarrow> unat r = unat f + sum_list (map (\<lambda>tx. unat (get_tx_fee L tx)) txs)"
proof (induction txs arbitrary: f)
  case (Cons tx txs)
  then have "get_tx_fee L tx \<le> u64_max - f" and go: "overview_fees L txs (f + get_tx_fee L tx) = Some r"
    by (auto simp: Let_def not_less split: if_splits)
  with Cons.IH [OF go] u64_add_exact show ?case by simp
qed simp

definition overview_row_ok :: "page_lib \<Rightarrow> json \<Rightarrow> bool" where
  "overview_row_ok P row \<longleftrightarrow>
     (\<exists>txs fees. jget ''fees_qwc'' row = JStr (format_atomic_amount fees (pl_coin P) 8)
        \<and> unat fees = sum_list (map (\<lambda>tx. unat (get_tx_fee (pl_core P) tx)) txs)
        \<and> jget ''regular_tx_count'' row = JNum (int (length txs)))"

lemma overview_blocks_done:
  assumes "overview_blocks P w t hs rows = Inr (rows', t')" "\<forall>h \<in> set hs. h < 2 ^ 64"
  shows "map (jget ''height'') rows' = map (jget ''height'') rows @ map (\<lambda>h. JNum (int h)) hs
    \<and> (list_all (overview_row_ok P) rows \<longrightarrow> list_all (overview_row_ok P) rows') \<and> t \<le> t'"
  using assms
proof (induction hs arbitrary: t rows)
  case (Cons h hs)
  from Cons.prems(1) obtain blk txs fees where
    n: "length txs = length (tx_hashes blk)" and f: "overview_fees (pl_core P) txs 0 = Some fees"
    and go: "overview_blocks P w (t + 3) hs (rows @ [overview_row P (w (t + 2)) (of_nat h) blk fees]) = Inr (rows', t')"
    by (auto split: option.splits prod.splits if_splits)
  let ?row = "overview_row P (w (t + 2)) (of_nat h) blk fees"
  have "unat (of_nat h :: u64) = h"
    using Cons.prems(2) by (simp add: unsigned_of_nat take_bit_nat_eq_self)
  then have h: "jget ''height'' ?row = JNum (int h)" by (simp add: overview_row_def del: of_nat_unat)
  have "overview_row_ok P ?row"
    unfolding overview_row_ok_def using overview_fees_exact [OF f] n
    by (intro exI [of _ txs] exI [of _ fees]) (simp add: overview_row_def)
  with Cons.IH [OF go] Cons.prems(2) h show ?case by auto
qed simp

lemma is_success_jget: "is_success j \<Longrightarrow> jget ''status'' j = JStr ''success''"
  by (cases j) (auto simp: is_success_def jget_def split: option.splits json.splits)

lemma is_success_error_message [simp]: "\<not> is_success (error_message d msg)"
  by (simp add: is_success_def error_message_def)

lemma is_success_jsend [simp]: "is_success (jsend s d) \<longleftrightarrow> s = ''success''"
  by (simp add: is_success_def jsend_def)

lemma build_overview_success:
  assumes "build_overview P w t ms index nb now = (j, store)" "is_success j"
  obtains n tip rows t' net where "n = current_height (pv_chain (w (t + 2)))" "0 < n"
    "tip = block_id_by_height (pv_chain (w (t + 3))) (n - 1)"
    "overview_blocks P w (t + 4) (range_heights (make_descending_block_range n 0 (min (nb + 1) 25))) [] = Inr (rows, t')"
    "current_height (pv_chain (w t')) = n" "block_id_by_height (pv_chain (w (t' + 1))) (n - 1) = tip"
    "j = jsend ''success'' (overview_data P now net (jget ''data'' (json_emission index)) rows
       (get_mempool_snapshot ms 25) (mempool_refresh_time ms) n tip)"
proof -
  define n where "n = current_height (pv_chain (w (t + 2)))"
  define tip where "tip = block_id_by_height (pv_chain (w (t + 3))) (n - 1)"
  let ?b = "overview_blocks P w (t + 4) (range_heights (make_descending_block_range n 0 (min (nb + 1) 25))) []"
  note e = assms(1) [unfolded build_overview_def Let_def overview_error_def, folded n_def, folded tip_def]
  have "is_success (json_networkinfo P w t ms) \<and> is_success (json_emission index)" and n0: "n \<noteq> 0"
    using e assms(2) by (auto split: if_splits)
  then have c: "\<not> (\<not> is_success (json_networkinfo P w t ms) \<or> \<not> is_success (json_emission index))" by simp
  note e = e [unfolded if_not_P [OF c] if_not_P [OF n0]]
  from e assms(2) obtain rows t' where b: "?b = Inr (rows, t')" by (cases ?b) auto
  note e = e [unfolded b sum.case prod.case]
  have l: "\<not> (current_height (pv_chain (w t')) \<noteq> n \<or> block_id_by_height (pv_chain (w (t' + 1))) (n - 1) \<noteq> tip)"
    using e assms(2) by (auto split: if_splits)
  note e = e [unfolded if_not_P [OF l] prod.inject]
  show ?thesis
    by (rule that [OF n_def _ tip_def b _ _ e [THEN conjunct1, symmetric]]) (use n0 l in \<open>auto simp: word_gt_0\<close>)
qed


section \<open>Identity\<close>

lemma networkinfo_success:
  assumes "is_success (json_networkinfo P w t ms)"
  shows "ni_current (current_network_info ms)"
  using assms by (auto simp: json_networkinfo_def get_monero_network_info_def Let_def split: bool.splits)

lemma jat_jget: "is_object j \<Longrightarrow> jget k j \<noteq> JNull \<Longrightarrow> jat j k = Some (jget k j)"
  by (cases j) (auto simp: jget_def split: option.splits)

lemma jerase_get [simp]: "k \<noteq> k' \<Longrightarrow> jget k (jerase k' j) = jget k j"
proof (cases j)
  case (JObj kvs)
  assume "k \<noteq> k'"
  then have "map_of (filter (\<lambda>(k'', _). k'' \<noteq> k') kvs) k = map_of kvs k"
    by (induction kvs) auto
  with JObj show ?thesis by (simp add: jget_def)
qed simp_all

lemma is_object_jerase [simp]: "is_object j \<Longrightarrow> is_object (jerase k j)"
  by (cases j) simp_all

lemma networkinfo_passes:
  assumes "is_object info" "get_monero_network_info ms = (True, info)"
  shows "is_object (jget ''data'' (json_networkinfo P w t ms))"
    and "jget ''height'' (jget ''data'' (json_networkinfo P w t ms)) = jget ''height'' info"
    and "jget ''top_block_hash'' (jget ''data'' (json_networkinfo P w t ms)) = jget ''top_block_hash'' info"
    and "jget ''testnet'' (jget ''data'' (json_networkinfo P w t ms)) = jget ''testnet'' info"
    and "jget ''stagenet'' (jget ''data'' (json_networkinfo P w t ms)) = jget ''stagenet'' info"
    and "jget ''current_hf_version'' (jget ''data'' (json_networkinfo P w t ms)) = jget ''current_hf_version'' info"
    and "jget ''current'' (jget ''data'' (json_networkinfo P w t ms)) = jget ''current'' info"
  using assms unfolding json_networkinfo_def
  by (simp_all only: prod.case bool.case Let_def jget_jsend is_object_jset is_object_jerase) simp_all

lemma network_info_json:
  "is_object (snd (get_monero_network_info ms))"
  "jget ''height'' (snd (get_monero_network_info ms)) = JU64 (ni_height (current_network_info ms))"
  "jget ''top_block_hash'' (snd (get_monero_network_info ms)) = JStr (ni_top_block_hash (current_network_info ms))"
  "jget ''testnet'' (snd (get_monero_network_info ms)) = JBool (ni_nettype (current_network_info ms) = TESTNET)"
  "jget ''stagenet'' (snd (get_monero_network_info ms)) = JBool (ni_nettype (current_network_info ms) = STAGENET)"
  "jget ''current_hf_version'' (snd (get_monero_network_info ms)) = JU64 (ni_current_hf_version (current_network_info ms))"
  "jget ''current'' (snd (get_monero_network_info ms)) = JBool (ni_current (current_network_info ms))"
  by (simp_all add: get_monero_network_info_def Let_def)

lemma networkinfo_members:
  assumes "is_success (json_networkinfo P w t ms)"
  shows "is_object (jget ''data'' (json_networkinfo P w t ms))"
    and "jget ''height'' (jget ''data'' (json_networkinfo P w t ms)) = JU64 (ni_height (current_network_info ms))"
    and "jget ''top_block_hash'' (jget ''data'' (json_networkinfo P w t ms)) = JStr (ni_top_block_hash (current_network_info ms))"
    and "jget ''testnet'' (jget ''data'' (json_networkinfo P w t ms)) = JBool (ni_nettype (current_network_info ms) = TESTNET)"
    and "jget ''stagenet'' (jget ''data'' (json_networkinfo P w t ms)) = JBool (ni_nettype (current_network_info ms) = STAGENET)"
    and "jget ''current_hf_version'' (jget ''data'' (json_networkinfo P w t ms)) = JU64 (ni_current_hf_version (current_network_info ms))"
    and "jget ''current'' (jget ''data'' (json_networkinfo P w t ms)) = JBool (ni_current (current_network_info ms))"
proof -
  have "fst (get_monero_network_info ms)"
    using networkinfo_success [OF assms] by (simp add: get_monero_network_info_def Let_def)
  then have g: "get_monero_network_info ms = (True, snd (get_monero_network_info ms))"
    by (metis prod.collapse)
  note p = networkinfo_passes [OF network_info_json(1) g]
  show "is_object (jget ''data'' (json_networkinfo P w t ms))" by (rule p(1))
  show "jget ''height'' (jget ''data'' (json_networkinfo P w t ms)) = JU64 (ni_height (current_network_info ms))"
    unfolding p(2) by (rule network_info_json)
  show "jget ''top_block_hash'' (jget ''data'' (json_networkinfo P w t ms)) = JStr (ni_top_block_hash (current_network_info ms))"
    unfolding p(3) by (rule network_info_json)
  show "jget ''testnet'' (jget ''data'' (json_networkinfo P w t ms)) = JBool (ni_nettype (current_network_info ms) = TESTNET)"
    unfolding p(4) by (rule network_info_json)
  show "jget ''stagenet'' (jget ''data'' (json_networkinfo P w t ms)) = JBool (ni_nettype (current_network_info ms) = STAGENET)"
    unfolding p(5) by (rule network_info_json)
  show "jget ''current_hf_version'' (jget ''data'' (json_networkinfo P w t ms)) = JU64 (ni_current_hf_version (current_network_info ms))"
    unfolding p(6) by (rule network_info_json)
  show "jget ''current'' (jget ''data'' (json_networkinfo P w t ms)) = JBool (ni_current (current_network_info ms))"
    unfolding p(7) by (rule network_info_json)
qed

lemma value_of_member:
  assumes "is_object j"
  shows "jget k j = JBool b \<Longrightarrow> value_bool j k d = b" "jget k j = JU64 x \<Longrightarrow> value_u64 j k = x"
    "jget k j = JU64 x \<Longrightarrow> value_u32 j k = ucast x" "jget k j = JStr s \<Longrightarrow> value_string j k = s"
  using jat_jget [OF assms, of k]
  by (simp_all add: value_bool_def value_u64_def value_u32_def value_string_def)

lemma identity_success:
  assumes "json_identity P B hp w t t' ms now A1 A2 c = Some (j, c')" "is_success j"
  obtains snap where "json_epose_snapshot hp w (t + 3) now A1 A2 c = Some (snap, c')" "is_success snap"
    "is_success (json_networkinfo P w (t + 1) ms)"
    "j = jsend ''success'' (identity_data B (current_height (pv_chain (w t))) (block_id_by_height (pv_chain (w t')) 0)
       (block_id_by_height (pv_chain (w (t' + 1))) (current_height (pv_chain (w t)) - 1))
       (jget ''data'' (json_networkinfo P w (t + 1) ms)) (jget ''info'' (jget ''data'' snap)))"
proof -
  have sec: "is_success (json_epose_snapshot_section k snap) \<longleftrightarrow> is_success snap" for k snap
    by (simp add: json_epose_snapshot_section_def)
  from assms that show ?thesis
    by (auto simp: json_identity_def Let_def sec split: if_splits option.splits)
       (auto simp: json_epose_snapshot_section_def)
qed

text \<open>
  The explorer calls itself compatible only on the evidence: the genesis block of its database
  is the expected one, the daemon's network information is current, of the main network, at hard
  fork 17 (as a 32-bit number), and names the height and the tip hash of the database itself.
\<close>

lemma identity_compatible:
  assumes "json_identity P B hp w t t' ms now A1 A2 c = Some (j, c')" "is_success j"
    and "jget ''compatible'' (jget ''data'' j) = JBool True"
  shows "block_id_by_height (pv_chain (w t')) 0 = bi_expected_genesis B
    \<and> ni_current (current_network_info ms) \<and> ni_nettype (current_network_info ms) = MAINNET
    \<and> ni_height (current_network_info ms) = current_height (pv_chain (w t))
    \<and> ni_top_block_hash (current_network_info ms)
        = block_id_by_height (pv_chain (w (t' + 1))) (current_height (pv_chain (w t)) - 1)
    \<and> (ucast (ni_current_hf_version (current_network_info ms)) :: 32 word) = 17
    \<and> core_sha_recorded (bi_core_sha B)"
proof -
  from identity_success [OF assms(1,2)] obtain snap where
    net: "is_success (json_networkinfo P w (t + 1) ms)" and
    j: "j = jsend ''success'' (identity_data B (current_height (pv_chain (w t))) (block_id_by_height (pv_chain (w t')) 0)
       (block_id_by_height (pv_chain (w (t' + 1))) (current_height (pv_chain (w t)) - 1))
       (jget ''data'' (json_networkinfo P w (t + 1) ms)) (jget ''info'' (jget ''data'' snap)))" by metis
  note m = networkinfo_members [OF net]
  note v = value_of_member [OF m(1)]
  define ok where "ok = identity_checks_of B (current_height (pv_chain (w t))) (block_id_by_height (pv_chain (w t')) 0)
       (block_id_by_height (pv_chain (w (t' + 1))) (current_height (pv_chain (w t)) - 1))
       (jget ''data'' (json_networkinfo P w (t + 1) ms)) (jget ''info'' (jget ''data'' snap))"
  have "compatible ok"
    using assms(3) unfolding ok_def by (simp add: j identity_data_def Let_def)
  then have c: "ic_mainnet ok" "ic_anchor_matches ok" "ic_hf17 ok" "ic_genesis_matches ok" "ic_core_sha_recorded ok"
    by (simp_all add: compatible_def)
  have "ni_nettype (current_network_info ms) = MAINNET"
    using c(1) by (cases "ni_nettype (current_network_info ms)")
      (simp_all add: ok_def identity_checks_of_def v(1) [OF m(4)] v(1) [OF m(5)] del: One_nat_def)
  moreover have "ni_height (current_network_info ms) = current_height (pv_chain (w t))"
    "ni_top_block_hash (current_network_info ms)
       = block_id_by_height (pv_chain (w (t' + 1))) (current_height (pv_chain (w t)) - 1)"
    using c(2) by (simp_all add: ok_def identity_checks_of_def v(2) [OF m(2)] v(4) [OF m(3)] del: One_nat_def)
  moreover have "(ucast (ni_current_hf_version (current_network_info ms)) :: 32 word) = 17"
    using c(3) by (simp add: ok_def identity_checks_of_def v(3) [OF m(6)] del: One_nat_def)
  ultimately show ?thesis
    using c(4,5) networkinfo_success [OF net] by (simp add: ok_def identity_checks_of_def)
qed

section \<open>Readiness\<close>

lemma readyz_success:
  assumes "is_success (readyz ok_status probe identity supply)"
  obtains info where "probe = Inr info" "ri_status info = ok_status" "\<not> ri_testnet info" "\<not> ri_stagenet info"
    "ri_height info \<noteq> 0" "ri_target info \<noteq> 0" "is_success identity" "value_bool (jget ''data'' identity) ''compatible'' False"
    "is_success supply" "value_bool (jget ''data'' supply) ''complete'' False"
    "jget ''supply'' (jget ''data'' (readyz ok_status probe identity supply)) = jget ''data'' supply"
proof -
  have no: "\<not> is_success (JObj [(''status'', JStr ''error''), (''message'', JStr m)])" for m
    by (simp add: is_success_def)
  from assms no obtain info where p: "probe = Inr info" by (cases probe) (auto simp: readyz_def)
  have a: "\<not> (ri_status info \<noteq> ok_status \<or> ri_testnet info \<or> ri_stagenet info \<or> ri_height info = 0 \<or> ri_target info = 0)"
    using assms no by (auto simp: readyz_def p split: if_splits)
  have b: "\<not> (\<not> is_success identity \<or> \<not> value_bool (jget ''data'' identity) ''compatible'' False
      \<or> \<not> is_success supply \<or> \<not> value_bool (jget ''data'' supply) ''complete'' False)"
    using assms no a by (auto simp: readyz_def p split: if_splits)
  have "jget ''supply'' (jget ''data'' (readyz ok_status probe identity supply)) = jget ''data'' supply"
    unfolding readyz_def p sum.case if_not_P [OF a] if_not_P [OF b] by simp
  with that p a b show ?thesis by blast
qed

lemma value_bool_True: "value_bool j k False \<Longrightarrow> jget k j = JBool True"
  by (auto simp: value_bool_def jget_def split: option.splits json.splits)

lemma emission_members:
  "jget ''complete'' (emission_data s) = JBool (complete s)"
  "jget ''minted_supply_atomic'' (emission_data s) = JStr (minted_supply_atomic s)"
  "jget ''minted_supply_qwc'' (emission_data s) = JStr (format_atomic_decimal_string (minted_supply_atomic s) 8)"
  "jget ''block_count'' (emission_data s) = JU64 (ss_block_count s)"
  by (simp_all add: emission_data_def)


section \<open>Requests and options\<close>

lemma search_route_bounded:
  assumes "search_route req = Inr s"
  shows "length req \<le> 4096 \<and> length s \<le> 128 \<and> list_all good_char s"
proof -
  from assms obtain v where v: "length req \<le> 4096" "length v \<le> 128" "s = filter good_char v"
    by (auto simp: search_route_def remove_bad_chars_def not_less split: if_splits option.splits)
  have "length s \<le> length v" unfolding v(3) by (rule length_filter_le)
  then have "length s \<le> 128" using v(2) by linarith
  with v show ?thesis by (simp add: list_all_iff)
qed

lemma reset_id_clean:
  assumes "required_options_ok url path reset_id"
  obtains s where "reset_id = Some s" "clean_text s" "s \<noteq> []" "length s \<le> 128"
proof -
  have no: "\<not> reset_id_char (CHR 0x09)" "\<not> reset_id_char (CHR 0x0A)"
    by (simp_all add: reset_id_char_def ascii_letter_def is_digit_def)
  from assms obtain s where "reset_id = Some s" "s \<noteq> []" "length s \<le> 128" "list_all reset_id_char s"
    by (auto simp: required_options_ok_def valid_reset_id_def split: option.splits)
  with that no show ?thesis by (auto simp: clean_text_def list_all_iff)
qed

lemma routes_stay_in_templates:
  "asset_route name = Some (path, cache, mime) \<Longrightarrow> starts_with ''./templates/'' path"
  "font_route name = Some (path, cache, mime) \<Longrightarrow> starts_with ''./templates/assets/fonts/'' path"
  by (auto simp: asset_route_def public_assets_def font_route_def starts_with_def split: if_splits)

section \<open>An observer that is ready\<close>

definition ready_status :: mempool_status where
  "ready_status = (initial_status sample_network_info)
     \<lparr>current_network_info := sample_network_info\<lparr>ni_height := 1, ni_top_block_hash := replicate 64 CHR ''a'',
        ni_nettype := MAINNET, ni_current_hf_version := 17, ni_current := True\<rparr>\<rparr>"

definition sample_build :: build_info where
  "sample_build = \<lparr>bi_core_sha = replicate 40 CHR ''c'', bi_explorer_sha = [],
     bi_expected_genesis = replicate 64 CHR ''a'', bi_parameter_hash = []\<rparr>"

definition complete_index :: supply_index where
  "complete_index = sample_index\<lparr>snapshot := (snapshot sample_index)\<lparr>complete := True\<rparr>\<rparr>"

lemma ready_networkinfo: "is_success (json_networkinfo P w t ready_status)"
proof -
  have "fst (get_monero_network_info ready_status)"
    by (simp add: get_monero_network_info_def ready_status_def Let_def)
  then obtain info where "get_monero_network_info ready_status = (True, info)"
    by (cases "get_monero_network_info ready_status") simp
  then show ?thesis by (simp add: json_networkinfo_def Let_def)
qed

lemma emission_success: "is_success (json_emission (Some si))"
  by (simp add: json_emission_def)


definition probe_answer :: rpc_info where
  "probe_answer = \<lparr>ri_status = ''OK'', ri_height = 1, ri_target_height = 1, ri_difficulty = 1,
         ri_difficulty_top64 = 0, ri_wide_difficulty = 1, ri_target = 120, ri_tx_count = 0, ri_tx_pool_size = 0,
         ri_alt_blocks_count = 0, ri_outgoing = 0, ri_incoming = 0, ri_white_peerlist_size = 0, ri_testnet = False,
         ri_stagenet = False, ri_cumulative_difficulty = 1, ri_cumulative_difficulty_top64 = 0,
         ri_block_size_limit = 0, ri_block_size_median = 0, ri_block_weight_limit = 0, ri_start_time = 0,
         ri_top_block_hash = []\<rparr>"

lemma ready_identity:
  "\<exists>identity c'. json_identity sample_lib sample_build Some (\<lambda>_. sample_view) 0 50 ready_status 100
       sample_answers sample_answers blank_epose_cache = Some (identity, c')
     \<and> is_success identity \<and> value_bool (jget ''data'' identity) ''compatible'' False"
proof -
  let ?w = "\<lambda>_ :: nat. sample_view"
  obtain stamp ni rewards nodes c' where
    run: "json_epose_snapshot Some ?w 3 100 sample_answers sample_answers blank_epose_cache
       = Some (snapshot_json sample_anchor stamp sample_epoch ni rewards nodes, c')" using sample_snapshot_built by blast
  let ?snap = "snapshot_json sample_anchor stamp sample_epoch ni rewards nodes"
  have snap: "is_success ?snap" by (simp add: snapshot_json_def)
  define epose where "epose = jget ''info'' (jget ''data'' ?snap)"
  have ep: "is_object epose" "jget ''enabled'' epose = JBool True" "jget ''protocol_version'' epose = JU64 2"
    by (simp_all add: epose_def snapshot_json_def jupdate_def anchor_fields_def info_data_def sample_epoch_def)
  note ev = value_of_member [OF ep(1)]
  note m = networkinfo_members [OF ready_networkinfo, of sample_lib ?w 1]
  note v = value_of_member [OF m(1)]
  define net where "net = jget ''data'' (json_networkinfo sample_lib ?w 1 ready_status)"
  let ?a = "replicate 64 CHR ''a''"
  let ?id = "jsend ''success'' (identity_data sample_build 1 ?a ?a net epose)"
  have "compatible (identity_checks_of sample_build 1 ?a ?a net epose)"
    unfolding compatible_def identity_checks_of_def net_def ev(1) [OF ep(2)] ev(3) [OF ep(3)]
      v(1) [OF m(4)] v(1) [OF m(5)] v(1) [OF m(7)] v(2) [OF m(2)] v(3) [OF m(6)] v(4) [OF m(3)]
    by (simp add: ready_status_def sample_build_def core_sha_recorded_def is_hex_def list_all_iff)
  then have "value_bool (jget ''data'' ?id) ''compatible'' False"
    by (simp add: value_bool_def identity_data_def Let_def)
  moreover have "json_identity sample_lib sample_build Some ?w 0 50 ready_status 100 sample_answers sample_answers blank_epose_cache
      = Some (?id, c')"
    using run snap
    by (simp add: json_identity_def sample_view_simps ready_networkinfo json_epose_snapshot_section_def epose_def net_def Let_def)
  ultimately show ?thesis by auto
qed

lemma readyz_complete:
  assumes "is_success identity" "value_bool (jget ''data'' identity) ''compatible'' False" "complete (snapshot si)"
  shows "is_success (readyz ''OK'' (Inr probe_answer) identity (json_emission (Some si)))"
proof -
  have "value_bool (jget ''data'' (json_emission (Some si))) ''complete'' False"
    using assms(3) by (simp add: json_emission_def emission_data_def value_bool_def)
  with assms(1,2) show ?thesis by (simp add: readyz_def probe_answer_def emission_success)
qed


end
