(* ===== verification/Supply_Refinement.thy ===== *)
theory Supply_Refinement
  imports Supply_Progress
begin

text \<open>
  The supply index as an implementation of an abstract ledger. The specification knows only
  chains of block hashes: the indexed one, the stored one and the one whose amounts are shown.
  The index of \<open>Supply_Index\<close>, with its 128-bit running totals, its checkpoint file and its reading of
  a moving chain, simulates it step by step.
\<close>


section \<open>The specification\<close>

text \<open>
  What a block is, by its hash: its parent and its amounts. A hash names one block, so this is a
  function; \<open>world_agrees\<close> says that every database the index ever reads agrees with it.
\<close>

record block_facts =
  bf_parent :: hash
  bf_coinbase :: nat
  bf_fees :: nat

type_synonym block_universe = "hash \<Rightarrow> block_facts"

definition linked :: "block_universe \<Rightarrow> hash list \<Rightarrow> bool" where
  "linked U hs \<longleftrightarrow> list_all (\<lambda>i. bf_parent (U (hs ! i)) = hs ! (i - 1)) [1..<length hs]"

definition chain_minted :: "block_universe \<Rightarrow> hash list \<Rightarrow> nat" where
  "chain_minted U hs = sum_list (map (\<lambda>h. bf_coinbase (U h) - bf_fees (U h)) hs)"

text \<open>
  The ledger of a chain as its reader sees it: the chain indexed so far, the chain in the last
  checkpoint and the chain the published amounts stand for. A round commits a linked chain that
  keeps a part of the old one and adds at most a batch of blocks, or it fails and shows the old
  one; a restart returns to the checkpoint; a start that is refused shows nothing.
\<close>

record chain_ledger =
  cl_indexed :: "hash list"
  cl_stored :: "hash list option"
  cl_shown :: "hash list"

inductive chain_ledger_step :: "block_universe \<Rightarrow> nat \<Rightarrow> chain_ledger \<Rightarrow> chain_ledger \<Rightarrow> bool" for U batch where
  committed: "linked U (take k (cl_indexed s) @ new) \<Longrightarrow> length new \<le> batch \<Longrightarrow>
    hs = take k (cl_indexed s) @ new \<Longrightarrow>
    chain_ledger_step U batch s \<lparr>cl_indexed = hs, cl_stored = Some hs, cl_shown = hs\<rparr>"
| failed: "chain_ledger_step U batch s (s\<lparr>cl_shown := cl_indexed s\<rparr>)"
| restarted: "cl_stored s = Some hs \<Longrightarrow> chain_ledger_step U batch s (s\<lparr>cl_indexed := hs\<rparr>)"
| refused: "chain_ledger_step U batch s (s\<lparr>cl_shown := []\<rparr>)"

definition chain_ledger_ok :: "block_universe \<Rightarrow> chain_ledger \<Rightarrow> bool" where
  "chain_ledger_ok U s \<longleftrightarrow> linked U (cl_indexed s) \<and> linked U (cl_shown s)
     \<and> (case cl_stored s of None \<Rightarrow> True | Some hs \<Rightarrow> linked U hs)"

lemma linked_Nil [simp]: "linked U []"
  by (simp add: linked_def)

lemma chain_ledger_step_keeps:
  "chain_ledger_step U batch s s' \<Longrightarrow> chain_ledger_ok U s \<Longrightarrow> chain_ledger_ok U s'"
  by (induction rule: chain_ledger_step.induct) (auto simp: chain_ledger_ok_def)

interpretation chain_ledger_system: invariant_system "chain_ledger_step U batch" "chain_ledger_ok U" for U batch
  by unfold_locales (rule chain_ledger_step_keeps)

section \<open>Records of real blocks\<close>

definition world_agrees :: "core_lib \<Rightarrow> world \<Rightarrow> block_universe \<Rightarrow> bool" where
  "world_agrees L w U \<longleftrightarrow>
     (\<forall>t h blk. get_block_by_height (w t) h = Some blk \<longrightarrow>
        (let f = U (get_block_hash L blk) in
         clean_text (get_block_hash L blk) \<and> bf_parent f = prev_id blk
         \<and> bf_coinbase f = unat (get_outs_money_amount L (miner_tx blk))
         \<and> (\<forall>t' txs. get_transactions (w t') (tx_hashes blk) = (True, txs, []) \<longrightarrow>
              bf_fees f = sum_list (map (\<lambda>tx. unat (get_tx_fee L tx)) txs))))"

definition record_honest :: "block_universe \<Rightarrow> supply_record \<Rightarrow> bool" where
  "record_honest U r \<longleftrightarrow>
     unat (coinbase_atomic r) = bf_coinbase (U (sr_hash r)) \<and> unat (fees_atomic r) = bf_fees (U (sr_hash r))
     \<and> (sr_height r \<noteq> 0 \<longrightarrow> sr_parent_hash r = bf_parent (U (sr_hash r)))
     \<and> clean_text (sr_hash r) \<and> clean_text (sr_parent_hash r)"

definition honest :: "block_universe \<Rightarrow> supply_record list \<Rightarrow> bool" where
  "honest U rs \<longleftrightarrow> ledger_wf rs \<and> length rs < 2 ^ 64 \<and> list_all (record_honest U) rs"

lemma honest_Nil [simp]: "honest U []"
  by (simp add: honest_def)

lemma honest_take: "honest U rs \<Longrightarrow> honest U (take k rs)"
  by (auto simp: honest_def ledger_wf_take list_all_iff dest: in_set_takeD)

lemma sum_fees_exact:
  "sum_fees L txs f = Some g \<Longrightarrow> unat g = unat f + sum_list (map (\<lambda>tx. unat (get_tx_fee L tx)) txs)"
  by (induction L txs f rule: sum_fees.induct)
     (auto simp: Let_def not_less u64_add_exact split: if_splits)

lemma read_record_honest:
  assumes "world_agrees L w U" "read_record L w t h parent = Inr r" "clean_text parent"
  shows "record_honest U r" "sr_height r = h"
proof -
  from assms(2) obtain blk txs fees where
    blk: "get_block_by_height (w t) h = Some blk"
    and id: "sr_hash r = get_block_hash L blk" "sr_height r = h"
      "sr_parent_hash r = (if h = 0 then [] else parent)" "0 < h \<longrightarrow> prev_id blk = parent"
    and tx: "get_transactions (w (t + 3)) (tx_hashes blk) = (True, txs, [])"
    and fees: "sum_fees L txs 0 = Some fees" "fees_atomic r = fees"
      "coinbase_atomic r = get_outs_money_amount L (miner_tx blk)"
    by (auto simp: read_record_def Let_def split: option.splits if_splits prod.splits)
  have "bf_fees (U (get_block_hash L blk)) = unat fees"
    using assms(1) blk tx sum_fees_exact [OF fees(1)] by (simp add: world_agrees_def Let_def)
  then show "record_honest U r" "sr_height r = h"
    using assms(1,3) blk id fees by (auto simp: record_honest_def world_agrees_def Let_def word_gt_0)
qed

lemma record_honest_append:
  assumes "append_supply_record rs r = Some rs'" "record_honest U r" "list_all (record_honest U) rs"
    "sr_height r = size_u64 rs"
  shows "list_all (record_honest U) rs'"
  using assms(1)
proof (rule append_supply_record_SomeD)
  fix r'
  assume "rs' = rs @ [r']" "sr_height r' = size_u64 rs" "sr_hash r' = sr_hash r" "sr_parent_hash r' = sr_parent_hash r"
    "coinbase_atomic r' = coinbase_atomic r" "fees_atomic r' = fees_atomic r"
  then show ?thesis using assms(2-4) by (simp add: record_honest_def)
qed

lemma index_batch_honest:
  "world_agrees L w U \<Longrightarrow> index_batch L w target c t = Inr (c', t') \<Longrightarrow>
     list_all (record_honest U) c \<Longrightarrow> list_all (record_honest U) c'"
proof (induction L w target c t rule: index_batch.induct)
  case (1 L w target c t)
  show ?case
  proof (cases "length c < unat target")
    case False
    with "1.prems" show ?thesis by (auto simp: index_batch.simps [of L w target c t])
  next
    case True
    let ?parent = "if c = [] then [] else sr_hash (last c)"
    from True "1.prems"(2) obtain r c1 where
      r: "read_record L w t (size_u64 c) ?parent = Inr r" and c1: "append_supply_record c r = Some c1"
      and go: "index_batch L w target c1 (t + 4) = Inr (c', t')"
      by (auto simp: index_batch.simps [of L w target c t] Let_def split: sum.splits option.splits)
    have "clean_text ?parent"
      using "1.prems"(3) by (cases c rule: rev_cases) (simp_all add: record_honest_def)
    note rh = read_record_honest [OF "1.prems"(1) r this]
    have "list_all (record_honest U) c1" by (rule record_honest_append [OF c1 rh(1) "1.prems"(3) rh(2)])
    from "1.IH" [OF True refl r c1 "1.prems"(1) go this] show ?thesis .
  qed
qed

text \<open>Honest records are a linked chain, and their totals are the chain's.\<close>

lemma honest_linked:
  assumes "honest U rs"
  shows "linked U (map sr_hash rs)"
proof -
  have "bf_parent (U (sr_hash (rs ! i))) = sr_hash (rs ! (i - 1))" if i: "1 \<le> i" "i < length rs" for i
  proof -
    have "record_wf rs i" "record_honest U (rs ! i)" "i < 2 ^ 64"
      using assms i by (simp_all add: honest_def ledger_wf_iff list_all_length)
    moreover then have "(of_nat i :: u64) \<noteq> 0" using i(1) of_nat_u64 [of i] by (auto simp: word_unat_eq_iff)
    ultimately show ?thesis by (simp add: record_wf_def record_honest_def Let_def)
  qed
  then show ?thesis by (auto simp: linked_def list_all_iff)
qed

lemma honest_minted:
  assumes "honest U rs"
  shows "total_upto minted_atomic rs = chain_minted U (map sr_hash rs)"
    and "total_upto coinbase_atomic rs = sum_list (map (\<lambda>h. bf_coinbase (U h)) (map sr_hash rs))"
    and "total_upto fees_atomic rs = sum_list (map (\<lambda>h. bf_fees (U h)) (map sr_hash rs))"
proof -
  have r: "unat (minted_atomic r) = bf_coinbase (U (sr_hash r)) - bf_fees (U (sr_hash r))"
      "record_honest U r" if "r \<in> set rs" for r
  proof -
    from that obtain i where "i < length rs" "r = rs ! i" by (auto simp: in_set_conv_nth)
    then have "record_wf rs i" "record_honest U r" using assms by (simp_all add: honest_def ledger_wf_iff list_all_length)
    then show "unat (minted_atomic r) = bf_coinbase (U (sr_hash r)) - bf_fees (U (sr_hash r))" "record_honest U r"
      using \<open>r = rs ! i\<close> by (simp_all add: record_wf_def record_honest_def Let_def unat_sub_u64)
  qed
  show "total_upto minted_atomic rs = chain_minted U (map sr_hash rs)"
    unfolding total_upto_def chain_minted_def using r(1) by (simp add: comp_def cong: map_cong)
  show "total_upto coinbase_atomic rs = sum_list (map (\<lambda>h. bf_coinbase (U h)) (map sr_hash rs))"
    "total_upto fees_atomic rs = sum_list (map (\<lambda>h. bf_fees (U h)) (map sr_hash rs))"
    unfolding total_upto_def using r(2) by (simp_all add: comp_def record_honest_def cong: map_cong)
qed


section \<open>The simulation\<close>

definition disk_stores ::
    "(string \<Rightarrow> nat option) \<Rightarrow> block_universe \<Rightarrow> string \<Rightarrow> disk \<Rightarrow> hash list option \<Rightarrow> bool" where
  "disk_stores rd U f dsk stored \<longleftrightarrow>
     (case dsk f of
        None \<Rightarrow> True
      | Some text \<Rightarrow>
        (case load_lines rd [] (tl (lines_of text)) of
           None \<Rightarrow> True
         | Some rs \<Rightarrow> honest U rs \<and> stored = Some (map sr_hash rs)))"

definition shows_chain :: "block_universe \<Rightarrow> supply_snapshot \<Rightarrow> hash list \<Rightarrow> bool" where
  "shows_chain U s hs \<longleftrightarrow> (\<exists>rs. honest U rs \<and> snapshot_describes s rs \<and> map sr_hash rs = hs)"

definition index_refines ::
    "(string \<Rightarrow> nat option) \<Rightarrow> block_universe \<Rightarrow> nat \<Rightarrow> supply_index \<times> disk \<Rightarrow> chain_ledger \<Rightarrow> bool" where
  "index_refines rd U batch st s \<longleftrightarrow>
     (case st of (si, dsk) \<Rightarrow>
       honest U (records si) \<and> map sr_hash (records si) = cl_indexed s \<and> shows_chain U (snapshot si) (cl_shown s)
       \<and> disk_stores rd U (state_file si) dsk (cl_stored s) \<and> list_all clean_text (header_fields si)
       \<and> unat (batch_size si) \<le> batch)"

lemma shows_publish:
  assumes "honest U rs" "is_complete \<longrightarrow> n = size_u64 rs"
  shows "shows_chain U (snapshot (publish si now a m n tip rs is_complete)) (map sr_hash rs)"
  using assms publish_describes [of rs is_complete n] by (auto simp: shows_chain_def honest_def)

lemma disk_stores_cong:
  "dsk' f = dsk f \<Longrightarrow> disk_stores rd U f dsk' st = disk_stores rd U f dsk st"
  by (simp add: disk_stores_def)

lemma header_fields_cong:
  "network_name_of si' = network_name_of si \<Longrightarrow> genesis_hash si' = genesis_hash si
     \<Longrightarrow> chain_reset_id si' = chain_reset_id si \<Longrightarrow> header_fields si' = header_fields si"
  by (simp add: header_fields_def)

lemma disk_stores_checkpoint:
  assumes "\<forall>n. rd (nat_to_dec n) = Some n" "honest U rs" "list_all clean_text (header_fields si)"
    "dsk f = Some (checkpoint_text si rs)"
  shows "disk_stores rd U f dsk (Some (map sr_hash rs))"
proof -
  have clean: "\<forall>r \<in> set rs. clean_text (sr_hash r) \<and> clean_text (sr_parent_hash r)"
    using assms(2) by (simp add: honest_def list_all_iff record_honest_def)
  then have "\<forall>r \<in> set rs. list_all clean_text (record_fields r)" by (simp add: record_fields_def)
  note lines = checkpoint_lines [OF assms(3) this]
  have "load_lines rd [] (map (\<lambda>r. join CHR 0x09 (record_fields r)) rs) = Some rs"
    using load_lines_of_records [OF assms(1), of "[]" rs] assms(2) clean by (simp add: honest_def)
  with assms(2,4) show ?thesis by (simp add: disk_stores_def lines)
qed

lemma simulate_update:
  assumes rd: "\<forall>n. rd (nat_to_dec n) = Some n" and w: "world_agrees L w U"
    and ref: "index_refines rd U batch (si, dsk) s"
    and up: "update_once L w t now io (si, dsk) = (Inr u, si', dsk')"
  shows "\<exists>s'. steps (chain_ledger_step U batch) s s' \<and> index_refines rd U batch (si', dsk') s'"
  using up
proof (cases rule: update_once_cases)
  case (published c t1 c' t2)
  have hon: "honest U (records si)" and ix: "map sr_hash (records si) = cl_indexed s"
    and clean: "list_all clean_text (header_fields si)" and b: "unat (batch_size si) \<le> batch"
    using ref by (simp_all add: index_refines_def)
  obtain k where c: "c = take k (records si)"
    using ledger.roll_prefix [of "records si" "current_height (w t)" "chain_at w" "t + 3"] published(3) by auto
  have hc: "honest U c" unfolding c by (rule honest_take [OF hon])
  let ?target = "min (current_height (w t)) (size_u64 c + batch_size si)"
  have keep: "ledger_wf c'" "take (length c) c' = c" "length c' = max (length c) (unat ?target)"
    using index_batch_keeps [OF published(4)] hc by (simp_all add: honest_def)
  have "list_all (record_honest U) c'"
    using index_batch_honest [OF w published(4)] hc by (simp add: honest_def)
  then have hc': "honest U c'"
    using keep hc unat_u64_less [of ?target] by (simp add: honest_def)
  let ?hs = "map sr_hash c'"
  have "?hs = map sr_hash (take (length c) c' @ drop (length c) c')" by simp
  also have "\<dots> = take k (cl_indexed s) @ map sr_hash (drop (length c) c')"
    unfolding map_append keep(2) by (simp add: c ix [symmetric] take_map)
  finally have hs: "?hs = take k (cl_indexed s) @ map sr_hash (drop (length c) c')" .
  have "unat ?target \<le> unat (size_u64 c + batch_size si)" by (simp add: min_def word_le_nat_alt)
  also have "\<dots> \<le> unat (size_u64 c) + unat (batch_size si)" by (simp add: unat_word_ariths)
  also have "unat (size_u64 c) = length c" using hc by (intro size_u64_exact) (simp add: honest_def)
  finally have len: "length (map sr_hash (drop (length c) c')) \<le> batch" using keep(3) b by simp
  let ?s = "\<lparr>cl_indexed = ?hs, cl_stored = Some ?hs, cl_shown = ?hs\<rparr>"
  have "chain_ledger_step U batch s ?s"
    using honest_linked [OF hc'] len hs by (intro committed [where k = k]) simp_all
  moreover have "shows_chain U (snapshot si') ?hs"
    unfolding published(6) finish_update_def Let_def by (rule shows_publish [OF hc']) simp
  moreover have "state_file si' = state_file si" "header_fields si' = header_fields si" "batch_size si' = batch_size si"
    unfolding published(6) by (simp_all add: finish_update_def Let_def header_fields_def)
  ultimately show ?thesis
    using disk_stores_checkpoint [where f = "state_file si" and dsk = dsk', OF rd hc' clean published(7)] hc' clean b published(6)
    by (intro exI [of _ ?s]) (simp add: index_refines_def steps_single)
qed simp

lemma simulate_round:
  assumes "\<forall>n. rd (nat_to_dec n) = Some n" "world_agrees L w U" "index_refines rd U batch (si, dsk) s"
  shows "\<exists>s'. steps (chain_ledger_step U batch) s s' \<and> index_refines rd U batch (run_round L w t t' now io (si, dsk)) s'"
proof -
  obtain res si' dsk' where up: "update_once L w t now io (si, dsk) = (res, si', dsk')" by (metis prod_cases3)
  show ?thesis
  proof (cases res)
    case (Inr u)
    with simulate_update [OF assms, of t now io u] up show ?thesis by (simp add: run_round_def)
  next
    case (Inl e)
    with up have same: "si' = si" "dsk' (state_file si) = dsk (state_file si)"
      by (cases rule: update_once_cases; simp)+
    have hon: "honest U (records si)" using assms(3) by (simp add: index_refines_def)
    note shows_publish [OF hon, of False]
    then have "index_refines rd U batch (run_round L w t t' now io (si, dsk)) (s\<lparr>cl_shown := cl_indexed s\<rparr>)"
      using assms(3) up Inl same disk_stores_cong [where f = "state_file si" and dsk' = dsk' and dsk = dsk, OF same(2)]
      by (simp add: run_round_def index_refines_def Let_def header_fields_def)
    then show ?thesis by (blast intro: steps_single failed)
  qed
qed

lemma load_cases:
  "snd (load rd dsk si) = si
   \<or> (\<exists>content rs. snd (load rd dsk si) = si\<lparr>records := rs\<rparr> \<and> dsk (state_file si) = Some content
        \<and> load_lines rd [] (tl (lines_of content)) = Some rs)"
  by (auto simp: load_def split: option.splits list.splits)

lemma simulate_start:
  assumes "index_refines rd U batch (si, dsk) s"
  shows "\<exists>s'. steps (chain_ledger_step U batch) s s'
           \<and> index_refines rd U batch (snd (start rd dir_ok now dsk si), dsk) s'"
proof -
  note ref = assms [unfolded index_refines_def prod.case]
  consider (same) "snd (start rd dir_ok now dsk si) = si"
    | (refused) m where "snd (start rd dir_ok now dsk si) = publish (si\<lparr>running := False\<rparr>) now ''error'' m 0 [] [] False"
    | (loaded) "snd (start rd dir_ok now dsk si)
        = (snd (load rd dsk (si\<lparr>running := True\<rparr>)))\<lparr>stop_requested := False, thread_joinable := True\<rparr>"
    by (cases "running si"; cases "data_path si = [] \<or> chain_reset_id si = [] \<or> genesis_hash si = []"; cases dir_ok)
       (auto simp: start_def Let_def)
  then show ?thesis
  proof cases
    case same
    with assms show ?thesis by (auto intro: steps.stop)
  next
    case refused
    have "index_refines rd U batch (snd (start rd dir_ok now dsk si), dsk) (s\<lparr>cl_shown := []\<rparr>)"
      using ref shows_publish [OF honest_Nil, of False] by (simp add: refused index_refines_def header_fields_def)
    then show ?thesis by (blast intro: steps_single chain_ledger_step.refused)
  next
    case loaded
    let ?si = "si\<lparr>running := True\<rparr>"
    from load_cases [of rd dsk ?si] consider (kept) "snd (load rd dsk ?si) = ?si"
      | (read) content rs where "snd (load rd dsk ?si) = ?si\<lparr>records := rs\<rparr>" "dsk (state_file si) = Some content"
          "load_lines rd [] (tl (lines_of content)) = Some rs" by auto
    then show ?thesis
    proof cases
      case kept
      with ref loaded have "index_refines rd U batch (snd (start rd dir_ok now dsk si), dsk) s"
        by (simp add: index_refines_def header_fields_def)
      then show ?thesis by (auto intro: steps.stop)
    next
      case read
      then have rs: "honest U rs" "cl_stored s = Some (map sr_hash rs)"
        using ref by (simp_all add: disk_stores_def)
      then have "index_refines rd U batch (snd (start rd dir_ok now dsk si), dsk) (s\<lparr>cl_indexed := map sr_hash rs\<rparr>)"
        using ref loaded read by (simp add: index_refines_def header_fields_def)
      then show ?thesis using rs(2) by (blast intro: steps_single restarted)
    qed
  qed
qed

lemma simulate_index_step:
  assumes "\<forall>n. rd (nat_to_dec n) = Some n" "world_agrees L w U" "index_refines rd U batch st s" "index_step rd L w st st'"
  shows "\<exists>s'. steps (chain_ledger_step U batch) s s' \<and> index_refines rd U batch st' s'"
  using assms(4)
proof cases
  case (stop_step si dsk)
  then have "index_refines rd U batch st' s" using assms(3) by (simp add: index_refines_def stop_def header_fields_def)
  then show ?thesis by (auto intro: steps.stop)
qed (use assms simulate_start simulate_round in auto)


interpretation index_refinement: forward_simulation "index_step rd L w" "chain_ledger_step U batch"
  "\<lambda>st s. (\<forall>n. rd (nat_to_dec n) = Some n) \<and> world_agrees L w U \<and> index_refines rd U batch st s" for rd L w U batch
  by unfold_locales (use simulate_index_step in blast)

lemma shows_chain_amounts:
  assumes "shows_chain U s hs"
  shows "minted_supply_atomic s = nat_to_dec (chain_minted U hs)"
    "gross_coinbase_atomic s = nat_to_dec (sum_list (map (\<lambda>h. bf_coinbase (U h)) hs))"
    "cumulative_fees_atomic s = nat_to_dec (sum_list (map (\<lambda>h. bf_fees (U h)) hs))"
    "unat (indexed_block_count s) = length hs" "indexed_through_hash s = (if hs = [] then [] else last hs)"
    "linked U hs" "complete s \<Longrightarrow> unat (ss_block_count s) = length hs"
proof -
  from assms obtain rs where rs: "honest U rs" "snapshot_describes s rs" "map sr_hash rs = hs"
    by (auto simp: shows_chain_def)
  show "minted_supply_atomic s = nat_to_dec (chain_minted U hs)"
    "gross_coinbase_atomic s = nat_to_dec (sum_list (map (\<lambda>h. bf_coinbase (U h)) hs))"
    "cumulative_fees_atomic s = nat_to_dec (sum_list (map (\<lambda>h. bf_fees (U h)) hs))"
    using rs honest_minted [OF rs(1)] by (simp_all add: snapshot_describes_def)
  show "unat (indexed_block_count s) = length hs" "complete s \<Longrightarrow> unat (ss_block_count s) = length hs"
    using rs size_u64_exact [of rs] by (auto simp: snapshot_describes_def honest_def)
  show "indexed_through_hash s = (if hs = [] then [] else last hs)"
    using rs(2) rs(3) [symmetric] by (auto simp: snapshot_describes_def last_map)
  show "linked U hs" using honest_linked [OF rs(1)] rs(3) by simp
qed

definition initial_ledger :: "hash list option \<Rightarrow> chain_ledger" where
  "initial_ledger stored = \<lparr>cl_indexed = [], cl_stored = stored, cl_shown = []\<rparr>"

lemma index_run_refines:
  assumes "\<forall>n. rd (nat_to_dec n) = Some n" "world_agrees L w U"
    and "clean_text (genesis_hash si0)" "clean_text reset_id"
    and si0: "si0 = new_supply_index w0 t0 path reset_id nt b"
    and "disk_stores rd U (state_file si0) dsk stored"
    and "steps (index_step rd L w) (si0, dsk) (si, dsk')"
  shows "\<exists>s. steps (chain_ledger_step U (unat (batch_size si0))) (initial_ledger stored) s
    \<and> index_refines rd U (unat (batch_size si0)) (si, dsk') s"
proof -
  let ?b = "unat (batch_size si0)"
  have "shows_chain U (snapshot si0) []"
    using new_index_describes si0 unfolding shows_chain_def by (intro exI [of _ "[]"]) simp
  moreover have "records si0 = []" "list_all clean_text (header_fields si0)"
    using assms(3,4) by (simp_all add: si0 new_supply_index_def Let_def header_fields_def)
  ultimately have "index_refines rd U ?b (si0, dsk) (initial_ledger stored)"
    using assms(6) by (simp add: index_refines_def initial_ledger_def)
  with index_refinement.simulate_steps [OF assms(7)] assms(1,2) show ?thesis by blast
qed

lemma index_run_shows_chain:
  assumes "\<forall>n. rd (nat_to_dec n) = Some n" "world_agrees L w U"
    and "clean_text (genesis_hash si0)" "clean_text reset_id" "si0 = new_supply_index w0 t0 path reset_id nt b"
    and "disk_stores rd U (state_file si0) dsk stored" "steps (index_step rd L w) (si0, dsk) (si, dsk')"
  shows "\<exists>hs. shows_chain U (snapshot si) hs"
  using index_run_refines [OF assms] by (auto simp: index_refines_def)

text \<open>
  C1. The index refines the ledger of a chain. Whatever the chain, the clock and the disk do
  and however often the index is started and stopped, every run is a run of the specification:
  the records are those of its indexed chain, the checkpoint is that of its stored chain, and the
  published amounts are the exact sums over the blocks of a chain in which every block names the
  one before it as its parent. A hash names one block, in every database read, and \<open>rd\<close> reads
  decimal numbers.
\<close>

theorem supply_index_refines_chain_ledger:
  assumes "\<forall>n. rd (nat_to_dec n) = Some n" "world_agrees L w U"
    and "clean_text (genesis_hash si0)" "clean_text reset_id"
    and si0: "si0 = new_supply_index w0 t0 path reset_id nt b"
    and "disk_stores rd U (state_file si0) dsk stored"
    and "steps (index_step rd L w) (si0, dsk) (si, dsk')"
  shows "\<exists>s. steps (chain_ledger_step U (unat (batch_size si0))) (initial_ledger stored) s
    \<and> map sr_hash (records si) = cl_indexed s \<and> disk_stores rd U (state_file si) dsk' (cl_stored s)
    \<and> linked U (cl_shown s)
    \<and> minted_supply_atomic (snapshot si) = nat_to_dec (chain_minted U (cl_shown s))
    \<and> unat (indexed_block_count (snapshot si)) = length (cl_shown s)
    \<and> indexed_through_hash (snapshot si) = (if cl_shown s = [] then [] else last (cl_shown s))"
proof -
  from index_run_refines [OF assms] obtain s where
    s: "steps (chain_ledger_step U (unat (batch_size si0))) (initial_ledger stored) s"
      "index_refines rd U (unat (batch_size si0)) (si, dsk') s" by blast
  then have "shows_chain U (snapshot si) (cl_shown s)" by (simp add: index_refines_def)
  note amounts = shows_chain_amounts [OF this]
  show ?thesis using s amounts by (intro exI [of _ s]) (simp add: index_refines_def)
qed

definition sample_universe :: block_universe where
  "sample_universe h = (if h = ''g0'' then \<lparr>bf_parent = [], bf_coinbase = 10, bf_fees = 0\<rparr>
                        else \<lparr>bf_parent = ''g0'', bf_coinbase = 10, bf_fees = 3\<rparr>)"

lemma sample_world_agrees: "world_agrees sample_core (\<lambda>_. sample_chain 2) sample_universe"
  by (simp add: world_agrees_def get_block_by_height_def sample_chain_def sample_core_def sample_block_def
      sample_tx_def sample_universe_def clean_text_def Let_def split: if_splits)

definition first_index :: supply_index where
  "first_index = new_supply_index (\<lambda>_. sample_chain 2) 0 ''d'' ''r1'' MAINNET 64"

theorem supply_index_refines_chain_ledger_witness:
  "\<exists>hs. linked sample_universe hs \<and> minted_supply_atomic (snapshot (fst (run_round sample_core (\<lambda>_. sample_chain 2) 0 0 0
       (sample_io True) (first_index, Map.empty)))) = nat_to_dec (chain_minted sample_universe hs)"
proof -
  let ?w = "\<lambda>_ :: nat. sample_chain 2" and ?rd = "\<lambda>s. Some (dec_value s)"
  obtain si dsk' where run: "run_round sample_core ?w 0 0 0 (sample_io True) (first_index, Map.empty) = (si, dsk')"
    by fastforce
  have "index_step ?rd sample_core ?w (first_index, Map.empty) (si, dsk')"
    unfolding run [symmetric] by (rule round_step) (simp add: first_index_def new_supply_index_def Let_def)
  then have st: "steps (index_step ?rd sample_core ?w) (first_index, Map.empty) (si, dsk')" by (rule steps_single)
  have "\<forall>n. ?rd (nat_to_dec n) = Some n" by simp
  moreover have "clean_text (genesis_hash first_index)"
    by (simp add: first_index_def new_supply_index_def sample_chain_def clean_text_def Let_def)
  moreover have "clean_text ''r1''" by (simp add: clean_text_def)
  moreover have "disk_stores ?rd sample_universe (state_file first_index) Map.empty None" by (simp add: disk_stores_def)
  ultimately show ?thesis
    using supply_index_refines_chain_ledger [OF _ sample_world_agrees _ _ first_index_def _ st] run by auto
qed

end
