(* ===== verification/Page_Html.thy ===== *)
theory Page_Html
  imports Service "HOL-Library.Sublist"
begin

text \<open>
  HTML pages of \<open>src/page.h\<close>: the front page and the list of blocks (\<open>index2\<close>), the pool
  (\<open>mempool\<close>) and the page of a block (\<open>show_block\<close>). Where several database values of one block
  are read one after the other with nothing between them, one observation stands for them.
\<close>

section \<open>Pages and their contexts\<close>

text \<open>
  A page is either a plain text or a template with its context; the template engine \<open>st_render\<close>
  is third-party code. A context is a tree of maps, arrays and values, like a JSON document.
  \<open>print_money\<close> belongs to the core; \<open>kib4_text\<close> is a number of bytes in KiB with four decimals.
\<close>

datatype html = PlainText string | Rendered string json

record site =
  st_lib :: page_lib
  st_testnet :: bool
  st_stagenet :: bool
  st_testnet_url :: string
  st_stagenet_url :: string
  st_mainnet_url :: string
  st_enable_pusher :: bool
  st_enable_key_image_checker :: bool
  st_enable_output_key_checker :: bool
  st_enable_autorefresh_option :: bool
  st_enable_mixins_details :: bool
  st_enable_as_hex :: bool
  st_enable_randomx :: bool
  st_no_blocks_on_index :: u64
  st_no_mempool_of_frontpage :: u64
  st_asset_version :: string
  st_print_money :: "u64 \<Rightarrow> string"
  st_kib4_text :: "u64 \<Rightarrow> string"
  st_render :: "string \<Rightarrow> json \<Rightarrow> string"

definition html_text :: "site \<Rightarrow> html \<Rightarrow> string" where
  "html_text S h = (case h of PlainText s \<Rightarrow> s | Rendered template ctx \<Rightarrow> st_render S template ctx)"

definition add_page_assets :: "site \<Rightarrow> json \<Rightarrow> json" where
  "add_page_assets S ctx = jset ''asset_version'' (JStr (st_asset_version S)) ctx"

definition amount8 :: "site \<Rightarrow> u64 \<Rightarrow> string" where
  "amount8 S a = amount_qwc (st_lib S) a"

section \<open>The pool\<close>

definition mempool_age :: "u64 \<Rightarrow> u64 \<Rightarrow> string" where
  "mempool_age now received =
     (case timestamp_difference now received of
        (y, d, h, m, s) \<Rightarrow>
          let delta_hours = d * 24 + h
          in pad_dec (if 99 < delta_hours then 3 else 2) delta_hours @ '':'' @ pad_dec 2 m @ '':'' @ pad_dec 2 s)"

definition mempool_row :: "u64 \<Rightarrow> mempool_tx \<Rightarrow> json" where
  "mempool_row now m =
     JObj [(''timestamp_no'', JU64 (mt_receive_time m)), (''timestamp'', JStr (timestamp_str m)),
           (''age'', JStr (mempool_age now (mt_receive_time m))), (''hash'', JStr (mt_tx_hash m)),
           (''fee'', JStr (fee_str m)), (''xmr_inputs'', JStr (xmr_inputs_str m)),
           (''xmr_outputs'', JStr (xmr_outputs_str m)), (''no_inputs'', JU64 (no_inputs m)),
           (''no_outputs'', JU64 (no_outputs m)), (''no_nonrct_inputs'', JU64 (num_nonrct_inputs m)),
           (''mixin'', JU64 (mixin_no m)), (''txsize'', JStr (txsize m))]"

text \<open>\<open>page::mempool\<close>: the full page, or the part of it on the front page.\<close>

definition mempool :: "site \<Rightarrow> mempool_status \<Rightarrow> u64 \<Rightarrow> bool \<Rightarrow> u64 \<Rightarrow> html" where
  "mempool S ms now add_header_and_footer no_of_mempool_tx =
     (let snap = get_mempool_snapshot ms (if add_header_and_footer then u64_max else no_of_mempool_tx);
          txs = transactions snap;
          shown = (if add_header_and_footer then size_u64 txs else min no_of_mempool_tx (size_u64 txs));
          ctx = JObj [(''mempool_size'', JU64 (total_count snap)),
                      (''mempool_refresh_time'', JU64 (mempool_refresh_time ms)),
                      (''mempooltxs'', JArr (map (mempool_row now) (take (unat shown) txs))),
                      (''mempool_size_kB'', JStr (kib_text (pl_float (st_lib S)) (size_bytes snap)))]
      in if add_header_and_footer
         then Rendered ''mempool_full''
                (jset ''partial_mempool_shown'' (JBool False) (add_page_assets S ctx))
         else Rendered ''mempool''
                (jset ''partial_mempool_shown'' (JBool True)
                  (jset ''no_of_mempool_tx_of_frontpage'' (JU64 shown)
                    (jset ''mempool_fits_on_front_page'' (JBool (total_count snap \<le> size_u64 txs)) ctx))))"

section \<open>The front page and the list of blocks\<close>

text \<open>
  The snapshot a page refers to: the one the link names, when the chain still has it, or the live
  one. \<open>None\<close> is the answer that the chain has changed.
\<close>

definition index_anchor ::
    "page_world \<Rightarrow> nat \<Rightarrow> u64 \<Rightarrow> u64 \<Rightarrow> hash \<Rightarrow> (u64 \<times> hash) option" where
  "index_anchor w t height snapshot_block_count snapshot_tip_hash =
     (if 0 < snapshot_block_count
      then if height < snapshot_block_count \<or> length snapshot_tip_hash \<noteq> 64
              \<or> block_id_by_height (pv_chain (w t)) (snapshot_block_count - 1) \<noteq> snapshot_tip_hash
           then None else Some (snapshot_block_count, snapshot_tip_hash)
      else Some (height, if 0 < height then block_id_by_height (pv_chain (w t)) (height - 1) else []))"

definition blocks_per_page :: "site \<Rightarrow> bool \<Rightarrow> u64 \<Rightarrow> u64" where
  "blocks_per_page S show_blocks snapshot_block_count =
     (if show_blocks then min (st_no_blocks_on_index S + 1) snapshot_block_count else 0)"

definition total_pages :: "u64 \<Rightarrow> u64 \<Rightarrow> u64" where
  "total_pages snapshot_block_count per_page =
     (if 0 < snapshot_block_count \<and> 0 < per_page then (snapshot_block_count - 1) div per_page + 1 else 0)"

definition index_range :: "bool \<Rightarrow> u64 \<Rightarrow> u64 \<Rightarrow> u64 \<Rightarrow> u64 \<Rightarrow> descending_block_range" where
  "index_range show_blocks height snapshot_block_count per_page page_no =
     (if show_blocks
      then make_descending_block_range snapshot_block_count
             (if page_no \<le> u64_max div max 1 per_page then page_no * per_page else height) per_page
      else empty_range)"

text \<open>The fees of a listed block; \<open>None\<close> when their sum overflows. The time after the loop comes last.\<close>

fun index_fees ::
    "page_lib \<Rightarrow> page_world \<Rightarrow> nat \<Rightarrow> u64 \<Rightarrow> u64 \<Rightarrow> transaction list \<Rightarrow> u64 \<Rightarrow> db_exn + u64 option \<times> nat" where
  "index_fees P w t i height [] fees = Inr (Some fees, t)"
| "index_fees P w t i height (tx # txs) fees =
     (case get_tx_details P (w t) tx False i height of
        Inl e \<Rightarrow> Inl e
      | Inr txd \<Rightarrow>
        if u64_max - td_fee txd < fees then Inr (None, t + 1)
        else index_fees P w (t + 1) i height txs (fees + td_fee txd))"

definition index_row ::
    "site \<Rightarrow> page_view \<Rightarrow> u64 \<Rightarrow> u64 \<Rightarrow> block \<Rightarrow> u64 option \<Rightarrow> tx_details \<Rightarrow> json" where
  "index_row S v now h blk fees coinbase =
     (let known = 0 < blk_timestamp blk in
      JObj [(''height'', JU64 h), (''hash'', JStr (block_id_by_height (pv_chain v) h)),
            (''age'', JStr (if known then fst (get_age now (blk_timestamp blk) False) else ''unavailable'')),
            (''timestamp'', JStr (if known then timestamp_to_str_gm (blk_timestamp blk) else ''unavailable'')),
            (''timestamp_available'', JBool known),
            (''weight_kb'', JStr (kib_text (pl_float (st_lib S)) (block_weight v h))),
            (''difficulty'', JStr (nat_to_dec (unat (block_difficulty v h)))),
            (''regular_tx_count'', JNum (int (length (tx_hashes blk)))),
            (''total_tx_count'', JNum (int (length (tx_hashes blk) + 1))),
            (''fees_available'', JBool (fees \<noteq> None)),
            (''fees'', JStr (case fees of None \<Rightarrow> ''unavailable'' | Some f \<Rightarrow> amount8 S f)),
            (''coinbase_total'', JStr (amount8 S (td_xmr_outputs coinbase)))])"

text \<open>
  The loop over the blocks of a page: a block that cannot be read is left out. The result has the
  rows, the age format of the last block and the time after the loop.
\<close>

fun index_blocks ::
    "site \<Rightarrow> page_world \<Rightarrow> nat \<Rightarrow> u64 \<Rightarrow> u64 \<Rightarrow> int list \<Rightarrow> json list \<Rightarrow> string \<Rightarrow>
       db_exn + json list \<times> string \<times> nat" where
  "index_blocks S w t now height [] rows fmt = Inr (rows, fmt, t)"
| "index_blocks S w t now height (i # is) rows fmt =
     (case get_block_by_height (pv_chain (w t)) (word_of_int i) of
        None \<Rightarrow> index_blocks S w (t + 1) now height is rows fmt
      | Some blk \<Rightarrow>
        let v = w (t + 1); fmt' = snd (get_age now (blk_timestamp blk) False) in
        case get_transactions (pv_chain (w (t + 2))) (tx_hashes blk) of
          (ok, txs, missed) \<Rightarrow>
            if \<not> ok then index_blocks S w (t + 3) now height is rows fmt'
            else case index_fees (st_lib S) w (t + 3) (word_of_int i) height txs 0 of
                   Inl e \<Rightarrow> Inl e
                 | Inr (fees, t1) \<Rightarrow>
                   (case get_tx_details (st_lib S) (w t1) (miner_tx blk) False (word_of_int i) height of
                      Inl e \<Rightarrow> Inl e
                    | Inr coinbase \<Rightarrow>
                      index_blocks S w (t1 + 1) now height is
                        (rows @ [index_row S v now (word_of_int i) blk (if missed = [] then fees else None) coinbase])
                        fmt'))"

definition supply_context :: "supply_index option \<Rightarrow> (string \<times> json) list" where
  "supply_context index =
     (let s = (case index of None \<Rightarrow> default_snapshot | Some si \<Rightarrow> snapshot si) in
      [(''supply_complete'', JBool (complete s)), (''supply_availability'', JStr (availability s)),
       (''supply_mined'',
          JStr (if complete s then format_atomic_decimal_string (minted_supply_atomic s) 8
                else ''Indexing '' @ u64_to_string (indexed_block_count s) @ ''/''
                     @ u64_to_string (ss_block_count s) @ '' blocks'')),
       (''supply_observed_at'',
          JStr (if 0 < observed_at s then timestamp_to_str_gm (observed_at s) else ''unavailable''))])"

definition network_context ::
    "site \<Rightarrow> network_info \<Rightarrow> u64 \<Rightarrow> bool \<Rightarrow> u64 option \<Rightarrow> json" where
  "network_context S n now chain_anchor_consistent last_block_time =
     (let age = get_age now (ni_info_timestamp n) False;
          difficulty = make_difficulty (ni_difficulty n) (ni_difficulty_top64 n)
      in JObj [(''network_name'', JStr (network_name (ni_nettype n))),
           (''difficulty'', JStr (nat_to_dec (unat difficulty))),
           (''cumulative_difficulty'',
              JStr (nat_to_dec (unat (make_difficulty (ni_cumulative_difficulty n) (ni_cumulative_difficulty_top64 n))))),
           (''hash_rate'', JStr (format_hashrate_si difficulty (ni_target n))),
           (''target'', JU64 (ni_target n)), (''fee_per_kb'', JStr (st_print_money S (ni_fee_per_kb n))),
           (''alt_blocks_no'', JU64 (ni_alt_blocks_count n)),
           (''have_alt_block'', JBool (0 < ni_alt_blocks_count n)),
           (''tx_count'', JU64 (ni_tx_count n)), (''tx_pool_size'', JU64 (ni_tx_pool_size n)),
           (''incoming_connections'', JU64 (ni_incoming n)), (''outgoing_connections'', JU64 (ni_outgoing n)),
           (''total_connections'', JU64 (ni_incoming n + ni_outgoing n)),
           (''white_peerlist_size'', JU64 (ni_white_peerlist_size n)),
           (''grey_peerlist_size'', JU64 (ni_grey_peerlist_size n)),
           (''top_block_hash'', JStr (ni_top_block_hash n)),
           (''block_size_limit'', JStr (ni_block_size_limit_str n)),
           (''block_size_median'', JStr (ni_block_size_median_str n)),
           (''is_current_info'', JBool (ni_current n \<and> chain_anchor_consistent)),
           (''chain_anchor_consistent'', JBool chain_anchor_consistent),
           (''is_pool_size_zero'', JBool (ni_tx_pool_size n = 0)),
           (''current_hf_version'', JU64 (ni_current_hf_version n)),
           (''last_block_time_available'', JBool (last_block_time \<noteq> None)),
           (''last_block_time'', JStr (case last_block_time of None \<Rightarrow> ''unavailable'' | Some ts \<Rightarrow> timestamp_to_str_gm ts)),
           (''age'', JStr (fst age)), (''age_format'', JStr (snd age))])"

text \<open>The members of the context that do not depend on the loop.\<close>

definition index_context ::
    "site \<Rightarrow> string \<Rightarrow> u64 \<Rightarrow> bool \<Rightarrow> u64 \<Rightarrow> u64 \<Rightarrow> u64 \<Rightarrow> hash \<Rightarrow> u64 \<Rightarrow> descending_block_range \<Rightarrow> (string \<times> json) list" where
  "index_context S view now refresh_page height page_no snapshot_block_count snapshot_tip_hash pages window =
     (let show_blocks = (view = ''overview'' \<or> view = ''blocks'');
          last_page = (if 0 < pages then pages - 1 else 0);
          url = (if view = ''blocks'' then ''/blocks/'' else ''/page/'');
          query = ''?block_count='' @ u64_to_string snapshot_block_count @ ''&tip_hash='' @ snapshot_tip_hash;
          prev = (if 0 < page_no then page_no - 1 else 0)
      in [(''testnet'', JBool (st_testnet S)), (''stagenet'', JBool (st_stagenet S)),
          (''testnet_url'', JStr (st_testnet_url S)), (''stagenet_url'', JStr (st_stagenet_url S)),
          (''mainnet_url'', JStr (st_mainnet_url S)), (''refresh'', JBool refresh_page),
          (''height'', JU64 height), (''block_count'', JU64 height),
          (''tip_height'', JU64 (if 0 < height then height - 1 else 0)),
          (''server_timestamp'', JStr (timestamp_to_str_gm now)),
          (''page_no'', JU64 page_no), (''page_display'', JU64 (page_no + 1)),
          (''total_page_no'', JU64 last_page), (''total_pages'', JU64 pages),
          (''is_page_zero'', JBool (page_no = 0)), (''is_last_page'', JBool (last_page \<le> page_no)),
          (''no_of_last_blocks'', JU64 (returned_count window)),
          (''next_page'', JU64 (page_no + 1)), (''prev_page'', JU64 prev),
          (''first_page_url'', JStr (if view = ''blocks'' then ''/blocks'' else ''/'')),
          (''next_page_url'', JStr (url @ u64_to_string (page_no + 1) @ query)),
          (''prev_page_url'', JStr (url @ u64_to_string prev @ query)),
          (''enable_pusher'', JBool (st_enable_pusher S)),
          (''enable_key_image_checker'', JBool (st_enable_key_image_checker S)),
          (''enable_output_key_checker'', JBool (st_enable_output_key_checker S)),
          (''enable_autorefresh_option'', JBool (st_enable_autorefresh_option S)),
          (''show_network'', JBool (view = ''overview'' \<or> view = ''network'')),
          (''show_blocks'', JBool show_blocks),
          (''show_epose'', JBool (view = ''overview'' \<or> view = ''service-nodes'' \<or> view = ''epochs'')),
          (''show_mempool'', JBool (view = ''overview'')),
          (''show_epoch_details'', JBool (view = ''epochs'')),
          (''is_blocks_page'', JBool (view = ''blocks'')),
          (''is_service_nodes_page'', JBool (view = ''service-nodes'')),
          (''is_epochs_page'', JBool (view = ''epochs''))])"

text \<open>
  \<open>page::index2\<close>. The observations: the height, the anchor, the loop, the height and the anchor
  again, the height and the tip after rendering, the block of the tip.
\<close>

definition index2 ::
    "site \<Rightarrow> page_world \<Rightarrow> nat \<Rightarrow> mempool_status \<Rightarrow> supply_index option \<Rightarrow> u64 \<Rightarrow> u64 \<Rightarrow> bool \<Rightarrow> string \<Rightarrow>
       u64 \<Rightarrow> hash \<Rightarrow> db_exn + html" where
  "index2 S w t ms index now page_no refresh_page view named_count named_tip =
     (let show_blocks = (view = ''overview'' \<or> view = ''blocks'');
          height = current_height (pv_chain (w t))
      in case index_anchor w (t + 1) height named_count named_tip of
           None \<Rightarrow> Inr (PlainText
             ''Block-page snapshot was invalidated by a chain change. Return to /blocks to restart pagination.'')
         | Some (cnt, tip) \<Rightarrow>
           let per_page = blocks_per_page S show_blocks cnt;
               range = index_range show_blocks height cnt per_page page_no
           in case index_blocks S w (t + 2) now height (page_heights range) [] ''[h:m:d]'' of
                Inl e \<Rightarrow> Inl e
              | Inr (rows, fmt, t1) \<Rightarrow>
                if 0 < cnt \<and> (current_height (pv_chain (w t1)) < cnt
                               \<or> block_id_by_height (pv_chain (w (t1 + 1))) (cnt - 1) \<noteq> tip)
                then Inr (PlainText
                  ''Block-page snapshot changed while it was rendered. Return to /blocks to restart pagination.'')
                else
                  let n = current_network_info ms;
                      height_after_render = current_height (pv_chain (w (t1 + 2)));
                      db_tip_hash = (if 0 < height_after_render
                        then block_id_by_height (pv_chain (w (t1 + 3))) (height_after_render - 1) else null_hash);
                      consistent = (0 < height \<and> height = height_after_render
                        \<and> ni_height n = height_after_render \<and> ni_top_block_hash n = db_tip_hash);
                      last_time = (if 0 < height
                        then case get_block_by_height (pv_chain (w (t1 + 4))) (height - 1) of
                               None \<Rightarrow> None
                             | Some b \<Rightarrow> if 0 < blk_timestamp b then Some (blk_timestamp b) else None
                        else None);
                      mempool_html = (if view = ''overview''
                        then html_text S (mempool S ms now False (st_no_mempool_of_frontpage S)) else [])
                  in Inr (Rendered ''index2'' (add_page_assets S (JObj
                       (index_context S view now refresh_page height page_no cnt tip (total_pages cnt per_page) range
                        @ [(''age_format'', JStr fmt)] @ supply_context index
                        @ [(''blocks'', JArr rows), (''network_info'', network_context S n now consistent last_time),
                           (''blk_size_median'', JStr (ni_block_size_median_str n)),
                           (''mempool_info'', JStr mempool_html)])))))"

section \<open>One block\<close>

text \<open>
  \<open>tx_details::get_mstch_map\<close>: \<open>blk_height\<close> is shown also where \<open>get_tx_details\<close> left it
  uninitialised (\<open>uninit\<close> is what the memory held); \<open>prefix_hash\<close> is never assigned.
\<close>

definition get_mstch_map :: "site \<Rightarrow> u64 \<Rightarrow> hash \<Rightarrow> tx_details \<Rightarrow> json" where
  "get_mstch_map S uninit uninit_hash txd =
     (let F = pl_float (st_lib S); has_inputs = td_input_key_imgs txd \<noteq> [];
          fee = (if has_inputs then amount8 S (td_fee txd) else ''N/A'');
          amount = (\<lambda>a. JStr (if td_confidential_amounts txd then ''confidential''
                    else xmr_amount_to_str (pl_coin (st_lib S)) (pl_decimals (st_lib S)) a True))
      in JObj [(''hash'', JStr (td_hash txd)), (''prefix_hash'', JStr uninit_hash), (''pub_key'', JStr (td_pk txd)),
          (''tx_fee'', JStr fee), (''tx_fee_short'', JStr fee), (''fee_micro'', JStr fee),
          (''payed_for_kB'', JStr (if has_inputs then fee_rate_text F (td_fee txd) (td_size txd) else [])),
          (''payed_for_kB_micro'', JStr (if has_inputs then fee_rate_micro_text F (td_fee txd) (td_size txd) else [])),
          (''sum_inputs'', amount (td_xmr_inputs txd)), (''sum_outputs'', amount (td_xmr_outputs txd)),
          (''sum_inputs_short'', amount (td_xmr_inputs txd)), (''sum_outputs_short'', amount (td_xmr_outputs txd)),
          (''amount_availability'', JStr (if td_confidential_amounts txd then ''confidential'' else ''public'')),
          (''no_inputs'', JNum (int (length (td_input_key_imgs txd)))),
          (''no_outputs'', JNum (int (length (td_output_pub_keys txd)))),
          (''no_nonrct_inputs'', JU64 (td_num_nonrct_inputs txd)),
          (''mixin'', JStr (if has_inputs then u64_to_string (td_mixin_no txd) else ''N/A'')),
          (''blk_height'', JU64 (case td_blk_height txd of None \<Rightarrow> uninit | Some h \<Rightarrow> h)),
          (''version'', JU64 (td_version txd)), (''has_payment_id'', JBool (td_payment_id txd \<noteq> null_hash)),
          (''has_payment_id8'', JBool (td_payment_id8 txd \<noteq> null_hash8)),
          (''payment_id'', JStr (td_payment_id txd)), (''confirmations'', JU64 (td_no_confirmations txd)),
          (''extra'', JStr (buff_to_hex (st_lib S) (td_extra txd))), (''payment_id8'', JStr (td_payment_id8 txd)),
          (''unlock_time'', JU64 (td_unlock_time txd)), (''tx_size'', JStr (st_kib4_text S (td_size txd))),
          (''tx_size_short'', JStr (kib_text F (td_size txd))),
          (''has_add_pks'', JBool (td_additional_pks txd \<noteq> []))])"

text \<open>
  The loop over the transactions of a block: a transaction that cannot be read is left out and
  makes the fees unavailable, as does an overflow of their sum.
\<close>

fun block_page_txs ::
    "site \<Rightarrow> u64 \<Rightarrow> hash \<Rightarrow> page_world \<Rightarrow> nat \<Rightarrow> u64 \<Rightarrow> u64 \<Rightarrow> hash list \<Rightarrow> json list \<Rightarrow> u64 \<Rightarrow> bool \<Rightarrow>
       db_exn + json list \<times> u64 \<times> bool" where
  "block_page_txs S uninit uninit_hash w t h current [] rows fee_sum avail = Inr (rows, fee_sum, avail)"
| "block_page_txs S uninit uninit_hash w t h current (txh # txhs) rows fee_sum avail =
     (case micro_get_tx (pv_chain (w t)) txh of
        Inl e \<Rightarrow> Inl e
      | Inr None \<Rightarrow> block_page_txs S uninit uninit_hash w (t + 2) h current txhs rows fee_sum False
      | Inr (Some tx) \<Rightarrow>
        (case get_tx_details (st_lib S) (w (t + 1)) tx False h current of
           Inl e \<Rightarrow> Inl e
         | Inr txd \<Rightarrow>
           let fits = \<not> u64_max - td_fee txd < fee_sum in
           block_page_txs S uninit uninit_hash w (t + 2) h current txhs
             (rows @ [get_mstch_map S uninit uninit_hash txd])
             (if fits then fee_sum + td_fee txd else fee_sum) (avail \<and> fits)))"

definition reward_context :: "site \<Rightarrow> epose_reward_view option \<Rightarrow> (string \<times> json) list" where
  "reward_context S view =
     (case view of
        None \<Rightarrow> []
      | Some v \<Rightarrow>
        let coins = (\<lambda>a. JStr (format_atomic_amount a (pl_coin (st_lib S)) 8)) in
        [(''miner_reward'', coins (miner_reward v)), (''service_reward'', coins (service_reward v)),
         (''epose_service_reward_active'', JBool (service_reward_active v)),
         (''epose_service_reward_inactive'', JBool (\<not> service_reward_active v)),
         (''epose_payout_epoch'', JU64 (payout_epoch v)), (''epose_source_epoch'', JU64 (source_epoch v)),
         (''epose_source_qualified_count'', JU64 (qualified_count v)),
         (''epose_qualification_hash'', JStr (qualification_hash v)),
         (''epose_payee_service_public_key'', JStr (payee_service_public_key v)),
         (''epose_service_outputs'',
            JArr (map (\<lambda>out. JObj [(''index'', JU64 (ro_index out)), (''amount'', coins (ro_amount out)),
                                    (''public_key'', JStr (ro_public_key out))]) (service_outputs v)))])"

definition block_amounts :: "site \<Rightarrow> u64 \<Rightarrow> u64 \<Rightarrow> bool \<Rightarrow> (string \<times> json) list" where
  "block_amounts S coinbase fee_sum fees_available =
     [(''sum_fees'', JStr (if fees_available then amount8 S fee_sum else ''unavailable'')),
      (''coinbase_total'', JStr (amount8 S coinbase)),
      (''subsidy'', JStr (if fees_available \<and> fee_sum \<le> coinbase then amount8 S (coinbase - fee_sum)
                          else ''unavailable''))]"

definition block_context ::
    "site \<Rightarrow> page_world \<Rightarrow> nat \<Rightarrow> u64 \<Rightarrow> u64 \<Rightarrow> u64 \<Rightarrow> block \<Rightarrow> hash \<Rightarrow> hash \<Rightarrow> string \<Rightarrow> bool \<Rightarrow> (string \<times> json) list" where
  "block_context S w t now current h blk blk_hash next_hash delta_time mapping =
     (let age = get_age now (blk_timestamp blk) False; known = 0 < blk_timestamp blk in
      [(''testnet'', JBool (st_testnet S)), (''stagenet'', JBool (st_stagenet S)),
       (''blk_hash'', JStr blk_hash), (''blk_height'', JU64 h),
       (''canonical_status'', JStr ''canonical in this observer's chain''),
       (''confirmations'', JU64 (if h < current then current - h else 0)),
       (''blk_timestamp'', JStr (if known then timestamp_to_str_gm (blk_timestamp blk) else ''unavailable'')),
       (''blk_timestamp_epoch'', JStr (if known then u64_to_string (blk_timestamp blk) else ''unavailable'')),
       (''prev_hash'', JStr (prev_id blk)), (''next_hash'', JStr next_hash),
       (''enable_as_hex'', JBool (st_enable_as_hex S)),
       (''have_next_hash'', JBool (next_hash \<noteq> null_hash)), (''have_prev_hash'', JBool (prev_id blk \<noteq> null_hash)),
       (''have_txs'', JBool (tx_hashes blk \<noteq> [])), (''no_txs'', JStr (nat_to_dec (length (tx_hashes blk)))),
       (''total_txs'', JNum (int (length (tx_hashes blk) + 1))),
       (''blk_age'', JStr (if known then fst age else ''unavailable'')), (''delta_time'', JStr delta_time),
       (''blk_nonce'', JNum (int (unat (blk_nonce blk)))),
       (''is_randomx'', JBool (12 \<le> major_version blk \<and> st_enable_randomx S)),
       (''blk_difficulty'', JStr (nat_to_dec (unat (block_difficulty (w t) h)))),
       (''age_format'', JStr (snd age)),
       (''major_ver'', JStr (nat_to_dec (unat (major_version blk)))),
       (''minor_ver'', JStr (nat_to_dec (unat (minor_version blk)))),
       (''blk_size'', JStr (st_kib4_text S (block_weight (w t) h))),
       (''epose_reward_mapping_available'', JBool mapping),
       (''epose_reward_mapping_unavailable'', JBool (\<not> mapping))])"

text \<open>\<open>page::show_block\<close> by height; \<open>reward_of\<close> is the daemon's answer for a block hash.\<close>

definition show_block ::
    "site \<Rightarrow> u64 \<Rightarrow> hash \<Rightarrow> page_world \<Rightarrow> nat \<Rightarrow> (hash \<Rightarrow> epose_reward_response option) \<Rightarrow> u64 \<Rightarrow> u64 \<Rightarrow> db_exn + html" where
  "show_block S uninit uninit_hash w t reward_of now h =
     (let current = current_height (pv_chain (w t)) in
      if current \<le> h
      then Inr (PlainText (''Cant get block '' @ u64_to_string h @ '' since its higher than current blockchain height!''))
      else case get_block_by_height (pv_chain (w (t + 1))) h of
             None \<Rightarrow> Inr (PlainText (''Cant get block '' @ u64_to_string h @ ''!''))
           | Some blk \<Rightarrow>
             let blk_hash = block_id_by_height (pv_chain (w (t + 2))) h;
                 next_hash = (if h < current \<and> h + 1 < current
                              then block_id_by_height (pv_chain (w (t + 3))) (h + 1) else null_hash);
                 delta = (if prev_id blk = null_hash then Inr ''N/A''
                          else case block_by_hash (w (t + 4)) (prev_id blk) of
                                 None \<Rightarrow> Inl BLOCK_DNE
                               | Some b \<Rightarrow> Inr (fst (get_age (blk_timestamp blk) (blk_timestamp b) False)))
             in case delta of
                  Inl e \<Rightarrow> Inl e
                | Inr delta_time \<Rightarrow>
                  (case get_tx_details (st_lib S) (w (t + 6)) (miner_tx blk) True h current of
                     Inl e \<Rightarrow> Inl e
                   | Inr txd_coinbase \<Rightarrow>
                     let reward = (case reward_of blk_hash of
                           None \<Rightarrow> None
                         | Some r \<Rightarrow> make_epose_reward_view r blk_hash h (td_xmr_outputs txd_coinbase)
                                       (length (vout (miner_tx blk))))
                     in case block_page_txs S uninit uninit_hash w (t + 8) h current (tx_hashes blk) [] 0 True of
                          Inl e \<Rightarrow> Inl e
                        | Inr (rows, fee_sum, fees_available) \<Rightarrow>
                          Inr (Rendered ''block'' (add_page_assets S (JObj
                            (block_context S w (t + 7) now current h blk blk_hash next_hash delta_time (reward \<noteq> None)
                             @ [(''coinbase_txs'', JArr [get_mstch_map S uninit uninit_hash txd_coinbase]),
                                (''blk_txs'', JArr rows)]
                             @ block_amounts S (td_xmr_outputs txd_coinbase) fee_sum fees_available
                             @ reward_context S reward))))))"

text \<open>\<open>page::show_block\<close> by hash.\<close>

definition show_block_of_hash ::
    "site \<Rightarrow> u64 \<Rightarrow> hash \<Rightarrow> page_world \<Rightarrow> nat \<Rightarrow> (hash \<Rightarrow> epose_reward_response option) \<Rightarrow> u64 \<Rightarrow> string \<Rightarrow> db_exn + html" where
  "show_block_of_hash S uninit uninit_hash w t reward_of now s =
     (case parse_str_secret_key (pl_core (st_lib S)) s of
        None \<Rightarrow> Inr (PlainText (''Cant get block '' @ show_hash (st_lib S) uninit_hash @ '' due to block hash parse error!''))
      | Some bh \<Rightarrow>
        (case block_by_hash (w t) bh of
           None \<Rightarrow> Inr (PlainText (''Cant get block '' @ show_hash (st_lib S) bh))
         | Some _ \<Rightarrow> show_block S uninit uninit_hash w (t + 2) reward_of now (block_height_of (w (t + 1)) bh)))"

section \<open>Exact amounts or none\<close>

lemma get_tx_details_fee:
  "get_tx_details P v tx cb i n = Inr txd \<Longrightarrow> td_fee txd = tx_fee_of P tx cb"
  by (auto simp: get_tx_details_def Let_def split: prod.splits if_splits sum.splits)

lemma jget_JObj_append:
  "jget k (JObj (xs @ ys)) = (case map_of xs k of None \<Rightarrow> jget k (JObj ys) | Some v \<Rightarrow> v)"
  by (simp add: jget_def map_add_def split: option.splits)

lemma jget_page_assets:
  "k \<noteq> ''asset_version'' \<Longrightarrow> jget k (add_page_assets S (JObj kvs)) = jget k (JObj kvs)"
  unfolding add_page_assets_def by (rule jget_jset_other) simp_all

text \<open>The fees of the listed transactions, as read from the database in the course of a request.\<close>

definition fees_read :: "page_lib \<Rightarrow> page_world \<Rightarrow> hash list \<Rightarrow> u64 list \<Rightarrow> bool" where
  "fees_read P w hs fs \<longleftrightarrow>
     list_all2 (\<lambda>h f. \<exists>t tx. micro_get_tx (pv_chain (w t)) h = Inr (Some tx) \<and> f = tx_fee_of P tx False) hs fs"

lemma fees_read_Nil [simp]: "fees_read P w [] fs \<longleftrightarrow> fs = []"
  by (simp add: fees_read_def)

lemma block_page_txs_avail:
  "block_page_txs S u uh w t h n txhs rows f avail = Inr (rows', f', avail') \<Longrightarrow> avail' \<Longrightarrow> avail"
proof (induction txhs arbitrary: t rows f avail)
  case (Cons txh txhs)
  then show ?case by (auto simp: Let_def split: sum.splits option.splits)
qed simp

lemma block_page_txs_exact:
  "block_page_txs S u uh w t h n txhs rows f avail = Inr (rows', f', True) \<Longrightarrow>
    \<exists>fs. fees_read (st_lib S) w txhs fs \<and> unat f' = unat f + sum_list (map unat fs)
      \<and> length rows' = length rows + length txhs"
proof (induction txhs arbitrary: t rows f avail)
  case (Cons txh txhs)
  from Cons.prems obtain tx txd where tx: "micro_get_tx (pv_chain (w t)) txh = Inr (Some tx)"
    and txd: "get_tx_details (st_lib S) (w (t + 1)) tx False h n = Inr txd"
    using block_page_txs_avail by (fastforce simp: Let_def split: sum.splits option.splits)
  let ?fits = "\<not> u64_max - td_fee txd < f"
  have run: "block_page_txs S u uh w (t + 2) h n txhs (rows @ [get_mstch_map S u uh txd])
      (if ?fits then f + td_fee txd else f) (avail \<and> ?fits) = Inr (rows', f', True)"
    using Cons.prems tx txd by (simp add: Let_def)
  have fits: ?fits using block_page_txs_avail [OF run] by simp
  then have sum: "unat (f + td_fee txd) = unat f + unat (td_fee txd)"
    using u64_add_exact [of f "td_fee txd"] by (simp add: add.commute)
  from Cons.IH [OF run] fits obtain fs where fs: "fees_read (st_lib S) w txhs fs"
    "unat f' = unat (f + td_fee txd) + sum_list (map unat fs)" "length rows' = length rows + 1 + length txhs" by auto
  have "fees_read (st_lib S) w (txh # txhs) (td_fee txd # fs)"
    using fs(1) tx get_tx_details_fee [OF txd] by (auto simp: fees_read_def)
  then show ?case using fs sum by (intro exI [of _ "td_fee txd # fs"]) simp
qed simp

lemma block_context_lacks:
  "map_of (block_context S w t now n h blk bh nh delta mapping) ''sum_fees'' = None"
  "map_of (block_context S w t now n h blk bh nh delta mapping) ''subsidy'' = None"
  "map_of (block_context S w t now n h blk bh nh delta mapping) ''coinbase_total'' = None"
  "map_of (block_context S w t now n h blk bh nh delta mapping) ''blk_txs'' = None"
  "map_of (block_context S w t now n h blk bh nh delta mapping) ''epose_reward_mapping_available'' = Some (JBool mapping)"
  by (simp_all add: block_context_def Let_def)

lemma show_block_rendered:
  assumes "show_block S u uh w t reward_of now h = Inr (Rendered template ctx)"
  obtains blk txd_coinbase rows fee_sum avail where
    "h < current_height (pv_chain (w t))" "get_block_by_height (pv_chain (w (t + 1))) h = Some blk"
    "get_tx_details (st_lib S) (w (t + 6)) (miner_tx blk) True h (current_height (pv_chain (w t))) = Inr txd_coinbase"
    "block_page_txs S u uh w (t + 8) h (current_height (pv_chain (w t))) (tx_hashes blk) [] 0 True = Inr (rows, fee_sum, avail)"
    "jget ''blk_txs'' ctx = JArr rows"
    "jget ''sum_fees'' ctx = JStr (if avail then amount8 S fee_sum else ''unavailable'')"
    "jget ''coinbase_total'' ctx = JStr (amount8 S (td_xmr_outputs txd_coinbase))"
    "jget ''subsidy'' ctx = JStr (if avail \<and> fee_sum \<le> td_xmr_outputs txd_coinbase
       then amount8 S (td_xmr_outputs txd_coinbase - fee_sum) else ''unavailable'')"
    "jget ''epose_reward_mapping_available'' ctx = JBool (case reward_of (block_id_by_height (pv_chain (w (t + 2))) h) of
       None \<Rightarrow> False | Some r \<Rightarrow> make_epose_reward_view r (block_id_by_height (pv_chain (w (t + 2))) h) h
         (td_xmr_outputs txd_coinbase) (length (vout (miner_tx blk))) \<noteq> None)"
proof -
  let ?n = "current_height (pv_chain (w t))"
  from assms have lt: "h < ?n" by (auto simp: show_block_def Let_def not_le split: if_splits)
  from assms lt obtain blk where blk: "get_block_by_height (pv_chain (w (t + 1))) h = Some blk"
    by (auto simp: show_block_def Let_def split: option.splits if_splits)
  note d = assms [unfolded show_block_def Let_def, simplified lt blk, simplified]
  from d lt obtain txd where txd: "get_tx_details (st_lib S) (w (t + 6)) (miner_tx blk) True h ?n = Inr txd"
    by (auto simp: not_le split: sum.splits if_splits option.splits)
  from d lt txd obtain rows fee_sum avail where
    rows: "block_page_txs S u uh w (t + 8) h ?n (tx_hashes blk) [] 0 True = Inr (rows, fee_sum, avail)"
    by (auto simp: not_le split: sum.splits if_splits option.splits)
  have "\<exists>delta nh mapping rc. mapping = (case reward_of (block_id_by_height (pv_chain (w (t + 2))) h) of
       None \<Rightarrow> False | Some r \<Rightarrow> make_epose_reward_view r (block_id_by_height (pv_chain (w (t + 2))) h) h
         (td_xmr_outputs txd) (length (vout (miner_tx blk))) \<noteq> None) \<and> ctx = add_page_assets S (JObj
       (block_context S w (t + 7) now ?n h blk (block_id_by_height (pv_chain (w (t + 2))) h) nh delta mapping
        @ [(''coinbase_txs'', JArr [get_mstch_map S u uh txd]), (''blk_txs'', JArr rows)]
        @ block_amounts S (td_xmr_outputs txd) fee_sum avail @ rc))"
    using d lt txd rows by (auto simp: not_le split: sum.splits if_splits option.splits)
  then obtain delta nh mapping rc where m: "mapping = (case reward_of (block_id_by_height (pv_chain (w (t + 2))) h) of
       None \<Rightarrow> False | Some r \<Rightarrow> make_epose_reward_view r (block_id_by_height (pv_chain (w (t + 2))) h) h
         (td_xmr_outputs txd) (length (vout (miner_tx blk))) \<noteq> None)" and ctx: "ctx = add_page_assets S (JObj
       (block_context S w (t + 7) now ?n h blk (block_id_by_height (pv_chain (w (t + 2))) h) nh delta mapping
        @ [(''coinbase_txs'', JArr [get_mstch_map S u uh txd]), (''blk_txs'', JArr rows)]
        @ block_amounts S (td_xmr_outputs txd) fee_sum avail @ rc))" by blast
  show ?thesis
    by (rule that [OF lt blk txd rows])
       (simp_all add: ctx m [symmetric] jget_page_assets jget_JObj_append block_context_lacks block_amounts_def
          del: add_2_eq_Suc add_2_eq_Suc' One_nat_def)
qed

text \<open>
  The amounts on the page of a block are exact or withheld: the fees are shown only when every
  transaction of the block was read and their sum does not overflow, then they are that sum, and
  the subsidy is the coinbase minus the fees; every transaction has its row. The reward mapping is
  called available only when it balances with the coinbase.
\<close>

theorem block_page_amounts_exact:
  assumes "show_block S u uh w t reward_of now h = Inr (Rendered template ctx)"
  shows "\<exists>blk coinbase rows. get_block_by_height (pv_chain (w (t + 1))) h = Some blk
    \<and> jget ''coinbase_total'' ctx = JStr (amount8 S coinbase) \<and> jget ''blk_txs'' ctx = JArr rows
    \<and> (jget ''sum_fees'' ctx = JStr ''unavailable'' \<and> jget ''subsidy'' ctx = JStr ''unavailable''
       \<or> (\<exists>fs fees. fees_read (st_lib S) w (tx_hashes blk) fs \<and> unat fees = sum_list (map unat fs)
            \<and> length rows = length (tx_hashes blk)
            \<and> jget ''sum_fees'' ctx = JStr (amount8 S fees)
            \<and> jget ''subsidy'' ctx = JStr (if fees \<le> coinbase then amount8 S (coinbase - fees) else ''unavailable'')))
    \<and> (jget ''epose_reward_mapping_available'' ctx = JBool True \<longrightarrow>
         (\<exists>r v. make_epose_reward_view r (block_id_by_height (pv_chain (w (t + 2))) h) h coinbase
                  (length (vout (miner_tx blk))) = Some v))"
  using assms
proof (rule show_block_rendered)
  fix blk txd rows fee_sum avail
  assume a: "get_block_by_height (pv_chain (w (t + 1))) h = Some blk"
    "block_page_txs S u uh w (t + 8) h (current_height (pv_chain (w t))) (tx_hashes blk) [] 0 True = Inr (rows, fee_sum, avail)"
    "jget ''blk_txs'' ctx = JArr rows"
    "jget ''sum_fees'' ctx = JStr (if avail then amount8 S fee_sum else ''unavailable'')"
    "jget ''coinbase_total'' ctx = JStr (amount8 S (td_xmr_outputs txd))"
    "jget ''subsidy'' ctx = JStr (if avail \<and> fee_sum \<le> td_xmr_outputs txd
       then amount8 S (td_xmr_outputs txd - fee_sum) else ''unavailable'')"
    "jget ''epose_reward_mapping_available'' ctx = JBool (case reward_of (block_id_by_height (pv_chain (w (t + 2))) h) of
       None \<Rightarrow> False | Some r \<Rightarrow> make_epose_reward_view r (block_id_by_height (pv_chain (w (t + 2))) h) h
         (td_xmr_outputs txd) (length (vout (miner_tx blk))) \<noteq> None)"
  have amounts: "jget ''sum_fees'' ctx = JStr ''unavailable'' \<and> jget ''subsidy'' ctx = JStr ''unavailable''
       \<or> (\<exists>fs fees. fees_read (st_lib S) w (tx_hashes blk) fs \<and> unat fees = sum_list (map unat fs)
            \<and> length rows = length (tx_hashes blk) \<and> jget ''sum_fees'' ctx = JStr (amount8 S fees)
            \<and> jget ''subsidy'' ctx = JStr (if fees \<le> td_xmr_outputs txd then amount8 S (td_xmr_outputs txd - fees) else ''unavailable''))"
  proof (cases avail)
    case True
    then have "block_page_txs S u uh w (t + 8) h (current_height (pv_chain (w t))) (tx_hashes blk) [] 0 True
        = Inr (rows, fee_sum, True)" using a(2) by simp
    from block_page_txs_exact [OF this] True a(4,6) show ?thesis by auto
  qed (use a(4,6) in simp)
  have mapping: "jget ''epose_reward_mapping_available'' ctx = JBool True \<longrightarrow>
         (\<exists>r v. make_epose_reward_view r (block_id_by_height (pv_chain (w (t + 2))) h) h (td_xmr_outputs txd)
                  (length (vout (miner_tx blk))) = Some v)"
    using a(7) by (auto split: option.splits)
  show ?thesis
    using a(1,3,5) amounts mapping by (intro exI [of _ blk] exI [of _ "td_xmr_outputs txd"] exI [of _ rows]) (intro conjI)
qed

section \<open>The list of blocks\<close>

lemma index_fees_exact:
  "index_fees P w t i n txs f = Inr (Some g, t') \<Longrightarrow>
     unat g = unat f + sum_list (map (\<lambda>tx. unat (tx_fee_of P tx False)) txs)"
proof (induction txs arbitrary: t f)
  case (Cons tx txs)
  then obtain txd where txd: "get_tx_details P (w t) tx False i n = Inr txd"
    by (auto split: sum.splits)
  with Cons.prems have fits: "\<not> u64_max - td_fee txd < f"
    and run: "index_fees P w (t + 1) i n txs (f + td_fee txd) = Inr (Some g, t')"
    by (auto split: if_splits)
  have "unat (f + td_fee txd) = unat f + unat (td_fee txd)"
    using fits u64_add_exact [of f "td_fee txd"] by (simp add: add.commute)
  with Cons.IH [OF run] get_tx_details_fee [OF txd] show ?case by simp
qed simp

text \<open>A row of the list: its fees are the exact sum over the transactions read, or withheld.\<close>

definition index_row_ok :: "site \<Rightarrow> json \<Rightarrow> bool" where
  "index_row_ok S row \<longleftrightarrow>
     jget ''fees'' row = JStr ''unavailable'' \<and> jget ''fees_available'' row = JBool False
     \<or> (\<exists>txs g. unat g = sum_list (map (\<lambda>tx. unat (tx_fee_of (st_lib S) tx False)) txs)
          \<and> jget ''regular_tx_count'' row = JNum (int (length txs)) \<and> jget ''fees'' row = JStr (amount8 S g))"

lemma index_row_members:
  "jget ''height'' (index_row S v now h blk fees cb) = JU64 h"
  "jget ''fees'' (index_row S v now h blk fees cb) = JStr (case fees of None \<Rightarrow> ''unavailable'' | Some f \<Rightarrow> amount8 S f)"
  "jget ''fees_available'' (index_row S v now h blk fees cb) = JBool (fees \<noteq> None)"
  "jget ''regular_tx_count'' (index_row S v now h blk fees cb) = JNum (int (length (tx_hashes blk)))"
  by (simp_all add: index_row_def Let_def)

text \<open>
  \<open>get_transactions\<close> of the core gives one transaction for every hash it does not report missing.
\<close>

definition transactions_complete :: "page_world \<Rightarrow> bool" where
  "transactions_complete w \<longleftrightarrow>
     (\<forall>t hs txs. get_transactions (pv_chain (w t)) hs = (True, txs, []) \<longrightarrow> length txs = length hs)"

lemma index_blocks_done:
  assumes "transactions_complete w"
  shows "index_blocks S w t now n is rows fmt = Inr (rows', fmt', t') \<Longrightarrow>
    \<forall>i \<in> set is. 0 \<le> i \<and> i < 2 ^ 64 \<Longrightarrow>
    \<exists>new. rows' = rows @ new \<and> subseq (map (jget ''height'') new) (map JNum is) \<and> list_all (index_row_ok S) new"
proof (induction "is" arbitrary: t rows fmt)
  case (Cons i "is")
  have step: "\<exists>new. rows' = rows @ new \<and> subseq (map (jget ''height'') new) (map JNum (i # is)) \<and> list_all (index_row_ok S) new"
    if "index_blocks S w t2 now n is rows f2 = Inr (rows', fmt', t')" for t2 f2
    using Cons.IH [OF that] Cons.prems(2) by auto
  show ?case
  proof (cases "get_block_by_height (pv_chain (w t)) (word_of_int i)")
    case None
    with Cons.prems(1) step show ?thesis by simp
  next
    case (Some blk)
    obtain ok txs missed where tx: "get_transactions (pv_chain (w (t + 2))) (tx_hashes blk) = (ok, txs, missed)"
      by (metis prod_cases3)
    show ?thesis
    proof (cases ok)
      case False
      with Some tx Cons.prems(1) step show ?thesis by (simp add: Let_def)
    next
      case True
      note run = Cons.prems(1) [unfolded index_blocks.simps Some option.case Let_def tx prod.case, simplified True simp_thms if_False]
      from run obtain fees t1 where fees: "index_fees (st_lib S) w (t + 3) (word_of_int i) n txs 0 = Inr (fees, t1)"
        by (auto split: sum.splits)
      from run fees obtain cb where
        cb: "get_tx_details (st_lib S) (w t1) (miner_tx blk) False (word_of_int i) n = Inr cb"
        by (auto split: sum.splits)
      let ?row = "index_row S (w (t + 1)) now (word_of_int i) blk (if missed = [] then fees else None) cb"
      have "index_blocks S w (t1 + 1) now n is (rows @ [?row]) (snd (get_age now (blk_timestamp blk) False)) = Inr (rows', fmt', t')"
        using run fees cb by simp
      from Cons.IH [OF this] Cons.prems(2) obtain new where
        new: "rows' = (rows @ [?row]) @ new" "subseq (map (jget ''height'') new) (map JNum is)" "list_all (index_row_ok S) new"
        by auto
      have "int (unat (word_of_int i :: u64)) = i"
        using Cons.prems(2) by (simp add: unsigned_of_int take_bit_int_eq_self)
      then have h: "jget ''height'' ?row = JNum i" by (simp add: index_row_members)
      have "index_row_ok S ?row"
      proof (cases "missed = [] \<and> fees \<noteq> None")
        case True
        then obtain g where g: "fees = Some g" by auto
        have "length txs = length (tx_hashes blk)"
          using assms tx \<open>ok\<close> True by (simp add: transactions_complete_def)
        then show ?thesis
          using index_fees_exact [OF fees [unfolded g]] True g unfolding index_row_ok_def
          by (intro disjI2 exI [of _ txs] exI [of _ g]) (simp add: index_row_members)
      qed (auto simp: index_row_ok_def index_row_members)
      with new h show ?thesis by (intro exI [of _ "?row # new"]) simp
    qed
  qed
qed simp

lemma index_context_lacks:
  "map_of (index_context S view now refresh n p c tip pages r) ''blocks'' = None"
  "map_of (index_context S view now refresh n p c tip pages r) ''supply_mined'' = None"
  "map_of (index_context S view now refresh n p c tip pages r) ''block_count'' = Some (JU64 n)"
  by (simp_all add: index_context_def Let_def)

lemma supply_context_members:
  "map_of (supply_context index) ''blocks'' = None"
  "map_of (supply_context (Some si)) ''supply_mined''
     = Some (JStr (if complete (snapshot si) then format_atomic_decimal_string (minted_supply_atomic (snapshot si)) 8
          else ''Indexing '' @ u64_to_string (indexed_block_count (snapshot si)) @ ''/''
               @ u64_to_string (ss_block_count (snapshot si)) @ '' blocks''))"
  by (simp_all add: supply_context_def Let_def)

lemma index2_rendered:
  assumes "index2 S w t ms index now page_no refresh view nc nt = Inr (Rendered template ctx)"
  obtains cnt tip rows fmt t1 where
    "index_anchor w (t + 1) (current_height (pv_chain (w t))) nc nt = Some (cnt, tip)"
    "index_blocks S w (t + 2) now (current_height (pv_chain (w t)))
       (page_heights (index_range (view = ''overview'' \<or> view = ''blocks'') (current_height (pv_chain (w t))) cnt
          (blocks_per_page S (view = ''overview'' \<or> view = ''blocks'') cnt) page_no)) [] ''[h:m:d]'' = Inr (rows, fmt, t1)"
    "0 < cnt \<longrightarrow> cnt \<le> current_height (pv_chain (w t1)) \<and> block_id_by_height (pv_chain (w (t1 + 1))) (cnt - 1) = tip"
    "jget ''blocks'' ctx = JArr rows"
    "\<And>si. index = Some si \<Longrightarrow> jget ''supply_mined'' ctx
       = JStr (if complete (snapshot si) then format_atomic_decimal_string (minted_supply_atomic (snapshot si)) 8
          else ''Indexing '' @ u64_to_string (indexed_block_count (snapshot si)) @ ''/''
               @ u64_to_string (ss_block_count (snapshot si)) @ '' blocks'')"
proof -
  let ?n = "current_height (pv_chain (w t))" and ?sb = "view = ''overview'' \<or> view = ''blocks''"
  note d = assms [unfolded index2_def Let_def]
  from d obtain cnt tip where an: "index_anchor w (t + 1) ?n nc nt = Some (cnt, tip)"
    by (auto split: option.splits)
  note d = d [unfolded an option.case prod.case]
  let ?blocks = "index_blocks S w (t + 2) now ?n (page_heights (index_range ?sb ?n cnt (blocks_per_page S ?sb cnt) page_no)) [] ''[h:m:d]''"
  from d obtain rows fmt t1 where b: "?blocks = Inr (rows, fmt, t1)"
    by (cases ?blocks) auto
  note d = d [unfolded b sum.case prod.case]
  have ok: "\<not> (0 < cnt \<and> (current_height (pv_chain (w t1)) < cnt \<or> block_id_by_height (pv_chain (w (t1 + 1))) (cnt - 1) \<noteq> tip))"
    using d by (auto split: if_splits)
  note d = d [unfolded if_not_P [OF ok] sum.inject html.inject]
  show ?thesis
    by (rule that [OF an b])
       (use ok in \<open>auto simp: d [THEN conjunct2, symmetric] jget_page_assets jget_JObj_append index_context_lacks supply_context_members not_less\<close>)
qed

lemma index_fees_time: "index_fees P w t i n txs f = Inr (g, t') \<Longrightarrow> t \<le> t'"
  by (induction P w t i n txs f rule: index_fees.induct) (auto split: sum.splits if_splits)

lemma index_blocks_time: "index_blocks S w t now n is rows fmt = Inr (rows', fmt', t') \<Longrightarrow> t \<le> t'"
proof (induction "is" arbitrary: t rows fmt)
  case (Cons i "is")
  from Cons.prems show ?case
    by (auto simp: Let_def split: option.splits prod.splits if_splits sum.splits dest!: Cons.IH index_fees_time)
qed simp

lemma index_heights:
  assumes "unat cnt < 2 ^ 63"
  shows "page_heights (index_range sb n cnt per_page p) = map int (range_heights (index_range sb n cnt per_page p))"
  using page_heights_range [OF assms]
  by (simp add: index_range_def) (simp add: empty_range_def page_heights_def range_heights_def)

lemma range_heights_u64: "h \<in> set (range_heights r) \<Longrightarrow> h < 2 ^ 64"
  using unat_u64_less [of "end_exclusive r"] by (auto simp: range_heights_def)

text \<open>
  The list of blocks on the front page belongs to one chain: the snapshot the page names, which
  the chain contained before the first and still after the last block was read. Its rows are, newest
  first, heights of the window of the requested page, a block that cannot be read being left out;
  their fees are exact or withheld; and the supply shown is the index's exact one, or the state of
  the indexing.
\<close>

theorem index_page_coherent:
  assumes "index2 S w t ms (Some si) now page_no refresh view nc nt = Inr (Rendered template ctx)"
    and "transactions_complete w" "unat (current_height (pv_chain (w t))) < 2 ^ 63"
  shows "\<exists>cnt tip rows t1. (nc \<noteq> 0 \<longrightarrow> cnt = nc \<and> tip = nt) \<and> t + 2 \<le> t1
    \<and> (0 < cnt \<longrightarrow> block_id_by_height (pv_chain (w (t + 1))) (cnt - 1) = tip
         \<and> block_id_by_height (pv_chain (w (t1 + 1))) (cnt - 1) = tip)
    \<and> jget ''blocks'' ctx = JArr rows \<and> list_all (index_row_ok S) rows
    \<and> subseq (map (jget ''height'') rows)
        (map (\<lambda>h. JNum (int h)) (range_heights (index_range (view = ''overview'' \<or> view = ''blocks'')
           (current_height (pv_chain (w t))) cnt (blocks_per_page S (view = ''overview'' \<or> view = ''blocks'') cnt) page_no)))
    \<and> (complete (snapshot si) \<longrightarrow>
         jget ''supply_mined'' ctx = JStr (format_atomic_decimal_string (minted_supply_atomic (snapshot si)) 8))"
proof -
  let ?n = "current_height (pv_chain (w t))" and ?sb = "view = ''overview'' \<or> view = ''blocks''"
  obtain cnt tip rows fmt t1 where
    an: "index_anchor w (t + 1) ?n nc nt = Some (cnt, tip)"
    and b: "index_blocks S w (t + 2) now ?n (page_heights (index_range ?sb ?n cnt (blocks_per_page S ?sb cnt) page_no))
       [] ''[h:m:d]'' = Inr (rows, fmt, t1)"
    and fin: "0 < cnt \<longrightarrow> cnt \<le> current_height (pv_chain (w t1)) \<and> block_id_by_height (pv_chain (w (t1 + 1))) (cnt - 1) = tip"
    and rows: "jget ''blocks'' ctx = JArr rows"
    and mined: "jget ''supply_mined'' ctx
       = JStr (if complete (snapshot si) then format_atomic_decimal_string (minted_supply_atomic (snapshot si)) 8
          else ''Indexing '' @ u64_to_string (indexed_block_count (snapshot si)) @ ''/''
               @ u64_to_string (ss_block_count (snapshot si)) @ '' blocks'')"
    using index2_rendered [OF assms(1)] by metis
  have le: "cnt \<le> ?n" and start: "0 < cnt \<longrightarrow> block_id_by_height (pv_chain (w (t + 1))) (cnt - 1) = tip"
    and named: "nc \<noteq> 0 \<longrightarrow> cnt = nc \<and> tip = nt"
    using an by (auto simp: index_anchor_def not_less word_gt_0 split: if_splits)
  have "unat cnt < 2 ^ 63" using le assms(3) unfolding word_le_nat_alt by linarith
  note hs = index_heights [OF this, of ?sb ?n "blocks_per_page S ?sb cnt" page_no]
  have "\<forall>i \<in> set (page_heights (index_range ?sb ?n cnt (blocks_per_page S ?sb cnt) page_no)). 0 \<le> i \<and> i < 2 ^ 64"
    unfolding hs by (auto dest!: range_heights_u64)
  from index_blocks_done [OF assms(2) b this]
  have "subseq (map (jget ''height'') rows) (map JNum (map int (range_heights (index_range ?sb ?n cnt (blocks_per_page S ?sb cnt) page_no))))"
    "list_all (index_row_ok S) rows" unfolding hs by auto
  then show ?thesis
    using named index_blocks_time [OF b] start fin rows mined
    by (intro exI [of _ cnt] exI [of _ tip] exI [of _ rows] exI [of _ t1]) (simp add: comp_def)
qed

section \<open>A page with one block\<close>

definition sample_site :: site where
  "sample_site = \<lparr>st_lib = sample_lib, st_testnet = False, st_stagenet = False, st_testnet_url = [], st_stagenet_url = [],
     st_mainnet_url = [], st_enable_pusher = False, st_enable_key_image_checker = False,
     st_enable_output_key_checker = False, st_enable_autorefresh_option = False, st_enable_mixins_details = False,
     st_enable_as_hex = False, st_enable_randomx = False, st_no_blocks_on_index = 24, st_no_mempool_of_frontpage = 25,
     st_asset_version = ''v'', st_print_money = u64_to_string, st_kib4_text = u64_to_string, st_render = (\<lambda>t c. t)\<rparr>"

lemma sample_details: "\<exists>txd. get_tx_details sample_lib sample_view tx cb h n = Inr txd"
  by (rule get_tx_details_fresh) (simp add: sample_view_simps)

theorem block_page_amounts_exact_witness:
  "\<exists>template ctx. show_block sample_site 0 [] (\<lambda>_. sample_view) 0 (\<lambda>_. None) 100 0 = Inr (Rendered template ctx)
     \<and> (\<exists>coinbase. jget ''coinbase_total'' ctx = JStr (amount8 sample_site coinbase))"
proof -
  let ?tx = "sample_coinbase"
  obtain txd where txd: "get_tx_details sample_lib sample_view ?tx True 0 1 = Inr txd" using sample_details by blast
  have "prev_id genesis_block \<noteq> null_hash" by (simp add: genesis_block_def null_hash_def)
  then have "\<exists>template ctx. show_block sample_site 0 [] (\<lambda>_. sample_view) 0 (\<lambda>_. None) 100 0 = Inr (Rendered template ctx)"
    using txd by (simp add: show_block_def sample_view_simps sample_site_def Let_def) (simp add: sample_view_def)
  then obtain template ctx where run: "show_block sample_site 0 [] (\<lambda>_. sample_view) 0 (\<lambda>_. None) 100 0 = Inr (Rendered template ctx)"
    by blast
  with block_page_amounts_exact [OF run] show ?thesis by blast
qed

definition full_view :: page_view where
  "full_view = sample_view\<lparr>pv_chain := (pv_chain sample_view)
     \<lparr>get_transactions := (\<lambda>hs. (True, map (\<lambda>_. sample_coinbase) hs, []))\<rparr>\<rparr>"

lemma full_view_simps:
  "current_height (pv_chain full_view) = 1" "\<not> have_tx (pv_chain full_view) h"
  "get_block_by_height (pv_chain full_view) i = Some genesis_block"
  "get_transactions (pv_chain full_view) hs = (True, map (\<lambda>_. sample_coinbase) hs, [])"
  "miner_tx genesis_block = sample_coinbase" "tx_hashes genesis_block = []"
  "block_id_by_height (pv_chain full_view) j = replicate 64 CHR ''a''"
  using sample_view_simps by (simp_all add: full_view_def get_block_by_height_def)

lemma full_details: "\<exists>txd. get_tx_details sample_lib full_view tx cb h n = Inr txd"
  by (rule get_tx_details_fresh) (simp add: full_view_simps)

theorem index_page_coherent_witness:
  "\<exists>template ctx rows. index2 sample_site (\<lambda>_. full_view) 0 ready_status (Some complete_index) 100 0 False ''blocks'' 0 []
        = Inr (Rendered template ctx) \<and> jget ''blocks'' ctx = JArr rows \<and> list_all (index_row_ok sample_site) rows"
proof -
  let ?w = "\<lambda>_ :: nat. full_view"
  obtain txd where txd: "get_tx_details sample_lib full_view sample_coinbase False 0 1 = Inr txd" using full_details by blast
  have hs: "page_heights (make_descending_block_range 1 0 1) = [0]"
    by (simp add: make_descending_block_range_def page_heights_def Let_def)
  have "\<exists>template ctx. index2 sample_site ?w 0 ready_status (Some complete_index) 100 0 False ''blocks'' 0 []
      = Inr (Rendered template ctx)"
    using txd hs by (simp add: index2_def full_view_simps sample_site_def index_anchor_def blocks_per_page_def index_range_def
        Let_def split: if_splits)
  then obtain template ctx where run: "index2 sample_site ?w 0 ready_status (Some complete_index) 100 0 False ''blocks'' 0 []
      = Inr (Rendered template ctx)" by blast
  have "transactions_complete ?w"
    by (simp add: transactions_complete_def full_view_simps)
  from index_page_coherent [OF run this] run show ?thesis by (auto simp: full_view_simps)
qed

end
