(* ===== verification/Raw_Tx.thy ===== *)
theory Raw_Tx
  imports Page_Html
begin

text \<open>
  Submitting raw transactions: the route \<open>/checkandpush\<close> of \<open>main.cpp\<close> and \<open>page::show_pushrawtx\<close>, with
  the log of what is sent to the daemon.
\<close>

section \<open>The form\<close>

text \<open>
  The route \<open>/checkandpush\<close>, registered only when the pusher is enabled: \<open>Inl\<close> is the text of an
  answer, \<open>Inr\<close> the cleaned data and whether it is to be checked or pushed.
\<close>

datatype push_action = CheckTx | PushTx

definition checkandpush_route :: "string \<Rightarrow> string + string \<times> push_action" where
  "checkandpush_route req_body =
     (let post_body = parse_crow_post_data req_body in
      case (post_body ''rawtxdata'', post_body ''action'') of
        (Some raw, Some act) \<Rightarrow>
          let raw_tx_data = remove_bad_chars raw; action = remove_bad_chars act in
          if action = ''check'' then Inr (raw_tx_data, CheckTx)
          else if action = ''push'' then Inr (raw_tx_data, PushTx)
          else Inl ''Provided action is neither check nor push''
      | _ \<Rightarrow> Inl ''Raw tx data or action not provided'')"

section \<open>Submitting transactions\<close>

text \<open>
  What \<open>show_pushrawtx\<close> calls: the core's parser of a transaction blob, base64, the wallet's prefix of
  a signed set and its archive (only the transactions of the set are used), the database's answer
  whether a key image is spent, at one observation, and the daemon's answers per transaction.
\<close>

record push_env =
  pe_hex_to_blob :: "string \<Rightarrow> blob option"
  pe_parse_tx :: "blob \<Rightarrow> transaction option"
  pe_base64_decode :: "string \<Rightarrow> string"
  pe_signed_tx_prefix :: string
  pe_unpack_signed :: "string \<Rightarrow> transaction list option"
  pe_spent :: "nat \<Rightarrow> hash \<Rightarrow> bool"
  pe_http :: http_env
  pe_call :: "transaction \<Rightarrow> string json_call"
  pe_empty_res :: "string rpc_res"

text \<open>\<open>REMOVE_HASH_BRAKETS\<close> of the stream output of a hash.\<close>

definition remove_hash_brackets :: "string \<Rightarrow> string" where
  "remove_hash_brackets s = take (length s - 2) (drop 1 s)"

definition bare_hash :: "site \<Rightarrow> hash \<Rightarrow> string" where
  "bare_hash S h = remove_hash_brackets (show_hash (st_lib S) h)"

definition spent_images :: "push_env \<Rightarrow> nat \<Rightarrow> txin_to_key list \<Rightarrow> hash list" where
  "spent_images E t ins = map snd (filter (\<lambda>(i, k). pe_spent E i k) (enumerate t (map k_image ins)))"

text \<open>
  One transaction of the set: \<open>Inl\<close> is the message that ends the loop, \<open>Inr\<close> its hash; the client
  carries the log of what was sent.
\<close>

definition push_one ::
    "site \<Rightarrow> push_env \<Rightarrow> page_world \<Rightarrow> (nat \<Rightarrow> mempool_status) \<Rightarrow> nat \<Rightarrow> transaction \<Rightarrow> http_client \<Rightarrow>
       db_exn + (string + hash) \<times> http_client" where
  "push_one S E w ms t tx c =
     (case get_tx_details (st_lib S) (w t) tx False 0 0 of
        Inl e \<Rightarrow> Inl e
      | Inr txd \<Rightarrow>
        let h = td_hash txd; name = bare_hash S h; spent = spent_images E (t + 3) (td_input_key_imgs txd) in
        if search_mempool (ms (t + 1)) h \<noteq> []
        then Inr (Inl (''Tx already exist in the mempool: '' @ name @ [CHR 0x0A]), c)
        else if have_tx (pv_chain (w (t + 2))) h
        then Inr (Inl (''Tx already exist in the blockchain: '' @ name @ [CHR 0x0A]), c)
        else if spent \<noteq> []
        then Inr (Inl (''Tx with hash '' @ name @ '' has already spent inputs'' @ [CHR 0x0A]
                       @ concat (map (\<lambda>k. bare_hash S k @ ''</br>'') spent)), c)
        else if \<not> st_enable_pusher S
        then Inr (Inl (''Pushing signed transactions is disabled. Run explorer with --enable-pusher flag to enable it.''
                       @ [CHR 0x0A]), c)
        else case commit_tx (pe_http E) (pe_call E tx) (pe_empty_res E) c of
               (Inl msg, c') \<Rightarrow>
                 Inr (Inl (''Submitting signed tx '' @ name @ '' to daemon failed: '' @ msg @ [CHR 0x0A]), c')
             | (Inr _, c') \<Rightarrow> Inr (Inr h, c'))"

text \<open>The loop takes the transactions from the back of the vector: the list is in that order.\<close>

fun push_loop ::
    "site \<Rightarrow> push_env \<Rightarrow> page_world \<Rightarrow> (nat \<Rightarrow> mempool_status) \<Rightarrow> nat \<Rightarrow> transaction list \<Rightarrow> hash list \<Rightarrow> http_client \<Rightarrow>
       db_exn + hash list \<times> string option \<times> http_client" where
  "push_loop S E w ms t [] pushed c = Inr (pushed, None, c)"
| "push_loop S E w ms t (tx # txs) pushed c =
     (case push_one S E w ms t tx c of
        Inl e \<Rightarrow> Inl e
      | Inr (Inl msg, c') \<Rightarrow> Inr (pushed, Some msg, c')
      | Inr (Inr h, c') \<Rightarrow> push_loop S E w ms (t + 3 + length (vin tx)) txs (pushed @ [h]) c')"

definition push_context :: "site \<Rightarrow> (string \<times> json) list \<Rightarrow> string option \<Rightarrow> json" where
  "push_context S members err =
     JObj ([(''testnet'', JBool (st_testnet S)), (''stagenet'', JBool (st_stagenet S)), (''have_raw_tx'', JBool True),
            (''has_error'', JBool (err \<noteq> None)), (''error_msg'', JStr (case err of None \<Rightarrow> [] | Some m \<Rightarrow> m)),
            (''asset_version'', JStr (st_asset_version S))] @ members)"

text \<open>
  What the submitted data hold: the transactions, in the order they are pushed, or the message of
  the page; \<open>data_prefix\<close> is shown when the data were no plain transaction.
\<close>

definition decode_raw_txs ::
    "site \<Rightarrow> push_env \<Rightarrow> string \<Rightarrow> (string + transaction list) \<times> string option" where
  "decode_raw_txs S E raw =
     (let data = clean_post_data raw in
      case (case pe_hex_to_blob E data of None \<Rightarrow> None | Some b \<Rightarrow> pe_parse_tx E b) of
        Some tx \<Rightarrow> (Inr [tx], None)
      | None \<Rightarrow>
        let decoded = pe_base64_decode E data; magiclen = length (pe_signed_tx_prefix E);
            data_prefix = make_printable (take magiclen decoded)
        in (if \<not> starts_with (pe_signed_tx_prefix E) decoded
            then Inl (''The data does not appear to be signed raw tx! Data prefix: '' @ data_prefix)
            else if \<not> st_enable_pusher S
            then Inl (''Pushing disabled!'' @ [CHR 0x0A] @ '' Run explorer with --enable-pusher flag to enable it.'')
            else case pe_unpack_signed E (drop magiclen decoded) of
                   None \<Rightarrow> Inl ''Deserialization of signed tx data NOT successful! Maybe its not base64 encoded?''
                 | Some txs \<Rightarrow> Inr (rev txs),
            Some data_prefix))"

definition show_pushrawtx ::
    "site \<Rightarrow> push_env \<Rightarrow> page_world \<Rightarrow> (nat \<Rightarrow> mempool_status) \<Rightarrow> nat \<Rightarrow> string \<Rightarrow> http_client \<Rightarrow>
       db_exn + html \<times> http_client" where
  "show_pushrawtx S E w ms t raw_tx_data c =
     (case decode_raw_txs S E raw_tx_data of
        (decoded, shown_prefix) \<Rightarrow>
          let prefix_member = (case shown_prefix of None \<Rightarrow> [] | Some p \<Rightarrow> [(''data_prefix'', JStr p)]) in
          case decoded of
            Inl msg \<Rightarrow> Inr (Rendered ''pushrawtx'' (push_context S prefix_member (Some msg)), c)
          | Inr txs \<Rightarrow>
            (case push_loop S E w ms t txs [] c of
               Inl e \<Rightarrow> Inl e
             | Inr (pushed, err, c') \<Rightarrow>
               Inr (Rendered ''pushrawtx''
                 (push_context S (prefix_member
                    @ [(''txs'', JArr (map (\<lambda>h. JObj [(''tx_hash'', JStr (bare_hash S h))]) pushed))]) err), c')))"

section \<open>What reaches the daemon\<close>

text \<open>A transaction that may be submitted: new to pool and chain, with no key image spent.\<close>

definition pushable :: "site \<Rightarrow> push_env \<Rightarrow> page_world \<Rightarrow> (nat \<Rightarrow> mempool_status) \<Rightarrow> transaction \<Rightarrow> hash \<Rightarrow> bool" where
  "pushable S E w ms tx h \<longleftrightarrow>
     (\<exists>t txd. get_tx_details (st_lib S) (w t) tx False 0 0 = Inr txd \<and> td_hash txd = h
        \<and> search_mempool (ms (t + 1)) h = [] \<and> \<not> have_tx (pv_chain (w (t + 2))) h
        \<and> spent_images E (t + 3) (td_input_key_imgs txd) = [])"

lemma spent_images_Nil:
  "spent_images E t ins = [] \<Longrightarrow> \<forall>i < length ins. \<not> pe_spent E (t + i) (k_image (ins ! i))"
  by (auto simp: spent_images_def filter_empty_conv in_set_enumerate_eq)

lemma commit_tx_cases:
  assumes "commit_tx E call res c = (out, c')"
  shows "hc_sent c' = hc_sent c \<and> (\<exists>m. out = Inl m) \<or> hc_sent c' = hc_sent c @ [''/sendrawtransaction'']"
proof -
  obtain r res' where iv: "invoke_json E call ''/sendrawtransaction'' False res c = (r, res', c')"
    and out: "out = (if \<not> r \<or> res_status res' = ''Failed'' then Inl (res_data res') else Inr ())"
    using assms by (auto simp: commit_tx_def split: prod.splits if_splits)
  from invoke_json_sent [OF iv] obtain k where
    "k \<le> 1" "hc_sent c' = hc_sent c @ replicate k ''/sendrawtransaction''" "r \<longrightarrow> 0 < k" by auto
  then show ?thesis using out by (cases k) auto
qed

lemma push_one_cases:
  assumes "push_one S E w ms t tx c = Inr (out, c')"
  obtains (kept) m where "out = Inl m" "hc_sent c' = hc_sent c"
    | (sent) h where "st_enable_pusher S" "pushable S E w ms tx h" "out = Inr h \<or> (\<exists>m. out = Inl m)"
        "hc_sent c' = hc_sent c @ [''/sendrawtransaction'']"
proof -
  obtain txd where txd: "get_tx_details (st_lib S) (w t) tx False 0 0 = Inr txd"
    using assms by (auto simp: push_one_def split: sum.splits)
  note d = assms [unfolded push_one_def txd sum.case Let_def]
  let ?ok = "search_mempool (ms (t + 1)) (td_hash txd) = [] \<and> \<not> have_tx (pv_chain (w (t + 2))) (td_hash txd)
      \<and> spent_images E (t + 3) (td_input_key_imgs txd) = [] \<and> st_enable_pusher S"
  show ?thesis
  proof (cases ?ok)
    case False
    then have "(\<exists>m. out = Inl m) \<and> hc_sent c' = hc_sent c" using d by (auto split: if_splits)
    then show ?thesis using kept by blast
  next
    case True
    obtain r c1 where cm: "commit_tx (pe_http E) (pe_call E tx) (pe_empty_res E) c = (r, c1)" by fastforce
    have out: "c' = c1" "out = Inr (td_hash txd) \<and> (\<exists>u. r = Inr u) \<or> (\<exists>m. out = Inl m) \<and> (\<exists>m. r = Inl m)"
      using d True cm by (auto split: sum.splits)
    have "pushable S E w ms tx (td_hash txd)" using txd True unfolding pushable_def by blast
    with commit_tx_cases [OF cm] out True kept sent show ?thesis by blast
  qed
qed

lemma push_loop_sent:
  "push_loop S E w ms t txs pushed c = Inr (pushed', err, c') \<Longrightarrow>
    \<exists>done new k. prefix done txs \<and> pushed' = pushed @ new \<and> list_all2 (pushable S E w ms) done new
      \<and> (err = None \<longrightarrow> done = txs) \<and> hc_sent c' = hc_sent c @ replicate k ''/sendrawtransaction''
      \<and> length new \<le> k \<and> k \<le> length txs \<and> (k = length new \<or> k = length new + 1 \<and> err \<noteq> None)
      \<and> (\<not> st_enable_pusher S \<longrightarrow> k = 0)"
proof (induction txs arbitrary: t pushed c)
  case (Cons tx txs)
  obtain out c1 where one: "push_one S E w ms t tx c = Inr (out, c1)"
    using Cons.prems by (auto split: sum.splits)
  show ?case
  proof (cases out)
    case (Inl m)
    with Cons.prems one have r: "pushed' = pushed" "err = Some m" "c' = c1" by auto
    from one show ?thesis
    proof (cases rule: push_one_cases)
      case kept
      then show ?thesis using r by (intro exI [of _ "[]"] exI [of _ 0]) simp
    next
      case (sent h)
      then show ?thesis using r by (intro exI [of _ "[]"] exI [of _ 1]) simp
    qed
  next
    case (Inr h)
    with one have sent: "st_enable_pusher S" "pushable S E w ms tx h" "hc_sent c1 = hc_sent c @ [''/sendrawtransaction'']"
      by (cases rule: push_one_cases; simp)+
    have "push_loop S E w ms (t + 3 + length (vin tx)) txs (pushed @ [h]) c1 = Inr (pushed', err, c')"
      using Cons.prems one Inr by simp
    from Cons.IH [OF this] obtain "done" new k where
      ih: "prefix done txs" "pushed' = (pushed @ [h]) @ new" "list_all2 (pushable S E w ms) done new"
        "err = None \<longrightarrow> done = txs" "hc_sent c' = hc_sent c1 @ replicate k ''/sendrawtransaction''"
        "length new \<le> k" "k \<le> length txs" "k = length new \<or> k = length new + 1 \<and> err \<noteq> None" by blast
    then show ?thesis
      using sent by (intro exI [of _ "tx # done"] exI [of _ "h # new"] exI [of _ "Suc k"]) auto
  qed
qed (auto intro: exI [of _ "[]"])

lemma push_context_members:
  "jget ''has_error'' (push_context S members err) = JBool (err \<noteq> None)"
  "jget ''txs'' (push_context S (pre @ [(''txs'', v)]) err) = (case map_of pre ''txs'' of None \<Rightarrow> v | Some x \<Rightarrow> x)"
  by (simp_all add: push_context_def jget_JObj_append split: option.split)


definition sample_push :: push_env where
  "sample_push = \<lparr>pe_hex_to_blob = Some, pe_parse_tx = (\<lambda>_. Some sample_coinbase), pe_base64_decode = (\<lambda>s. s),
     pe_signed_tx_prefix = ''Signed'', pe_unpack_signed = (\<lambda>_. None), pe_spent = (\<lambda>_ _. False), pe_http = sample_env,
     pe_call = (\<lambda>_ _ res. (True, res)), pe_empty_res = \<lparr>res_status = ''OK'', res_data = []\<rparr>\<rparr>"


text \<open>
  The route strips the characters of the armour before \<open>clean_post_data\<close> looks for it, so the words of an
  armoured text stay in the data.
\<close>

lemma armour_survives:
  "clean_post_data (remove_bad_chars (''-----BEGIN CERTIFICATE-----'' @ ''QUJD'' @ ''-----END CERTIFICATE-----''))
     = ''BEGINCERTIFICATEQUJDENDCERTIFICATE''"
  by code_simp

end
