(* ===== verification/Tx_Page.thy ===== *)
theory Tx_Page
  imports Raw_Tx
begin

text \<open>
  The page of a transaction (\<open>page::construct_tx_context\<close> and the pages and answers built on it,
  \<open>show_tx\<close> and \<open>json_detailedtransaction\<close>, \<open>src/src/page.h\<close>), with the scale on which it places the
  ring members in time (\<open>construct_mstch_mixin_timescales\<close>, \<open>timestamps_time_scale\<close>). The theorems
  show that confidential amounts stay hidden on the page, and that the detailed answer of the API
  drops the report of an error.
\<close>

section \<open>The time scale of the ring members\<close>

text \<open>
  What the page of a transaction takes from elsewhere: the core's JSON dump and prefix hash of a
  transaction, its default-constructed transaction and block, the text of a view tag and of an
  exception, the global indices of a transaction's outputs (empty where the database has none), and
  the two results of floating-point arithmetic: the place of a time on an axis (offset, length of the
  interval, number of points), and the text of the scale in days.
\<close>

record tx_env =
  te_tx_json :: "transaction \<Rightarrow> string"
  te_prefix_hash :: "transaction \<Rightarrow> hash"
  te_blank_tx :: transaction
  te_blank_block :: block
  te_view_tag :: "8 word \<Rightarrow> string"
  te_what :: string
  te_amount_indices :: "hash \<Rightarrow> u64 list"
  te_place :: "u64 \<Rightarrow> u64 \<Rightarrow> nat \<Rightarrow> nat"
  te_scale_days :: "(u64 \<times> nat) option \<Rightarrow> string"

text \<open>
  \<open>timestamps_time_scale\<close>: a time outside the interval leaves no mark. The write goes to the place
  after the computed one; a write past the end is out of range for the string.
\<close>

fun time_scale_marks :: "tx_env \<Rightarrow> u64 \<Rightarrow> u64 \<Rightarrow> u64 list \<Rightarrow> string \<Rightarrow> string" where
  "time_scale_marks T timeN time0 [] axis = axis"
| "time_scale_marks T timeN time0 (ts # tss) axis =
     time_scale_marks T timeN time0 tss
       (if ts < time0 \<or> timeN < ts then axis
        else axis[te_place T (ts - time0) (timeN - time0) (length axis) + 1 := CHR ''*''])"

definition timestamps_time_scale :: "tx_env \<Rightarrow> u64 list \<Rightarrow> u64 \<Rightarrow> nat \<Rightarrow> u64 \<Rightarrow> string" where
  "timestamps_time_scale T timestamps timeN resolution time0 =
     time_scale_marks T timeN time0 timestamps (replicate resolution CHR ''_'')"

text \<open>
  \<open>construct_mstch_mixin_timescales\<close>: the smallest and largest time of all groups, widened by an
  hour, and the scale of every group; \<open>None\<close> when a group is empty, whose least element the code
  would read. The result has both bounds and the scales.
\<close>

fun mix_bounds :: "u64 list list \<Rightarrow> u64 \<Rightarrow> u64 \<Rightarrow> (u64 \<times> u64) option" where
  "mix_bounds [] lo hi = Some (lo, hi)"
| "mix_bounds (g # gs) lo hi =
     (if g = [] then None
      else let min_found = fold min (tl g) (hd g); max_found = fold max (tl g) (hd g) in
           mix_bounds gs (if min_found < lo then min_found else lo) (if hi < max_found then max_found else hi))"

definition construct_mstch_mixin_timescales ::
    "tx_env \<Rightarrow> u64 \<Rightarrow> u64 list list \<Rightarrow> (u64 \<times> u64 \<times> json list) option" where
  "construct_mstch_mixin_timescales T now groups =
     (case mix_bounds groups (now * 2) 0 of
        None \<Rightarrow> None
      | Some (lo, hi) \<Rightarrow>
        let lo' = lo - 3600; hi' = hi + 3600
        in Some (lo', hi', map (\<lambda>g. JObj [(''timescale'', JStr (timestamps_time_scale T g hi' 170 lo'))]) groups))"

section \<open>Inputs\<close>

definition get_ring_sig_for_input :: "tx_details \<Rightarrow> nat \<Rightarrow> json" where
  "get_ring_sig_for_input txd in_i =
     (if length (td_signatures txd) \<le> in_i then JArr []
      else JArr (map (\<lambda>sig. JObj [(''ring_sig'', JStr sig)]) (td_signatures txd ! in_i)))"

definition pad_nat :: "nat \<Rightarrow> nat \<Rightarrow> string" where
  "pad_nat k n = pad_left k CHR ''0'' (nat_to_dec n)"

text \<open>A row for a ring member; \<open>mix\<close> has what the detailed view adds.\<close>

definition mixin_row :: "u64 \<Rightarrow> hash \<Rightarrow> nat \<Rightarrow> (string \<times> json) list \<Rightarrow> json" where
  "mixin_row height pubkey n mix =
     JObj ([(''mix_blk'', JStr (pad_left 8 CHR ''0'' (u64_to_string height))), (''mix_pub_key'', JStr pubkey)]
           @ mix @ [(''mix_idx'', JStr (pad_nat 2 n)), (''mix_is_it_real'', JBool False)])"

text \<open>
  The loop over the ring of one input: \<open>Inl\<close> of the result is the message with which the whole
  context is abandoned; otherwise the rows, the times, and the message of a lookup that failed
  without ending the loop.
\<close>

fun mixin_rows ::
    "site \<Rightarrow> tx_env \<Rightarrow> page_view \<Rightarrow> u64 \<Rightarrow> bool \<Rightarrow> u64 \<Rightarrow> (hash \<times> u64) list \<Rightarrow> u64 list \<Rightarrow> nat \<Rightarrow>
       json list \<Rightarrow> u64 list \<Rightarrow> string option \<Rightarrow> db_exn + (string + json list \<times> u64 list \<times> string option)" where
  "mixin_rows S T v now detailed amount outs [] n rows stamps err = Inr (Inr (rows, stamps, err))"
| "mixin_rows S T v now detailed amount [] (i # is) n rows stamps err = Inl OTHER_EXN"
| "mixin_rows S T v now detailed amount ((pubkey, height) # outs) (i # is) n rows stamps err =
     (case output_tx_and_index v amount i of
        None \<Rightarrow> Inr (Inl (''Output with amount '' @ u64_to_string amount @ '' and index '' @ u64_to_string i
                          @ '' does not exist!''))
      | Some (txh, out_idx) \<Rightarrow>
        if \<not> detailed
        then mixin_rows S T v now detailed amount outs is (n + 1) (rows @ [mixin_row height pubkey n []]) stamps err
        else
          let (blk, err1) = (case get_block_by_height (pv_chain v) height of
                 None \<Rightarrow> (te_blank_block T, Some (''- cant get block of height: '' @ u64_to_string height))
               | Some b \<Rightarrow> (b, err));
              age = get_age now (blk_timestamp blk) True
          in case micro_get_tx (pv_chain v) txh of
               Inl e \<Rightarrow> Inl e
             | Inr found \<Rightarrow>
               let (mixin_tx, err2) = (case found of
                      None \<Rightarrow> (te_blank_tx T, Some (''Cant get tx: '' @ show_hash (st_lib S) txh))
                    | Some tx \<Rightarrow> (tx, err1))
               in case get_tx_details (st_lib S) v mixin_tx True 0 0 of
                    Inl e \<Rightarrow> Inl e
                  | Inr mixin_txd \<Rightarrow>
                    mixin_rows S T v now detailed amount outs is (n + 1)
                      (rows @ [mixin_row height pubkey n
                         [(''mix_tx_hash'', JStr txh), (''mix_out_indx'', JU64 out_idx),
                          (''mix_timestamp'', JStr (timestamp_to_str_gm (blk_timestamp blk))),
                          (''mix_age'', JStr (fst age)), (''mix_mixin_no'', JU64 (td_mixin_no mixin_txd)),
                          (''mix_inputs_no'', JNum (int (length (td_input_key_imgs mixin_txd)))),
                          (''mix_outputs_no'', JNum (int (length (td_output_pub_keys mixin_txd)))),
                          (''mix_age_format'', JStr (snd age))]])
                      (stamps @ [blk_timestamp blk]) err2)"

record inputs_state =
  is_rows :: "json list"
  is_idx :: nat
  is_sum :: u64
  is_unknown :: bool
  is_groups :: "u64 list list"
  is_err :: "string option"

definition no_inputs_yet :: inputs_state where
  "no_inputs_yet = \<lparr>is_rows = [], is_idx = 0, is_sum = 0, is_unknown = False, is_groups = [], is_err = None\<rparr>"

definition max_no_of_inputs_to_show :: nat where
  "max_no_of_inputs_to_show = 10"

definition input_row :: "site \<Rightarrow> bool \<Rightarrow> bool \<Rightarrow> tx_details \<Rightarrow> txin_to_key \<Rightarrow> nat \<Rightarrow> json list \<Rightarrow> json" where
  "input_row S confidential detailed txd k n mixins =
     JObj [(''in_key_img'', JStr (k_image k)),
           (''amount'', JStr (if confidential then ''confidential'' else amount8 S (in_amount k))),
           (''input_idx'', JStr (pad_nat 2 n)), (''mixins'', JArr mixins),
           (''ring_sigs'', if detailed then get_ring_sig_for_input txd n else JArr []),
           (''already_spent'', JBool False)]"

definition missing_outputs_message :: "tx_env \<Rightarrow> u64 \<Rightarrow> u64 list \<Rightarrow> string" where
  "missing_outputs_message T amount offsets =
     ''Outputs with amount '' @ u64_to_string amount @ '' do not exist and indexes ''
     @ concat (map (\<lambda>x. '', '' @ u64_to_string x) offsets) @ '' don'' @ [CHR 0x27] @ ''t exist! '' @ te_what T"

text \<open>
  The loop over the inputs. An input whose offsets are out of range is skipped without counting it;
  the test of the bound comes before an input is shown.
\<close>

fun tx_input_rows ::
    "site \<Rightarrow> tx_env \<Rightarrow> page_view \<Rightarrow> u64 \<Rightarrow> bool \<Rightarrow> bool \<Rightarrow> bool \<Rightarrow> tx_details \<Rightarrow> txin_to_key list \<Rightarrow> inputs_state \<Rightarrow>
       db_exn + (string + inputs_state)" where
  "tx_input_rows S T v now confidential detailed part txd [] st = Inr (Inr st)"
| "tx_input_rows S T v now confidential detailed part txd (k # ks) st =
     (if part \<and> max_no_of_inputs_to_show < is_idx st then Inr (Inr st)
      else
        let offsets = absolute_output_offsets (st_lib S) (key_offsets k) in
        if \<not> are_absolute_offsets_good v offsets k
        then tx_input_rows S T v now confidential detailed part txd ks st
        else case output_keys v (in_amount k) offsets of
               None \<Rightarrow> Inr (Inl (missing_outputs_message T (in_amount k) offsets))
             | Some outs \<Rightarrow>
               (case mixin_rows S T v now detailed (in_amount k) outs offsets 0 [] [] (is_err st) of
                  Inl e \<Rightarrow> Inl e
                | Inr (Inl msg) \<Rightarrow> Inr (Inl msg)
                | Inr (Inr (mixins, stamps, err)) \<Rightarrow>
                  tx_input_rows S T v now confidential detailed part txd ks
                    \<lparr>is_rows = is_rows st @ [input_row S confidential detailed txd k (is_idx st) mixins],
                     is_idx = is_idx st + 1, is_sum = is_sum st + in_amount k,
                     is_unknown = (is_unknown st \<or> in_amount k = 0),
                     is_groups = is_groups st @ [stamps], is_err = err\<rparr>))"

section \<open>Outputs\<close>

definition output_row :: "site \<Rightarrow> tx_env \<Rightarrow> page_view \<Rightarrow> bool \<Rightarrow> string \<Rightarrow> output_tuple \<Rightarrow> nat \<Rightarrow> json" where
  "output_row S T v confidential amount_idx out n =
     (case out of (pk, amount, tag) \<Rightarrow>
        JObj [(''out_pub_key'', JStr pk),
              (''amount'', JStr (if confidential then ''confidential'' else amount8 S amount)),
              (''amount_idx'', JStr amount_idx), (''num_outputs'', JU64 (num_outputs v amount)),
              (''output_tag'', JStr (case tag of None \<Rightarrow> ''-'' | Some b \<Rightarrow> te_view_tag T b)),
              (''unformated_output_idx'', JNum (int n)), (''output_idx'', JStr (pad_nat 2 n))])"

text \<open>The loop over the outputs; \<open>None\<close> is the exception of \<open>out_amount_indices.at\<close>.\<close>

fun output_rows ::
    "site \<Rightarrow> tx_env \<Rightarrow> page_view \<Rightarrow> bool \<Rightarrow> u64 list \<Rightarrow> output_tuple list \<Rightarrow> nat \<Rightarrow> json list \<Rightarrow> u64 \<Rightarrow>
       (json list \<times> u64) option" where
  "output_rows S T v confidential indices [] n rows amount_sum = Some (rows, amount_sum)"
| "output_rows S T v confidential indices (out # outs) n rows amount_sum =
     (if indices \<noteq> [] \<and> length indices \<le> n then None
      else output_rows S T v confidential indices outs (n + 1)
             (rows @ [output_row S T v confidential (if indices = [] then ''N/A'' else u64_to_string (indices ! n)) out n])
             (if confidential then amount_sum else amount_sum + fst (snd out)))"

section \<open>The context of a transaction\<close>

text \<open>
  \<open>page::construct_tx_context\<close> over one state of the database. The empty ring, whose least time the
  code reads, and \<open>at\<close> out of range are not told apart from an exception.
\<close>

definition tx_base_context ::
    "site \<Rightarrow> tx_env \<Rightarrow> u64 \<Rightarrow> transaction \<Rightarrow> tx_details \<Rightarrow> bool \<Rightarrow> (u64 \<times> block) option \<Rightarrow> string option \<Rightarrow> (string \<times> json) list" where
  "tx_base_context S T now tx txd with_ring_signatures found err =
     (let blk = (case found of None \<Rightarrow> te_blank_block T | Some (_, b) \<Rightarrow> b);
          confidential = is_ringct (st_lib S) tx
      in [(''testnet'', JBool (st_testnet S)), (''stagenet'', JBool (st_stagenet S)), (''tx_hash'', JStr (td_hash txd)),
          (''tx_pub_key'', JStr (td_pk txd)),
          (''blk_height'', JStr (case found of None \<Rightarrow> ''N/A'' | Some (h, _) \<Rightarrow> u64_to_string h)),
          (''tx_blk_height'', JU64 (case found of None \<Rightarrow> 0 | Some (h, _) \<Rightarrow> h)),
          (''tx_size'', JStr (st_kib4_text S (td_size txd))), (''tx_fee'', JStr (amount8 S (td_fee txd))),
          (''tx_version'', JU64 (td_version txd)),
          (''blk_timestamp'', JStr (if found = None then ''N/A'' else timestamp_to_str_gm (blk_timestamp blk))),
          (''blk_timestamp_uint'', JU64 (blk_timestamp blk)),
          (''delta_time'', JStr (if found = None then [] else fst (get_age now (blk_timestamp blk) True))),
          (''inputs_no'', JNum (int (length (td_input_key_imgs txd)))),
          (''has_inputs'', JBool (td_input_key_imgs txd \<noteq> [])),
          (''outputs_no'', JNum (int (length (td_output_pub_keys txd)))),
          (''is_coinbase_tx'', JBool (is_coinbase (pl_core (st_lib S)) tx)),
          (''has_payment_id'', JBool (td_payment_id txd \<noteq> null_hash)),
          (''has_payment_id8'', JBool (td_payment_id8 txd \<noteq> null_hash8)),
          (''confirmations'', JU64 (td_no_confirmations txd)), (''payment_id'', JStr (td_payment_id txd)),
          (''payment_id8'', JStr (td_payment_id8 txd)), (''extra'', JStr (buff_to_hex (st_lib S) (td_extra txd))),
          (''with_ring_signatures'', JBool with_ring_signatures), (''tx_json'', JStr (te_tx_json T tx)),
          (''is_ringct'', JBool confidential), (''rct_type'', JNum (int (unat (rct_type tx)))),
          (''has_error'', JBool (err \<noteq> None)), (''error_msg'', JStr (case err of None \<Rightarrow> [] | Some m \<Rightarrow> m)),
          (''have_raw_tx'', JBool False), (''show_more_details_link'', JBool True), (''construction_time'', JStr []),
          (''tx_json_raw'', JStr (te_tx_json T tx)),
          (''add_tx_pub_keys'', JStr (concat (map (\<lambda>k. k @ '';'') (td_additional_pks txd))))])"

definition detail_context ::
    "tx_env \<Rightarrow> u64 \<Rightarrow> transaction \<Rightarrow> u64 list list \<Rightarrow> (string \<times> json) list option" where
  "detail_context T now tx groups =
     (case construct_mstch_mixin_timescales T now groups of
        None \<Rightarrow> None
      | Some (lo, hi, scales) \<Rightarrow>
        Some [(''min_mix_time'', JStr (timestamp_to_str_gm lo)), (''max_mix_time'', JStr (timestamp_to_str_gm hi)),
              (''timescales'', JArr scales),
              (''timescales_scale'', JStr (te_scale_days T (if groups = [] then None else Some (hi - lo, 170)))),
              (''tx_prefix_hash'', JStr (te_prefix_hash T tx))])"

definition construct_tx_context ::
    "site \<Rightarrow> tx_env \<Rightarrow> page_view \<Rightarrow> u64 \<Rightarrow> transaction \<Rightarrow> bool \<Rightarrow> db_exn + json" where
  "construct_tx_context S T v now tx with_ring_signatures =
     (case get_tx_details (st_lib S) v tx False 0 0 of
        Inl e \<Rightarrow> Inl e
      | Inr txd \<Rightarrow>
        let confidential = is_ringct (st_lib S) tx;
            detailed = (st_enable_mixins_details S \<or> with_ring_signatures);
            height = (if have_tx (pv_chain v) (td_hash txd)
                      then map_sum id Some (tx_block_height v (td_hash txd)) else Inr None);
            part = (max_no_of_inputs_to_show < length (td_input_key_imgs txd) \<and> \<not> detailed)
        in case height of
             Inl e \<Rightarrow> Inl e
           | Inr h \<Rightarrow>
             let found = (case h of None \<Rightarrow> None
                          | Some n \<Rightarrow> Some (n, case get_block_by_height (pv_chain v) n of
                                                  None \<Rightarrow> te_blank_block T | Some b \<Rightarrow> b));
                 base = tx_base_context S T now tx txd with_ring_signatures found
             in case tx_input_rows S T v now confidential detailed part txd (td_input_key_imgs txd) no_inputs_yet of
                  Inl e \<Rightarrow> Inl e
                | Inr (Inl msg) \<Rightarrow> Inr (JObj (base (Some msg) @ [(''tx_prefix_hash'', JStr [])]))
                | Inr (Inr st) \<Rightarrow>
                  (case (if detailed then detail_context T now tx (is_groups st)
                         else Some [(''tx_prefix_hash'', JStr [])]) of
                     None \<Rightarrow> Inl OTHER_EXN
                   | Some detail \<Rightarrow>
                     (case output_rows S T v confidential (te_amount_indices T (td_hash txd))
                             (td_output_pub_keys txd) 0 [] 0 of
                        None \<Rightarrow> Inl OTHER_EXN
                      | Some (outs, amount_sum) \<Rightarrow>
                        Inr (JObj (base (is_err st) @ detail @
                          [(''have_any_unknown_amount'', JBool (is_unknown st)),
                           (''inputs_xmr_sum_not_zero'', JBool (0 < is_sum st)),
                           (''inputs_xmr_sum'', JStr (if confidential then ''confidential'' else amount8 S (is_sum st))),
                           (''server_time'', JStr (takeWhile (\<lambda>c. c \<noteq> CHR '' '') (timestamp_to_str_gm now))),
                           (''enable_mixins_details'', JBool detailed), (''enable_as_hex'', JBool (st_enable_as_hex S)),
                           (''show_part_of_inputs'', JBool part),
                           (''max_no_of_inputs_to_show'', JNum (int max_no_of_inputs_to_show)),
                           (''inputs'', JArr (is_rows st)),
                           (''outputs_xmr_sum'', JStr (if confidential then ''confidential'' else amount8 S amount_sum)),
                           (''coinbase_breakdown_unavailable'', JBool (is_coinbase (pl_core (st_lib S)) tx)),
                           (''outputs'', JArr outs)])))))"

section \<open>Pages and answers with that context\<close>

definition show_tx ::
    "site \<Rightarrow> tx_env \<Rightarrow> page_view \<Rightarrow> mempool_status \<Rightarrow> u64 \<Rightarrow> string \<Rightarrow> bool \<Rightarrow> bool \<Rightarrow> db_exn + html" where
  "show_tx S T v ms now tx_hash_str with_ring_signatures refresh_page =
     (case parse_str_secret_key (pl_core (st_lib S)) tx_hash_str of
        None \<Rightarrow> Inr (PlainText (''Cant get tx hash due to parse error: '' @ tx_hash_str))
      | Some txh \<Rightarrow>
        (case find_tx v ms txh of
           Inl e \<Rightarrow> Inl e
         | Inr None \<Rightarrow> Inr (PlainText (''Cant get tx: '' @ tx_hash_str))
         | Inr (Some (tx, _, _)) \<Rightarrow>
           (case construct_tx_context S T v now tx with_ring_signatures of
              Inl e \<Rightarrow> Inl e
            | Inr tx_context \<Rightarrow>
              if jget ''has_error'' tx_context = JBool True
              then Inr (PlainText (case jget ''error_msg'' tx_context of JStr m \<Rightarrow> m | _ \<Rightarrow> []))
              else Inr (Rendered ''tx'' (add_page_assets S
                     (JObj [(''testnet'', JBool (st_testnet S)), (''stagenet'', JBool (st_stagenet S)),
                            (''txs'', JArr [jset ''show_more_details_link'' (JBool True) tx_context]),
                            (''refresh'', JBool refresh_page), (''tx_hash'', JStr tx_hash_str)]))))))"

definition erased_members :: "string list" where
  "erased_members = [''timescales'', ''tx_json'', ''tx_json_raw'', ''enable_mixins_details'', ''with_ring_signatures'',
     ''show_part_of_inputs'', ''show_more_details_link'', ''max_no_of_inputs_to_show'', ''inputs_xmr_sum_not_zero'',
     ''have_raw_tx'', ''have_any_unknown_amount'', ''has_error'', ''error_msg'', ''server_time'', ''construction_time'']"

definition json_detailedtransaction ::
    "site \<Rightarrow> tx_env \<Rightarrow> page_view \<Rightarrow> mempool_status \<Rightarrow> u64 \<Rightarrow> string \<Rightarrow> db_exn + json" where
  "json_detailedtransaction S T v ms now tx_hash_str =
     (case find_tx_for_json (st_lib S) v ms tx_hash_str of
        Inl e \<Rightarrow> Inl e
      | Inr (Inl msg) \<Rightarrow> Inr (fail_title msg)
      | Inr (Inr (tx, _, _)) \<Rightarrow>
        (case construct_tx_context S T v now tx True of
           Inl e \<Rightarrow> Inl e
         | Inr ctx \<Rightarrow> Inr (jsend ''success'' (fold jerase erased_members ctx))))"

section \<open>Confidential amounts stay hidden\<close>

definition hides_amount :: "json \<Rightarrow> bool" where
  "hides_amount row \<longleftrightarrow> jget ''amount'' row = JStr ''confidential''"

lemma tx_input_rows_done:
  "tx_input_rows S T v now confidential detailed part txd ks st = Inr (Inr st') \<Longrightarrow>
    is_idx st = length (is_rows st) \<Longrightarrow> length (is_rows st) \<le> (if part then 11 else length (is_rows st)) \<Longrightarrow>
    list_all (\<lambda>r. confidential \<longrightarrow> hides_amount r) (is_rows st) \<Longrightarrow>
    list_all (\<lambda>r. confidential \<longrightarrow> hides_amount r) (is_rows st')
      \<and> length (is_rows st') \<le> (if part then 11 else length (is_rows st) + length ks)"
proof (induction ks arbitrary: st)
  case (Cons k ks)
  show ?case
  proof (cases "part \<and> max_no_of_inputs_to_show < is_idx st")
    case True
    then show ?thesis using Cons.prems by auto
  next
    case False
    let ?offs = "absolute_output_offsets (st_lib S) (key_offsets k)"
    note d = Cons.prems(1) [unfolded tx_input_rows.simps if_not_P [OF False] Let_def]
    show ?thesis
    proof (cases "are_absolute_offsets_good v ?offs k")
      case bad: False
      then have "tx_input_rows S T v now confidential detailed part txd ks st = Inr (Inr st')" using d by simp
      from Cons.IH [OF this Cons.prems(2-4)] show ?thesis by (auto split: if_splits)
    next
      case good: True
      with d obtain outs where outs: "output_keys v (in_amount k) ?offs = Some outs" by (auto split: option.splits)
      with d good obtain mixins stamps err where
        m: "mixin_rows S T v now detailed (in_amount k) outs ?offs 0 [] [] (is_err st) = Inr (Inr (mixins, stamps, err))"
        by (auto split: sum.splits)
      let ?row = "input_row S confidential detailed txd k (is_idx st) mixins"
      let ?st = "\<lparr>is_rows = is_rows st @ [?row], is_idx = is_idx st + 1, is_sum = is_sum st + in_amount k,
          is_unknown = (is_unknown st \<or> in_amount k = 0), is_groups = is_groups st @ [stamps], is_err = err\<rparr>"
      have run: "tx_input_rows S T v now confidential detailed part txd ks ?st = Inr (Inr st')"
        using d good outs m by simp
      have "confidential \<longrightarrow> hides_amount ?row" by (simp add: hides_amount_def input_row_def)
      then have "list_all (\<lambda>r. confidential \<longrightarrow> hides_amount r) (is_rows ?st)" using Cons.prems(4) by simp
      moreover have "length (is_rows ?st) \<le> (if part then 11 else length (is_rows ?st))"
        using False Cons.prems(2) by (auto simp: max_no_of_inputs_to_show_def)
      ultimately show ?thesis using Cons.IH [OF run] Cons.prems(2) by (auto split: if_splits)
    qed
  qed
qed auto

lemma output_rows_done:
  "output_rows S T v confidential ix outs n rows sm = Some (rows', sm') \<Longrightarrow>
    list_all (\<lambda>r. confidential \<longrightarrow> hides_amount r) rows \<Longrightarrow>
    list_all (\<lambda>r. confidential \<longrightarrow> hides_amount r) rows' \<and> length rows' = length rows + length outs"
proof (induction outs arbitrary: n rows sm)
  case (Cons out outs)
  from Cons.prems(1) have "output_rows S T v confidential ix outs (n + 1)
      (rows @ [output_row S T v confidential (if ix = [] then ''N/A'' else u64_to_string (ix ! n)) out n])
      (if confidential then sm else sm + fst (snd out)) = Some (rows', sm')"
    by (auto split: if_splits)
  from Cons.IH [OF this] Cons.prems(2) show ?case
    by (auto simp: hides_amount_def output_row_def split: prod.splits)
qed simp

lemma tx_base_context_lacks:
  "map_of (tx_base_context S T now tx txd r found err) ''inputs'' = None"
  "map_of (tx_base_context S T now tx txd r found err) ''outputs'' = None"
  "map_of (tx_base_context S T now tx txd r found err) ''inputs_xmr_sum'' = None"
  "map_of (tx_base_context S T now tx txd r found err) ''outputs_xmr_sum'' = None"
  "map_of (tx_base_context S T now tx txd r found err) ''has_error'' = Some (JBool (err \<noteq> None))"
  "map_of (tx_base_context S T now tx txd r found err) ''error_msg'' = Some (JStr (case err of None \<Rightarrow> [] | Some m \<Rightarrow> m))"
  by (simp_all add: tx_base_context_def Let_def)

lemma detail_context_lacks:
  assumes "detail_context T now tx gs = Some d"
  shows "map_of d ''inputs'' = None" "map_of d ''outputs'' = None"
    "map_of d ''inputs_xmr_sum'' = None" "map_of d ''outputs_xmr_sum'' = None"
  using assms by (auto simp: detail_context_def split: option.splits)

text \<open>The two shapes of a context: abandoned with a message, or complete.\<close>

lemma construct_tx_context_cases:
  assumes "construct_tx_context S T v now tx rings = Inr ctx"
  obtains (abandoned) txd found msg where "get_tx_details (st_lib S) v tx False 0 0 = Inr txd"
      "ctx = JObj (tx_base_context S T now tx txd rings found (Some msg) @ [(''tx_prefix_hash'', JStr [])])"
    | (complete) txd st outs detailed part where "get_tx_details (st_lib S) v tx False 0 0 = Inr txd"
      "detailed = (st_enable_mixins_details S \<or> rings)" "part = (10 < length (td_input_key_imgs txd) \<and> \<not> detailed)"
      "tx_input_rows S T v now (is_ringct (st_lib S) tx) detailed part txd (td_input_key_imgs txd) no_inputs_yet = Inr (Inr st)"
      "\<exists>sm sm'. output_rows S T v (is_ringct (st_lib S) tx) (te_amount_indices T (td_hash txd)) (td_output_pub_keys txd) 0 [] sm = Some (outs, sm')"
      "jget ''has_error'' ctx = JBool (is_err st \<noteq> None)"
      "jget ''inputs'' ctx = JArr (is_rows st)" "jget ''outputs'' ctx = JArr outs"
      "is_ringct (st_lib S) tx \<longrightarrow> jget ''inputs_xmr_sum'' ctx = JStr ''confidential'' \<and> jget ''outputs_xmr_sum'' ctx = JStr ''confidential''"
proof -
  let ?conf = "is_ringct (st_lib S) tx" and ?det = "st_enable_mixins_details S \<or> rings"
  note d = assms [unfolded construct_tx_context_def Let_def]
  from d obtain txd where txd: "get_tx_details (st_lib S) v tx False 0 0 = Inr txd" by (auto split: sum.splits)
  note d = d [unfolded txd sum.case]
  let ?part = "max_no_of_inputs_to_show < length (td_input_key_imgs txd) \<and> \<not> ?det"
  let ?height = "if have_tx (pv_chain v) (td_hash txd) then map_sum id Some (tx_block_height v (td_hash txd)) else Inr None"
  from d obtain h where h: "?height = Inr h" by (cases ?height) auto
  note d = d [unfolded h sum.case]
  let ?found = "case h of None \<Rightarrow> None | Some n \<Rightarrow> Some (n, case get_block_by_height (pv_chain v) n of None \<Rightarrow> te_blank_block T | Some b \<Rightarrow> b)"
  let ?in = "tx_input_rows S T v now ?conf ?det ?part txd (td_input_key_imgs txd) no_inputs_yet"
  from d obtain r where r: "?in = Inr r" by (cases ?in) auto
  note d = d [unfolded r sum.case]
  show ?thesis
  proof (cases r)
    case (Inl msg)
    with d abandoned [OF txd] show ?thesis by auto
  next
    case (Inr st)
    note d = d [unfolded Inr sum.case]
    let ?dc = "if ?det then detail_context T now tx (is_groups st) else Some [(''tx_prefix_hash'', JStr [])]"
    from d obtain dc where dc: "?dc = Some dc" by (cases ?dc) auto
    note d = d [unfolded dc option.case]
    let ?outs = "output_rows S T v ?conf (te_amount_indices T (td_hash txd)) (td_output_pub_keys txd) 0 [] 0"
    from d obtain outs sm where outs: "?outs = Some (outs, sm)" by (cases ?outs) auto
    note d = d [unfolded outs option.case prod.case sum.inject]
    have lacks: "map_of dc ''inputs'' = None" "map_of dc ''outputs'' = None"
        "map_of dc ''inputs_xmr_sum'' = None" "map_of dc ''outputs_xmr_sum'' = None"
      using dc detail_context_lacks by (auto split: if_splits)
    have "?part \<longleftrightarrow> 10 < length (td_input_key_imgs txd) \<and> \<not> ?det" by (simp add: max_no_of_inputs_to_show_def)
    then show ?thesis
      using r Inr outs
      by (intro complete [OF txd refl, of ?part st outs])
         (auto simp: d [symmetric] jget_JObj_append tx_base_context_lacks lacks)
  qed
qed

text \<open>
  The page of a transaction keeps confidential amounts hidden: for a confidential transaction every
  input, every output and both sums read \<open>confidential\<close>; every output has a row, and without the
  detailed view at most eleven inputs are shown.
\<close>

theorem tx_context_hides_amounts:
  assumes "construct_tx_context S T v now tx rings = Inr ctx" "jget ''has_error'' ctx = JBool False"
  shows "\<exists>ins outs txd. get_tx_details (st_lib S) v tx False 0 0 = Inr txd
    \<and> jget ''inputs'' ctx = JArr ins \<and> jget ''outputs'' ctx = JArr outs \<and> length outs = length (td_output_pub_keys txd)
    \<and> (is_ringct (st_lib S) tx \<longrightarrow> list_all hides_amount ins \<and> list_all hides_amount outs
        \<and> jget ''inputs_xmr_sum'' ctx = JStr ''confidential'' \<and> jget ''outputs_xmr_sum'' ctx = JStr ''confidential'')
    \<and> (\<not> st_enable_mixins_details S \<and> \<not> rings \<longrightarrow> length ins \<le> 11)"
  using assms(1)
proof (cases rule: construct_tx_context_cases)
  case abandoned
  then show ?thesis using assms(2) by (simp add: jget_JObj_append tx_base_context_lacks)
next
  case (complete txd st outs detailed part)
  have start: "is_idx no_inputs_yet = length (is_rows no_inputs_yet)" "is_rows no_inputs_yet = []"
    by (simp_all add: no_inputs_yet_def)
  have ins: "list_all (\<lambda>r. is_ringct (st_lib S) tx \<longrightarrow> hides_amount r) (is_rows st)"
      "length (is_rows st) \<le> (if part then 11 else length (td_input_key_imgs txd))"
    using tx_input_rows_done [OF complete(4) start(1)] by (auto simp: start split: if_splits)
  from complete(5) obtain sm sm' where
    "output_rows S T v (is_ringct (st_lib S) tx) (te_amount_indices T (td_hash txd)) (td_output_pub_keys txd) 0 [] sm = Some (outs, sm')"
    by blast
  from output_rows_done [OF this]
  have outs: "list_all (\<lambda>r. is_ringct (st_lib S) tx \<longrightarrow> hides_amount r) outs" "length outs = length (td_output_pub_keys txd)"
    by simp_all
  have "\<not> st_enable_mixins_details S \<and> \<not> rings \<longrightarrow> length (is_rows st) \<le> 11"
    using ins(2) complete(2,3) by (auto split: if_splits)
  then show ?thesis
    using complete(1,7,8,9) ins(1) outs
    by (intro exI [of _ "is_rows st"] exI [of _ outs] exI [of _ txd]) (simp add: list_all_iff)
qed

section \<open>Lost errors\<close>

lemma jget_jerase_same: "jget k (jerase k j) = JNull"
  by (cases j) (auto simp: jget_def map_of_eq_None_iff split: option.splits dest!: map_of_SomeD)

lemma jget_fold_jerase: "jget k j = JNull \<Longrightarrow> jget k (fold jerase ks j) = JNull"
proof (induction ks arbitrary: j)
  case (Cons k' ks)
  show ?case using Cons by (cases "k' = k") (simp_all add: jget_jerase_same)
qed simp

lemma jget_erased: "k \<in> set ks \<Longrightarrow> jget k (fold jerase ks j) = JNull"
proof (induction ks arbitrary: j)
  case (Cons k' ks)
  show ?case using Cons by (cases "k' = k") (simp_all add: jget_jerase_same jget_fold_jerase)
qed simp

text \<open>
  The detailed answer of the API loses errors: when the context of a transaction was abandoned or a
  ring member could not be read, the answer still says success, and the members that would tell the
  client are erased.
\<close>

theorem detailed_transaction_loses_error:
  assumes "find_tx_for_json (st_lib S) v ms s = Inr (Inr (tx, pool, received))"
    and "construct_tx_context S T v now tx True = Inr ctx" "jget ''has_error'' ctx = JBool True"
  shows "\<exists>j. json_detailedtransaction S T v ms now s = Inr j \<and> is_success j
    \<and> jget ''has_error'' (jget ''data'' j) = JNull \<and> jget ''error_msg'' (jget ''data'' j) = JNull"
proof -
  have "''has_error'' \<in> set erased_members" "''error_msg'' \<in> set erased_members" by (simp_all add: erased_members_def)
  then show ?thesis using assms by (simp add: json_detailedtransaction_def jget_erased)
qed

section \<open>A confidential transaction\<close>

definition ring_input :: txin_to_key where
  "ring_input = \<lparr>in_amount = 0, key_offsets = [4], k_image = ''ki''\<rparr>"

definition secret_tx :: transaction where
  "secret_tx = sample_coinbase\<lparr>vin := [TxinToKey ring_input], rct_type := 1\<rparr>"

definition sample_tx_env :: tx_env where
  "sample_tx_env = \<lparr>te_tx_json = (\<lambda>_. []), te_prefix_hash = (\<lambda>_. []), te_blank_tx = sample_coinbase,
     te_blank_block = genesis_block, te_view_tag = (\<lambda>_. []), te_what = ''gone'', te_amount_indices = (\<lambda>_. []),
     te_place = (\<lambda>_ _ _. 0), te_scale_days = (\<lambda>_. [])\<rparr>"

text \<open>The database that lacks the outputs, and what the two databases say of the ring.\<close>

definition gone_view :: page_view where
  "gone_view = ring_view\<lparr>output_keys := (\<lambda>_ _. None)\<rparr>"

lemma ring_input_simps:
  "absolute_output_offsets sample_lib (key_offsets ring_input) = [4]"
  "are_absolute_offsets_good ring_view [4] ring_input" "are_absolute_offsets_good gone_view [4] ring_input"
  "output_keys ring_view a os = Some [(''kk'', 3)]" "output_keys gone_view a os = None"
  "output_tx_and_index ring_view a i = Some (''tt'', 0)"
  "\<not> have_tx (pv_chain ring_view) h" "\<not> have_tx (pv_chain gone_view) h"
  by (simp_all add: sample_lib_def ring_input_def ring_view_def gone_view_def are_absolute_offsets_good_def sample_view_def)

lemma secret_tx_simps:
  "is_ringct sample_lib secret_tx" "vin secret_tx = [TxinToKey ring_input]" "vout secret_tx = vout sample_coinbase"
  by (simp_all add: is_ringct_def transaction_amounts_confidential_def secret_tx_def sample_lib_def plain_core_def
      sample_coinbase_def)

lemma secret_details:
  assumes "\<not> have_tx (pv_chain v) (tx_hash_of sample_lib secret_tx)"
  shows "\<exists>txd. get_tx_details sample_lib v secret_tx False 0 0 = Inr txd \<and> td_input_key_imgs txd = [ring_input]
    \<and> td_hash txd = tx_hash_of sample_lib secret_tx"
proof -
  have "snd (snd (summary_of_in_out_rct plain_core secret_tx [] [])) = [ring_input]"
    by (simp add: summary_of_in_out_rct_def secret_tx_simps Let_def split: prod.splits)
  then obtain a b c d ks where s: "summary_of_in_out_rct plain_core secret_tx [] [] = ((a, b, c, d), ks, [ring_input])"
    by (metis prod.collapse)
  obtain e pid pid8 where
    "get_payment_id (extra_nonce sample_lib) (encrypted_payment_id sample_lib) (plain_payment_id sample_lib) (tx_extra secret_tx) = (e, pid, pid8)"
    by (metis prod_cases3)
  with s assms show ?thesis by (simp add: get_tx_details_def Let_def) (simp add: sample_lib_def)
qed

theorem tx_context_hides_amounts_witness:
  "\<exists>ctx ins. construct_tx_context sample_site sample_tx_env ring_view 100 secret_tx False = Inr ctx
     \<and> jget ''inputs'' ctx = JArr ins \<and> list_all hides_amount ins"
proof -
  obtain txd where txd: "get_tx_details sample_lib ring_view secret_tx False 0 0 = Inr txd" "td_input_key_imgs txd = [ring_input]"
    "td_hash txd = tx_hash_of sample_lib secret_tx" using secret_details [OF ring_input_simps(7)] by blast
  have lib: "st_lib sample_site = sample_lib" "\<not> st_enable_mixins_details sample_site" by (simp_all add: sample_site_def)
  have ix: "te_amount_indices sample_tx_env h = []" for h by (simp add: sample_tx_env_def)
  have outs: "\<exists>r. output_rows sample_site sample_tx_env ring_view c [] os n rows sm = Some r" for c os n rows sm
    by (induction os arbitrary: n rows sm) simp_all
  obtain ctx where ctx: "construct_tx_context sample_site sample_tx_env ring_view 100 secret_tx False = Inr ctx"
    "jget ''has_error'' ctx = JBool False"
  proof -
    have "\<exists>ctx. construct_tx_context sample_site sample_tx_env ring_view 100 secret_tx False = Inr ctx
        \<and> jget ''has_error'' ctx = JBool False"
      using outs [of True "td_output_pub_keys txd" 0 "[]" 0]
      by (auto simp: construct_tx_context_def lib txd secret_tx_simps max_no_of_inputs_to_show_def no_inputs_yet_def
          ring_input_simps ix jget_JObj_append tx_base_context_lacks Let_def split: prod.splits)
    with that show ?thesis by blast
  qed
  from tx_context_hides_amounts [OF ctx] ctx(1) show ?thesis using secret_tx_simps(1) lib(1) by auto
qed

text \<open>The same transaction in the pool, over a database that has none of the outputs it spends.\<close>

definition secret_pool :: mempool_status where
  "secret_pool = (initial_status sample_network_info)\<lparr>mempool_txs := Some [sample_pool_tx\<lparr>mt_tx := secret_tx\<rparr>]\<rparr>"

lemma secret_found:
  "find_tx_for_json sample_lib gone_view secret_pool (replicate 64 CHR ''b'') = Inr (Inr (secret_tx, True, 99))"
proof -
  let ?h = "replicate 64 CHR ''b''" and ?pool = "[sample_pool_tx\<lparr>mt_tx := secret_tx\<rparr>]"
  have "parse_str_secret_key (pl_core sample_lib) ?h = Some ?h"
    by (simp add: sample_lib_def plain_core_def parse_str_secret_key_def)
  moreover have "find_tx gone_view secret_pool ?h = Inr (Some (secret_tx, True, 99))"
    by (subst find_tx_correct [where found = None and txs = ?pool])
       (simp_all add: secret_pool_def sample_pool_tx_def null_hash_def micro_get_tx_def gone_view_def ring_view_def sample_view_simps)
  ultimately show ?thesis by (simp add: find_tx_for_json_def)
qed

theorem detailed_transaction_loses_error_witness:
  "\<exists>j. json_detailedtransaction sample_site sample_tx_env gone_view secret_pool 100 (replicate 64 CHR ''b'') = Inr j
     \<and> is_success j \<and> jget ''has_error'' (jget ''data'' j) = JNull \<and> jget ''error_msg'' (jget ''data'' j) = JNull"
proof -
  obtain txd where txd: "get_tx_details sample_lib gone_view secret_tx False 0 0 = Inr txd" "td_input_key_imgs txd = [ring_input]"
    using secret_details [OF ring_input_simps(8)] by blast
  have lib: "st_lib sample_site = sample_lib" by (simp add: sample_site_def)
  have "\<exists>ctx. construct_tx_context sample_site sample_tx_env gone_view 100 secret_tx True = Inr ctx
      \<and> jget ''has_error'' ctx = JBool True"
    by (simp add: construct_tx_context_def lib txd no_inputs_yet_def ring_input_simps jget_JObj_append
        tx_base_context_lacks Let_def)
  then obtain ctx where ctx: "construct_tx_context sample_site sample_tx_env gone_view 100 secret_tx True = Inr ctx"
    "jget ''has_error'' ctx = JBool True" by blast
  from detailed_transaction_loses_error [OF secret_found [folded lib] ctx] show ?thesis .
qed

end
