(* ===== verification/Outputs.thy ===== *)
theory Outputs
  imports Service
begin

text \<open>
  The search for one's own outputs (\<open>json_outputs\<close>, \<open>json_outputsblocks\<close> and \<open>find_our_outputs\<close> of
  \<open>src/src/page.h\<close>, with the helpers of \<open>src/src/tools.cpp\<close> they call). The cryptography of the core
  is a parameter. The theorems show that the answer for one transaction marks exactly the outputs
  of the address, that both searches agree, that a request for a range of blocks ends, and what a
  successful answer for a range has searched.
\<close>

section \<open>The cryptography of the core\<close>

text \<open>
  What a search for one's own outputs takes from the core: the configured network, reading and
  printing an address, the derivation of a shared secret from a public and a secret key (\<open>None\<close> for
  \<open>false\<close>), the key an output for the given spend key would have (what the key variable
  holds after \<open>derive_public_key\<close>, whose result the code ignores), the two decoders of a hidden
  amount (\<open>None\<close> when they throw) with the types of signature they read, and the decryption of
  a short payment id.
\<close>

record wallet_address =
  wa_view_public :: hash
  wa_spend_public :: hash
  wa_hex :: string
  wa_is_subaddress :: bool
  wa_payment_id :: hash

record wallet_crypto =
  wc_nettype :: network_type
  wc_address :: "network_type \<Rightarrow> string \<Rightarrow> wallet_address option"
  wc_address_text :: "network_type \<Rightarrow> bool \<Rightarrow> wallet_address \<Rightarrow> string"
  wc_derivation :: "hash \<Rightarrow> hash \<Rightarrow> string option"
  wc_derive_public_key :: "string \<Rightarrow> nat \<Rightarrow> hash \<Rightarrow> hash"
  wc_simple_types :: "8 word list"
  wc_full_type :: "8 word"
  wc_decode_simple :: "transaction \<Rightarrow> string \<Rightarrow> nat \<Rightarrow> u64 option"
  wc_decode_full :: "transaction \<Rightarrow> string \<Rightarrow> nat \<Rightarrow> u64 option"
  wc_decrypt_payment_id :: "hash \<Rightarrow> hash \<Rightarrow> hash \<Rightarrow> hash option"

text \<open>
  \<open>parse_str_address\<close> and \<open>decode_ringct\<close> of \<open>src/tools.cpp\<close>; the second returns the amount
  argument beside its result, unchanged when it fails.
\<close>

definition parse_str_address :: "wallet_crypto \<Rightarrow> network_type \<Rightarrow> string \<Rightarrow> wallet_address option" where
  "parse_str_address W nettype address_str =
     (case wc_address W nettype address_str of None \<Rightarrow> None | Some a \<Rightarrow> Some a)"

definition decode_ringct :: "wallet_crypto \<Rightarrow> transaction \<Rightarrow> string \<Rightarrow> nat \<Rightarrow> u64 \<Rightarrow> bool \<times> u64" where
  "decode_ringct W tx derivation i amount =
     (if rct_type tx \<in> set (wc_simple_types W)
      then (case wc_decode_simple W tx derivation i of None \<Rightarrow> (False, amount) | Some a \<Rightarrow> (True, a))
      else if rct_type tx = wc_full_type W
      then (case wc_decode_full W tx derivation i of None \<Rightarrow> (False, amount) | Some a \<Rightarrow> (True, a))
      else (False, amount))"

definition decode_ringct_of_keys ::
    "wallet_crypto \<Rightarrow> transaction \<Rightarrow> hash \<Rightarrow> hash \<Rightarrow> nat \<Rightarrow> u64 \<Rightarrow> bool \<times> u64" where
  "decode_ringct_of_keys W tx pub sec i amount =
     (case wc_derivation W pub sec of
        None \<Rightarrow> (False, amount)
      | Some derivation \<Rightarrow> decode_ringct W tx derivation i amount)"

text \<open>\<open>print_address\<close> and \<open>is_output_ours\<close>; \<open>None\<close> is an index out of range, which is not tested.\<close>

definition print_address :: "wallet_crypto \<Rightarrow> network_type \<Rightarrow> wallet_address \<Rightarrow> string" where
  "print_address W nettype a = ''<'' @ wc_address_text W nettype (wa_is_subaddress a) a @ ''>''"

definition is_output_ours ::
    "wallet_crypto \<Rightarrow> core_lib \<Rightarrow> nat \<Rightarrow> transaction \<Rightarrow> hash \<Rightarrow> hash \<Rightarrow> hash \<Rightarrow> bool option" where
  "is_output_ours W L output_index tx pub_tx_key private_view_key public_spend_key =
     (case wc_derivation W pub_tx_key private_view_key of
        None \<Rightarrow> Some False
      | Some derivation \<Rightarrow>
        if length (vout tx) \<le> output_index then None
        else Some (output_key L (vout tx ! output_index)
                   = wc_derive_public_key W derivation output_index public_spend_key))"

definition get_payment_id_as_string :: "wallet_crypto \<Rightarrow> tx_details \<Rightarrow> hash \<Rightarrow> string" where
  "get_payment_id_as_string W txd prv_view_key =
     (if td_payment_id8 txd \<noteq> null_hash8
      then (case wc_decrypt_payment_id W (td_payment_id8 txd) (td_pk txd) prv_view_key of
              None \<Rightarrow> [] | Some pid8 \<Rightarrow> pid8)
      else if td_payment_id txd \<noteq> null_hash then td_payment_id txd
      else [])"

section \<open>Whose output it is\<close>

text \<open>The derivations of the additional keys; one that fails ends the loop.\<close>

fun derive_additional :: "wallet_crypto \<Rightarrow> hash \<Rightarrow> hash list \<Rightarrow> string list option" where
  "derive_additional W key [] = Some []"
| "derive_additional W key (pk # pks) =
     (case wc_derivation W pk key of
        None \<Rightarrow> None
      | Some d \<Rightarrow> (case derive_additional W key pks of None \<Rightarrow> None | Some ds \<Rightarrow> Some (d # ds)))"

text \<open>
  The test both searches make: the key derived from the transaction's key, and where that is
  another and there is an additional key for every output, the one derived from it. The result
  has the outcome and the derivation with which a hidden amount is decoded.
\<close>

definition match_output ::
    "wallet_crypto \<Rightarrow> tx_details \<Rightarrow> hash \<Rightarrow> string \<Rightarrow> string list \<Rightarrow> nat \<Rightarrow> hash \<Rightarrow> bool \<times> string" where
  "match_output W txd spend derivation additional n out_key =
     (if out_key \<noteq> wc_derive_public_key W derivation n spend
         \<and> length (td_additional_pks txd) = length (td_output_pub_keys txd)
      then (out_key = wc_derive_public_key W (additional ! n) n spend, additional ! n)
      else (out_key = wc_derive_public_key W derivation n spend, derivation))"

definition hidden_amount :: "page_lib \<Rightarrow> transaction \<Rightarrow> bool" where
  "hidden_amount P tx \<longleftrightarrow> tx_version tx = 2 \<and> \<not> is_coinbase (pl_core P) tx"

section \<open>The outputs of one transaction\<close>

text \<open>
  The loop of \<open>json_outputs\<close>: every output has a row. The amount of a matching output of a
  confidential transaction is decoded; where that fails it is the initial zero of
  \<open>money_transfered\<close>. The table \<open>ecdhInfo\<close> is read at the output's index without a test.
\<close>

fun output_match_rows ::
    "wallet_crypto \<Rightarrow> page_lib \<Rightarrow> transaction \<Rightarrow> tx_details \<Rightarrow> hash \<Rightarrow> string \<Rightarrow> string list \<Rightarrow>
       output_tuple list \<Rightarrow> nat \<Rightarrow> json list \<Rightarrow> json list" where
  "output_match_rows W P tx txd spend d ds [] n rows = rows"
| "output_match_rows W P tx txd spend d ds ((out_key, plain, tag) # outs) n rows =
     (case match_output W txd spend d ds n out_key of (mine, derivation_to_use) \<Rightarrow>
        let xmr_amount = (if mine \<and> hidden_amount P tx
                          then snd (decode_ringct W tx derivation_to_use n 0) else plain)
        in output_match_rows W P tx txd spend d ds outs (n + 1)
             (rows @ [JObj [(''output_pubkey'', JStr out_key), (''amount'', JU64 xmr_amount),
                            (''match'', JBool mine), (''output_idx'', JNum (int n))]]))"

text \<open>
  \<open>page::json_outputs\<close>. \<open>uninit\<close> is what an unassigned block height holds, \<open>blank\<close> the
  default-constructed block.
\<close>

definition json_outputs ::
    "wallet_crypto \<Rightarrow> page_lib \<Rightarrow> u64 \<Rightarrow> block \<Rightarrow> page_world \<Rightarrow> nat \<Rightarrow> mempool_status \<Rightarrow>
       string \<Rightarrow> string \<Rightarrow> string \<Rightarrow> bool \<Rightarrow> db_exn + json" where
  "json_outputs W P uninit blank w t ms tx_hash_arg address_arg viewkey_arg tx_prove =
     (let tx_hash_str = trim tx_hash_arg; address_str = trim address_arg; viewkey_str = trim viewkey_arg in
      if tx_hash_str = [] then Inr (error_message JNull ''Tx hash not provided'')
      else if address_str = [] then Inr (error_message JNull ''Qwertycoin address not provided'')
      else if viewkey_str = []
      then Inr (error_message JNull (if tx_prove then ''Tx private key not provided'' else ''Viewkey not provided''))
      else case parse_str_secret_key (pl_core P) tx_hash_str of
        None \<Rightarrow> Inr (error_message JNull (''Cant parse tx hash: '' @ tx_hash_str))
      | Some txh \<Rightarrow>
      (case parse_str_address W (wc_nettype W) address_str of
        None \<Rightarrow> Inr (error_message JNull (''Cant parse Qwertycoin address: '' @ address_str))
      | Some address \<Rightarrow>
      (case parse_str_secret_key (pl_core P) viewkey_str of
        None \<Rightarrow> Inr (error_message JNull ''Cant parse view key or tx private key'')
      | Some prv_view_key \<Rightarrow>
      (case find_tx (w t) ms txh of
        Inl e \<Rightarrow> Inl e
      | Inr None \<Rightarrow> Inr (fail_title (''Cant find tx hash: '' @ tx_hash_str))
      | Inr (Some (tx, found_in_mempool, tx_timestamp)) \<Rightarrow>
      (case get_tx_details P (w (t + 1)) tx False 0 0 of
        Inl e \<Rightarrow> Inl e
      | Inr txd \<Rightarrow>
      (case wc_derivation W (if tx_prove then wa_view_public address else td_pk txd) prv_view_key of
        None \<Rightarrow> Inr (error_message JNull ''Cant calculate key_derivation'')
      | Some derivation \<Rightarrow>
      (case derive_additional W prv_view_key (td_additional_pks txd) of
        None \<Rightarrow> Inr (error_message JNull ''Cant calculate key_derivation'')
      | Some additional \<Rightarrow>
        let rows = output_match_rows W P tx txd (wa_spend_public address) derivation additional
                     (td_output_pub_keys txd) 0 [];
            blk_height = (case td_blk_height txd of None \<Rightarrow> uninit | Some h \<Rightarrow> h);
            stamp = (if tx_timestamp = 0 \<and> 0 < blk_height
                     then blk_timestamp (case get_block_by_height (pv_chain (w (t + 2))) blk_height of
                                           None \<Rightarrow> blank | Some b \<Rightarrow> b)
                     else tx_timestamp)
        in Inr (jsend ''success''
             (JObj [(''outputs'', JArr rows), (''tx_hash'', JStr (td_hash txd)), (''address'', JStr (wa_hex address)),
                    (''tx_prove'', JBool tx_prove), (''tx_confirmations'', JU64 (td_no_confirmations txd)),
                    (''tx_timestamp'', JU64 stamp)])))))))))"

section \<open>Own outputs of many transactions\<close>

definition own_output_json ::
    "wallet_crypto \<Rightarrow> tx_details \<Rightarrow> hash \<Rightarrow> u64 \<Rightarrow> bool \<Rightarrow> hash \<Rightarrow> u64 \<Rightarrow> nat \<Rightarrow> json" where
  "own_output_json W txd prv_view_key block_no is_mempool out_key amount n =
     JObj [(''output_pubkey'', JStr out_key), (''amount'', JU64 amount), (''block_no'', JU64 block_no),
           (''in_mempool'', JBool is_mempool), (''output_idx'', JNum (int n)), (''tx_hash'', JStr (td_hash txd)),
           (''payment_id'', JStr (get_payment_id_as_string W txd prv_view_key))]"

text \<open>
  The loop over the outputs of one transaction in \<open>find_our_outputs\<close>. The first component says
  whether it failed, with its message; the rows found so far are kept either way, as the code
  pushes them to its argument.
\<close>

fun own_outputs ::
    "wallet_crypto \<Rightarrow> page_lib \<Rightarrow> transaction \<Rightarrow> tx_details \<Rightarrow> wallet_address \<Rightarrow> hash \<Rightarrow> string \<Rightarrow> string list \<Rightarrow>
       u64 \<Rightarrow> bool \<Rightarrow> output_tuple list \<Rightarrow> nat \<Rightarrow> json list \<Rightarrow> string option \<times> json list" where
  "own_outputs W P tx txd address key d ds block_no is_mempool [] n rows = (None, rows)"
| "own_outputs W P tx txd address key d ds block_no is_mempool ((out_key, plain, tag) # outs) n rows =
     (case match_output W txd (wa_spend_public address) d ds n out_key of (mine, derivation_to_use) \<Rightarrow>
        if mine \<and> hidden_amount P tx
        then (case decode_ringct W tx derivation_to_use n 0 of
                (False, _) \<Rightarrow> (Some (''Cant decode ringct for tx: '' @ td_hash txd), rows)
              | (True, a) \<Rightarrow> own_outputs W P tx txd address key d ds block_no is_mempool outs (n + 1)
                               (rows @ [own_output_json W txd key block_no is_mempool out_key a n]))
        else own_outputs W P tx txd address key d ds block_no is_mempool outs (n + 1)
               (if mine then rows @ [own_output_json W txd key block_no is_mempool out_key plain n] else rows))"

fun find_our_outputs ::
    "wallet_crypto \<Rightarrow> page_lib \<Rightarrow> page_world \<Rightarrow> nat \<Rightarrow> wallet_address \<Rightarrow> hash \<Rightarrow> u64 \<Rightarrow> bool \<Rightarrow> transaction list \<Rightarrow>
       json list \<Rightarrow> db_exn + string option \<times> json list" where
  "find_our_outputs W P w t address key block_no is_mempool [] rows = Inr (None, rows)"
| "find_our_outputs W P w t address key block_no is_mempool (tx # txs) rows =
     (case get_tx_details P (w t) tx False 0 0 of
        Inl e \<Rightarrow> Inl e
      | Inr txd \<Rightarrow>
        (case wc_derivation W (td_pk txd) key of
           None \<Rightarrow> Inr (Some ''Cant calculate key_derivation'', rows)
         | Some d \<Rightarrow>
           (case derive_additional W key (td_additional_pks txd) of
              None \<Rightarrow> Inr (Some ''Cant calculate key_derivation'', rows)
            | Some ds \<Rightarrow>
              (case own_outputs W P tx txd address key d ds block_no is_mempool (td_output_pub_keys txd) 0 rows of
                 (Some msg, rows') \<Rightarrow> Inr (Some msg, rows')
               | (None, rows') \<Rightarrow> find_our_outputs W P w (t + 1) address key block_no is_mempool txs rows'))))"

section \<open>A range of blocks\<close>

definition signed_text :: "u64 \<Rightarrow> string" where
  "signed_text x = (if sint x < 0 then ''-'' @ nat_to_dec (nat (- sint x)) else nat_to_dec (nat (sint x)))"

text \<open>
  The loop of \<open>json_outputsblocks\<close>. The counter is an \<open>int64_t\<close>, which the comparison with the
  unsigned lower end converts: below zero it is larger than any height. Nothing but the lower end
  and the failure to read a block ends the loop, so it is a partial function.
\<close>

partial_function (option) outputs_blocks_loop ::
    "wallet_crypto \<Rightarrow> page_lib \<Rightarrow> page_world \<Rightarrow> wallet_address \<Rightarrow> hash \<Rightarrow> u64 \<Rightarrow> nat \<Rightarrow> u64 \<Rightarrow> json list \<Rightarrow>
       (db_exn + string option \<times> json list) option" where
  "outputs_blocks_loop W P w address key start_block t block_no rows =
     (if block_no < start_block then Some (Inr (None, rows))
      else case get_block_by_height (pv_chain (w t)) block_no of
             None \<Rightarrow> Some (Inr (Some (''Cant get block: '' @ signed_text block_no), rows))
           | Some blk \<Rightarrow>
             (case get_transactions (pv_chain (w (t + 1))) (tx_hashes blk) of
                (ok, txs, missed_txs) \<Rightarrow>
                  if \<not> ok
                  then Some (Inr (Some (''Cant get transactions in block: '' @ signed_text block_no), rows))
                  else (case find_our_outputs W P w (t + 2) address key block_no False (miner_tx blk # txs) rows of
                          Inl e \<Rightarrow> Some (Inl e)
                        | Inr (found, rows') \<Rightarrow>
                          if found \<noteq> None then Some (Inr (found, rows'))
                          else outputs_blocks_loop W P w address key start_block
                                 (t + 3 + length txs) (block_no - 1) rows')))"

definition outputs_data :: "json list \<Rightarrow> json" where
  "outputs_data rows = JObj [(''outputs'', JArr rows)]"

text \<open>
  \<open>page::json_outputsblocks\<close>; \<open>None\<close> when the loop does not end. The pool is searched first, as
  block 0.
\<close>

definition json_outputsblocks ::
    "wallet_crypto \<Rightarrow> page_lib \<Rightarrow> page_world \<Rightarrow> nat \<Rightarrow> mempool_status \<Rightarrow> string \<Rightarrow> string \<Rightarrow> string \<Rightarrow> string \<Rightarrow> bool \<Rightarrow>
       (db_exn + json) option" where
  "json_outputsblocks W P w t ms startblock_arg endblock_arg address_arg viewkey_arg in_mempool_aswell =
     (let startblock = trim startblock_arg; endblock = trim endblock_arg;
          address_str = trim address_arg; viewkey_str = trim viewkey_arg in
      case lexical_cast_u64 startblock of
        None \<Rightarrow> Some (Inr (fail_title (''Cant parse startblock number: '' @ startblock)))
      | Some start_block \<Rightarrow>
      (case lexical_cast_u64 endblock of
        None \<Rightarrow> Some (Inr (fail_title (''Cant parse endblock number: '' @ endblock)))
      | Some end_block \<Rightarrow>
        let height = current_height (pv_chain (w t)) - 1 in
        if end_block < start_block
        then Some (Inr (error_message JNull (''Start block '' @ u64_to_string start_block
                          @ '' cannot be higher than end block: '' @ u64_to_string end_block)))
        else if height < end_block
        then Some (Inr (error_message JNull (''Start block '' @ u64_to_string start_block
                          @ '' is higher than current blockchain height: '' @ u64_to_string height)))
        else if 5 \<le> end_block - start_block
        then Some (Inr (error_message JNull ''Cant check more than 5 blocks at time''))
        else if address_str = [] then Some (Inr (error_message JNull ''Qwertycoin address not provided''))
        else if viewkey_str = [] then Some (Inr (error_message JNull ''Viewkey not provided''))
        else case parse_str_address W (wc_nettype W) address_str of
          None \<Rightarrow> Some (Inr (error_message JNull (''Cant parse Qwertycoin address: '' @ address_str)))
        | Some address \<Rightarrow>
        (case parse_str_secret_key (pl_core P) viewkey_str of
          None \<Rightarrow> Some (Inr (error_message JNull ''Cant parse view key''))
        | Some key \<Rightarrow>
          let pool = (case mempool_txs ms of None \<Rightarrow> [] | Some ms' \<Rightarrow> map mt_tx ms') in
          case (if in_mempool_aswell then find_our_outputs W P w (t + 1) address key 0 True pool []
                else Inr (None, [])) of
            Inl e \<Rightarrow> Some (Inl e)
          | Inr (Some msg, rows) \<Rightarrow> Some (Inr (error_message (outputs_data rows) msg))
          | Inr (None, rows) \<Rightarrow>
            (case outputs_blocks_loop W P w address key start_block (t + 1 + length pool) end_block rows of
               None \<Rightarrow> None
             | Some (Inl e) \<Rightarrow> Some (Inl e)
             | Some (Inr (Some msg, rows')) \<Rightarrow> Some (Inr (error_message (outputs_data rows') msg))
             | Some (Inr (None, rows')) \<Rightarrow>
               Some (Inr (jsend ''success''
                 (JObj [(''outputs'', JArr rows'), (''address'', JStr (wa_hex address)),
                        (''startblock'', JU64 start_block), (''endblock'', JU64 end_block),
                        (''height'', JU64 height), (''mempool'', JBool in_mempool_aswell)])))))))"

section \<open>Every output has its row\<close>

text \<open>When an output belongs to an address: by the transaction's key, or by the key of its position.\<close>

definition owns ::
    "wallet_crypto \<Rightarrow> tx_details \<Rightarrow> hash \<Rightarrow> string \<Rightarrow> string list \<Rightarrow> nat \<Rightarrow> hash \<Rightarrow> bool" where
  "owns W txd spend d ds n out_key \<longleftrightarrow>
     out_key = wc_derive_public_key W d n spend
     \<or> length (td_additional_pks txd) = length (td_output_pub_keys txd) \<and> out_key = wc_derive_public_key W (ds ! n) n spend"

lemma fst_match_output: "fst (match_output W txd spend d ds n k) \<longleftrightarrow> owns W txd spend d ds n k"
  by (auto simp: match_output_def owns_def)

definition match_row :: "wallet_crypto \<Rightarrow> page_lib \<Rightarrow> transaction \<Rightarrow> tx_details \<Rightarrow> hash \<Rightarrow> string \<Rightarrow> string list \<Rightarrow> nat \<Rightarrow> output_tuple \<Rightarrow> json" where
  "match_row W P tx txd spend d ds n out =
     (case out of (out_key, plain, tag) \<Rightarrow>
        JObj [(''output_pubkey'', JStr out_key),
              (''amount'', JU64 (if owns W txd spend d ds n out_key \<and> hidden_amount P tx
                 then snd (decode_ringct W tx (snd (match_output W txd spend d ds n out_key)) n 0) else plain)),
              (''match'', JBool (owns W txd spend d ds n out_key)), (''output_idx'', JNum (int n))])"

lemma output_match_rows_Cons:
  "output_match_rows W P tx txd spend d ds (out # outs) n rows
     = output_match_rows W P tx txd spend d ds outs (n + 1) (rows @ [match_row W P tx txd spend d ds n out])"
proof -
  obtain k plain tag where out: "out = (k, plain, tag)" by (cases out) auto
  obtain mine use where m: "match_output W txd spend d ds n k = (mine, use)" by fastforce
  with fst_match_output [of W txd spend d ds n k] have "owns W txd spend d ds n k \<longleftrightarrow> mine" by simp
  with m show ?thesis by (simp add: out match_row_def Let_def)
qed

lemma output_match_rows_eq:
  "output_match_rows W P tx txd spend d ds outs n rows
     = rows @ map (\<lambda>(i, out). match_row W P tx txd spend d ds i out) (List.enumerate n outs)"
  by (induction outs arbitrary: n rows) (simp_all add: output_match_rows_Cons del: output_match_rows.simps(2))

text \<open>
  The answer for one transaction lists every output once, in order, and marks exactly those
  of the address: those with the key derived from the transaction's public key, or from the additional key of
  the output's position where there is one for every output. An amount is the public one unless the
  output is matched in a confidential transaction, where it is the decoded one.
\<close>

theorem outputs_answer_exact:
  assumes "json_outputs W P uninit blank w t ms txs_arg address_arg key_arg prove = Inr j" "is_success j"
  shows "\<exists>txh tx pool stamp txd address key d ds rows.
    parse_str_secret_key (pl_core P) (trim txs_arg) = Some txh \<and> find_tx (w t) ms txh = Inr (Some (tx, pool, stamp))
    \<and> parse_str_address W (wc_nettype W) (trim address_arg) = Some address \<and> parse_str_secret_key (pl_core P) (trim key_arg) = Some key
    \<and> get_tx_details P (w (t + 1)) tx False 0 0 = Inr txd
    \<and> wc_derivation W (if prove then wa_view_public address else td_pk txd) key = Some d
    \<and> derive_additional W key (td_additional_pks txd) = Some ds
    \<and> jget ''outputs'' (jget ''data'' j) = JArr rows \<and> length rows = length (td_output_pub_keys txd)
    \<and> (\<forall>n < length rows. let (k, plain, tag) = td_output_pub_keys txd ! n; mine = owns W txd (wa_spend_public address) d ds n k in
         jget ''match'' (rows ! n) = JBool mine \<and> jget ''output_pubkey'' (rows ! n) = JStr k
         \<and> jget ''output_idx'' (rows ! n) = JNum (int n)
         \<and> jget ''amount'' (rows ! n) = JU64 (if mine \<and> hidden_amount P tx
              then snd (decode_ringct W tx (snd (match_output W txd (wa_spend_public address) d ds n k)) n 0) else plain))"
proof -
  from assms obtain txh address key tx pool stamp txd d ds where
    parts: "parse_str_secret_key (pl_core P) (trim txs_arg) = Some txh" "parse_str_address W (wc_nettype W) (trim address_arg) = Some address" "parse_str_secret_key (pl_core P) (trim key_arg) = Some key"
      "find_tx (w t) ms txh = Inr (Some (tx, pool, stamp))" "get_tx_details P (w (t + 1)) tx False 0 0 = Inr txd"
      "wc_derivation W (if prove then wa_view_public address else td_pk txd) key = Some d"
      "derive_additional W key (td_additional_pks txd) = Some ds"
      "jget ''outputs'' (jget ''data'' j) = JArr (output_match_rows W P tx txd (wa_spend_public address) d ds (td_output_pub_keys txd) 0 [])"
    by (auto simp: json_outputs_def Let_def fail_title_def split: if_splits option.splits sum.splits)
  let ?rows = "output_match_rows W P tx txd (wa_spend_public address) d ds (td_output_pub_keys txd) 0 []"
  have len: "length ?rows = length (td_output_pub_keys txd)" by (simp add: output_match_rows_eq)
  have row: "?rows ! n = match_row W P tx txd (wa_spend_public address) d ds n (td_output_pub_keys txd ! n)"
    if "n < length ?rows" for n
    using that len by (simp add: output_match_rows_eq nth_enumerate_eq)
  show ?thesis
    using parts len
    by (intro exI [of _ txh] exI [of _ tx] exI [of _ pool] exI [of _ stamp] exI [of _ txd] exI [of _ address] exI [of _ key] exI [of _ d] exI [of _ ds] exI [of _ ?rows])
       (auto simp: row match_row_def split: prod.splits)
qed

section \<open>The two searches agree\<close>

lemma own_outputs_acc:
  "own_outputs W P tx txd address key d ds b m outs n rows =
     map_prod id (append rows) (own_outputs W P tx txd address key d ds b m outs n [])"
proof (induction outs arbitrary: n rows)
  case (Cons out outs)
  obtain k plain tag where out: "out = (k, plain, tag)" by (cases out) auto
  obtain mine use where mt: "match_output W txd (wa_spend_public address) d ds n k = (mine, use)" by fastforce
  obtain ok a where dec: "decode_ringct W tx use n 0 = (ok, a)" by fastforce
  show ?case
    by (subst (1 2) own_outputs.simps(2) [of _ _ _ _ _ _ _ _ _ _ k plain tag, folded out])
       (simp add: mt dec Cons.IH [of _ rows] Cons.IH [of _ "rows @ _"] Cons.IH [of _ "[_]"] map_prod_def split: prod.splits bool.splits)
qed simp

definition essence :: "json \<Rightarrow> json \<times> json \<times> json" where
  "essence row = (jget ''output_pubkey'' row, jget ''amount'' row, jget ''output_idx'' row)"

text \<open>
  The search through many transactions finds in each the outputs that the answer for the one
  transaction marks, with the same key, amount and index: when it does not fail, the rows it adds are
  those marked there, in their order.
\<close>

theorem searches_agree:
  assumes "own_outputs W P tx txd address key d ds block_no in_pool outs n [] = (None, own)"
  shows "map essence own = map essence (filter (\<lambda>row. jget ''match'' row = JBool True)
    (output_match_rows W P tx txd (wa_spend_public address) d ds outs n []))"
  using assms
proof (induction outs arbitrary: n own)
  case (Cons out outs)
  obtain k plain tag where out: "out = (k, plain, tag)" by (cases out) auto
  obtain mine use where mt: "match_output W txd (wa_spend_public address) d ds n k = (mine, use)" by fastforce
  obtain ok a where dec: "decode_ringct W tx use n 0 = (ok, a)" by fastforce
  have mine: "owns W txd (wa_spend_public address) d ds n k \<longleftrightarrow> mine"
    using fst_match_output [of W txd "wa_spend_public address" d ds n k] mt by simp
  obtain e rest where rest: "own_outputs W P tx txd address key d ds block_no in_pool outs (n + 1) [] = (e, rest)" by fastforce
  show ?case
    using Cons.prems Cons.IH [of "n + 1" rest] rest
    by (auto simp: out mt dec mine output_match_rows_eq match_row_def essence_def own_output_json_def
        own_outputs_acc [of _ _ _ _ _ _ _ _ _ _ _ _ "[_]"] split: if_splits bool.splits)
qed simp

section \<open>The range of blocks\<close>

text \<open>What the end of the loop rests on: no database has a block at the largest height.\<close>

definition no_last_block :: "page_world \<Rightarrow> bool" where
  "no_last_block w \<longleftrightarrow> (\<forall>t. get_block_by_height (pv_chain (w t)) u64_max = None)"

lemma u64_max_minus: "(0 :: u64) - 1 = u64_max"
  by (simp add: u64_max_def)

lemma loop_at_last:
  assumes "no_last_block w"
  shows "outputs_blocks_loop W P w address key lower t u64_max rows
    = Some (Inr (Some (''Cant get block: '' @ signed_text u64_max), rows))"
proof -
  have "\<not> u64_max < lower" by (simp add: u64_max_def not_less)
  then show ?thesis using assms by (subst outputs_blocks_loop.simps) (simp add: no_last_block_def)
qed

lemma loop_returns:
  assumes "no_last_block w"
  shows "outputs_blocks_loop W P w address key lower t block_no rows \<noteq> None"
proof (induction "unat block_no" arbitrary: block_no t rows rule: less_induct)
  case less
  have step: "outputs_blocks_loop W P w address key lower t' (block_no - 1) rows' \<noteq> None" for t' rows'
  proof (cases "block_no = 0")
    case True
    then show ?thesis using loop_at_last [OF assms] by (simp only: u64_max_minus) simp
  next
    case False
    then have "unat (block_no - 1) < unat block_no" by (simp add: unat_minus_one unat_gt_0)
    from less [OF this] show ?thesis .
  qed
  show ?case
    by (subst outputs_blocks_loop.simps) (auto simp: step [simplified] split: option.splits prod.splits sum.splits)
qed

lemma loop_done:
  assumes "outputs_blocks_loop W P w address key lower t b rows = Some (Inr (None, rows'))"
  obtains "b < lower" "rows' = rows"
    | blk txs missed rows1 where "lower \<le> b" "get_block_by_height (pv_chain (w t)) b = Some blk"
      "get_transactions (pv_chain (w (t + 1))) (tx_hashes blk) = (True, txs, missed)"
      "find_our_outputs W P w (t + 2) address key b False (miner_tx blk # txs) rows = Inr (None, rows1)"
      "outputs_blocks_loop W P w address key lower (t + 3 + length txs) (b - 1) rows1 = Some (Inr (None, rows'))"
proof (cases "b < lower")
  case True
  with assms that(1) show ?thesis by (subst (asm) outputs_blocks_loop.simps) simp
next
  case False
  note run = assms [unfolded outputs_blocks_loop.simps [of W P w address key lower t b rows] if_not_P [OF False]]
  from run obtain blk where blk: "get_block_by_height (pv_chain (w t)) b = Some blk"
    by (cases "get_block_by_height (pv_chain (w t)) b") auto
  note run = run [unfolded blk option.case]
  obtain ok txs missed where txs: "get_transactions (pv_chain (w (t + 1))) (tx_hashes blk) = (ok, txs, missed)"
    by (cases "get_transactions (pv_chain (w (t + 1))) (tx_hashes blk)") auto
  note run = run [unfolded txs prod.case]
  have ok: ok using run by (cases ok) simp_all
  let ?f = "find_our_outputs W P w (t + 2) address key b False (miner_tx blk # txs) rows"
  have run: "(case ?f of Inl e \<Rightarrow> Some (Inl e) | Inr (found, rows') \<Rightarrow> if found \<noteq> None then Some (Inr (found, rows'))
      else outputs_blocks_loop W P w address key lower (t + 3 + length txs) (b - 1) rows') = Some (Inr (None, rows'))"
    using run ok by (simp only: not_True_eq_False if_False)
  from run obtain rows1 where rows1: "?f = Inr (None, rows1)"
    by (cases ?f) (auto simp del: find_our_outputs.simps split: if_splits)
  have "outputs_blocks_loop W P w address key lower (t + 3 + length txs) (b - 1) rows1 = Some (Inr (None, rows'))"
    using run [unfolded rows1] by simp
  from that(2) [OF _ blk txs [simplified ok] rows1 this] False show ?thesis by (simp add: not_less)
qed

text \<open>What a completed search says of one transaction and of one block.\<close>

definition tx_searched ::
    "wallet_crypto \<Rightarrow> page_lib \<Rightarrow> page_world \<Rightarrow> wallet_address \<Rightarrow> hash \<Rightarrow> u64 \<Rightarrow> bool \<Rightarrow> transaction \<Rightarrow> json list \<Rightarrow> bool" where
  "tx_searched W P w address key h in_pool tx rows \<longleftrightarrow>
     (\<exists>t txd d ds own. get_tx_details P (w t) tx False 0 0 = Inr txd \<and> wc_derivation W (td_pk txd) key = Some d
        \<and> derive_additional W key (td_additional_pks txd) = Some ds
        \<and> own_outputs W P tx txd address key d ds h in_pool (td_output_pub_keys txd) 0 [] = (None, own)
        \<and> set own \<subseteq> set rows)"

definition block_searched ::
    "wallet_crypto \<Rightarrow> page_lib \<Rightarrow> page_world \<Rightarrow> wallet_address \<Rightarrow> hash \<Rightarrow> u64 \<Rightarrow> json list \<Rightarrow> bool" where
  "block_searched W P w address key h rows \<longleftrightarrow>
     (\<exists>t blk txs missed. get_block_by_height (pv_chain (w t)) h = Some blk
        \<and> get_transactions (pv_chain (w (t + 1))) (tx_hashes blk) = (True, txs, missed)
        \<and> (\<forall>tx \<in> set (miner_tx blk # txs). tx_searched W P w address key h False tx rows))"

definition row_at :: "u64 \<Rightarrow> bool \<Rightarrow> json \<Rightarrow> bool" where
  "row_at h in_pool row \<longleftrightarrow> jget ''block_no'' row = JU64 h \<and> jget ''in_mempool'' row = JBool in_pool"

lemma own_outputs_rows:
  "own_outputs W P tx txd address key d ds h in_pool outs n [] = (e, own) \<Longrightarrow> row \<in> set own \<Longrightarrow> row_at h in_pool row"
proof (induction outs arbitrary: n e own)
  case (Cons out outs)
  obtain k plain tag where out: "out = (k, plain, tag)" by (cases out) auto
  obtain mine use where mt: "match_output W txd (wa_spend_public address) d ds n k = (mine, use)" by fastforce
  obtain ok a where dec: "decode_ringct W tx use n 0 = (ok, a)" by fastforce
  obtain e' rest where rest: "own_outputs W P tx txd address key d ds h in_pool outs (n + 1) [] = (e', rest)" by fastforce
  show ?case
    using Cons.prems Cons.IH [of "n + 1" e' rest] rest
    by (auto simp: out mt dec row_at_def own_output_json_def
        own_outputs_acc [of _ _ _ _ _ _ _ _ _ _ _ _ "[_]"] split: if_splits bool.splits)
qed simp

lemma tx_searched_mono: "tx_searched W P w a k h p tx rows \<Longrightarrow> set rows \<subseteq> set rows' \<Longrightarrow> tx_searched W P w a k h p tx rows'"
  unfolding tx_searched_def by fast

lemma block_searched_mono:
  assumes "block_searched W P w a k h rows" "set rows \<subseteq> set rows'"
  shows "block_searched W P w a k h rows'"
proof -
  from assms(1) obtain t blk txs missed where
    "get_block_by_height (pv_chain (w t)) h = Some blk" "get_transactions (pv_chain (w (t + 1))) (tx_hashes blk) = (True, txs, missed)"
    and tx: "\<And>tx. tx \<in> set (miner_tx blk # txs) \<Longrightarrow> tx_searched W P w a k h False tx rows"
    unfolding block_searched_def by blast
  with tx_searched_mono [OF tx assms(2)] show ?thesis unfolding block_searched_def by blast
qed

lemma find_our_outputs_done:
  "find_our_outputs W P w t address key h in_pool txs rows = Inr (None, rows') \<Longrightarrow>
   \<exists>own. rows' = rows @ own \<and> (\<forall>row \<in> set own. row_at h in_pool row)
     \<and> (\<forall>tx \<in> set txs. tx_searched W P w address key h in_pool tx own)"
proof (induction txs arbitrary: t rows)
  case (Cons tx txs)
  from Cons.prems obtain txd d ds rows1 where
    parts: "get_tx_details P (w t) tx False 0 0 = Inr txd" "wc_derivation W (td_pk txd) key = Some d"
      "derive_additional W key (td_additional_pks txd) = Some ds"
      "own_outputs W P tx txd address key d ds h in_pool (td_output_pub_keys txd) 0 rows = (None, rows1)"
      "find_our_outputs W P w (t + 1) address key h in_pool txs rows1 = Inr (None, rows')"
    by (auto split: sum.splits option.splits prod.splits)
  from parts(4) obtain own where own: "own_outputs W P tx txd address key d ds h in_pool (td_output_pub_keys txd) 0 [] = (None, own)"
    "rows1 = rows @ own" by (subst (asm) own_outputs_acc) (auto simp: map_prod_def split: prod.splits)
  from Cons.IH [OF parts(5)] obtain rest where
    rest: "rows' = rows1 @ rest" "\<forall>row \<in> set rest. row_at h in_pool row" "\<forall>tx \<in> set txs. tx_searched W P w address key h in_pool tx rest"
    by blast
  have "tx_searched W P w address key h in_pool tx own"
    unfolding tx_searched_def using parts(1-3) own(1) by blast
  then have "tx_searched W P w address key h in_pool tx (own @ rest)" by (rule tx_searched_mono) simp
  moreover have "tx_searched W P w address key h in_pool tx' (own @ rest)" if "tx' \<in> set txs" for tx'
    by (rule tx_searched_mono [OF bspec [OF rest(3) that]]) simp
  ultimately show ?case
    using rest own own_outputs_rows [OF own(1)] by (intro exI [of _ "own @ rest"]) auto
qed simp

lemma below_pred:
  assumes "b \<noteq> (0 :: u64)"
  shows "h \<le> b - 1 \<longleftrightarrow> h \<le> b \<and> h \<noteq> b"
proof -
  have "unat h = unat b \<longleftrightarrow> h = b" by (metis unsigned_word_eqI)
  moreover have "0 < unat b" using assms by (simp add: unat_gt_0)
  ultimately show ?thesis using assms by (auto simp: word_le_nat_alt unat_minus_one)
qed

text \<open>A loop that ends well started above zero and has searched every block of its range.\<close>

lemma loop_searches:
  assumes "no_last_block w" "outputs_blocks_loop W P w address key lower t b rows = Some (Inr (None, rows'))" "lower \<le> b"
  shows "0 < lower \<and> (\<exists>own. rows' = rows @ own \<and> (\<forall>row \<in> set own. \<exists>h. lower \<le> h \<and> h \<le> b \<and> row_at h False row)
    \<and> (\<forall>h. lower \<le> h \<longrightarrow> h \<le> b \<longrightarrow> block_searched W P w address key h own))"
  using assms(2,3)
proof (induction "unat b" arbitrary: b t rows rule: less_induct)
  case less
  from less.prems obtain blk txs missed rows1 where
    read: "get_block_by_height (pv_chain (w t)) b = Some blk" "get_transactions (pv_chain (w (t + 1))) (tx_hashes blk) = (True, txs, missed)"
    and found: "find_our_outputs W P w (t + 2) address key b False (miner_tx blk # txs) rows = Inr (None, rows1)"
    and rest: "outputs_blocks_loop W P w address key lower (t + 3 + length txs) (b - 1) rows1 = Some (Inr (None, rows'))"
    using loop_done [OF less.prems(1)] leD by metis
  have pos: "b \<noteq> 0"
  proof
    assume "b = 0"
    with rest loop_at_last [OF assms(1)] show False by (simp add: u64_max_minus [simplified])
  qed
  from find_our_outputs_done [OF found] obtain own where
    own: "rows1 = rows @ own" "\<forall>row \<in> set own. row_at b False row"
      "\<forall>tx \<in> set (miner_tx blk # txs). tx_searched W P w address key b False tx own" by blast
  have here: "block_searched W P w address key b own" using read own(3) unfolding block_searched_def by blast
  show ?case
  proof (cases "lower \<le> b - 1")
    case True
    have "unat (b - 1) < unat b" using pos by (simp add: unat_minus_one unat_gt_0)
    from less.hyps [OF this rest True] obtain more where
      more: "0 < lower" "rows' = rows1 @ more" "\<forall>row \<in> set more. \<exists>h. lower \<le> h \<and> h \<le> b - 1 \<and> row_at h False row"
        "\<forall>h. lower \<le> h \<longrightarrow> h \<le> b - 1 \<longrightarrow> block_searched W P w address key h more" by blast
    note below = below_pred [OF pos]
    have "block_searched W P w address key h (own @ more)" if "lower \<le> h" "h \<le> b" for h
    proof (cases "h = b")
      case True
      with here block_searched_mono show ?thesis by fastforce
    next
      case False
      with that below more(4) have "block_searched W P w address key h more" by blast
      then show ?thesis by (rule block_searched_mono) simp
    qed
    moreover have "\<exists>h. lower \<le> h \<and> h \<le> b \<and> row_at h False row" if "row \<in> set (own @ more)" for row
      using that more(3) own(2) less.prems(2) below by auto
    ultimately show ?thesis using more(1,2) own(1) by (intro conjI exI [of _ "own @ more"]) simp_all
  next
    case False
    then have eq: "lower = b" using less.prems(2) below_pred [OF pos] by blast
    have "rows' = rows1" using loop_done [OF rest] False by metis
    then show ?thesis using own(1,2) here pos eq by (auto simp: word_gt_0 intro: order_antisym)
  qed
qed

text \<open>
  C36. A request for a range of blocks is answered: the search through the blocks ends for every
  range, as long as the database has no block at the largest 64-bit height, also where the signed
  counter of the loop passes below zero.
\<close>

theorem outputs_request_returns:
  assumes "no_last_block w"
  shows "json_outputsblocks W P w t ms first_arg last_arg address_arg key_arg pool \<noteq> None"
proof -
  have "\<exists>r. outputs_blocks_loop W P w a k s u b rows = Some r" for a k s u b rows
    using loop_returns [OF assms] by auto
  then show ?thesis
    by (auto simp: json_outputsblocks_def Let_def simp del: find_our_outputs.simps
        split: option.splits sum.splits prod.splits if_splits) (metis option.distinct(1))+
qed

lemma outputsblocks_success:
  assumes "json_outputsblocks W P w t ms first_arg last_arg address_arg key_arg pool = Some (Inr j)" "is_success j"
  obtains first last address key rows0 rows u where
    "lexical_cast_u64 (trim first_arg) = Some first" "lexical_cast_u64 (trim last_arg) = Some last"
    "first \<le> last" "last - first < 5" "parse_str_address W (wc_nettype W) (trim address_arg) = Some address"
    "parse_str_secret_key (pl_core P) (trim key_arg) = Some key"
    "(if pool then find_our_outputs W P w (t + 1) address key 0 True
        (case mempool_txs ms of None \<Rightarrow> [] | Some ms' \<Rightarrow> map mt_tx ms') [] else Inr (None, [])) = Inr (None, rows0)"
    "outputs_blocks_loop W P w address key first u last rows0 = Some (Inr (None, rows))"
    "jget ''outputs'' (jget ''data'' j) = JArr rows"
  using assms
  by (auto simp: json_outputsblocks_def Let_def fail_title_def not_less not_le simp del: find_our_outputs.simps
      split: option.splits sum.splits prod.splits if_splits)


section \<open>A wallet on a small chain\<close>

definition short_view :: page_view where
  "short_view = sample_view\<lparr>pv_chain := (pv_chain sample_view)
     \<lparr>current_height := 4, block_from_height := (\<lambda>h. if h < 4 then Inr genesis_block else Inl BLOCK_DNE)\<rparr>\<rparr>"

definition sample_wallet :: wallet_crypto where
  "sample_wallet = \<lparr>wc_nettype = MAINNET, wc_address = (\<lambda>_ _. Some \<lparr>wa_view_public = ''v'', wa_spend_public = ''s'', wa_hex = ''vs'',
       wa_is_subaddress = False, wa_payment_id = null_hash8\<rparr>),
     wc_address_text = (\<lambda>_ _ a. wa_hex a),
     wc_derivation = (\<lambda>_ _. Some ''d''), wc_derive_public_key = (\<lambda>_ _ _. ''aa''), wc_simple_types = [2, 3, 4, 5, 6],
     wc_full_type = 1, wc_decode_simple = (\<lambda>_ _ _. Some 7), wc_decode_full = (\<lambda>_ _ _. None),
     wc_decrypt_payment_id = (\<lambda>_ _ _. None)\<rparr>"

lemma short_view_simps:
  "no_last_block (\<lambda>_. short_view)" "current_height (pv_chain short_view) = 4" "\<not> have_tx (pv_chain short_view) h"
  "get_block_by_height (pv_chain short_view) 3 = Some genesis_block"
  "get_block_by_height (pv_chain short_view) 2 = Some genesis_block"
  "get_transactions (pv_chain short_view) hs = (True, [], [])"
  by (simp_all add: no_last_block_def short_view_def sample_view_def get_block_by_height_def u64_max_def)

lemma public_amounts_never_fail:
  assumes "\<not> hidden_amount P tx"
  shows "\<exists>own. own_outputs W P tx txd address key d ds h in_pool outs n rows = (None, own)"
proof (induction outs arbitrary: n rows)
  case (Cons out outs)
  then show ?case using assms by (cases out) (simp split: prod.splits)
qed simp

lemma sample_search:
  "\<exists>own. find_our_outputs sample_wallet sample_lib (\<lambda>_. short_view) t address key h in_pool [sample_coinbase] rows = Inr (None, own)"
proof -
  obtain txd where txd: "get_tx_details sample_lib short_view sample_coinbase False 0 0 = Inr txd"
    using get_tx_details_fresh short_view_simps(3) by blast
  have public: "\<not> hidden_amount sample_lib sample_coinbase"
    by (simp add: hidden_amount_def sample_lib_def plain_core_def sample_coinbase_def)
  have d: "wc_derivation sample_wallet p k = Some ''d''" for p k by (simp add: sample_wallet_def)
  have "derive_additional sample_wallet key pks \<noteq> None" for pks by (induction pks) (auto simp: d)
  then obtain ds where ds: "derive_additional sample_wallet key (td_additional_pks txd) = Some ds" by blast
  from public_amounts_never_fail [OF public] obtain own where
    "own_outputs sample_wallet sample_lib sample_coinbase txd address key ''d'' ds h in_pool (td_output_pub_keys txd) 0 rows = (None, own)"
    by blast
  then show ?thesis by (simp add: txd d ds)
qed

lemma sample_range_found:
  obtains j where "json_outputsblocks sample_wallet sample_lib (\<lambda>_. short_view) 9 (initial_status sample_network_info) ''2'' ''3'' ''Q'' (replicate 64 CHR ''b'') False
      = Some (Inr j)" "is_success j"
proof -
  let ?w = "\<lambda>_ :: nat. short_view" and ?a = "\<lparr>wa_view_public = ''v'', wa_spend_public = ''s'', wa_hex = ''vs'',
    wa_is_subaddress = False, wa_payment_id = null_hash8\<rparr>"
    and ?k = "replicate 64 CHR ''b''"
  obtain r1 where r1: "find_our_outputs sample_wallet sample_lib ?w 12 ?a ?k 3 False [sample_coinbase] [] = Inr (None, r1)"
    using sample_search by blast
  obtain r2 where r2: "find_our_outputs sample_wallet sample_lib ?w 15 ?a ?k 2 False [sample_coinbase] r1 = Inr (None, r2)"
    using sample_search by blast
  have l2: "outputs_blocks_loop sample_wallet sample_lib ?w ?a ?k 2 16 1 r2 = Some (Inr (None, r2))"
    by (subst outputs_blocks_loop.simps) simp
  have l1: "outputs_blocks_loop sample_wallet sample_lib ?w ?a ?k 2 13 2 r1 = Some (Inr (None, r2))"
    using r2 l2 by (subst outputs_blocks_loop.simps) (simp add: short_view_simps sample_view_simps del: find_our_outputs.simps)
  have l0: "outputs_blocks_loop sample_wallet sample_lib ?w ?a ?k 2 10 3 [] = Some (Inr (None, r2))"
    using r1 l1 by (subst outputs_blocks_loop.simps) (simp add: short_view_simps sample_view_simps del: find_our_outputs.simps)
  have digits: "u64_to_string 2 = ''2''" "u64_to_string 3 = ''3''" by (simp_all add: u64_to_string_def nat_to_dec.simps [of 2] nat_to_dec.simps [of 3] digit_char_def char_of_def bit_0)
  have args: "lexical_cast_u64 ''2'' = Some 2" "lexical_cast_u64 ''3'' = Some 3"
    using lexical_cast_to_string [of 2] lexical_cast_to_string [of 3] by (simp_all only: digits)
  have trims: "trim ''2'' = ''2''" "trim ''3'' = ''3''" "trim ''Q'' = ''Q''" "trim ?k = ?k"
    by (simp_all add: trim_def is_space_def)
  have parse: "parse_str_address sample_wallet n s = Some ?a" "parse_str_secret_key (pl_core sample_lib) ?k = Some ?k" for n s
    by (simp_all add: parse_str_address_def sample_wallet_def parse_str_secret_key_def sample_lib_def plain_core_def)
  have "\<exists>j. json_outputsblocks sample_wallet sample_lib ?w 9 (initial_status sample_network_info) ''2'' ''3'' ''Q'' ?k False = Some (Inr j) \<and> is_success j"
    by (simp add: json_outputsblocks_def trims args short_view_simps parse l0 initial_status_def Let_def word_le_nat_alt)
  with that show ?thesis by blast
qed

theorem outputs_request_returns_witness:
  "json_outputsblocks sample_wallet sample_lib (\<lambda>_. short_view) 0 (initial_status sample_network_info)
     ''0'' ''3'' ''Q'' (replicate 64 CHR ''b'') False \<noteq> None"
  by (rule outputs_request_returns) (rule short_view_simps(1))


text \<open>One transaction of the chain, and one output of it that belongs to the wallet.\<close>

lemma sample_outputs_found:
  obtains j where "json_outputs sample_wallet sample_lib 0 genesis_block (\<lambda>_. ring_view) 0 sample_pool
      (replicate 64 CHR ''b'') ''Q'' (replicate 64 CHR ''b'') False = Inr j" "is_success j"
proof -
  let ?k = "replicate 64 CHR ''b''" and ?a = "\<lparr>wa_view_public = ''v'', wa_spend_public = ''s'', wa_hex = ''vs'',
    wa_is_subaddress = False, wa_payment_id = null_hash8\<rparr>"
  have nh: "\<not> have_tx (pv_chain ring_view) h" for h by (simp add: ring_view_def sample_view_simps)
  obtain txd where txd: "get_tx_details sample_lib ring_view sample_private False 0 0 = Inr txd"
    using get_tx_details_fresh nh by blast
  have d: "wc_derivation sample_wallet p k = Some ''d''" for p k by (simp add: sample_wallet_def)
  have "derive_additional sample_wallet ?k pks \<noteq> None" for pks by (induction pks) (auto simp: d)
  then obtain ds where ds: "derive_additional sample_wallet ?k (td_additional_pks txd) = Some ds" by blast
  have trims: "trim ''Q'' = ''Q''" "trim ?k = ?k" by (simp_all add: trim_def is_space_def)
  have addr: "parse_str_address sample_wallet n s = Some ?a" for n s by (simp add: parse_str_address_def sample_wallet_def)
  have "\<exists>j. json_outputs sample_wallet sample_lib 0 genesis_block (\<lambda>_. ring_view) 0 sample_pool ?k ''Q'' ?k False = Inr j
      \<and> is_success j"
    by (simp add: json_outputs_def trims sample_private_found addr txd d ds Let_def)
  with that show ?thesis by blast
qed

theorem outputs_answer_exact_witness:
  "\<exists>j rows. json_outputs sample_wallet sample_lib 0 genesis_block (\<lambda>_. ring_view) 0 sample_pool
       (replicate 64 CHR ''b'') ''Q'' (replicate 64 CHR ''b'') False = Inr j
     \<and> jget ''outputs'' (jget ''data'' j) = JArr rows"
proof -
  obtain j where j: "json_outputs sample_wallet sample_lib 0 genesis_block (\<lambda>_. ring_view) 0 sample_pool
       (replicate 64 CHR ''b'') ''Q'' (replicate 64 CHR ''b'') False = Inr j" "is_success j"
    by (rule sample_outputs_found)
  from outputs_answer_exact [OF j] j(1) show ?thesis by blast
qed

definition sample_found :: tx_details where
  "sample_found = \<lparr>td_hash = ''h'', td_pk = ''p'', td_additional_pks = [], td_xmr_inputs = 0, td_xmr_outputs = 0,
     td_num_nonrct_inputs = 0, td_fee = 0, td_mixin_no = 0, td_size = 0, td_blk_height = None, td_version = 2,
     td_confidential_amounts = True, td_unlock_time = 0, td_no_confirmations = 0, td_extra = [], td_payment_id = null_hash,
     td_payment_id8 = null_hash8, td_signatures = [], td_input_key_imgs = [],
     td_output_pub_keys = [(''aa'', 0, None), (''bb'', 0, None)]\<rparr>"

text \<open>The first output is the wallet's: its hidden amount is decoded; the second is another's.\<close>

theorem searches_agree_witness:
  "\<exists>row. map essence [row] = map essence (filter (\<lambda>row. jget ''match'' row = JBool True)
     (output_match_rows sample_wallet sample_lib sample_private sample_found ''s'' ''d'' []
        (td_output_pub_keys sample_found) 0 [])) \<and> jget ''amount'' row = JNum 7"
proof -
  let ?a = "\<lparr>wa_view_public = ''v'', wa_spend_public = ''s'', wa_hex = ''vs'',
    wa_is_subaddress = False, wa_payment_id = null_hash8\<rparr>"
  have hid: "hidden_amount sample_lib sample_private"
    by (simp add: hidden_amount_def sample_lib_def plain_core_def sample_private_def)
  have dec: "decode_ringct sample_wallet sample_private ''d'' 0 0 = (True, 7)"
    by (simp add: decode_ringct_def sample_wallet_def sample_private_def)
  have m: "match_output sample_wallet sample_found ''s'' ''d'' [] n k = (k = ''aa'', ''d'')" for n k
    by (simp add: match_output_def sample_wallet_def sample_found_def)
  have "own_outputs sample_wallet sample_lib sample_private sample_found ?a ''k'' ''d'' [] 0 True
      (td_output_pub_keys sample_found) 0 [] = (None, [own_output_json sample_wallet sample_found ''k'' 0 True ''aa'' 7 0])"
    by (simp add: sample_found_def [THEN arg_cong, of td_output_pub_keys] m hid dec)
  from searches_agree [OF this] show ?thesis
    by (intro exI [of _ "own_output_json sample_wallet sample_found ''k'' 0 True ''aa'' 7 0"])
       (simp add: own_output_json_def)
qed

end
