(* ===== verification/Search.thy ===== *)
theory Search
  imports Tx_Page Outputs
begin

text \<open>
  Searching (\<open>page::search\<close> of \<open>src/src/page.h\<close>): a transaction, a block or an address, the pages of an
  address, \<open>search_txs\<close> and the page of results. The code tells a lookup that failed by the words of
  its message; the theorem shows that no such message is returned, and what else can be.
\<close>

section \<open>Addresses\<close>

definition address_context :: "site \<Rightarrow> wallet_crypto \<Rightarrow> wallet_address \<Rightarrow> network_type \<Rightarrow> (string \<times> json) list" where
  "address_context S W a nettype =
     [(''xmr_address'', JStr (remove_hash_brackets (print_address W nettype a))),
      (''public_viewkey'', JStr (bare_hash S (wa_view_public a))),
      (''public_spendkey'', JStr (bare_hash S (wa_spend_public a)))]"

definition show_address_details :: "site \<Rightarrow> wallet_crypto \<Rightarrow> wallet_address \<Rightarrow> network_type \<Rightarrow> html" where
  "show_address_details S W a nettype =
     Rendered ''address'' (add_page_assets S (JObj (address_context S W a nettype
       @ [(''is_integrated_addr'', JBool False), (''testnet'', JBool (st_testnet S)),
          (''stagenet'', JBool (st_stagenet S))])))"

definition show_integrated_address_details ::
    "site \<Rightarrow> wallet_crypto \<Rightarrow> wallet_address \<Rightarrow> hash \<Rightarrow> network_type \<Rightarrow> html" where
  "show_integrated_address_details S W a enc_payment_id nettype =
     Rendered ''address'' (add_page_assets S (JObj (address_context S W a nettype
       @ [(''encrypted_payment_id'', JStr (bare_hash S enc_payment_id)),
          (''is_integrated_addr'', JBool True), (''testnet'', JBool (st_testnet S)),
          (''stagenet'', JBool (st_stagenet S))])))"

text \<open>The network of an address by its first letter.\<close>

definition address_nettype :: "string \<Rightarrow> network_type" where
  "address_nettype s =
     (let n = (if hd s \<in> {CHR ''9'', CHR ''A'', CHR ''B''} then TESTNET else MAINNET)
      in if hd s \<in> {CHR ''5'', CHR ''7''} then STAGENET else n)"

section \<open>Transactions by one of their keys\<close>

text \<open>\<open>m[key].push_back(v)\<close> of a \<open>std::map\<close>: a missing key starts with the empty vector.\<close>

definition map_push :: "string \<Rightarrow> string \<Rightarrow> (string \<rightharpoonup> string list) \<Rightarrow> string \<rightharpoonup> string list" where
  "map_push k v m = m(k \<mapsto> (case m k of None \<Rightarrow> [] | Some vs \<Rightarrow> vs) @ [v])"

definition push_if :: "bool \<Rightarrow> string \<Rightarrow> string \<Rightarrow> (string \<rightharpoonup> string list) \<Rightarrow> string \<rightharpoonup> string list" where
  "push_if b k v m = (if b then map_push k v m else m)"

definition no_hits :: "string \<rightharpoonup> string list" where
  "no_hits = [''key_images'' \<mapsto> [], ''tx_public_keys'' \<mapsto> [], ''payments_id'' \<mapsto> [],
     ''encrypted_payments_id'' \<mapsto> [], ''output_public_keys'' \<mapsto> []]"

fun search_txs_loop ::
    "page_lib \<Rightarrow> page_world \<Rightarrow> nat \<Rightarrow> transaction list \<Rightarrow> string \<Rightarrow> (string \<rightharpoonup> string list) \<Rightarrow>
       db_exn + (string \<rightharpoonup> string list)" where
  "search_txs_loop P w t [] search_text hits = Inr hits"
| "search_txs_loop P w t (tx # txs) search_text hits =
     (case get_tx_details P (w t) tx False 0 0 of
        Inl e \<Rightarrow> Inl e
      | Inr txd \<Rightarrow>
        search_txs_loop P w (t + 1) txs search_text
          (push_if (\<exists>out \<in> set (td_output_pub_keys txd). fst out = search_text) ''output_public_keys'' (td_hash txd)
          (push_if (td_payment_id8 txd = search_text) ''encrypted_payments_id'' (td_hash txd)
          (push_if (td_payment_id txd = search_text) ''payment_id'' (td_hash txd)
          (push_if (td_pk txd = search_text) ''tx_public_keys'' (td_hash txd)
          (push_if (\<exists>k \<in> set (td_input_key_imgs txd). k_image k = search_text) ''key_images'' (td_hash txd) hits))))))"

definition search_txs ::
    "page_lib \<Rightarrow> page_world \<Rightarrow> nat \<Rightarrow> transaction list \<Rightarrow> string \<Rightarrow> db_exn + (string \<rightharpoonup> string list)" where
  "search_txs P w t txs search_text = search_txs_loop P w t txs search_text no_hits"

section \<open>The page of results\<close>

text \<open>
  What the page of results reads beside the views: the hash of a hexadecimal text (what the variable
  holds after \<open>hex_to_pod\<close>) and the time of a block.
\<close>

record search_env =
  se_hex_to_pod :: "string \<Rightarrow> hash"
  se_block_timestamp :: "nat \<Rightarrow> u64 \<Rightarrow> db_exn + u64"

definition result_tx ::
    "site \<Rightarrow> search_env \<Rightarrow> page_world \<Rightarrow> nat \<Rightarrow> mempool_status \<Rightarrow> string \<Rightarrow> db_exn + (transaction \<times> u64) option" where
  "result_tx S E w t ms txh =
     (case micro_get_tx_str (pl_core (st_lib S)) (pv_chain (w t)) txh of
        Inl e \<Rightarrow> Inl e
      | Inr (Some tx) \<Rightarrow>
        (case tx_block_height (w (t + 1)) (se_hex_to_pod E txh) of
           Inl e \<Rightarrow> Inl e
         | Inr h \<Rightarrow> map_sum id (\<lambda>stamp. Some (tx, stamp)) (se_block_timestamp E (t + 2) h))
      | Inr None \<Rightarrow>
        (case search_mempool ms (se_hex_to_pod E txh) of
           [] \<Rightarrow> Inr None
         | m # _ \<Rightarrow> Inr (Some (mt_tx m, mt_receive_time m))))"

text \<open>The rows of one kind of result, and whether there were too many; the test follows the push.\<close>

fun result_rows ::
    "site \<Rightarrow> search_env \<Rightarrow> u64 \<Rightarrow> hash \<Rightarrow> page_world \<Rightarrow> nat \<Rightarrow> mempool_status \<Rightarrow> string list \<Rightarrow> nat \<Rightarrow> json list \<Rightarrow>
       db_exn + (string + json list \<times> bool)" where
  "result_rows S E uninit uninit_hash w t ms [] tx_i rows = Inr (Inr (rows, False))"
| "result_rows S E uninit uninit_hash w t ms (txh # txhs) tx_i rows =
     (case result_tx S E w t ms txh of
        Inl e \<Rightarrow> Inl e
      | Inr None \<Rightarrow> Inr (Inl (''Cant get tx of hash (show_search_results): '' @ txh))
      | Inr (Some (tx, stamp)) \<Rightarrow>
        (case get_tx_details (st_lib S) (w (t + 3)) tx False 0 0 of
           Inl e \<Rightarrow> Inl e
         | Inr txd \<Rightarrow>
           let rows' = rows @ [jset ''timestamp'' (JStr (timestamp_to_str_gm stamp)) (get_mstch_map S uninit uninit_hash txd)] in
           if 500 < tx_i then Inr (Inr (rows', True))
           else result_rows S E uninit uninit_hash w (t + 4) ms txhs (tx_i + 1) rows'))"

text \<open>\<open>map::insert\<close> leaves a key that is there alone.\<close>

definition jinsert :: "string \<Rightarrow> json \<Rightarrow> (string \<times> json) list \<Rightarrow> (string \<times> json) list" where
  "jinsert k v kvs = (if map_of kvs k = None then kvs @ [(k, v)] else kvs)"

fun result_kinds ::
    "site \<Rightarrow> search_env \<Rightarrow> u64 \<Rightarrow> hash \<Rightarrow> page_world \<Rightarrow> nat \<Rightarrow> mempool_status \<Rightarrow> (string \<times> string list) list \<Rightarrow>
       (string \<times> json) list \<Rightarrow> db_exn + (string + (string \<times> json) list)" where
  "result_kinds S E uninit uninit_hash w t ms [] ctx = Inr (Inr ctx)"
| "result_kinds S E uninit uninit_hash w t ms ((kind, txhs) # kinds) ctx =
     (let ctx1 = jinsert kind (JArr []) (jinsert (''has_'' @ kind) (JBool (txhs \<noteq> [])) ctx) in
      if txhs = [] then result_kinds S E uninit uninit_hash w t ms kinds ctx1
      else case result_rows S E uninit uninit_hash w t ms txhs 0 (case map_of ctx1 kind of Some (JArr rows) \<Rightarrow> rows | _ \<Rightarrow> []) of
             Inl e \<Rightarrow> Inl e
           | Inr (Inl msg) \<Rightarrow> Inr (Inl msg)
           | Inr (Inr (rows, too_many)) \<Rightarrow>
             result_kinds S E uninit uninit_hash w (t + 4 * length txhs) ms kinds
               (jput ''no_results'' (JBool False)
                 (if too_many then jput ''to_many_results'' (JBool True) (jput kind (JArr rows) ctx1)
                  else jput kind (JArr rows) ctx1)))"

definition show_search_results ::
    "site \<Rightarrow> search_env \<Rightarrow> u64 \<Rightarrow> hash \<Rightarrow> page_world \<Rightarrow> nat \<Rightarrow> mempool_status \<Rightarrow> string \<Rightarrow> (string \<times> string list) list \<Rightarrow>
       db_exn + html" where
  "show_search_results S E uninit uninit_hash w t ms search_text all_possible_tx_hashes =
     (case result_kinds S E uninit uninit_hash w t ms all_possible_tx_hashes
             [(''testnet'', JBool (st_testnet S)), (''stagenet'', JBool (st_stagenet S)), (''search_text'', JStr search_text),
              (''no_results'', JBool True), (''to_many_results'', JBool False)] of
        Inl e \<Rightarrow> Inl e
      | Inr (Inl msg) \<Rightarrow> Inr (PlainText msg)
      | Inr (Inr ctx) \<Rightarrow> Inr (Rendered ''search_results'' (add_page_assets S (JObj ctx))))"

section \<open>Searching\<close>

text \<open>A page counts as found when its text does not contain the words of the failed lookups.\<close>

definition found_page :: "string \<Rightarrow> bool" where
  "found_page result_html \<longleftrightarrow> str_find ''Cant get'' result_html = None"

definition search_address :: "site \<Rightarrow> wallet_crypto \<Rightarrow> string \<Rightarrow> html" where
  "search_address S W search_text =
     (case parse_str_address W (address_nettype search_text) search_text of
        None \<Rightarrow> PlainText (''Cant parse address (probably incorrect format): '' @ search_text)
      | Some a \<Rightarrow> show_address_details S W a (address_nettype search_text))"

definition search_integrated :: "site \<Rightarrow> wallet_crypto \<Rightarrow> string \<Rightarrow> html" where
  "search_integrated S W search_text =
     (case wc_address W (wc_nettype W) search_text of
        None \<Rightarrow> PlainText (''Cant parse address (probably incorrect format): '' @ search_text)
      | Some a \<Rightarrow> show_integrated_address_details S W a (wa_payment_id a) (wc_nettype W))"

text \<open>
  \<open>page::search\<close>, in the order of the code: a transaction, a block by height when the text is
  short, a block by hash, an address by its length, and else the empty page of results. Lookup
  number \<open>i\<close> begins at observation \<open>ts i\<close>.
\<close>

definition search_height ::
    "site \<Rightarrow> u64 \<Rightarrow> hash \<Rightarrow> page_world \<Rightarrow> nat \<Rightarrow> (hash \<Rightarrow> epose_reward_response option) \<Rightarrow> u64 \<Rightarrow> string \<Rightarrow>
       db_exn + html option" where
  "search_height S uninit uninit_hash w t reward_of now search_text =
     (if length search_text < 12
      then case lexical_cast_u64 search_text of
             None \<Rightarrow> Inr None
           | Some blk_height \<Rightarrow>
             (case show_block S uninit uninit_hash w t reward_of now blk_height of
                Inl e \<Rightarrow> Inl e
              | Inr p \<Rightarrow> Inr (if found_page (html_text S p) then Some p else None))
      else Inr None)"

definition search ::
    "site \<Rightarrow> tx_env \<Rightarrow> search_env \<Rightarrow> wallet_crypto \<Rightarrow> u64 \<Rightarrow> hash \<Rightarrow> page_world \<Rightarrow> (nat \<Rightarrow> nat) \<Rightarrow> mempool_status \<Rightarrow>
       (hash \<Rightarrow> epose_reward_response option) \<Rightarrow> u64 \<Rightarrow> string \<Rightarrow> db_exn + html" where
  "search S T E W uninit uninit_hash w ts ms reward_of now search_arg =
     (let search_text = trim search_arg in
      case show_tx S T (w (ts 0)) ms now search_text False False of
        Inl e \<Rightarrow> Inl e
      | Inr p \<Rightarrow>
        if found_page (html_text S p) then Inr p
        else case search_height S uninit uninit_hash w (ts 1) reward_of now search_text of
               Inl e \<Rightarrow> Inl e
             | Inr (Some p) \<Rightarrow> Inr p
             | Inr None \<Rightarrow>
               (case show_block_of_hash S uninit uninit_hash w (ts 2) reward_of now search_text of
                  Inl e \<Rightarrow> Inl e
                | Inr p \<Rightarrow>
                  if found_page (html_text S p) then Inr p
                  else if length search_text = 95 then Inr (search_address S W search_text)
                  else if length search_text = 106 then Inr (search_integrated S W search_text)
                  else show_search_results S E uninit uninit_hash w (ts 3) ms search_text []))"

section \<open>What a search shows\<close>

lemma str_find_append: "str_find pat (pre @ pat @ post) \<noteq> None"
proof (induction pre)
  case Nil
  show ?case
  proof (cases "pat @ post")
    case (Cons c cs)
    have "starts_with pat (pat @ post)" by (simp add: starts_with_def)
    with Cons show ?thesis by simp
  qed simp
qed auto

lemma not_found_text: "\<not> found_page (''Cant get'' @ post)"
  using str_find_append [of "''Cant get''" "[]" post] by (auto simp: found_page_def)

lemma html_text_plain [simp]: "html_text S (PlainText s) = s"
  by (simp add: html_text_def)

lemma show_block_shapes:
  assumes "show_block S u uh w t reward_of now h = Inr p"
  shows "(\<exists>ctx. p = Rendered ''block'' ctx) \<or> (\<exists>post. p = PlainText (''Cant get'' @ post))"
  using assms
  by (auto simp: show_block_def Let_def split: if_splits option.splits sum.splits prod.splits)

lemma show_block_of_hash_shapes:
  assumes "show_block_of_hash S u uh w t reward_of now s = Inr p"
  shows "(\<exists>ctx. p = Rendered ''block'' ctx) \<or> (\<exists>post. p = PlainText (''Cant get'' @ post))"
  using assms show_block_shapes by (auto simp: show_block_of_hash_def split: option.splits)

definition error_text :: "json \<Rightarrow> string" where
  "error_text ctx = (case jget ''error_msg'' ctx of JStr m \<Rightarrow> m | _ \<Rightarrow> [])"

lemma show_tx_shapes:
  assumes "show_tx S T v ms now s rings refresh = Inr p"
  obtains (tx_page) ctx where "p = Rendered ''tx'' ctx"
    | (missing) post where "p = PlainText (''Cant get'' @ post)"
    | (broken) txh tx pool stamp ctx where "parse_str_secret_key (pl_core (st_lib S)) s = Some txh"
      "find_tx v ms txh = Inr (Some (tx, pool, stamp))" "construct_tx_context S T v now tx rings = Inr ctx"
      "jget ''has_error'' ctx = JBool True" "p = PlainText (error_text ctx)"
proof (cases "parse_str_secret_key (pl_core (st_lib S)) s")
  case None
  with assms missing [of "'' tx hash due to parse error: '' @ s"] show ?thesis by (simp add: show_tx_def)
next
  case txh: (Some txh)
  from assms txh obtain r where r: "find_tx v ms txh = Inr r" by (cases "find_tx v ms txh") (auto simp: show_tx_def)
  show ?thesis
  proof (cases r)
    case None
    with assms txh r missing [of "'' tx: '' @ s"] show ?thesis by (simp add: show_tx_def)
  next
    case (Some e)
    obtain tx pool stamp where e: "e = (tx, pool, stamp)" by (cases e)
    from assms txh r Some e obtain ctx where ctx: "construct_tx_context S T v now tx rings = Inr ctx"
      by (cases "construct_tx_context S T v now tx rings") (auto simp: show_tx_def)
    show ?thesis
    proof (cases "jget ''has_error'' ctx = JBool True")
      case True
      with assms txh r Some e ctx have "p = PlainText (error_text ctx)" by (simp add: show_tx_def error_text_def)
      with broken [OF txh _ ctx True] r Some e show ?thesis by blast
    next
      case False
      with assms txh r Some e ctx tx_page show ?thesis by (auto simp: show_tx_def)
    qed
  qed
qed

text \<open>The templates of the pages a search can show.\<close>

definition search_templates :: "string set" where
  "search_templates = {''tx'', ''block'', ''address'', ''search_results''}"

text \<open>
  A search does not show the message of a lookup that failed: its result is one of four pages,
  the report on an address that cannot be read, or the report of a transaction that was found but
  whose ring could not be read, in words that the search does not recognise as a failure.
\<close>

theorem search_shows_no_failed_lookup:
  assumes "search S T E W u uh w ts ms reward_of now arg = Inr p"
  shows "case p of
      Rendered template ctx \<Rightarrow> template \<in> search_templates
    | PlainText msg \<Rightarrow>
        msg = ''Cant parse address (probably incorrect format): '' @ trim arg \<and> length (trim arg) \<in> {95, 106}
        \<or> found_page msg \<and> (\<exists>txh tx pool stamp ctx. parse_str_secret_key (pl_core (st_lib S)) (trim arg) = Some txh
             \<and> find_tx (w (ts 0)) ms txh = Inr (Some (tx, pool, stamp))
             \<and> construct_tx_context S T (w (ts 0)) now tx False = Inr ctx
             \<and> jget ''has_error'' ctx = JBool True \<and> msg = error_text ctx)"
proof -
  let ?s = "trim arg"
  note run = assms [unfolded search_def Let_def]
  from run obtain p1 where p1: "show_tx S T (w (ts 0)) ms now ?s False False = Inr p1"
    by (cases "show_tx S T (w (ts 0)) ms now ?s False False") auto
  show ?thesis
  proof (cases "found_page (html_text S p1)")
    case True
    with run p1 have "p = p1" by simp
    from p1 show ?thesis
    proof (cases rule: show_tx_shapes)
      case (missing post)
      with True not_found_text [of post] show ?thesis by simp
    next
      case (broken txh tx pool stamp ctx)
      with True \<open>p = p1\<close> show ?thesis by (simp only: html.case html_text_plain) blast
    qed (simp add: \<open>p = p1\<close> search_templates_def)
  next
    case False
    note run = run [unfolded p1 sum.case if_not_P [OF False]]
    let ?h = "search_height S u uh w (ts 1) reward_of now ?s"
    from run obtain r where r: "?h = Inr r" by (cases ?h) auto
    show ?thesis
    proof (cases r)
      case (Some q)
      with r obtain h where q: "show_block S u uh w (ts 1) reward_of now h = Inr q" "found_page (html_text S q)"
        by (auto simp: search_height_def split: if_splits option.splits sum.splits)
      from run r Some have "p = q" by simp
      with show_block_shapes [OF q(1)] q(2) show ?thesis using not_found_text by (auto simp: search_templates_def)
    next
      case None
      note run = run [unfolded r None sum.case option.case]
      let ?b = "show_block_of_hash S u uh w (ts 2) reward_of now ?s"
      from run obtain q where q: "?b = Inr q" by (cases ?b) auto
      show ?thesis
      proof (cases "found_page (html_text S q)")
        case True
        with run q have "p = q" by simp
        with show_block_of_hash_shapes [OF q] True show ?thesis using not_found_text by (auto simp: search_templates_def)
      next
        case False
        with run q show ?thesis
          by (auto simp: search_address_def search_integrated_def show_address_details_def
              show_integrated_address_details_def show_search_results_def search_templates_def
              split: if_splits option.splits)
      qed
    qed
  qed
qed

section \<open>Results are bounded and filed\<close>

text \<open>The loop stops after 502 rows, not after 500.\<close>

lemma result_rows_count:
  "result_rows S E u uh w t ms txhs i rows = Inr (Inr (rows', too_many)) \<Longrightarrow> i = length rows \<Longrightarrow> i \<le> 501 \<Longrightarrow>
   length rows' \<le> 502 \<and> (too_many \<longleftrightarrow> length rows' = 502) \<and> length rows' \<le> length rows + length txhs"
proof (induction txhs arbitrary: t i rows)
  case (Cons txh txhs)
  from Cons.prems(1) obtain tx stamp txd where
    "result_tx S E w t ms txh = Inr (Some (tx, stamp))" "get_tx_details (st_lib S) (w (t + 3)) tx False 0 0 = Inr txd"
    by (auto split: sum.splits option.splits prod.splits)
  note step = Cons.prems(1) [unfolded result_rows.simps this sum.case option.case prod.case Let_def]
  show ?case
  proof (cases "500 < i")
    case True
    with step Cons.prems(2,3) show ?thesis by auto
  next
    case False
    from step [unfolded if_not_P [OF False]] Cons.IH [of "t + 4" "i + 1"] Cons.prems(2) False show ?thesis by fastforce
  qed
qed auto

text \<open>A transaction found by its payment id is filed under a key that the table of results does not have.\<close>

lemma payment_id_hits_misfiled:
  "search_txs P w t txs s = Inr hits \<Longrightarrow> hits ''payments_id'' = Some []"
proof -
  have "search_txs_loop P w t txs s m = Inr hits \<Longrightarrow> hits ''payments_id'' = m ''payments_id''" for m
    by (induction txs arbitrary: t m) (auto simp: push_if_def map_push_def split: sum.splits)
  then show "search_txs P w t txs s = Inr hits \<Longrightarrow> hits ''payments_id'' = Some []"
    by (simp add: search_txs_def no_hits_def)
qed

section \<open>Searching a broken transaction\<close>

definition broken_message :: string where
  "broken_message = missing_outputs_message sample_tx_env 0 [4]"

lemma broken_message_found: "found_page broken_message"
proof -
  have "u64_to_string 0 = ''0''" "u64_to_string 4 = ''4''"
    by (simp_all add: u64_to_string_def nat_to_dec.simps [of 0] nat_to_dec.simps [of 4] digit_char_def char_of_def bit_0)
  then show ?thesis
    by (simp add: found_page_def broken_message_def missing_outputs_message_def sample_tx_env_def starts_with_def)
qed

theorem search_shows_no_failed_lookup_witness:
  "search sample_site sample_tx_env \<lparr>se_hex_to_pod = id, se_block_timestamp = (\<lambda>_ _. Inr 0)\<rparr> sample_wallet 0 [] (\<lambda>_. gone_view)
     (\<lambda>i. i) secret_pool (\<lambda>_. None) 100 (replicate 64 CHR ''b'') = Inr (PlainText broken_message)
   \<and> (\<exists>tx ctx. construct_tx_context sample_site sample_tx_env gone_view 100 tx False = Inr ctx
        \<and> jget ''has_error'' ctx = JBool True \<and> broken_message = error_text ctx)"
proof -
  let ?k = "replicate 64 CHR ''b''" and ?E = "\<lparr>se_hex_to_pod = id, se_block_timestamp = (\<lambda>_ _. Inr 0)\<rparr>"
  obtain txd where txd: "get_tx_details sample_lib gone_view secret_tx False 0 0 = Inr txd" "td_input_key_imgs txd = [ring_input]"
    using secret_details [OF ring_input_simps(8)] by blast
  have lib: "st_lib sample_site = sample_lib" "\<not> st_enable_mixins_details sample_site" by (simp_all add: sample_site_def)
  have amt: "in_amount ring_input = 0" by (simp add: ring_input_def)
  have "\<exists>ctx. construct_tx_context sample_site sample_tx_env gone_view 100 secret_tx False = Inr ctx
      \<and> jget ''has_error'' ctx = JBool True \<and> jget ''error_msg'' ctx = JStr broken_message"
    by (simp add: construct_tx_context_def lib txd no_inputs_yet_def ring_input_simps jget_JObj_append amt
        tx_base_context_lacks max_no_of_inputs_to_show_def broken_message_def Let_def)
  then obtain ctx where ctx: "construct_tx_context sample_site sample_tx_env gone_view 100 secret_tx False = Inr ctx"
    "jget ''has_error'' ctx = JBool True" "jget ''error_msg'' ctx = JStr broken_message" by blast
  have found: "parse_str_secret_key (pl_core (st_lib sample_site)) ?k = Some ?k" "find_tx gone_view secret_pool ?k = Inr (Some (secret_tx, True, 99))"
    using secret_found by (auto simp: find_tx_for_json_def lib parse_str_secret_key_def sample_lib_def plain_core_def split: sum.splits option.splits)
  have trim: "trim ?k = ?k" by (simp add: trim_def is_space_def)
  then have run: "search sample_site sample_tx_env ?E sample_wallet 0 [] (\<lambda>_. gone_view) (\<lambda>i. i) secret_pool (\<lambda>_. None) 100 ?k
      = Inr (PlainText broken_message)"
    by (simp only: search_def Let_def) (simp add: show_tx_def found ctx broken_message_found)
  from search_shows_no_failed_lookup [OF run] show ?thesis
    unfolding html.case trim length_replicate using run by auto
qed

end
