(* ===== verification/Ring_Members.thy ===== *)
theory Ring_Members
  imports Search
begin

text \<open>
  Raw data of transactions, blocks and ring members (\<open>show_tx_hex\<close>, \<open>show_block_hex\<close>, \<open>show_ringmembers_hex\<close>,
  \<open>show_ringmemberstx_hex\<close>, \<open>show_ringmemberstx_jsonhex\<close>) and the page of alternative blocks
  (\<open>altblocks\<close>), all of \<open>src/src/page.h\<close>. The theorems show that the archive of ring members keeps rings
  apart and that the JSON of the rings is complete or an error.
\<close>

section \<open>Raw data as text\<close>

text \<open>
  What the raw pages take from elsewhere: reading a hash in hexadecimal, the hexadecimal text of a
  transaction (\<open>Inl\<close> the text of an exception), of the memory of an output's data and of a complete
  block (\<open>None\<close> when it cannot be serialised), the two archives of ring members, the transactions
  of a list of outputs (\<open>None\<close> for an exception), the height a block records, and what the daemon's
  answer for a block needs to be read.
\<close>

record hex_env =
  hx_hex_to_pod :: "string \<Rightarrow> hash option"
  hx_tx_to_hex :: "transaction \<Rightarrow> string + string"
  hx_output_hex :: "hash \<times> u64 \<Rightarrow> string"
  hx_store_block :: "block_complete_entry \<Rightarrow> blob option"
  hx_block_hex :: "block \<Rightarrow> string + string"
  hx_blank_block :: block
  hx_archive_keys :: "(u64 list \<times> string list) list \<Rightarrow> blob"
  hx_archive_txs :: "(string \<times> string list) list \<Rightarrow> blob"
  hx_output_txs :: "nat \<Rightarrow> u64 \<Rightarrow> u64 list \<Rightarrow> (hash \<times> u64) list option"
  hx_block_height :: "block \<Rightarrow> u64"
  hx_from_hex :: "string \<Rightarrow> blob option"
  hx_parse_block :: "blob \<Rightarrow> block option"
  hx_block_call :: "string \<Rightarrow> string json_call"
  hx_block_res :: "string rpc_res"

definition show_tx_hex :: "hex_env \<Rightarrow> page_view \<Rightarrow> mempool_status \<Rightarrow> string \<Rightarrow> db_exn + string" where
  "show_tx_hex X v ms tx_hash_str =
     (case page_get_tx (hx_hex_to_pod X) v ms tx_hash_str of
        Inl e \<Rightarrow> Inl e
      | Inr None \<Rightarrow> Inr (''Cant get tx: '' @ tx_hash_str)
      | Inr (Some (tx, _)) \<Rightarrow>
        (case hx_tx_to_hex X tx of
           Inl what \<Rightarrow> Inr (''Failed to obtain hex of tx due to: '' @ what)
         | Inr hex \<Rightarrow> Inr hex))"

text \<open>
  \<open>show_block_hex\<close> goes on with the default-constructed block when the height cannot be read. An
  exception of the complete entry is caught with the others; its text is \<open>what\<close>.
\<close>

definition show_block_hex ::
    "hex_env \<Rightarrow> page_lib \<Rightarrow> string \<Rightarrow> page_world \<Rightarrow> nat \<Rightarrow> u64 \<Rightarrow> bool \<Rightarrow> string" where
  "show_block_hex X P what w t block_height complete_blk =
     (let blk = (case get_block_by_height (pv_chain (w t)) block_height of None \<Rightarrow> hx_blank_block X | Some b \<Rightarrow> b) in
      if \<not> complete_blk
      then (case hx_block_hex X blk of
              Inl e \<Rightarrow> ''Failed to obtain hex of a block due to: '' @ e
            | Inr hex \<Rightarrow> hex)
      else case get_block_complete_entry (pl_core P) (pv_chain (w (t + 1))) blk \<lparr>bce_block = [], bce_txs = []\<rparr> of
             Inl e \<Rightarrow> ''Failed to obtain hex of a block due to: '' @ what
           | Inr (False, _) \<Rightarrow> ''Failed to obtain complete block data ''
           | Inr (True, bce) \<Rightarrow>
             (case hx_store_block X bce of
                None \<Rightarrow> ''Failed to obtain complete block data''
              | Some b \<Rightarrow> buff_to_hex P b))"

section \<open>Ring members\<close>

text \<open>\<open>m[key].push_back(v)\<close> for a map kept as a list.\<close>

fun alist_push :: "'k \<Rightarrow> 'v \<Rightarrow> ('k \<times> 'v list) list \<Rightarrow> ('k \<times> 'v list) list" where
  "alist_push k v [] = [(k, [v])]"
| "alist_push k v ((k', vs) # kvs) = (if k' = k then (k', vs @ [v]) # kvs else (k', vs) # alist_push k v kvs)"

definition alist_push_all :: "'k \<Rightarrow> 'v list \<Rightarrow> ('k \<times> 'v list) list \<Rightarrow> ('k \<times> 'v list) list" where
  "alist_push_all k vs m = fold (alist_push k) vs m"

text \<open>The members of one ring; \<open>None\<close> where the input is skipped.\<close>

definition ring_of_input :: "page_lib \<Rightarrow> page_view \<Rightarrow> txin_to_key \<Rightarrow> (hash \<times> u64) list option" where
  "ring_of_input P v k =
     (let offsets = absolute_output_offsets P (key_offsets k) in
      if \<not> are_absolute_offsets_good v offsets k then None else output_keys v (in_amount k) offsets)"

definition ring_key :: "page_lib \<Rightarrow> txin_to_key \<Rightarrow> u64 list" where
  "ring_key P k = absolute_output_offsets P (key_offsets k) @ [in_amount k]"

fun ring_members_loop ::
    "hex_env \<Rightarrow> page_lib \<Rightarrow> page_world \<Rightarrow> nat \<Rightarrow> txin_to_key list \<Rightarrow> (u64 list \<times> string list) list \<Rightarrow>
       (u64 list \<times> string list) list" where
  "ring_members_loop X P w t [] m = m"
| "ring_members_loop X P w t (k # ks) m =
     (case ring_of_input P (w t) k of
        None \<Rightarrow> ring_members_loop X P w (t + 1) ks m
      | Some outs \<Rightarrow>
        ring_members_loop X P w (t + 1) ks (alist_push_all (ring_key P k) (map (hx_output_hex X) outs) m))"

definition show_ringmembers_hex ::
    "hex_env \<Rightarrow> page_lib \<Rightarrow> page_world \<Rightarrow> nat \<Rightarrow> mempool_status \<Rightarrow> string \<Rightarrow> db_exn + string" where
  "show_ringmembers_hex X P w t ms tx_hash_str =
     (case page_get_tx (hx_hex_to_pod X) (w t) ms tx_hash_str of
        Inl e \<Rightarrow> Inl e
      | Inr None \<Rightarrow> Inr (''Cant get tx: '' @ tx_hash_str)
      | Inr (Some (tx, _)) \<Rightarrow>
        let all_mixin_outputs = ring_members_loop X P w (t + 1) (get_key_images tx) [] in
        if all_mixin_outputs = [] then Inr ''No ring members to serialize''
        else Inr (buff_to_hex P (hx_archive_keys X all_mixin_outputs)))"

section \<open>Transactions of the ring members\<close>

text \<open>The key is the decimal text of the amount and of every offset, one after the other.\<close>

definition ring_tx_key :: "page_lib \<Rightarrow> txin_to_key \<Rightarrow> string" where
  "ring_tx_key P k =
     u64_to_string (in_amount k) @ concat (map u64_to_string (absolute_output_offsets P (key_offsets k)))"

text \<open>
  The loop over the members: a transaction that is missing is thrown as an error. The serialised
  form has the hash, the index and the data.
\<close>

fun ring_tx_members ::
    "page_lib \<Rightarrow> page_world \<Rightarrow> nat \<Rightarrow> (hash \<times> u64) list \<Rightarrow> (hash \<times> u64 \<times> string) list \<Rightarrow>
       db_exn + (hash \<times> u64 \<times> string) list" where
  "ring_tx_members P w t [] acc = Inr acc"
| "ring_tx_members P w t ((txh, i) # txs) acc =
     (case micro_get_tx (pv_chain (w t)) txh of
        Inl e \<Rightarrow> Inl e
      | Inr None \<Rightarrow> Inl OTHER_EXN
      | Inr (Some tx) \<Rightarrow>
        ring_tx_members P w (t + 1) txs (acc @ [(txh, i, buff_to_hex P (tx_to_blob (pl_core P) tx))]))"

definition ring_tx_text :: "hash \<times> u64 \<times> string \<Rightarrow> string" where
  "ring_tx_text r = (case r of (txh, i, tx_hex) \<Rightarrow> txh @ u64_to_string i @ tx_hex)"

fun ring_txs_loop ::
    "hex_env \<Rightarrow> page_lib \<Rightarrow> page_world \<Rightarrow> nat \<Rightarrow> txin_to_key list \<Rightarrow> (string \<times> string list) list \<Rightarrow>
       db_exn + (string \<times> string list) list option" where
  "ring_txs_loop X P w t [] m = Inr (Some m)"
| "ring_txs_loop X P w t (k # ks) m =
     (case hx_output_txs X t (in_amount k) (absolute_output_offsets P (key_offsets k)) of
        None \<Rightarrow> Inr None
      | Some indices \<Rightarrow>
        (case ring_tx_members P w (t + 1) indices [] of
           Inl e \<Rightarrow> Inl e
         | Inr txs \<Rightarrow>
           ring_txs_loop X P w (t + 1 + length indices) ks (alist_push_all (ring_tx_key P k) (map ring_tx_text txs) m)))"

definition show_ringmemberstx_hex ::
    "hex_env \<Rightarrow> page_lib \<Rightarrow> page_world \<Rightarrow> nat \<Rightarrow> mempool_status \<Rightarrow> string \<Rightarrow> db_exn + string" where
  "show_ringmemberstx_hex X P w t ms tx_hash_str =
     (case page_get_tx (hx_hex_to_pod X) (w t) ms tx_hash_str of
        Inl e \<Rightarrow> Inl e
      | Inr None \<Rightarrow> Inr (''Cant get tx: '' @ tx_hash_str)
      | Inr (Some (tx, _)) \<Rightarrow>
        (case ring_txs_loop X P w (t + 1) (get_key_images tx) [] of
           Inl e \<Rightarrow> Inl e
         | Inr None \<Rightarrow> Inr (''Cant get ring member tx_out_index for tx '' @ tx_hash_str)
         | Inr (Some all_mixin_txs) \<Rightarrow>
           if all_mixin_txs = [] then Inr ''No ring members to serialize''
           else Inr (buff_to_hex P (hx_archive_txs X all_mixin_txs))))"

section \<open>Ring members as JSON\<close>

definition json_pair :: "string \<Rightarrow> json" where
  "json_pair msg = JArr [JStr ''error'', JStr msg]"

definition placeholder_outputs :: json where
  "placeholder_outputs = JArr [JArr [JStr ''index placeholder'', JStr ''public_key placeholder'', JStr ''amount placeholder'']]"

definition ring_member_json :: "(hash \<times> u64) \<times> (hash \<times> u64 \<times> string) \<Rightarrow> json" where
  "ring_member_json r =
     (case r of ((pubkey, _), (txh, i, tx_hex)) \<Rightarrow>
        JObj [(''ouput_pk'', JStr pubkey), (''tx_hash'', JStr txh), (''output_index_in_tx'', JU64 i),
              (''tx_hex'', JStr tx_hex)])"

fun ring_inputs_json ::
    "hex_env \<Rightarrow> page_lib \<Rightarrow> page_world \<Rightarrow> nat \<Rightarrow> string \<Rightarrow> txin_to_key list \<Rightarrow> json list \<Rightarrow> db_exn + (string + json list)" where
  "ring_inputs_json X P w t s [] rows = Inr (Inr rows)"
| "ring_inputs_json X P w t s (k # ks) rows =
     (let offsets = absolute_output_offsets P (key_offsets k) in
      case (hx_output_txs X t (in_amount k) offsets, output_keys (w (t + 1)) (in_amount k) offsets) of
        (Some indices, Some outs) \<Rightarrow>
          if length indices \<noteq> length outs then Inr (Inl ''indices.size() != mixin_outputs.size()'')
          else (case ring_tx_members P w (t + 2) indices [] of
                  Inl e \<Rightarrow> Inl e
                | Inr txs \<Rightarrow>
                  ring_inputs_json X P w (t + 2 + length indices) s ks
                    (rows @ [JObj [(''key_image'', JStr (k_image k)), (''amount'', JU64 (in_amount k)),
                                   (''absolute_offsets'', JArr (map JU64 offsets)),
                                   (''ring_members'', JArr (map ring_member_json (zip outs txs)))]]))
      | _ \<Rightarrow> Inr (Inl (''Cant get ring member tx_out_index for tx '' @ s)))"

definition ring_json_head :: "page_lib \<Rightarrow> nat \<Rightarrow> string \<Rightarrow> string \<Rightarrow> transaction \<Rightarrow> (string \<times> json) list" where
  "ring_json_head P nettype tx_hash_str tx_hex tx =
     [(''hash'', JStr tx_hash_str), (''hex'', JStr tx_hex), (''nettype'', JNum (int nettype)),
      (''is_ringct'', JBool (is_ringct P tx)), (''rct_type'', JNum (int (unat (rct_type tx)))),
      (''_comment'', JStr ''Just a placeholder for some comment if needed later''),
      (''sender'', JObj [(''seed'', JStr []), (''address'', JStr []), (''viewkey'', JStr []), (''spendkey'', JStr []),
         (''amount'', JNum 0), (''change'', JNum 0), (''outputs'', placeholder_outputs), (''_comment'', JStr [])]),
      (''recipient'', JArr [JObj [(''seed'', JStr []), (''address'', JStr []), (''is_subaddress'', JBool False),
         (''viewkey'', JStr []), (''spendkey'', JStr []), (''amount'', JNum 0), (''outputs'', placeholder_outputs),
         (''_comment'', JStr [])]])]"

definition ring_json_tail :: "page_lib \<Rightarrow> tx_details \<Rightarrow> block \<Rightarrow> blob \<Rightarrow> (string \<times> json) list" where
  "ring_json_tail P txd blk data =
     [(''payment_id'', JStr (td_payment_id txd)), (''payment_id8'', JStr (td_payment_id8 txd)),
      (''payment_id8e'', JStr (td_payment_id8 txd)), (''block'', JStr (buff_to_hex P data)),
      (''block_version'', JArr [JNum (int (unat (major_version blk))), JNum (int (unat (minor_version blk)))])]"

definition show_ringmemberstx_jsonhex ::
    "hex_env \<Rightarrow> page_lib \<Rightarrow> nat \<Rightarrow> page_world \<Rightarrow> nat \<Rightarrow> mempool_status \<Rightarrow> string \<Rightarrow> db_exn + json" where
  "show_ringmemberstx_jsonhex X P nettype w t ms tx_hash_str =
     (case page_get_tx (hx_hex_to_pod X) (w t) ms tx_hash_str of
        Inl e \<Rightarrow> Inl e
      | Inr None \<Rightarrow> Inr (JStr (''Cant get tx: '' @ tx_hash_str))
      | Inr (Some (tx, txh)) \<Rightarrow>
      (case hx_tx_to_hex X tx of
         Inl what \<Rightarrow> Inr (json_pair ''Failed to obtain hex of tx'')
       | Inr tx_hex \<Rightarrow>
      (case tx_block_height (w (t + 1)) txh of
         Inl e \<Rightarrow> Inr (json_pair ''Cant get block height'')
       | Inr h \<Rightarrow>
      (case get_block_by_height (pv_chain (w (t + 2))) h of
         None \<Rightarrow> Inr (json_pair ''Cant get block'')
       | Some blk \<Rightarrow>
      (case get_block_complete_entry (pl_core P) (pv_chain (w (t + 3))) blk \<lparr>bce_block = [], bce_txs = []\<rparr> of
         Inl e \<Rightarrow> Inl e
       | Inr (False, _) \<Rightarrow> Inr (json_pair ''Failed to obtain complete block data '')
       | Inr (True, bce) \<Rightarrow>
      (case hx_store_block X bce of
         None \<Rightarrow> Inr (json_pair ''Failed to obtain complete block data'')
       | Some data \<Rightarrow>
      (case get_tx_details P (w (t + 4)) tx False 0 0 of
         Inl e \<Rightarrow> Inl e
       | Inr txd \<Rightarrow>
      (case ring_inputs_json X P w (t + 5) tx_hash_str (get_key_images tx) [] of
         Inl e \<Rightarrow> Inl e
       | Inr (Inl msg) \<Rightarrow> Inr (json_pair msg)
       | Inr (Inr inputs) \<Rightarrow>
         Inr (JObj (ring_json_head P nettype tx_hash_str tx_hex tx
           @ ring_json_tail P txd blk data @ [(''inputs'', JArr inputs)]))))))))))"

section \<open>Alternative blocks\<close>

text \<open>
  \<open>altblocks\<close>: a list the daemon does not give is shown as empty, a block it does not give with
  height and number of transactions -1.
\<close>

definition alt_row :: "hex_env \<Rightarrow> u64 \<Rightarrow> string \<Rightarrow> block option \<Rightarrow> json" where
  "alt_row X now alt_blk_hash alt_blk =
     JObj [(''height'', JNum (case alt_blk of None \<Rightarrow> -1 | Some b \<Rightarrow> sint (hx_block_height X b))),
           (''age'', JStr (case alt_blk of None \<Rightarrow> ''-1'' | Some b \<Rightarrow> fst (get_age now (blk_timestamp b) False))),
           (''hash'', JStr alt_blk_hash),
           (''no_of_txs'', JNum (case alt_blk of None \<Rightarrow> -1 | Some b \<Rightarrow> int (length (tx_hashes b))))]"

fun alt_rows :: "hex_env \<Rightarrow> http_env \<Rightarrow> u64 \<Rightarrow> string list \<Rightarrow> http_client \<Rightarrow> json list \<times> http_client" where
  "alt_rows X E now [] c = ([], c)"
| "alt_rows X E now (h # hs) c =
     (case rpc_get_block E (hx_from_hex X) (hx_parse_block X) (hx_block_call X h) (hx_block_res X) c of (b, c1) \<Rightarrow>
        case alt_rows X E now hs c1 of (rows, c2) \<Rightarrow> (alt_row X now h b # rows, c2))"

definition altblocks ::
    "site \<Rightarrow> hex_env \<Rightarrow> http_env \<Rightarrow> string list json_call \<Rightarrow> string list rpc_res \<Rightarrow> u64 \<Rightarrow> http_client \<Rightarrow>
       html \<times> http_client" where
  "altblocks S X E call res now c =
     (case get_alt_blocks E call res c of (answer, c1) \<Rightarrow>
        let atl_blks_hashes = (case answer of None \<Rightarrow> [] | Some hs \<Rightarrow> hs) in
        case alt_rows X E now atl_blks_hashes c1 of (rows, c2) \<Rightarrow>
          (Rendered ''altblocks'' (add_page_assets S
             (JObj [(''testnet'', JBool (st_testnet S)), (''stagenet'', JBool (st_stagenet S)),
                    (''blocks'', JArr rows), (''no_alt_blocks'', JNum (int (length atl_blks_hashes)))])), c2))"

section \<open>Rings are kept apart by amount and offsets\<close>

definition lookup_ring :: "'k \<Rightarrow> ('k \<times> 'v list) list \<Rightarrow> 'v list" where
  "lookup_ring k m = (case map_of m k of None \<Rightarrow> [] | Some vs \<Rightarrow> vs)"

lemma map_of_alist_push: "map_of (alist_push k v m) = (map_of m)(k \<mapsto> lookup_ring k m @ [v])"
  by (induction m) (auto simp: lookup_ring_def)

lemma lookup_ring_Nil [simp]: "lookup_ring k [] = []"
  by (simp add: lookup_ring_def)

lemma alist_push_key_set: "fst ` set (alist_push k v m) = insert k (fst ` set m)"
  by (induction k v m rule: alist_push.induct) (simp_all add: insert_commute)

lemma alist_push_keys: "distinct (map fst m) \<Longrightarrow> distinct (map fst (alist_push k v m))"
  by (induction k v m rule: alist_push.induct) (auto simp: alist_push_key_set)

lemma lookup_push_all:
  "lookup_ring k (alist_push_all k' vs m) = lookup_ring k m @ (if k = k' then vs else [])"
proof (induction vs arbitrary: m)
  case (Cons v vs)
  have "lookup_ring k (alist_push k' v m) = lookup_ring k m @ (if k = k' then [v] else [])"
    by (simp add: lookup_ring_def map_of_alist_push)
  with Cons show ?case by (simp add: alist_push_all_def)
qed (simp add: alist_push_all_def)

lemma push_all_keys: "distinct (map fst m) \<Longrightarrow> distinct (map fst (alist_push_all k vs m))"
  unfolding alist_push_all_def by (induction vs arbitrary: m) (simp_all add: alist_push_keys)

text \<open>The rings that could be read, in the order of the inputs.\<close>

fun rings_read :: "page_lib \<Rightarrow> page_world \<Rightarrow> nat \<Rightarrow> txin_to_key list \<Rightarrow> (txin_to_key \<times> (hash \<times> u64) list) list" where
  "rings_read P w t [] = []"
| "rings_read P w t (k # ks) =
     (case ring_of_input P (w t) k of None \<Rightarrow> [] | Some outs \<Rightarrow> [(k, outs)]) @ rings_read P w (t + 1) ks"

lemma ring_members_loop_spec:
  "lookup_ring key (ring_members_loop X P w t ks m) = lookup_ring key m
     @ concat (map (\<lambda>(k, outs). map (hx_output_hex X) outs) (filter (\<lambda>(k, _). ring_key P k = key) (rings_read P w t ks)))"
  by (induction ks arbitrary: t m) (auto simp: lookup_push_all split: option.splits)

lemma ring_members_loop_keys:
  "distinct (map fst m) \<Longrightarrow> distinct (map fst (ring_members_loop X P w t ks m))"
  by (induction ks arbitrary: t m) (auto simp: push_all_keys split: option.splits)

definition members_under :: "hex_env \<Rightarrow> page_lib \<Rightarrow> u64 list \<Rightarrow> u64 \<Rightarrow> (txin_to_key \<times> (hash \<times> u64) list) list \<Rightarrow> string list" where
  "members_under X P offsets amount rings = concat (map (\<lambda>(k, outs). map (hx_output_hex X) outs)
     (filter (\<lambda>(k, _). absolute_output_offsets P (key_offsets k) = offsets \<and> in_amount k = amount) rings))"

text \<open>
  The archive of ring members has the rings of a transaction apart: under the key of an
  amount and a list of offsets it has the members of exactly those rings of that amount and those
  offsets that could be read, complete and in order, and no key twice.
\<close>

theorem ring_members_archived:
  assumes "page_get_tx (hx_hex_to_pod X) (w t) ms s = Inr (Some (tx, txh))"
  shows "\<exists>m. show_ringmembers_hex X P w t ms s
      = Inr (if m = [] then ''No ring members to serialize'' else buff_to_hex P (hx_archive_keys X m))
    \<and> distinct (map fst m)
    \<and> (\<forall>offsets amount. lookup_ring (offsets @ [amount]) m
         = members_under X P offsets amount (rings_read P w (t + 1) (get_key_images tx)))"
  using assms
  by (intro exI [of _ "ring_members_loop X P w (t + 1) (get_key_images tx) []"])
     (simp add: show_ringmembers_hex_def ring_members_loop_keys ring_members_loop_spec ring_key_def members_under_def Let_def)

text \<open>
  The other archive does not: its key runs amount and offsets together, so different rings can
  have one key.
\<close>

lemma ring_tx_keys_collide:
  assumes "\<And>x. absolute_output_offsets P [x] = [x]"
  shows "\<exists>k k'. ring_key P k \<noteq> ring_key P k' \<and> ring_tx_key P k = ring_tx_key P k'"
proof -
  let ?k = "\<lparr>in_amount = 1, key_offsets = [23], k_image = []\<rparr>" and ?k' = "\<lparr>in_amount = 12, key_offsets = [3], k_image = []\<rparr>"
  have "u64_to_string 1 = ''1''" "u64_to_string 23 = ''23''" "u64_to_string 12 = ''12''" "u64_to_string 3 = ''3''"
    by (simp_all add: u64_to_string_def nat_to_dec.simps [of 1] nat_to_dec.simps [of 23] nat_to_dec.simps [of 2]
        nat_to_dec.simps [of 12] nat_to_dec.simps [of 3] nat_to_dec.simps [of "Suc 0"] digit_char_def char_of_def bit_0)
  then have "ring_tx_key P ?k = ring_tx_key P ?k'" by (simp add: ring_tx_key_def assms)
  moreover have "ring_key P ?k \<noteq> ring_key P ?k'" by (simp add: ring_key_def assms)
  ultimately show ?thesis by blast
qed

section \<open>Ring members as JSON\<close>

lemma ring_tx_members_length:
  "ring_tx_members P w t txs acc = Inr r \<Longrightarrow> length r = length acc + length txs"
  by (induction txs arbitrary: t acc) (auto split: sum.splits option.splits)

definition ring_row_ok :: "hex_env \<Rightarrow> page_lib \<Rightarrow> txin_to_key \<Rightarrow> json \<Rightarrow> bool" where
  "ring_row_ok X P k row \<longleftrightarrow> jget ''key_image'' row = JStr (k_image k) \<and> jget ''amount'' row = JU64 (in_amount k)
     \<and> (\<exists>u indices members. hx_output_txs X u (in_amount k) (absolute_output_offsets P (key_offsets k)) = Some indices
          \<and> jget ''ring_members'' row = JArr members \<and> length members = length indices)"

lemma ring_inputs_json_rows:
  "ring_inputs_json X P w t s ks rows = Inr (Inr r) \<Longrightarrow> \<exists>rest. r = rows @ rest \<and> list_all2 (ring_row_ok X P) ks rest"
proof (induction ks arbitrary: t rows)
  case (Cons k ks)
  let ?o = "absolute_output_offsets P (key_offsets k)"
  from Cons.prems obtain indices outs txs where
    read: "hx_output_txs X t (in_amount k) ?o = Some indices" "length indices = length outs"
      "ring_tx_members P w (t + 2) indices [] = Inr txs"
    and go: "ring_inputs_json X P w (t + 2 + length indices) s ks
      (rows @ [JObj [(''key_image'', JStr (k_image k)), (''amount'', JU64 (in_amount k)),
         (''absolute_offsets'', JArr (map JU64 ?o)), (''ring_members'', JArr (map ring_member_json (zip outs txs)))]]) = Inr (Inr r)"
    by (auto simp: Let_def split: option.splits sum.splits if_splits)
  have "length txs = length indices" using ring_tx_members_length [OF read(3)] by simp
  then have "ring_row_ok X P k (JObj [(''key_image'', JStr (k_image k)), (''amount'', JU64 (in_amount k)),
      (''absolute_offsets'', JArr (map JU64 ?o)), (''ring_members'', JArr (map ring_member_json (zip outs txs)))])"
    using read(1,2) by (auto simp: ring_row_ok_def intro!: exI [of _ t] exI [of _ indices])
  with Cons.IH [OF go] show ?case by auto
qed simp


section \<open>A chain with one transaction\<close>

definition sample_hex :: hex_env where
  "sample_hex = \<lparr>hx_hex_to_pod = Some, hx_tx_to_hex = (\<lambda>_. Inr ''00''), hx_output_hex = fst, hx_store_block = (\<lambda>_. Some ''bb''),
     hx_block_hex = (\<lambda>_. Inr ''bb''), hx_blank_block = genesis_block, hx_archive_keys = (\<lambda>_. ''keys''), hx_archive_txs = (\<lambda>_. ''txs''),
     hx_output_txs = (\<lambda>_ _ _. Some [(''tt'', 0)]), hx_block_height = (\<lambda>_. 0), hx_from_hex = Some, hx_parse_block = (\<lambda>_. None),
     hx_block_call = (\<lambda>_ _ r. (False, r)), hx_block_res = \<lparr>res_status = [], res_data = []\<rparr>\<rparr>"

definition mined_view :: page_view where
  "mined_view = ring_view\<lparr>pv_chain := (pv_chain ring_view)\<lparr>have_tx := (\<lambda>_. True), db_get_tx := (\<lambda>_. Inr sample_private)\<rparr>,
     tx_block_height := (\<lambda>_. Inr 0)\<rparr>"

lemma mined_view_simps:
  "micro_get_tx (pv_chain mined_view) h = Inr (Some sample_private)" "tx_block_height mined_view h = Inr 0"
  "get_block_by_height (pv_chain mined_view) i = Some genesis_block" "output_keys mined_view a os = Some [(''kk'', 3)]"
  "num_outputs mined_view a = 10"
  by (simp_all add: mined_view_def ring_view_def micro_get_tx_def sample_view_def get_block_by_height_def)

lemma sample_private_image: "get_key_images sample_private = [\<lparr>in_amount = 0, key_offsets = [4], k_image = ''ki''\<rparr>]"
  by (simp add: get_key_images_def sample_private_def List.map_filter_def)

lemma mined_tx: "page_get_tx (hx_hex_to_pod sample_hex) mined_view ms s = Inr (Some (sample_private, s))"
  by (simp add: page_get_tx_def mined_view_simps sample_hex_def)

lemma get_tx_details_mined:
  assumes "tx_block_height v (tx_hash_of P tx) = Inr b"
  shows "\<exists>txd. get_tx_details P v tx coinbase h height = Inr txd"
proof -
  obtain a b c d ks is' where "summary_of_in_out_rct (pl_core P) tx [] [] = ((a, b, c, d), ks, is')"
    by (metis prod.exhaust)
  moreover obtain e pid pid8 where
    "get_payment_id (extra_nonce P) (encrypted_payment_id P) (plain_payment_id P) (tx_extra tx) = (e, pid, pid8)"
    by (metis prod.exhaust)
  ultimately show ?thesis using assms by (simp add: get_tx_details_def Let_def)
qed

theorem ring_members_archived_witness:
  "\<exists>m. show_ringmembers_hex sample_hex sample_lib (\<lambda>_. mined_view) 0 (initial_status sample_network_info) ''h''
         = Inr (if m = [] then ''No ring members to serialize'' else ''keys'')
     \<and> lookup_ring [4 :: u64, 0] m = [''kk'']"
proof -
  let ?w = "\<lambda>_ :: nat. mined_view"
  have lib: "absolute_output_offsets sample_lib os = os" "buff_to_hex sample_lib b = b" for os b by (simp_all add: sample_lib_def)
  have X: "hx_output_hex sample_hex = fst" "hx_archive_keys sample_hex m = ''keys''" for m by (simp_all add: sample_hex_def)
  have rings: "rings_read sample_lib ?w (0 + 1) (get_key_images sample_private)
      = [(\<lparr>in_amount = 0, key_offsets = [4], k_image = ''ki''\<rparr>, [(''kk'', 3)])]"
    by (simp add: sample_private_image ring_of_input_def lib are_absolute_offsets_good_iff mined_view_simps)
  from ring_members_archived [of sample_hex ?w 0 "initial_status sample_network_info" "''h''" sample_private "''h''" sample_lib, OF mined_tx]
  obtain m where
    run: "show_ringmembers_hex sample_hex sample_lib ?w 0 (initial_status sample_network_info) ''h''
      = Inr (if m = [] then ''No ring members to serialize'' else buff_to_hex sample_lib (hx_archive_keys sample_hex m))"
    and rows: "\<forall>offsets amount. lookup_ring (offsets @ [amount]) m
      = members_under sample_hex sample_lib offsets amount (rings_read sample_lib ?w (0 + 1) (get_key_images sample_private))"
    by blast
  from rows [rule_format, of "[4]" 0] have "lookup_ring [4 :: u64, 0] m = [''kk'']" unfolding rings by (simp add: lib X members_under_def)
  with run [unfolded lib X] show ?thesis by blast
qed


end
