(* ===== verification/Router.thy ===== *)
theory Router
  imports Wallet_Rpc
begin

text \<open>
  The router behind \<open>CROW_ROUTE\<close> (\<open>class Trie\<close> and \<open>class Router\<close> of \<open>src/ext/crow_all.h\<close>), which decides
  which closure of \<open>main.cpp\<close> a request reaches: rules are cut into tokens and stored in a trie per
  method, chains of simple nodes are merged, and a request descends into every child that fits. The
  main theorem states that this is the first rule, in the order of registration, that matches the
  whole URL. Blueprints, catch-all rules and WebSocket rules are left out, as the explorer has none.
\<close>

section \<open>Rules and their parameters\<close>

text \<open>
  The parameter a rule has between angle brackets, and the vectors a request's arguments are
  collected in, one per type. A floating-point argument is kept as the text it was read from: no
  rule of the explorer has one.
\<close>

datatype param_type = P_INT | P_UINT | P_DOUBLE | P_STRING | P_PATH

record routing_params =
  int_params :: "int list"
  uint_params :: "u64 list"
  double_params :: "string list"
  string_params :: "string list"

definition no_params :: routing_params where
  "no_params = \<lparr>int_params = [], uint_params = [], double_params = [], string_params = []\<rparr>"

datatype rule_token = Ch char | Param param_type

definition param_traits :: "(string \<times> param_type) list" where
  "param_traits =
     [(''<int>'', P_INT), (''<uint>'', P_UINT), (''<float>'', P_DOUBLE), (''<double>'', P_DOUBLE),
      (''<str>'', P_STRING), (''<string>'', P_STRING), (''<path>'', P_PATH)]"

text \<open>
  A rule as \<open>Trie::add\<close> reads it, character by character; \<open>None\<close> for a parameter that is none of
  these, which \<open>CROW_ROUTE\<close> rejects when it is compiled.
\<close>

fun trait_at :: "(string \<times> param_type) list \<Rightarrow> string \<Rightarrow> (string \<times> param_type) option" where
  "trait_at [] s = None"
| "trait_at ((name, p) # traits) s = (if starts_with name s then Some (name, p) else trait_at traits s)"

lemma trait_at_member: "trait_at traits s = Some (name, p) \<Longrightarrow> (name, p) \<in> set traits"
  by (induction traits) (auto split: if_splits)

function rule_tokens :: "string \<Rightarrow> rule_token list option" where
  "rule_tokens [] = Some []"
| "rule_tokens (c # s) =
     (if c = CHR ''<''
      then (case trait_at param_traits (c # s) of
              None \<Rightarrow> None
            | Some (name, p) \<Rightarrow> map_option ((#) (Param p)) (rule_tokens (drop (length name) (c # s))))
      else map_option ((#) (Ch c)) (rule_tokens s))"
  by pat_completeness auto
termination
proof (relation "measure length")
  fix c :: char and s a name p
  assume "trait_at param_traits (c # s) = Some a" "(name, p) = a"
  then have "(name, p) \<in> set param_traits" by (auto dest: trait_at_member)
  then show "(drop (length name) (c # s), c # s) \<in> measure length"
    by (auto simp: param_traits_def)
qed auto

section \<open>The trie\<close>

text \<open>Rule index 0 means that no rule ends here; a node has a parameter or a key.\<close>

datatype trie_node = Node (rule_index: nat) (key: string) (param: "param_type option") (children: "trie_node list")

definition empty_trie :: trie_node where
  "empty_trie = Node 0 [] None []"

fun carries :: "rule_token \<Rightarrow> trie_node \<Rightarrow> bool" where
  "carries (Ch c) n \<longleftrightarrow> key n \<noteq> [] \<and> hd (key n) = c"
| "carries (Param p) n \<longleftrightarrow> param n = Some p"

fun new_node :: "rule_token \<Rightarrow> trie_node" where
  "new_node (Ch c) = Node 0 [c] None []"
| "new_node (Param p) = Node 0 [] (Some p) []"

text \<open>
  \<open>Trie::add\<close>: descend into the first child that carries the token, or append one; \<open>None\<close> is the
  exception for a rule that exists already.
\<close>

function trie_add :: "rule_token list \<Rightarrow> nat \<Rightarrow> trie_node \<Rightarrow> trie_node option"
  and add_below :: "rule_token \<Rightarrow> rule_token list \<Rightarrow> nat \<Rightarrow> trie_node list \<Rightarrow> trie_node list option" where
  "trie_add [] i (Node j k p cs) = (if j \<noteq> 0 then None else Some (Node i k p cs))"
| "trie_add (t # ts) i (Node j k p cs) = map_option (Node j k p) (add_below t ts i cs)"
| "add_below t ts i [] = map_option (\<lambda>n. [n]) (trie_add ts i (new_node t))"
| "add_below t ts i (n # ns) =
     (if carries t n then map_option (\<lambda>n'. n' # ns) (trie_add ts i n)
      else map_option ((#) n) (add_below t ts i ns))"
  by pat_completeness auto
termination
  by (relation "inv_image (less_than <*lex*> less_than)
        (\<lambda>x. case x of Inl (ts, _, _) \<Rightarrow> (length ts, 0) | Inr (_, ts, _, ns) \<Rightarrow> (length ts, Suc (length ns)))") auto

definition is_simple :: "trie_node \<Rightarrow> bool" where
  "is_simple n \<longleftrightarrow> rule_index n = 0 \<and> length (children n) < 2 \<and> param n = None
     \<and> list_all (\<lambda>c. param c = None) (children n)"

fun node_count :: "trie_node \<Rightarrow> nat" where
  "node_count (Node i k p cs) = Suc (sum_list (map node_count cs))"

text \<open>\<open>optimizeNode\<close>: a simple node takes over the key, the rule and the children of its only child.\<close>

function optimize_node :: "trie_node \<Rightarrow> trie_node" where
  "optimize_node (Node i k p []) = Node i k p []"
| "optimize_node (Node i k p (c # cs)) =
     (if is_simple (Node i k p (c # cs))
      then optimize_node (Node (rule_index c) (k @ key c) p (children c))
      else Node i k p (map optimize_node (c # cs)))"
  by pat_completeness auto
termination
proof (relation "measure node_count")
  fix i k p c cs
  show "(Node (rule_index c) (k @ key c) p (children c), Node i k p (c # cs)) \<in> measure node_count"
    by (cases c) simp
next
  fix i k p c cs and z :: trie_node
  assume "z \<in> set (c # cs)"
  then have "node_count z \<le> sum_list (map node_count (c # cs))"
    by (intro member_le_sum_list) auto
  then show "(z, Node i k p (c # cs)) \<in> measure node_count"
    by (auto simp: less_Suc_eq_le)
qed simp

definition optimize :: "trie_node \<Rightarrow> trie_node" where
  "optimize head = Node (rule_index head) (key head) (param head) (map optimize_node (children head))"


section \<open>Looking up a URL\<close>

text \<open>
  \<open>strtoll\<close> with base 10 on a text that starts with a digit or a sign; \<open>None\<close> when nothing is
  converted or the number is out of range.
\<close>

definition strtoll :: "string \<Rightarrow> (nat \<times> int) option" where
  "strtoll s =
     (let signed = (s \<noteq> [] \<and> (hd s = CHR ''+'' \<or> hd s = CHR ''-''));
          ds = takeWhile is_digit (if signed then tl s else s);
          v = (if s \<noteq> [] \<and> hd s = CHR ''-'' then - int (dec_value ds) else int (dec_value ds))
      in if ds = [] \<or> v < - (2 ^ 63) \<or> 2 ^ 63 \<le> v then None
         else Some ((if signed then 1 else 0) + length ds, v))"

text \<open>
  What a parameter takes from the rest of the URL, and the arguments with its value appended.
  \<open>strtod\<close> says how many characters the function of that name converts.
\<close>

fun scan_param ::
    "(string \<Rightarrow> nat option) \<Rightarrow> param_type \<Rightarrow> string \<Rightarrow> routing_params \<Rightarrow> (routing_params \<times> string) option" where
  "scan_param strtod p [] ps = None"
| "scan_param strtod P_INT (c # s) ps =
     (if is_digit c \<or> c = CHR ''+'' \<or> c = CHR ''-''
      then (case strtoll (c # s) of
              None \<Rightarrow> None
            | Some (n, v) \<Rightarrow> Some (ps\<lparr>int_params := int_params ps @ [v]\<rparr>, drop n (c # s)))
      else None)"
| "scan_param strtod P_UINT (c # s) ps =
     (if is_digit c \<or> c = CHR ''+''
      then (case stoull (c # s) of
              Parsed n v \<Rightarrow> Some (ps\<lparr>uint_params := uint_params ps @ [v]\<rparr>, drop n (c # s))
            | _ \<Rightarrow> None)
      else None)"
| "scan_param strtod P_DOUBLE (c # s) ps =
     (if is_digit c \<or> c = CHR ''+'' \<or> c = CHR ''-'' \<or> c = CHR ''.''
      then (case strtod (c # s) of
              None \<Rightarrow> None
            | Some n \<Rightarrow> Some (ps\<lparr>double_params := double_params ps @ [take n (c # s)]\<rparr>, drop n (c # s)))
      else None)"
| "scan_param strtod P_STRING (c # s) ps =
     (let piece = takeWhile (\<lambda>c. c \<noteq> CHR ''/'') (c # s) in
      if piece = [] then None
      else Some (ps\<lparr>string_params := string_params ps @ [piece]\<rparr>, drop (length piece) (c # s)))"
| "scan_param strtod P_PATH (c # s) ps = Some (ps\<lparr>string_params := string_params ps @ [c # s]\<rparr>, [])"

definition enter ::
    "(string \<Rightarrow> nat option) \<Rightarrow> trie_node \<Rightarrow> string \<Rightarrow> routing_params \<Rightarrow> (routing_params \<times> string) option" where
  "enter strtod n s ps =
     (case param n of
        Some p \<Rightarrow> scan_param strtod p s ps
      | None \<Rightarrow> if starts_with (key n) s then Some (ps, drop (length (key n)) s) else None)"

definition update_found :: "nat \<times> routing_params \<Rightarrow> nat \<times> routing_params \<Rightarrow> nat \<times> routing_params" where
  "update_found ret found =
     (if fst ret \<noteq> 0 \<and> (fst found = 0 \<or> fst ret < fst found) then ret else found)"

text \<open>
  \<open>Trie::find\<close> on the rest of the URL: at its end the rule of the node, else the smallest rule index
  any fitting child gives. The arguments are pushed before a descent and popped after it.
\<close>

fun trie_find :: "(string \<Rightarrow> nat option) \<Rightarrow> string \<Rightarrow> routing_params \<Rightarrow> trie_node \<Rightarrow> nat \<times> routing_params"
  and find_below ::
    "(string \<Rightarrow> nat option) \<Rightarrow> string \<Rightarrow> routing_params \<Rightarrow> trie_node list \<Rightarrow> nat \<times> routing_params \<Rightarrow> nat \<times> routing_params" where
  "trie_find strtod s ps (Node i k p cs) =
     (if s = [] then (i, ps) else find_below strtod s ps cs (0, no_params))"
| "find_below strtod s ps [] found = found"
| "find_below strtod s ps (n # ns) found =
     (case enter strtod n s ps of
        None \<Rightarrow> find_below strtod s ps ns found
      | Some (ps', s') \<Rightarrow> find_below strtod s ps ns (update_found (trie_find strtod s' ps' n) found))"

section \<open>What the trie means\<close>

text \<open>
  A rule matches when its tokens, taken one after the other, use up the URL; this is the reading a
  list of rules has without a trie.
\<close>

fun match_rule ::
    "(string \<Rightarrow> nat option) \<Rightarrow> rule_token list \<Rightarrow> string \<Rightarrow> routing_params \<Rightarrow> routing_params option" where
  "match_rule strtod [] s ps = (if s = [] then Some ps else None)"
| "match_rule strtod (Ch c # ts) s ps =
     (case s of [] \<Rightarrow> None | c' # s' \<Rightarrow> if c' = c then match_rule strtod ts s' ps else None)"
| "match_rule strtod (Param p # ts) s ps =
     (case scan_param strtod p s ps of None \<Rightarrow> None | Some (ps', s') \<Rightarrow> match_rule strtod ts s' ps')"

fun first_match ::
    "(string \<Rightarrow> nat option) \<Rightarrow> string \<Rightarrow> nat \<Rightarrow> rule_token list list \<Rightarrow> (nat \<times> routing_params) option" where
  "first_match strtod url i [] = None"
| "first_match strtod url i (ts # rs) =
     (case match_rule strtod ts url no_params of
        None \<Rightarrow> first_match strtod url (Suc i) rs
      | Some ps \<Rightarrow> Some (i, ps))"

text \<open>The tokens a node stands for, and the rules below a node with the tokens that lead to them.\<close>

definition label :: "trie_node \<Rightarrow> rule_token list" where
  "label n = (case param n of Some p \<Rightarrow> [Param p] | None \<Rightarrow> map Ch (key n))"

fun rules_of :: "trie_node \<Rightarrow> (rule_token list \<times> nat) list" where
  "rules_of (Node i k p cs) =
     (if i \<noteq> 0 then [([], i)] else []) @ concat (map (\<lambda>c. map (\<lambda>(ts, j). (label c @ ts, j)) (rules_of c)) cs)"

fun best_hit ::
    "(string \<Rightarrow> nat option) \<Rightarrow> string \<Rightarrow> routing_params \<Rightarrow> (rule_token list \<times> nat) list \<Rightarrow> nat \<times> routing_params \<Rightarrow>
       nat \<times> routing_params" where
  "best_hit strtod s ps [] found = found"
| "best_hit strtod s ps ((ts, j) # rs) found =
     best_hit strtod s ps rs
       (case match_rule strtod ts s ps of None \<Rightarrow> found | Some ps' \<Rightarrow> update_found (j, ps') found)"

abbreviation nothing :: "nat \<times> routing_params" where
  "nothing \<equiv> (0, no_params)"

definition hit :: "nat \<times> routing_params \<Rightarrow> nat \<times> routing_params" where
  "hit r = (if fst r = 0 then nothing else r)"

lemma update_found_hit [simp]: "update_found (hit r) b = update_found r b"
  by (simp add: update_found_def hit_def)

lemma update_found_nothing [simp]: "update_found nothing b = b" "update_found r nothing = hit r"
  by (auto simp: update_found_def hit_def)

lemma update_found_assoc: "update_found (update_found a b) c = update_found a (update_found b c)"
  by (auto simp: update_found_def)

lemma best_hit_append: "best_hit D s ps (xs @ ys) b = best_hit D s ps ys (best_hit D s ps xs b)"
  by (induction D s ps xs b rule: best_hit.induct) simp_all

lemma best_hit_from: "best_hit D s ps rs b = update_found (best_hit D s ps rs nothing) b"
proof (induction rs arbitrary: b)
  case (Cons r rs)
  obtain ts j where r: "r = (ts, j)" by (cases r)
  show ?case
  proof (cases "match_rule D ts s ps")
    case None
    then show ?thesis using Cons.IH [of b] r by simp
  next
    case (Some ps')
    have "update_found (best_hit D s ps rs (hit (j, ps'))) b
        = update_found (best_hit D s ps rs nothing) (update_found (j, ps') b)"
      by (subst Cons.IH) (simp add: update_found_assoc)
    then show ?thesis using Cons.IH [of "update_found (j, ps') b"] Some r by simp
  qed
qed simp

lemma hit_best_hit [simp]: "hit (best_hit D s ps rs nothing) = best_hit D s ps rs nothing"
  using best_hit_from [of D s ps rs nothing] by simp

lemma match_label:
  "match_rule D (label n @ ts) s ps
    = (case enter D n s ps of None \<Rightarrow> None | Some (ps', s') \<Rightarrow> match_rule D ts s' ps')"
proof (cases "param n")
  case None
  have "match_rule D (map Ch k @ ts) s ps
      = (if starts_with k s then match_rule D ts (drop (length k) s) ps else None)" for k
  proof (induction k arbitrary: s)
    case (Cons c k)
    then show ?case by (cases s) (auto simp: starts_with_def)
  qed (simp add: starts_with_def)
  then show ?thesis using None by (simp add: label_def enter_def)
qed (simp add: label_def enter_def)

lemma best_hit_label:
  "best_hit D s ps (map (\<lambda>(ts, j). (label n @ ts, j)) rs) b
    = (case enter D n s ps of None \<Rightarrow> b | Some (ps', s') \<Rightarrow> best_hit D s' ps' rs b)"
proof (induction rs arbitrary: b)
  case Nil
  show ?case by (simp split: option.split)
next
  case (Cons r rs)
  obtain ts j where r: "r = (ts, j)" by (cases r)
  have step: "best_hit D s ps (map (\<lambda>(ts, j). (label n @ ts, j)) (r # rs)) b
      = best_hit D s ps (map (\<lambda>(ts, j). (label n @ ts, j)) rs)
          (case match_rule D (label n @ ts) s ps of None \<Rightarrow> b | Some ps' \<Rightarrow> update_found (j, ps') b)"
    by (simp add: r)
  show ?case unfolding step Cons.IH by (simp add: r match_label split: option.split)
qed

fun labelled :: "trie_node \<Rightarrow> bool" where
  "labelled (Node i k p cs) \<longleftrightarrow> (\<forall>c \<in> set cs. label c \<noteq> [] \<and> labelled c)"

lemma enter_empty: "label n \<noteq> [] \<Longrightarrow> enter D n [] ps = None"
  by (auto simp: label_def enter_def starts_with_def split: option.splits)

lemma best_hit_children_empty:
  "\<forall>c \<in> set cs. label c \<noteq> [] \<Longrightarrow>
    best_hit D [] ps (concat (map (\<lambda>c. map (\<lambda>(ts, j). (label c @ ts, j)) (rules_of c)) cs)) b = b"
  by (induction cs arbitrary: b) (auto simp: best_hit_append best_hit_label enter_empty)

lemma trie_find_best:
  "labelled n \<Longrightarrow> hit (trie_find D s ps n) = best_hit D s ps (rules_of n) nothing"
  "\<forall>c \<in> set ns. label c \<noteq> [] \<and> labelled c \<Longrightarrow>
    find_below D s ps ns b
      = best_hit D s ps (concat (map (\<lambda>c. map (\<lambda>(ts, j). (label c @ ts, j)) (rules_of c)) ns)) b"
proof (induction D s ps n and D s ps ns b rule: trie_find_find_below.induct)
  case (1 D s ps i k p cs)
  then show ?case
  proof (cases "s = []")
    case True
    then show ?thesis using 1 by (simp add: best_hit_append best_hit_children_empty) (simp add: hit_def)
  next
    case False
    then show ?thesis using 1 by (simp add: best_hit_append)
  qed
next
  case (3 D s ps n ns b)
  show ?case
  proof (cases "enter D n s ps")
    case None
    then show ?thesis using 3 by (simp add: best_hit_append best_hit_label)
  next
    case (Some r)
    obtain ps' s' where r: "r = (ps', s')" by (cases r)
    have "update_found (trie_find D s' ps' n) b = best_hit D s' ps' (rules_of n) b"
      using "3.IH"(2) [OF Some r [symmetric]] "3.prems" best_hit_from [of D s' ps' "rules_of n" b]
      by (simp flip: update_found_hit [of "trie_find D s' ps' n"])
    with "3.IH"(3) [OF Some r [symmetric]] "3.prems" Some r show ?thesis
      by (simp add: best_hit_append best_hit_label)
  qed
qed simp


section \<open>Merging simple nodes changes nothing\<close>

definition below :: "trie_node \<Rightarrow> (rule_token list \<times> nat) list" where
  "below c = map (\<lambda>(ts, j). (label c @ ts, j)) (rules_of c)"

lemma rules_of_below: "rules_of (Node i k p cs) = (if i \<noteq> 0 then [([], i)] else []) @ concat (map below cs)"
  by (simp add: below_def [abs_def])

lemma label_simps [simp]: "label (Node i k None cs) = map Ch k" "label (Node i k (Some p) cs) = [Param p]"
  by (simp_all add: label_def)

lemma below_optimize_node: "below (optimize_node n) = below n \<and> (label n \<noteq> [] \<longrightarrow> label (optimize_node n) \<noteq> [])"
proof (induction n rule: optimize_node.induct)
  case (2 i k p c cs)
  show ?case
  proof (cases "is_simple (Node i k p (c # cs))")
    case True
    then have simple: "i = 0" "cs = []" "p = None" "param c = None" by (auto simp: is_simple_def)
    obtain j k' cs' where c: "c = Node j k' None cs'" using simple by (cases c) simp
    have "below (Node j (k @ k') None cs') = below (Node i k p (c # cs))"
      by (simp add: below_def simple c map_concat comp_def case_prod_unfold)
    with "2.IH"(1) [OF True] True show ?thesis by (auto simp: c simple)
  next
    case False
    have "map (below \<circ> optimize_node) (c # cs) = map below (c # cs)"
      using "2.IH"(2) [OF False] by (intro map_cong) auto
    then have "concat (map below (map optimize_node (c # cs))) = concat (map below (c # cs))"
      by (simp only: map_map)
    then have "rules_of (Node i k p (map optimize_node (c # cs))) = rules_of (Node i k p (c # cs))"
      by (simp only: rules_of_below)
    then have "below (Node i k p (map optimize_node (c # cs))) = below (Node i k p (c # cs))"
      unfolding below_def by (simp only: label_def trie_node.sel)
    moreover have "label (Node i k p (map optimize_node (c # cs))) = label (Node i k p (c # cs))"
      by (simp only: label_def trie_node.sel)
    ultimately show ?thesis using False by simp
  qed
qed simp

lemma labelled_optimize_node: "labelled n \<Longrightarrow> labelled (optimize_node n)"
proof (induction n rule: optimize_node.induct)
  case (2 i k p c cs)
  show ?case
  proof (cases "is_simple (Node i k p (c # cs))")
    case True
    with 2 show ?thesis by (cases c) auto
  next
    case False
    then show ?thesis using 2 below_optimize_node by auto
  qed
qed simp

lemma optimize_keeps:
  assumes "labelled n"
  shows "labelled (optimize n)" "rules_of (optimize n) = rules_of n"
proof -
  obtain i k p cs where n: "n = Node i k p cs" by (cases n)
  show "labelled (optimize n)"
    using assms below_optimize_node labelled_optimize_node by (auto simp: n optimize_def)
  have "map (below \<circ> optimize_node) cs = map below cs"
    using below_optimize_node by (intro map_cong) auto
  then have "concat (map below (map optimize_node cs)) = concat (map below cs)" by (simp only: map_map)
  then show "rules_of (optimize n) = rules_of n"
    by (simp only: n optimize_def rules_of_below trie_node.sel)
qed


section \<open>Adding a rule\<close>

text \<open>While rules are added every node stands for one token and no two siblings for the same.\<close>

definition single :: "trie_node \<Rightarrow> bool" where
  "single n \<longleftrightarrow> (case param n of None \<Rightarrow> length (key n) = 1 | Some _ \<Rightarrow> key n = [])"

fun plain :: "trie_node \<Rightarrow> bool" where
  "plain (Node i k p cs) \<longleftrightarrow> distinct (map label cs) \<and> (\<forall>c \<in> set cs. single c \<and> plain c)"

lemma carries_label: "single n \<Longrightarrow> carries t n \<longleftrightarrow> label n = [t]"
  by (cases t) (auto simp: single_def label_def length_Suc_conv split: option.splits)

lemma new_node_simps [simp]:
  "label (new_node t) = [t]" "single (new_node t)" "plain (new_node t)" "rules_of (new_node t) = []"
  by (cases t; simp add: single_def)+

lemma below_iff: "x \<in> set (below c) \<longleftrightarrow> (\<exists>ts. x = (label c @ ts, snd x) \<and> (ts, snd x) \<in> set (rules_of c))"
  by (cases x) (force simp: below_def)

definition same_tag :: "trie_node \<Rightarrow> trie_node \<Rightarrow> bool" where
  "same_tag n n' \<longleftrightarrow> key n' = key n \<and> param n' = param n"

lemma same_tag_label: "same_tag n n' \<Longrightarrow> label n' = label n \<and> single n' = single n"
  by (auto simp: same_tag_def label_def single_def split: option.split)

lemma below_update:
  "label n' = label n \<Longrightarrow> set (rules_of n') = insert (ts, i) (set (rules_of n)) \<Longrightarrow>
    set (below n') = insert (label n @ ts, i) (set (below n))"
  by (auto simp: below_def)

lemma not_below: "label c \<noteq> [t] \<Longrightarrow> single c \<Longrightarrow> (t # ts, j) \<notin> set (below c)"
  by (auto simp: below_def label_def single_def length_Suc_conv split: option.splits)

lemma trie_add_spec:
  "plain n \<Longrightarrow> i \<noteq> 0 \<Longrightarrow>
    (case trie_add ts i n of
       None \<Rightarrow> \<exists>j. (ts, j) \<in> set (rules_of n)
     | Some n' \<Rightarrow> plain n' \<and> same_tag n n' \<and> set (rules_of n') = insert (ts, i) (set (rules_of n)))"
  "distinct (map label ns) \<Longrightarrow> \<forall>c \<in> set ns. single c \<and> plain c \<Longrightarrow> i \<noteq> 0 \<Longrightarrow>
    (case add_below t ts i ns of
       None \<Rightarrow> \<exists>j. \<exists>c \<in> set ns. (t # ts, j) \<in> set (below c)
     | Some ns' \<Rightarrow> distinct (map label ns') \<and> (\<forall>c \<in> set ns'. single c \<and> plain c)
         \<and> set (map label ns') = insert [t] (set (map label ns))
         \<and> \<Union>(set ` below ` set ns') = insert (t # ts, i) (\<Union>(set ` below ` set ns)))"
proof (induction ts i n and t ts i ns rule: trie_add_add_below.induct)
  case (1 i j k p cs)
  then show ?case by (auto simp: same_tag_def rules_of_below simp del: rules_of.simps)
next
  case (2 t ts i j k p cs)
  then show ?case
    by (auto simp: same_tag_def rules_of_below simp del: rules_of.simps split: option.splits)
next
  case (3 t ts i)
  then show ?case
    by (auto dest!: same_tag_label simp: below_def split: option.splits)
next
  case (4 t ts i n ns)
  show ?case
  proof (cases "carries t n")
    case True
    then have l: "label n = [t]" using 4 carries_label by simp
    show ?thesis
    proof (cases "trie_add ts i n")
      case None
      then show ?thesis using 4 True l by (auto simp: below_def)
    next
      case (Some n')
      then have n': "plain n'" "same_tag n n'" "set (rules_of n') = insert (ts, i) (set (rules_of n))"
        using "4.IH"(1) [OF True] "4.prems" by auto
      note tag = same_tag_label [OF n'(2)]
      have "set (below n') = insert (t # ts, i) (set (below n))"
        using below_update [OF _ n'(3)] tag l by simp
      then show ?thesis using Some True tag l n' "4.prems" by auto
    qed
  next
    case False
    then have l: "label n \<noteq> [t]" using 4 carries_label by simp
    show ?thesis using "4.IH"(2) [OF False] "4.prems" False l
      by (auto split: option.splits)
  qed
qed


section \<open>The tables of the methods\<close>

text \<open>
  A rule with the methods it is registered for and its closure; the table of one method. The two
  reserved entries at the front of the vector of rules are left out here, so that rule index \<open>i\<close> is
  entry \<open>i - 2\<close>.
\<close>

record 'h rule =
  rule_text :: string
  rule_methods :: "http_method list"
  rule_handler :: 'h

record 'h per_method =
  pm_rules :: "'h rule list"
  pm_trie :: trie_node

definition empty_table :: "'h per_method" where
  "empty_table = \<lparr>pm_rules = [], pm_trie = empty_trie\<rparr>"

definition rule_special_redirect_slash :: nat where
  "rule_special_redirect_slash = 1"

definition add_text :: "string \<Rightarrow> nat \<Rightarrow> trie_node \<Rightarrow> trie_node option" where
  "add_text url i n = (case rule_tokens url of None \<Rightarrow> None | Some ts \<Rightarrow> trie_add ts i n)"

definition has_trailing_slash :: "string \<Rightarrow> bool" where
  "has_trailing_slash url \<longleftrightarrow> 1 < length url \<and> last url = CHR ''/''"

text \<open>
  \<open>internal_add_rule_object\<close> for one method, and \<open>Router::validate\<close>: the rules in the order of
  registration, then the test that the head is simple and the merging of nodes. \<open>None\<close> is an
  exception at start-up.
\<close>

definition internal_add_rule_object :: "'h rule \<Rightarrow> 'h per_method \<Rightarrow> 'h per_method option" where
  "internal_add_rule_object r pm =
     (let rules = pm_rules pm @ [r] in
      case add_text (rule_text r) (length rules + 1) (pm_trie pm) of
        None \<Rightarrow> None
      | Some trie \<Rightarrow>
        if has_trailing_slash (rule_text r)
        then (case add_text (butlast (rule_text r)) rule_special_redirect_slash trie of
                None \<Rightarrow> None
              | Some trie' \<Rightarrow> Some \<lparr>pm_rules = rules, pm_trie = trie'\<rparr>)
        else Some \<lparr>pm_rules = rules, pm_trie = trie\<rparr>)"

fun add_rules :: "'h rule list \<Rightarrow> 'h per_method \<Rightarrow> 'h per_method option" where
  "add_rules [] pm = Some pm"
| "add_rules (r # rs) pm =
     (case internal_add_rule_object r pm of None \<Rightarrow> None | Some pm' \<Rightarrow> add_rules rs pm')"

definition method_table :: "'h rule list \<Rightarrow> http_method \<Rightarrow> 'h per_method option" where
  "method_table all_rules m =
     (case add_rules (filter (\<lambda>r. m \<in> set (rule_methods r)) all_rules) empty_table of
        None \<Rightarrow> None
      | Some pm \<Rightarrow> if is_simple (pm_trie pm) then Some (pm\<lparr>pm_trie := optimize (pm_trie pm)\<rparr>) else None)"

definition lookup_url :: "(string \<Rightarrow> nat option) \<Rightarrow> 'h per_method \<Rightarrow> string \<Rightarrow> (nat \<times> routing_params) option" where
  "lookup_url strtod pm url =
     (case trie_find strtod url no_params (pm_trie pm) of (i, ps) \<Rightarrow> if i = 0 then None else Some (i, ps))"

section \<open>The first rule that matches\<close>

definition is_best ::
    "(string \<Rightarrow> nat option) \<Rightarrow> string \<Rightarrow> (rule_token list \<times> nat) set \<Rightarrow> nat \<times> routing_params \<Rightarrow> bool" where
  "is_best D url R r \<longleftrightarrow>
     r = nothing \<and> (\<forall>(ts, j) \<in> R. match_rule D ts url no_params = None)
     \<or> fst r \<noteq> 0 \<and> (\<exists>ts. (ts, fst r) \<in> R \<and> match_rule D ts url no_params = Some (snd r))
       \<and> (\<forall>(ts, j) \<in> R. match_rule D ts url no_params \<noteq> None \<longrightarrow> fst r \<le> j)"

lemma best_hit_is_best:
  "\<forall>(ts, j) \<in> set rs. j \<noteq> 0 \<Longrightarrow> is_best D url (set rs) (best_hit D url no_params rs nothing)"
proof (induction rs rule: rev_induct)
  case (snoc r rs)
  obtain ts j where r: "r = (ts, j)" by (cases r)
  have IH: "is_best D url (set rs) (best_hit D url no_params rs nothing)" and j: "0 < j"
    using snoc r by auto
  show ?case
  proof (cases "match_rule D ts url no_params")
    case None
    then show ?thesis using IH by (auto simp: r best_hit_append is_best_def)
  next
    case (Some ps)
    then show ?thesis using IH j
      by (auto simp: r best_hit_append is_best_def update_found_def)
  qed
qed (simp add: is_best_def)

lemma is_best_le:
  "is_best D url R r \<Longrightarrow> fst r \<noteq> 0 \<Longrightarrow> (ts, j) \<in> R \<Longrightarrow> match_rule D ts url no_params = Some ps \<Longrightarrow> fst r \<le> j"
  by (auto simp: is_best_def)

lemma is_best_unique:
  assumes "is_best D url R a" "is_best D url R b" "\<And>ts ts' j. (ts, j) \<in> R \<Longrightarrow> (ts', j) \<in> R \<Longrightarrow> ts = ts'"
  shows "a = b"
proof (cases "fst a = 0")
  case True
  then show ?thesis using assms(1,2) by (auto simp: is_best_def)
next
  case False
  obtain ts where a: "(ts, fst a) \<in> R" "match_rule D ts url no_params = Some (snd a)"
    using assms(1) False by (auto simp: is_best_def)
  then have "fst b \<noteq> 0" using assms(2) by (auto simp: is_best_def)
  then obtain ts' where b: "(ts', fst b) \<in> R" "match_rule D ts' url no_params = Some (snd b)"
    using assms(2) by (auto simp: is_best_def)
  have "fst a \<le> fst b" "fst b \<le> fst a"
    using is_best_le [OF assms(1) False b] is_best_le [OF assms(2) \<open>fst b \<noteq> 0\<close> a] by simp_all
  then have "fst a = fst b" by simp
  with a b assms(3) show ?thesis by (metis option.inject prod.collapse)
qed

fun numbered :: "nat \<Rightarrow> rule_token list list \<Rightarrow> (rule_token list \<times> nat) list" where
  "numbered i [] = []"
| "numbered i (ts # tss) = (ts, i) # numbered (Suc i) tss"

lemma numbered_snoc: "numbered i (tss @ [ts]) = numbered i tss @ [(ts, i + length tss)]"
  by (induction tss arbitrary: i) simp_all

lemma numberedD: "(ts, j) \<in> set (numbered i tss) \<Longrightarrow> i \<le> j \<and> j < i + length tss \<and> ts = tss ! (j - i)"
  by (induction tss arbitrary: i) (fastforce simp: nth_Cons')+

lemma numbered_member: "(ts, j) \<in> set (numbered i tss) \<Longrightarrow> ts \<in> set tss"
  by (induction tss arbitrary: i) auto

lemma first_match_is_best:
  "0 < i \<Longrightarrow> is_best D url (set (numbered i tss))
     (case first_match D url i tss of None \<Rightarrow> nothing | Some x \<Rightarrow> x)"
proof (induction tss arbitrary: i)
  case (Cons ts tss)
  have later: "(ts', j) \<in> set (numbered (Suc i) tss) \<Longrightarrow> i \<le> j" for ts' j
    by (auto dest: numberedD)
  show ?case
  proof (cases "match_rule D ts url no_params")
    case None
    then show ?thesis using Cons.IH [of "Suc i"]
      by (auto simp: is_best_def split: option.splits)
  next
    case (Some ps)
    then show ?thesis using Cons.prems by (auto simp: is_best_def dest: later)
  qed
qed (simp add: is_best_def)

lemma first_match_bound: "first_match D url i tss = Some (j, ps) \<Longrightarrow> i \<le> j \<and> j < i + length tss"
  by (induction tss arbitrary: i) (fastforce split: option.splits)+

definition table_of :: "'h rule list \<Rightarrow> rule_token list list \<Rightarrow> 'h per_method \<Rightarrow> bool" where
  "table_of rs tss pm \<longleftrightarrow> pm_rules pm = rs \<and> plain (pm_trie pm) \<and> length rs = length tss
     \<and> set (rules_of (pm_trie pm)) = set (numbered 2 tss)
     \<and> rule_index (pm_trie pm) = 0 \<and> param (pm_trie pm) = None
     \<and> set (map label (children (pm_trie pm))) \<subseteq> {[Ch (CHR ''/'')]}"

definition proper_rule :: "'h rule \<Rightarrow> rule_token list \<Rightarrow> bool" where
  "proper_rule r ts \<longleftrightarrow> rule_tokens (rule_text r) = Some ts \<and> \<not> has_trailing_slash (rule_text r)
     \<and> ts \<noteq> [] \<and> hd ts = Ch (CHR ''/'')"

lemma table_add:
  assumes "table_of rs tss pm" "proper_rule r ts" "ts \<notin> set tss"
  shows "\<exists>pm'. internal_add_rule_object r pm = Some pm' \<and> table_of (rs @ [r]) (tss @ [ts]) pm'"
proof -
  obtain k cs where pm: "pm_trie pm = Node 0 k None cs"
    using assms(1) by (cases "pm_trie pm") (auto simp: table_of_def)
  obtain ts' where ts: "ts = Ch (CHR ''/'') # ts'" using assms(2) by (cases ts) (auto simp: proper_rule_def)
  let ?i = "length rs + 2"
  have plain: "plain (Node 0 k None cs)" and R: "set (rules_of (Node 0 k None cs)) = set (numbered 2 tss)"
    using assms(1) pm by (auto simp: table_of_def)
  have new: "(ts, j) \<notin> set (rules_of (Node 0 k None cs))" for j
    using assms(3) numbered_member unfolding R by blast
  obtain n' where n': "trie_add ts ?i (Node 0 k None cs) = Some n'" "plain n'"
      "set (rules_of n') = insert (ts, ?i) (set (rules_of (Node 0 k None cs)))"
    using trie_add_spec(1) [OF plain, of ?i ts] new by (auto split: option.splits)
  obtain cs' where cs': "n' = Node 0 k None cs'" "add_below (Ch (CHR ''/'')) ts' ?i cs = Some cs'"
    using n'(1) ts by auto
  have labels: "set (map label cs') = insert [Ch (CHR ''/'')] (set (map label cs))"
    using trie_add_spec(2) [of cs ?i "Ch (CHR ''/'')" ts'] plain cs'(2) by auto
  have "internal_add_rule_object r pm = Some \<lparr>pm_rules = rs @ [r], pm_trie = n'\<rparr>"
    using assms(1,2) n'(1) pm
    by (simp add: internal_add_rule_object_def add_text_def proper_rule_def table_of_def)
  moreover have "table_of (rs @ [r]) (tss @ [ts]) \<lparr>pm_rules = rs @ [r], pm_trie = n'\<rparr>"
    using assms(1) n'(2,3) labels cs'(1) R pm
    by (simp add: table_of_def numbered_snoc del: rules_of.simps plain.simps)
  ultimately show ?thesis by blast
qed


lemma table_add_rules:
  "table_of rs tss pm \<Longrightarrow> list_all2 proper_rule rs' tss' \<Longrightarrow> distinct (tss @ tss') \<Longrightarrow>
    \<exists>pm'. add_rules rs' pm = Some pm' \<and> table_of (rs @ rs') (tss @ tss') pm'"
proof (induction rs' arbitrary: rs tss tss' pm)
  case (Cons r rs')
  then obtain ts ts'' where t: "tss' = ts # ts''" "proper_rule r ts" "list_all2 proper_rule rs' ts''"
    by (auto simp: list_all2_Cons1)
  have new: "ts \<notin> set tss" and dist: "distinct ((tss @ [ts]) @ ts'')" using Cons.prems(3) t(1) by auto
  obtain pm1 where pm1: "internal_add_rule_object r pm = Some pm1" "table_of (rs @ [r]) (tss @ [ts]) pm1"
    using table_add [OF Cons.prems(1) t(2) new] by blast
  from Cons.IH [OF pm1(2) t(3) dist] pm1(1) show ?case by (simp add: t(1))
qed simp

lemma plain_labelled: "plain n \<Longrightarrow> labelled n"
  by (induction n rule: plain.induct) (auto simp: single_def label_def split: option.splits)

lemma table_simple:
  assumes "table_of rs tss pm"
  shows "is_simple (pm_trie pm)"
proof -
  obtain k cs where pm: "pm_trie pm = Node 0 k None cs"
    using assms by (cases "pm_trie pm") (auto simp: table_of_def)
  have d: "distinct (map label cs)" and sub: "set (map label cs) \<subseteq> {[Ch (CHR ''/'')]}"
    using assms pm by (auto simp: table_of_def)
  have "length cs = card (set (map label cs))" using distinct_card [OF d] by simp
  also have "\<dots> \<le> 1" using card_mono [OF _ sub] by simp
  finally have "length cs < 2" by simp
  moreover have "param c = None" if "c \<in> set cs" for c
    using sub that by (auto simp: label_def split: option.splits)
  ultimately show ?thesis by (auto simp: is_simple_def pm list_all_iff)
qed

lemma empty_table_of: "table_of [] [] empty_table"
  by (simp add: table_of_def empty_table_def empty_trie_def)

lemma lookup_best:
  assumes "table_of rs tss pm"
  shows "lookup_url D (pm\<lparr>pm_trie := optimize (pm_trie pm)\<rparr>) url = first_match D url 2 tss"
proof -
  let ?n = "optimize (pm_trie pm)"
  let ?first = "case first_match D url 2 tss of None \<Rightarrow> nothing | Some x \<Rightarrow> x"
  have lab: "labelled (pm_trie pm)" and R: "set (rules_of (pm_trie pm)) = set (numbered 2 tss)"
    using assms plain_labelled by (auto simp: table_of_def)
  note opt = optimize_keeps [OF lab]
  have "\<forall>(ts, j) \<in> set (rules_of (pm_trie pm)). j \<noteq> 0"
    unfolding R by (auto dest: numberedD)
  then have "is_best D url (set (numbered 2 tss)) (hit (trie_find D url no_params ?n))"
    using best_hit_is_best [of "rules_of (pm_trie pm)" D url]
    by (simp add: trie_find_best(1) [OF opt(1)] opt(2) R)
  moreover have "is_best D url (set (numbered 2 tss)) ?first"
    by (rule first_match_is_best) simp
  ultimately have "hit (trie_find D url no_params ?n) = ?first"
    by (rule is_best_unique) (auto dest!: numberedD)
  then show ?thesis
    using first_match_bound [of D url 2 tss]
    by (auto simp: lookup_url_def hit_def split: option.splits prod.splits if_splits)
qed

lemma router_tables:
  assumes "list_all2 proper_rule (filter (\<lambda>r. m \<in> set (rule_methods r)) all_rules) tss" "distinct tss"
  shows "\<exists>pm. method_table all_rules m = Some pm
    \<and> pm_rules pm = filter (\<lambda>r. m \<in> set (rule_methods r)) all_rules
    \<and> (\<forall>strtod url. lookup_url strtod pm url = first_match strtod url 2 tss)"
proof -
  obtain pm where pm: "add_rules (filter (\<lambda>r. m \<in> set (rule_methods r)) all_rules) empty_table = Some pm"
      "table_of (filter (\<lambda>r. m \<in> set (rule_methods r)) all_rules) tss pm"
    using table_add_rules [OF empty_table_of assms(1)] assms(2) by auto
  then show ?thesis
    using table_simple [OF pm(2)] lookup_best [OF pm(2)] by (simp add: method_table_def table_of_def)
qed

text \<open>
  C14. Whatever rules are registered for a method, as long as they are well formed and no two are
  the same, the table is built without an exception and a look-up in the merged trie gives exactly
  the first rule, in the order of registration, that matches the whole URL, with the arguments of
  that match.
\<close>

theorem router_takes_first_match:
  assumes "list_all2 proper_rule (filter (\<lambda>r. m \<in> set (rule_methods r)) all_rules) tss" "distinct tss"
  shows "\<exists>pm. method_table all_rules m = Some pm
    \<and> pm_rules pm = filter (\<lambda>r. m \<in> set (rule_methods r)) all_rules
    \<and> (\<forall>strtod url. lookup_url strtod pm url = first_match strtod url 2 tss)"
  using router_tables [OF assms] .

definition no_strtod :: "string \<Rightarrow> nat option" where
  "no_strtod s = None"

lemma router_takes_first_match_witness:
  "\<exists>pm. method_table [\<lparr>rule_text = ''/a'', rule_methods = [Get], rule_handler = (1 :: nat)\<rparr>,
       \<lparr>rule_text = ''/<str>'', rule_methods = [Get], rule_handler = 2\<rparr>] Get = Some pm
    \<and> (\<forall>url. lookup_url no_strtod pm url
         = first_match no_strtod url 2 [[Ch (CHR ''/''), Ch (CHR ''a'')], [Ch (CHR ''/''), Param P_STRING]])"
proof -
  let ?rs = "[\<lparr>rule_text = ''/a'', rule_methods = [Get], rule_handler = (1 :: nat)\<rparr>,
       \<lparr>rule_text = ''/<str>'', rule_methods = [Get], rule_handler = 2\<rparr>]"
  let ?tss = "[[Ch (CHR ''/''), Ch (CHR ''a'')], [Ch (CHR ''/''), Param P_STRING]]"
  have "list_all2 proper_rule (filter (\<lambda>r. Get \<in> set (rule_methods r)) ?rs) ?tss"
    by (simp add: proper_rule_def has_trailing_slash_def param_traits_def starts_with_def)
  then show ?thesis using router_takes_first_match [of Get ?rs ?tss] by auto
qed

section \<open>The arguments of a handler\<close>

text \<open>What a rule has of each type of parameter is what a match collects.\<close>

definition arity :: "param_type list \<Rightarrow> rule_token list \<Rightarrow> nat" where
  "arity ps ts = length (filter (\<lambda>t. \<exists>p \<in> set ps. t = Param p) ts)"

lemma scan_param_arity:
  "scan_param D p s ps = Some (ps', s') \<Longrightarrow>
    length (uint_params ps') = length (uint_params ps) + (if p = P_UINT then 1 else 0)
    \<and> length (string_params ps') = length (string_params ps) + (if p = P_STRING \<or> p = P_PATH then 1 else 0)"
  by (cases "(D, p, s, ps)" rule: scan_param.cases)
     (auto simp: Let_def split: if_splits option.splits scan.splits)

lemma match_rule_arity:
  "match_rule D ts s ps = Some ps' \<Longrightarrow>
    length (uint_params ps') = length (uint_params ps) + arity [P_UINT] ts
    \<and> length (string_params ps') = length (string_params ps) + arity [P_STRING, P_PATH] ts"
proof (induction ts arbitrary: s ps)
  case (Cons t ts)
  then show ?case
  proof (cases t)
    case (Ch c)
    then show ?thesis using Cons by (auto simp: arity_def split: list.splits if_splits)
  next
    case (Param p)
    then obtain ps1 s1 where s1: "scan_param D p s ps = Some (ps1, s1)" "match_rule D ts s1 ps1 = Some ps'"
      using Cons.prems by (auto split: option.splits)
    show ?thesis using Cons.IH [OF s1(2)] scan_param_arity [OF s1(1)] Param by (auto simp: arity_def)
  qed
qed (auto simp: arity_def split: if_splits)

section \<open>Handling a request\<close>

text \<open>
  \<open>handle_initial\<close> and \<open>handle\<close>. \<open>Other\<close> stands for the methods no rule of the explorer names: their
  tables are empty. A request is answered by the router itself, or reaches the closure of a rule;
  \<open>Corrupted\<close> is the exception for a rule index beyond the table. The last component of \<open>Handler\<close> says
  that the body of the answer is not sent.
\<close>

type_synonym 'h router = "http_method \<Rightarrow> 'h per_method"

datatype 'h routed = Reply response | Handler 'h routing_params bool | Corrupted

definition validate :: "'h rule list \<Rightarrow> 'h router option" where
  "validate all_rules =
     (case (method_table all_rules Get, method_table all_rules Head, method_table all_rules Post,
            method_table all_rules Options) of
        (Some g, Some h, Some p, Some opt) \<Rightarrow>
          Some (\<lambda>m. case m of Get \<Rightarrow> g | Head \<Rightarrow> h | Post \<Rightarrow> p | Options \<Rightarrow> opt | Other \<Rightarrow> empty_table)
      | _ \<Rightarrow> None)"

fun method_name :: "http_method \<Rightarrow> string" where
  "method_name Get = ''GET''"
| "method_name Head = ''HEAD''"
| "method_name Post = ''POST''"
| "method_name Options = ''OPTIONS''"
| "method_name Other = []"

definition allow_header :: "http_method list \<Rightarrow> string" where
  "allow_header ms = ''OPTIONS, HEAD'' @ concat (map (\<lambda>m. '', '' @ method_name m) (filter (\<lambda>m. m \<noteq> Head) ms))"

definition code_response :: "nat \<Rightarrow> response" where
  "code_response c = blank_response\<lparr>code := c\<rparr>"

definition matching_methods :: "(string \<Rightarrow> nat option) \<Rightarrow> 'h router \<Rightarrow> string \<Rightarrow> http_method list" where
  "matching_methods strtod R url = filter (\<lambda>m. lookup_url strtod (R m) url \<noteq> None) [Get, Head, Post, Options]"

definition handle_found :: "'h router \<Rightarrow> string \<Rightarrow> http_method \<Rightarrow> bool \<Rightarrow> nat \<times> routing_params \<Rightarrow> 'h routed" where
  "handle_found R url m skip_body found =
     (case found of (i, ps) \<Rightarrow>
        if length (pm_rules (R m)) + 2 \<le> i then Corrupted
        else if i = rule_special_redirect_slash
        then Reply (add_header ''Location'' (url @ ''/'') (code_response 301))
        else Handler (rule_handler (pm_rules (R m) ! (i - 2))) ps skip_body)"

definition handle_options :: "(string \<Rightarrow> nat option) \<Rightarrow> 'h router \<Rightarrow> string \<Rightarrow> response" where
  "handle_options strtod R url =
     (if url = ''/*''
      then set_header ''Allow''
             (allow_header (filter (\<lambda>m. children (pm_trie (R m)) \<noteq> []) [Get, Head, Post, Options])) (code_response 204)
      else if matching_methods strtod R url \<noteq> []
      then set_header ''Allow'' (allow_header (matching_methods strtod R url)) (code_response 204)
      else code_response 404)"

definition handle_request :: "(string \<Rightarrow> nat option) \<Rightarrow> 'h router \<Rightarrow> http_method \<Rightarrow> string \<Rightarrow> 'h routed" where
  "handle_request strtod R m url =
     (case m of
        Options \<Rightarrow> Reply (handle_options strtod R url)
      | Head \<Rightarrow>
        (case lookup_url strtod (R Head) url of
           Some found \<Rightarrow> handle_found R url Head True found
         | None \<Rightarrow>
           (case lookup_url strtod (R Get) url of
              Some found \<Rightarrow> handle_found R url Get True found
            | None \<Rightarrow> Reply (code_response 404)))
      | _ \<Rightarrow>
        (case lookup_url strtod (R m) url of
           Some found \<Rightarrow> handle_found R url m False found
         | None \<Rightarrow>
           Reply (code_response (if matching_methods strtod R url \<noteq> [] then 405 else 404))))"

end
