(* ===== verification/Routes.thy ===== *)
theory Routes
  imports Router Ring_Members Raw_Tx
begin

text \<open>
  The routes of \<open>main.cpp\<close>: the rules it registers, in their order and under the options that enable
  them, and for every closure the operation it calls with the arguments it makes of the request.
  The theorems show which requests reach which closure, that every text is cleaned on its way, and
  that a preflight request does not reach the gateway.
\<close>

section \<open>The rules\<close>

text \<open>
  One name per closure; closures with the same text share one. \<open>HStatic\<close> is the rule Crow itself adds
  when the server starts.
\<close>

datatype handler =
    HHealthz | HReadyz | HIndex | HPage | HBlocks | HBlocksPage | HServiceNodes | HEpochs | HNetwork
  | HBlockHeight | HRandomx | HBlockHash | HTx | HTxRefresh | HTxHex | HRingmembersHex | HBlockHex | HBlockHexComplete
  | HRingmemberstxHex | HTxRing | HTxRingRefresh | HRawtx | HCheckandpush | HSearch | HWalletRpc | HMempool
  | HFavicon | HAsset | HFont | HRobots
  | HTransaction | HRawtransaction | HDetailedtransaction | HBlock | HRawblock | HTransactions | HMempoolJson
  | HNetworkinfo | HEposeInfo | HEposeNodes | HEposeRewards | HFeeestimate | HVersion | HOverview | HSupply | HIdentity
  | HTransactionsV1 | HAutorefresh | HStatic

datatype feature = Always | JsonApi | AsHex | Pusher | Autorefresh

record features =
  enable_json_api :: bool
  enable_as_hex :: bool
  enable_pusher :: bool
  enable_autorefresh_option :: bool

fun enabled :: "features \<Rightarrow> feature \<Rightarrow> bool" where
  "enabled F Always = True"
| "enabled F JsonApi = enable_json_api F"
| "enabled F AsHex = enable_as_hex F"
| "enabled F Pusher = enable_pusher F"
| "enabled F Autorefresh = enable_autorefresh_option F"

definition crow_route :: "feature \<Rightarrow> string \<Rightarrow> http_method list \<Rightarrow> handler \<Rightarrow> feature \<times> handler rule" where
  "crow_route ft url ms h = (ft, \<lparr>rule_text = url, rule_methods = ms, rule_handler = h\<rparr>)"

definition page_routes :: "(feature \<times> handler rule) list" where
  "page_routes =
     [crow_route Always ''/healthz'' [Get] HHealthz,
      crow_route Always ''/readyz'' [Get] HReadyz,
      crow_route Always ''/'' [Get] HIndex,
      crow_route Always ''/page/<uint>'' [Get] HPage,
      crow_route Always ''/blocks'' [Get] HBlocks,
      crow_route Always ''/blocks/<uint>'' [Get] HBlocksPage,
      crow_route Always ''/service-nodes'' [Get] HServiceNodes,
      crow_route Always ''/epochs'' [Get] HEpochs,
      crow_route Always ''/network'' [Get] HNetwork,
      crow_route Always ''/block/<uint>'' [Get] HBlockHeight,
      crow_route Always ''/randomx/<uint>'' [Get] HRandomx,
      crow_route Always ''/block/<string>'' [Get] HBlockHash,
      crow_route Always ''/tx/<string>'' [Get] HTx,
      crow_route Autorefresh ''/tx/<string>/autorefresh'' [Get] HTxRefresh,
      crow_route AsHex ''/txhex/<string>'' [Get] HTxHex,
      crow_route AsHex ''/ringmembershex/<string>'' [Get] HRingmembersHex,
      crow_route AsHex ''/blockhex/<uint>'' [Get] HBlockHex,
      crow_route AsHex ''/blockhexcomplete/<uint>'' [Get] HBlockHexComplete,
      crow_route AsHex ''/ringmemberstxhex/<string>'' [Get] HRingmemberstxHex,
      crow_route Always ''/tx/<string>/<uint>'' [Get] HTxRing,
      crow_route Autorefresh ''/tx/<string>/<uint>/autorefresh'' [Get] HTxRingRefresh,
      crow_route Pusher ''/rawtx'' [Get] HRawtx,
      crow_route Pusher ''/checkandpush'' [Post] HCheckandpush,
      crow_route Always ''/search'' [Post] HSearch,
      crow_route Always ''/qwc-rpc/<path>'' [Post, Options] HWalletRpc,
      crow_route Always ''/api/v1/wallet-rpc/<path>'' [Post, Options] HWalletRpc,
      crow_route Always ''/mempool'' [Get] HMempool,
      crow_route Always ''/txpool'' [Get] HMempool,
      crow_route Always ''/favicon.ico'' [Get] HFavicon,
      crow_route Always ''/assets/<string>'' [Get] HAsset,
      crow_route Always ''/assets/fonts/<string>'' [Get] HFont,
      crow_route Always ''/robots.txt'' [Get] HRobots]"

definition api_routes :: "(feature \<times> handler rule) list" where
  "api_routes =
     [crow_route JsonApi ''/api/transaction/<string>'' [Get] HTransaction,
      crow_route JsonApi ''/api/rawtransaction/<string>'' [Get] HRawtransaction,
      crow_route JsonApi ''/api/detailedtransaction/<string>'' [Get] HDetailedtransaction,
      crow_route JsonApi ''/api/block/<string>'' [Get] HBlock,
      crow_route JsonApi ''/api/rawblock/<string>'' [Get] HRawblock,
      crow_route JsonApi ''/api/transactions'' [Get] HTransactions,
      crow_route JsonApi ''/api/mempool'' [Get] HMempoolJson,
      crow_route JsonApi ''/api/networkinfo'' [Get] HNetworkinfo,
      crow_route JsonApi ''/api/epose'' [Get] HEposeInfo,
      crow_route JsonApi ''/api/epose/service-nodes'' [Get] HEposeNodes,
      crow_route JsonApi ''/api/epose/rewards'' [Get] HEposeRewards,
      crow_route JsonApi ''/api/feeestimate'' [Get] HFeeestimate,
      crow_route JsonApi ''/api/version'' [Get] HVersion,
      crow_route JsonApi ''/api/v1/epose'' [Get] HEposeInfo,
      crow_route JsonApi ''/api/v1/epose/service-nodes'' [Get] HEposeNodes,
      crow_route JsonApi ''/api/v1/epose/rewards'' [Get] HEposeRewards,
      crow_route JsonApi ''/api/v1/network'' [Get] HNetworkinfo,
      crow_route JsonApi ''/api/v1/overview'' [Get] HOverview,
      crow_route JsonApi ''/api/v1/supply'' [Get] HSupply,
      crow_route JsonApi ''/api/v1/identity'' [Get] HIdentity,
      crow_route JsonApi ''/api/v1/version'' [Get] HVersion,
      crow_route JsonApi ''/api/v1/transactions'' [Get] HTransactionsV1,
      crow_route JsonApi ''/api/v1/mempool'' [Get] HMempoolJson,
      crow_route Autorefresh ''/autorefresh'' [Get] HAutorefresh,
      crow_route Always ''/static/<path>'' [Get] HStatic]"

definition all_routes :: "(feature \<times> handler rule) list" where
  "all_routes = page_routes @ api_routes"

definition routes :: "features \<Rightarrow> handler rule list" where
  "routes F = map snd (filter (\<lambda>(ft, _). enabled F ft) all_routes)"

definition tokens_of :: "handler rule \<Rightarrow> rule_token list" where
  "tokens_of r = (case rule_tokens (rule_text r) of None \<Rightarrow> [] | Some ts \<Rightarrow> ts)"

lemma all_routes_proper: "list_all (\<lambda>(_, r). proper_rule r (tokens_of r)) all_routes"
  by code_simp

lemma all_routes_distinct: "distinct (map (tokens_of \<circ> snd) all_routes)"
  by code_simp


section \<open>What a closure calls\<close>

record web_request = request +
  rq_url :: string
  rq_raw_url :: string
  rq_param :: "string \<Rightarrow> string option"

text \<open>
  A request as the closures read it: its path, the URL with the query, and the query's parameters
  (\<open>url_params.get\<close>, \<open>None\<close> for the null pointer). A call is the operation of the page, or the answer,
  with its arguments; \<open>CThrows\<close> is the exception of a string made from a null pointer.
\<close>

datatype call =
    CHealthz | CReadyz
  | CIndex u64 bool string u64 string
  | CShowBlock u64 | CShowBlockOfHash string | CShowRandomx u64 | CShowTx string "16 word" bool
  | CShowTxHex string | CShowRingmembersHex string | CShowBlockHex u64 bool | CShowRingmemberstxJsonhex string
  | CShowRawtx | CShowCheckrawtx string | CShowPushrawtx string | CText string
  | CSearch string | CSearchResults nat string
  | CWalletRpc string | CMempool
  | CFile string string string | CNoFile | CStatic string | CRobots
  | CJsonTransaction string | CJsonRawtransaction string | CJsonDetailedtransaction string
  | CJsonBlock string | CJsonRawblock string | CJsonTransactions string string string string | CJsonMempool string string
  | CJsonNetworkinfo | CJsonEpose string | CJsonFeeestimate string | CJsonVersion | CJsonOverview | CJsonEmission
  | CJsonIdentity
  | CThrows

definition param_or :: "web_request \<Rightarrow> string \<Rightarrow> string \<Rightarrow> string" where
  "param_or req k d = (case rq_param req k of None \<Rightarrow> d | Some v \<Rightarrow> v)"

definition page_call :: "string \<Rightarrow> web_request \<Rightarrow> u64 \<Rightarrow> call" where
  "page_call view req page_no =
     (let block_count = (case rq_param req ''block_count'' of
                           None \<Rightarrow> 0
                         | Some v \<Rightarrow> (case parse_uint64_strict v of None \<Rightarrow> 0 | Some n \<Rightarrow> n))
      in CIndex page_no False view block_count
           (case rq_param req ''tip_hash'' of None \<Rightarrow> [] | Some h \<Rightarrow> remove_bad_chars h))"

definition checkandpush_call :: "web_request \<Rightarrow> call" where
  "checkandpush_call req =
     (case checkandpush_route (req_body req) of
        Inl msg \<Rightarrow> CText msg
      | Inr (raw_tx_data, CheckTx) \<Rightarrow> CShowCheckrawtx raw_tx_data
      | Inr (raw_tx_data, PushTx) \<Rightarrow> CShowPushrawtx raw_tx_data)"

definition search_call :: "web_request \<Rightarrow> call" where
  "search_call req =
     (case search_route (req_body req) of Inl (status, shown) \<Rightarrow> CSearchResults status shown | Inr s \<Rightarrow> CSearch s)"

text \<open>\<open>regex_search(raw_url, "grace_blocks=\d+")\<close>.\<close>

fun has_grace_blocks :: "string \<Rightarrow> bool" where
  "has_grace_blocks [] = False"
| "has_grace_blocks (c # s) \<longleftrightarrow>
     starts_with ''grace_blocks='' (c # s) \<and> (case drop 13 (c # s) of [] \<Rightarrow> False | d # _ \<Rightarrow> is_digit d)
     \<or> has_grace_blocks s"

definition feeestimate_call :: "web_request \<Rightarrow> call" where
  "feeestimate_call req =
     (if has_grace_blocks (rq_raw_url req)
      then (case rq_param req ''grace_blocks'' of None \<Rightarrow> CThrows | Some v \<Rightarrow> CJsonFeeestimate (remove_bad_chars v))
      else CJsonFeeestimate (remove_bad_chars []))"

definition file_call :: "(string \<times> string \<times> string) option \<Rightarrow> call" where
  "file_call f = (case f of None \<Rightarrow> CNoFile | Some (path, cache, mime) \<Rightarrow> CFile path cache mime)"

text \<open>The first argument of a type; that the rule has it is part of the theorem on dispatching.\<close>

definition uint_arg :: "routing_params \<Rightarrow> u64" where
  "uint_arg ps = uint_params ps ! 0"

definition str_arg :: "routing_params \<Rightarrow> string" where
  "str_arg ps = string_params ps ! 0"

fun call_of :: "handler \<Rightarrow> routing_params \<Rightarrow> web_request \<Rightarrow> call" where
  "call_of HHealthz ps req = CHealthz"
| "call_of HReadyz ps req = CReadyz"
| "call_of HIndex ps req = CIndex 0 False ''overview'' 0 []"
| "call_of HPage ps req = page_call ''overview'' req (uint_arg ps)"
| "call_of HBlocks ps req = CIndex 0 False ''blocks'' 0 []"
| "call_of HBlocksPage ps req = page_call ''blocks'' req (uint_arg ps)"
| "call_of HServiceNodes ps req = CIndex 0 False ''service-nodes'' 0 []"
| "call_of HEpochs ps req = CIndex 0 False ''epochs'' 0 []"
| "call_of HNetwork ps req = CIndex 0 False ''network'' 0 []"
| "call_of HBlockHeight ps req = CShowBlock (uint_arg ps)"
| "call_of HRandomx ps req = CShowRandomx (uint_arg ps)"
| "call_of HBlockHash ps req = CShowBlockOfHash (remove_bad_chars (str_arg ps))"
| "call_of HTx ps req = CShowTx (remove_bad_chars (str_arg ps)) 0 False"
| "call_of HTxRefresh ps req = CShowTx (remove_bad_chars (str_arg ps)) 0 True"
| "call_of HTxHex ps req = CShowTxHex (remove_bad_chars (str_arg ps))"
| "call_of HRingmembersHex ps req = CShowRingmembersHex (remove_bad_chars (str_arg ps))"
| "call_of HBlockHex ps req = CShowBlockHex (uint_arg ps) False"
| "call_of HBlockHexComplete ps req = CShowBlockHex (uint_arg ps) True"
| "call_of HRingmemberstxHex ps req = CShowRingmemberstxJsonhex (remove_bad_chars (str_arg ps))"
| "call_of HTxRing ps req = CShowTx (remove_bad_chars (str_arg ps)) (ucast (uint_arg ps)) False"
| "call_of HTxRingRefresh ps req = CShowTx (remove_bad_chars (str_arg ps)) (ucast (uint_arg ps)) True"
| "call_of HRawtx ps req = CShowRawtx"
| "call_of HCheckandpush ps req = checkandpush_call req"
| "call_of HSearch ps req = search_call req"
| "call_of HWalletRpc ps req = CWalletRpc (str_arg ps)"
| "call_of HMempool ps req = CMempool"
| "call_of HFavicon ps req = CFile ''./templates/assets/favicon.ico'' ''public, max-age=86400'' ''image/x-icon''"
| "call_of HAsset ps req = file_call (asset_route (str_arg ps))"
| "call_of HFont ps req = file_call (font_route (str_arg ps))"
| "call_of HRobots ps req = CRobots"
| "call_of HTransaction ps req = CJsonTransaction (remove_bad_chars (str_arg ps))"
| "call_of HRawtransaction ps req = CJsonRawtransaction (remove_bad_chars (str_arg ps))"
| "call_of HDetailedtransaction ps req = CJsonDetailedtransaction (remove_bad_chars (str_arg ps))"
| "call_of HBlock ps req = CJsonBlock (remove_bad_chars (str_arg ps))"
| "call_of HRawblock ps req = CJsonRawblock (remove_bad_chars (str_arg ps))"
| "call_of HTransactions ps req = CJsonTransactions (param_or req ''page'' ''0'') (param_or req ''limit'' ''25'') [] []"
| "call_of HMempoolJson ps req = CJsonMempool (param_or req ''page'' ''0'') (param_or req ''limit'' ''25'')"
| "call_of HNetworkinfo ps req = CJsonNetworkinfo"
| "call_of HEposeInfo ps req = CJsonEpose ''info''"
| "call_of HEposeNodes ps req = CJsonEpose ''service_nodes''"
| "call_of HEposeRewards ps req = CJsonEpose ''rewards''"
| "call_of HFeeestimate ps req = feeestimate_call req"
| "call_of HVersion ps req = CJsonVersion"
| "call_of HOverview ps req = CJsonOverview"
| "call_of HSupply ps req = CJsonEmission"
| "call_of HIdentity ps req = CJsonIdentity"
| "call_of HTransactionsV1 ps req =
     CJsonTransactions (param_or req ''page'' ''0'') (param_or req ''limit'' ''25'') (param_or req ''block_count'' [])
       (case rq_param req ''tip_hash'' of None \<Rightarrow> [] | Some h \<Rightarrow> remove_bad_chars h)"
| "call_of HAutorefresh ps req = CIndex 0 True ''overview'' 0 []"
| "call_of HStatic ps req = CStatic (str_arg ps)"

section \<open>Dispatching\<close>

definition explorer_router :: "features \<Rightarrow> handler router option" where
  "explorer_router F = validate (routes F)"

definition dispatch :: "(string \<Rightarrow> nat option) \<Rightarrow> features \<Rightarrow> http_method \<Rightarrow> string \<Rightarrow> handler routed" where
  "dispatch strtod F m url =
     (case explorer_router F of None \<Rightarrow> Corrupted | Some R \<Rightarrow> handle_request strtod R m url)"

definition rules_for :: "features \<Rightarrow> http_method \<Rightarrow> handler rule list" where
  "rules_for F m = filter (\<lambda>r. m \<in> set (rule_methods r)) (routes F)"

lemma routes_in: "r \<in> set (routes F) \<longleftrightarrow> (\<exists>ft. (ft, r) \<in> set all_routes \<and> enabled F ft)"
  by (force simp: routes_def)

lemma route_proper: "r \<in> set (routes F) \<Longrightarrow> proper_rule r (tokens_of r)"
  using all_routes_proper by (auto simp: routes_in list_all_iff)

lemma routes_distinct: "distinct (map tokens_of (routes F))"
  using all_routes_distinct by (auto simp: routes_def distinct_map inj_on_def)

lemma explorer_tables:
  "\<exists>R. explorer_router F = Some R
    \<and> (\<forall>m \<in> {Get, Head, Post, Options}. pm_rules (R m) = rules_for F m
         \<and> (\<forall>D url. lookup_url D (R m) url = first_match D url 2 (map tokens_of (rules_for F m))))
    \<and> R Other = empty_table"
proof -
  have table: "\<exists>pm. method_table (routes F) m = Some pm \<and> pm_rules pm = rules_for F m
      \<and> (\<forall>D url. lookup_url D pm url = first_match D url 2 (map tokens_of (rules_for F m)))" for m
  proof -
    have proper: "list_all2 proper_rule (filter (\<lambda>r. m \<in> set (rule_methods r)) (routes F)) (map tokens_of (rules_for F m))"
      by (auto simp: rules_for_def list_all2_conv_all_nth dest: nth_mem intro!: route_proper)
    have dist: "distinct (map tokens_of (rules_for F m))"
      using routes_distinct [of F] by (simp add: rules_for_def distinct_map_filter)
    show ?thesis using router_tables [OF proper dist] by (simp add: rules_for_def)
  qed
  obtain g h p opt where
    t: "method_table (routes F) Get = Some g" "method_table (routes F) Head = Some h"
      "method_table (routes F) Post = Some p" "method_table (routes F) Options = Some opt"
    using table by metis
  show ?thesis
    unfolding explorer_router_def validate_def t
    using table [of Get] table [of Head] table [of Post] table [of Options] t by simp
qed


lemma first_match_rule:
  "first_match D url i (map tokens_of rs) = Some (j, ps) \<Longrightarrow>
    i \<le> j \<and> j - i < length rs \<and> match_rule D (tokens_of (rs ! (j - i))) url no_params = Some ps
    \<and> (\<forall>k < j - i. match_rule D (tokens_of (rs ! k)) url no_params = None)"
proof (induction rs arbitrary: i)
  case (Cons r rs)
  show ?case
  proof (cases "match_rule D (tokens_of r) url no_params")
    case None
    then have "first_match D url (Suc i) (map tokens_of rs) = Some (j, ps)" using Cons.prems by simp
    note IH = Cons.IH [OF this]
    then obtain d where d: "j - i = Suc d" "j - Suc i = d" by (metis Suc_diff_le diff_Suc_Suc)
    show ?thesis using IH None d by (auto simp: nth_Cons' less_Suc_eq_0_disj)
  next
    case (Some ps')
    then show ?thesis using Cons.prems by auto
  qed
qed simp

lemma handle_found_rule:
  assumes "pm_rules (R m) = rs" "first_match D url 2 (map tokens_of rs) = Some found"
  shows "\<exists>k ps. handle_found R url m skip found = Handler (rule_handler (rs ! k)) ps skip \<and> k < length rs
    \<and> match_rule D (tokens_of (rs ! k)) url no_params = Some ps
    \<and> (\<forall>l < k. match_rule D (tokens_of (rs ! l)) url no_params = None)"
proof -
  obtain j ps where f: "found = (j, ps)" by (cases found)
  note first = first_match_rule [OF assms(2) [unfolded f]]
  then show ?thesis
    using assms(1) by (intro exI [of _ "j - 2"] exI [of _ ps])
      (auto simp: handle_found_def f rule_special_redirect_slash_def)
qed

text \<open>Whose table serves a method: its own, and that of \<open>GET\<close> for \<open>HEAD\<close>.\<close>

definition serving_method :: "http_method \<Rightarrow> http_method \<Rightarrow> bool" where
  "serving_method m m' \<longleftrightarrow> m' \<noteq> Options \<and> m' \<noteq> Other \<and> (m' = m \<or> m = Head \<and> m' = Get)"

lemma lookup_empty: "lookup_url D empty_table url = None"
  by (simp add: lookup_url_def empty_table_def empty_trie_def)

lemma no_head_rules: "rules_for F Head = []"
proof -
  have "list_all (\<lambda>(_, r). Head \<notin> set (rule_methods r)) all_routes" by code_simp
  then show ?thesis by (auto simp: rules_for_def filter_empty_conv routes_in list_all_iff)
qed

lemma dispatch_cases:
  "(\<exists>r. dispatch D F m url = Reply r)
   \<or> (\<exists>m' k ps. dispatch D F m url = Handler (rule_handler (rules_for F m' ! k)) ps (m = Head)
        \<and> serving_method m m' \<and> k < length (rules_for F m')
        \<and> match_rule D (tokens_of (rules_for F m' ! k)) url no_params = Some ps
        \<and> (\<forall>l < k. match_rule D (tokens_of (rules_for F m' ! l)) url no_params = None))"
proof -
  obtain R where R: "explorer_router F = Some R" "R Other = empty_table"
      "\<And>m. m \<in> {Get, Head, Post, Options} \<Longrightarrow> pm_rules (R m) = rules_for F m"
      "\<And>m D url. m \<in> {Get, Head, Post, Options} \<Longrightarrow>
         lookup_url D (R m) url = first_match D url 2 (map tokens_of (rules_for F m))"
    using explorer_tables [of F] by blast
  have found: "\<exists>k ps. handle_found R url m' skip f = Handler (rule_handler (rules_for F m' ! k)) ps skip
        \<and> k < length (rules_for F m') \<and> match_rule D (tokens_of (rules_for F m' ! k)) url no_params = Some ps
        \<and> (\<forall>l < k. match_rule D (tokens_of (rules_for F m' ! l)) url no_params = None)"
    if "m' \<in> {Get, Post}" "lookup_url D (R m') url = Some f" for m' skip f
    using handle_found_rule [of R m' "rules_for F m'" D url f skip] R(3,4) [of m'] that by auto
  show ?thesis
  proof (cases m)
    case Get
    then show ?thesis using found [of Get] R(1)
      by (cases "lookup_url D (R Get) url")
         (fastforce simp: dispatch_def handle_request_def serving_method_def)+
  next
    case Head
    then show ?thesis using found [of Get] R(1) R(4) [of Head]
      by (cases "lookup_url D (R Get) url")
         (fastforce simp: dispatch_def handle_request_def serving_method_def no_head_rules)+
  next
    case Post
    then show ?thesis using found [of Post] R(1)
      by (cases "lookup_url D (R Post) url")
         (fastforce simp: dispatch_def handle_request_def serving_method_def)+
  qed (use R in \<open>auto simp: dispatch_def handle_request_def lookup_empty\<close>)
qed

lemma dispatch_handler:
  assumes "dispatch D F m url = Handler h ps skip"
  obtains m' r ft where "serving_method m m'" "(ft, r) \<in> set all_routes" "enabled F ft" "m' \<in> set (rule_methods r)"
    "rule_handler r = h" "match_rule D (tokens_of r) url no_params = Some ps" "skip = (m = Head)"
proof -
  from dispatch_cases [of D F m url] assms obtain m' k where
    k: "serving_method m m'" "k < length (rules_for F m')" "rule_handler (rules_for F m' ! k) = h"
      "match_rule D (tokens_of (rules_for F m' ! k)) url no_params = Some ps" "skip = (m = Head)"
    by auto
  then have "rules_for F m' ! k \<in> set (rules_for F m')" by simp
  then show ?thesis using k that by (auto simp: rules_for_def routes_in)
qed

section \<open>Handlers are reached as registered\<close>

text \<open>The option a closure depends on, and how many numbers and texts it takes from the URL.\<close>

fun feature_of :: "handler \<Rightarrow> feature" where
  "feature_of h =
     (if h \<in> {HTxRefresh, HTxRingRefresh, HAutorefresh} then Autorefresh
      else if h \<in> {HTxHex, HRingmembersHex, HBlockHex, HBlockHexComplete, HRingmemberstxHex} then AsHex
      else if h \<in> {HRawtx, HCheckandpush} then Pusher
      else if h \<in> {HTransaction, HRawtransaction, HDetailedtransaction, HBlock, HRawblock, HTransactions, HMempoolJson,
                   HNetworkinfo, HEposeInfo, HEposeNodes, HEposeRewards, HFeeestimate, HVersion, HOverview, HSupply,
                   HIdentity, HTransactionsV1} then JsonApi
      else Always)"

definition takes :: "handler \<Rightarrow> nat \<times> nat" where
  "takes h =
     (if h \<in> {HPage, HBlocksPage, HBlockHeight, HRandomx, HBlockHex, HBlockHexComplete} then (1, 0)
      else if h \<in> {HTxRing, HTxRingRefresh} then (1, 1)
      else if h \<in> {HBlockHash, HTx, HTxRefresh, HTxHex, HRingmembersHex, HRingmemberstxHex, HWalletRpc, HAsset, HFont,
                   HTransaction, HRawtransaction, HDetailedtransaction, HBlock, HRawblock, HStatic} then (0, 1)
      else (0, 0))"

definition route_ok :: "feature \<times> handler rule \<Rightarrow> bool" where
  "route_ok x = (case x of (ft, r) \<Rightarrow>
     feature_of (rule_handler r) = ft
     \<and> (arity [P_UINT] (tokens_of r), arity [P_STRING, P_PATH] (tokens_of r)) = takes (rule_handler r)
     \<and> (if rule_handler r \<in> {HCheckandpush, HSearch} then rule_methods r = [Post]
        else if rule_handler r = HWalletRpc then rule_methods r = [Post, Options]
        else rule_methods r = [Get]))"

lemma all_routes_ok: "list_all route_ok all_routes"
  by code_simp


text \<open>
  C15. Every request is answered by the router itself or reaches the closure of a rule whose
  feature is enabled, with exactly the arguments the closure takes: as many numbers and as many
  texts as its parameters. The closures that change something or take a body (pushing, searching
  and the wallet gateway) are reached by \<open>POST\<close> only, all others by \<open>GET\<close> or \<open>HEAD\<close> only.
\<close>

theorem requests_reach_handlers_as_registered:
  "(\<exists>r. dispatch strtod F m url = Reply r)
   \<or> (\<exists>h ps. dispatch strtod F m url = Handler h ps (m = Head) \<and> enabled F (feature_of h)
        \<and> (length (uint_params ps), length (string_params ps)) = takes h
        \<and> (if h \<in> {HCheckandpush, HSearch, HWalletRpc} then m = Post else m = Get \<or> m = Head))"
proof (cases "dispatch strtod F m url")
  case (Handler h ps skip)
  then obtain m' r ft where d: "serving_method m m'" "(ft, r) \<in> set all_routes" "enabled F ft"
      "m' \<in> set (rule_methods r)" "rule_handler r = h" "match_rule strtod (tokens_of r) url no_params = Some ps"
      "skip = (m = Head)"
    by (rule dispatch_handler)
  have ok: "route_ok (ft, r)" using all_routes_ok d(2) by (auto simp: list_all_iff)
  have "enabled F (feature_of h)" using ok d(3,5) by (simp add: route_ok_def del: feature_of.simps)
  moreover have "(length (uint_params ps), length (string_params ps)) = takes h"
    using ok match_rule_arity [OF d(6)] d(5) by (simp add: route_ok_def no_params_def)
  moreover have "if h \<in> {HCheckandpush, HSearch, HWalletRpc} then m = Post else m = Get \<or> m = Head"
    using ok d(1,4,5) by (auto simp: route_ok_def serving_method_def split: if_splits)
  ultimately show ?thesis using Handler d(7) by blast
qed (use dispatch_cases [of strtod F m url] in auto)

text \<open>The texts of a request that a call hands on.\<close>

fun call_texts :: "call \<Rightarrow> string list" where
  "call_texts (CIndex _ _ _ _ h) = [h]"
| "call_texts (CShowBlockOfHash s) = [s]"
| "call_texts (CShowTx s _ _) = [s]"
| "call_texts (CShowTxHex s) = [s]"
| "call_texts (CShowRingmembersHex s) = [s]"
| "call_texts (CShowRingmemberstxJsonhex s) = [s]"
| "call_texts (CShowCheckrawtx s) = [s]"
| "call_texts (CShowPushrawtx s) = [s]"
| "call_texts (CSearch s) = [s]"
| "call_texts (CJsonTransaction s) = [s]"
| "call_texts (CJsonRawtransaction s) = [s]"
| "call_texts (CJsonDetailedtransaction s) = [s]"
| "call_texts (CJsonBlock s) = [s]"
| "call_texts (CJsonRawblock s) = [s]"
| "call_texts (CJsonTransactions _ _ _ tip) = [tip]"
| "call_texts (CJsonFeeestimate s) = [s]"
| "call_texts _ = []"

lemma clean_text [simp]: "list_all good_char (remove_bad_chars s)"
  by (simp add: remove_bad_chars_def list_all_iff)

lemma clean_Nil [simp]: "list_all good_char []"
  by simp

lemma checkandpush_clean: "list_all (list_all good_char) (call_texts (checkandpush_call req))"
  by (auto simp: checkandpush_call_def checkandpush_route_def Let_def split: sum.splits push_action.splits option.splits if_splits)

lemma search_clean: "list_all (list_all good_char) (call_texts (search_call req))"
  by (auto simp: search_call_def search_route_def split: sum.splits option.splits if_splits)

lemma feeestimate_clean: "list_all (list_all good_char) (call_texts (feeestimate_call req))"
  by (auto simp: feeestimate_call_def split: option.splits)

lemma page_call_clean: "list_all (list_all good_char) (call_texts (page_call view req n))"
  by (auto simp: page_call_def Let_def split: option.splits)

lemma file_call_clean: "list_all (list_all good_char) (call_texts (file_call f))"
  by (auto simp: file_call_def split: option.splits)


lemma first_match_None: "first_match D url i tss = None \<longleftrightarrow> (\<forall>ts \<in> set tss. match_rule D ts url no_params = None)"
  by (induction tss arbitrary: i) (auto split: option.splits)

definition gateway_rule :: "handler rule" where
  "gateway_rule = \<lparr>rule_text = ''/qwc-rpc/<path>'', rule_methods = [Post, Options], rule_handler = HWalletRpc\<rparr>"

lemma gateway_url_other:
  "list_all (\<lambda>(_, r). rule_methods r = [Get] \<longrightarrow> match_rule D (tokens_of r) (''/qwc-rpc/'' @ c # path) no_params = None)
     all_routes"
  by code_simp

lemma gateway_url_matches: "match_rule D (tokens_of gateway_rule) (''/qwc-rpc/'' @ c # path) no_params \<noteq> None"
  by code_simp

lemma gateway_rule_in: "(Always, gateway_rule) \<in> set all_routes"
  by (simp add: all_routes_def page_routes_def crow_route_def gateway_rule_def)

lemma gateway_methods:
  assumes "m \<in> {Get, Head, Post, Options}"
  shows "first_match D (''/qwc-rpc/'' @ c # path) 2 (map tokens_of (rules_for F m)) \<noteq> None \<longleftrightarrow> m \<in> {Post, Options}"
proof (cases "m \<in> {Post, Options}")
  case True
  then have "gateway_rule \<in> set (rules_for F m)"
    using gateway_rule_in routes_in [of gateway_rule F] by (auto simp: rules_for_def gateway_rule_def)
  then have "tokens_of gateway_rule \<in> set (map tokens_of (rules_for F m))" by simp
  then have "first_match D (''/qwc-rpc/'' @ c # path) 2 (map tokens_of (rules_for F m)) \<noteq> None"
    using gateway_url_matches [of D c path] first_match_None by metis
  then show ?thesis by (simp only: True simp_thms)
next
  case False
  have "match_rule D (tokens_of r) (''/qwc-rpc/'' @ c # path) no_params = None" if "r \<in> set (rules_for F m)" for r
  proof -
    from that obtain ft where r: "(ft, r) \<in> set all_routes" "m \<in> set (rule_methods r)"
      by (auto simp: rules_for_def routes_in)
    then have "route_ok (ft, r)" using all_routes_ok by (auto simp: list_all_iff)
    then have "rule_methods r = [Get]" using r(2) False by (auto simp: route_ok_def split: if_splits)
    then show ?thesis using gateway_url_other [of D c path] r(1) by (auto simp: list_all_iff)
  qed
  then show ?thesis using False by (auto simp: first_match_None)
qed

text \<open>
  A preflight request never reaches the gateway: the router answers every \<open>OPTIONS\<close> request
  itself, although \<open>main.cpp\<close> registers the gateway for this method and the handler has a branch that
  answers it with the headers of cross-origin sharing. For every URL of the gateway the answer is
  204 with the allowed methods and without any of those headers.
\<close>

theorem preflight_never_reaches_gateway:
  "\<exists>r. dispatch strtod F Options url = Reply r
    \<and> map_of (headers r) ''Access-Control-Allow-Origin'' = None
    \<and> map_of (headers r) ''Access-Control-Allow-Methods'' = None
    \<and> (\<forall>c path. url = ''/qwc-rpc/'' @ c # path \<longrightarrow>
         code r = 204 \<and> map_of (headers r) ''Allow'' = Some ''OPTIONS, HEAD, POST, OPTIONS'')"
proof -
  obtain R where R: "explorer_router F = Some R"
      "\<And>m D url. m \<in> {Get, Head, Post, Options} \<Longrightarrow>
         lookup_url D (R m) url = first_match D url 2 (map tokens_of (rules_for F m))"
    using explorer_tables [of F] by blast
  let ?r = "handle_options strtod R url"
  have "matching_methods strtod R (''/qwc-rpc/'' @ c # path) = [Post, Options]" for c path
    using gateway_methods [of _ strtod c path F] R(2) by (simp add: matching_methods_def)
  then have "\<forall>c path. url = ''/qwc-rpc/'' @ c # path \<longrightarrow>
      code ?r = 204 \<and> map_of (headers ?r) ''Allow'' = Some ''OPTIONS, HEAD, POST, OPTIONS''"
    by (auto simp: handle_options_def allow_header_def set_header_def code_response_def blank_response_def)
  moreover have "map_of (headers ?r) ''Access-Control-Allow-Origin'' = None"
    "map_of (headers ?r) ''Access-Control-Allow-Methods'' = None"
    by (simp_all add: handle_options_def set_header_def code_response_def blank_response_def)
  ultimately show ?thesis using R(1) by (auto simp: dispatch_def handle_request_def)
qed

lemma preflight_never_reaches_gateway_witness:
  "\<exists>r. dispatch no_strtod \<lparr>enable_json_api = True, enable_as_hex = False, enable_pusher = False,
         enable_autorefresh_option = False\<rparr> Options ''/qwc-rpc/json_rpc'' = Reply r
    \<and> map_of (headers r) ''Access-Control-Allow-Origin'' = None \<and> code r = 204"
  using preflight_never_reaches_gateway [of no_strtod
      "\<lparr>enable_json_api = True, enable_as_hex = False, enable_pusher = False, enable_autorefresh_option = False\<rparr>"
      "''/qwc-rpc/json_rpc''"]
  by auto

end
