(* ===== verification/Randomx.thy ===== *)
theory Randomx
  imports Page_Html
begin

text \<open>
  The page of a block's RandomX programs (\<open>show_randomx\<close>, \<open>get_randomx_code\<close> and \<open>randomx_status\<close> of
  \<open>src/src/page.h\<close>) and the seed heights of \<open>src/src/crypto/rx-slow-hash.c\<close>. The virtual machine and its
  hash functions are parameters; the threads that share its memory are in \<open>Randomx_Hash\<close>.
\<close>

unbundle bit_operations_syntax

section \<open>Seed heights\<close>

text \<open>
  \<open>src/crypto/rx-slow-hash.c\<close>: the epoch of a seed hash. The two constants may be lowered by an
  environment variable, read by \<open>atoi\<close> (\<open>None\<close> when it is not set).
\<close>

definition is_power_of_2 :: "u64 \<Rightarrow> bool" where
  "is_power_of_2 n \<longleftrightarrow> n \<noteq> 0 \<and> n AND (n - 1) = 0"

definition get_seedhash_epoch_lag :: "32 word option \<Rightarrow> 32 word" where
  "get_seedhash_epoch_lag e =
     (case e of
        None \<Rightarrow> 64
      | Some lag \<Rightarrow> if 64 < lag \<or> \<not> is_power_of_2 (ucast lag) then 64 else lag)"

definition get_seedhash_epoch_blocks :: "32 word option \<Rightarrow> 32 word" where
  "get_seedhash_epoch_blocks e =
     (case e of
        None \<Rightarrow> 2048
      | Some blocks \<Rightarrow> if blocks < 2 \<or> 2048 < blocks \<or> \<not> is_power_of_2 (ucast blocks) then 2048 else blocks)"

definition me_rx_seedheight :: "32 word option \<Rightarrow> 32 word option \<Rightarrow> u64 \<Rightarrow> u64" where
  "me_rx_seedheight e_lag e_blocks height =
     (let lag = ucast (get_seedhash_epoch_lag e_lag) :: u64;
          blocks = ucast (get_seedhash_epoch_blocks e_blocks) :: u64
      in if height \<le> blocks + lag then 0 else (height - lag - 1) AND NOT (blocks - 1))"

definition me_rx_seedheights :: "32 word option \<Rightarrow> 32 word option \<Rightarrow> u64 \<Rightarrow> u64 \<times> u64" where
  "me_rx_seedheights e_lag e_blocks height =
     (me_rx_seedheight e_lag e_blocks height,
      me_rx_seedheight e_lag e_blocks (height + ucast (get_seedhash_epoch_lag e_lag)))"

lemma and_not_mask: "unat (x AND NOT (mask k) :: u64) = unat x div 2 ^ k * 2 ^ k"
proof -
  have "x AND NOT (mask k) = push_bit k (drop_bit k x)"
    by (rule bit_word_eqI) (auto simp: bit_simps)
  also have "unat \<dots> = take_bit 64 (unat x div 2 ^ k * 2 ^ k)"
    by (simp only: unsigned_push_bit_eq unsigned_drop_bit_eq) 
      (use unat_u64_less [of x] in \<open>simp add: push_bit_eq_mult drop_bit_eq_div take_bit_eq_mod\<close>)
  also have "\<dots> = unat x div 2 ^ k * 2 ^ k"
  proof -
    have "unat x div 2 ^ k * 2 ^ k \<le> unat x" by simp
    also have "\<dots> < 2 ^ 64" by (rule unat_u64_less)
    finally show ?thesis by (simp add: take_bit_eq_mod)
  qed
  finally show ?thesis .
qed

text \<open>
  With the compiled-in constants the seed of a block is the block at the last multiple of 2048
  that is at least 65 blocks below it (the genesis block in the first epoch), and the second height
  \<open>me_rx_seedheights\<close> gives is the seed of the block 64 heights further on.
\<close>

theorem seed_height_is_epoch_start:
  "unat (me_rx_seedheight None None height) = (unat height - 65) div 2048 * 2048
   \<and> me_rx_seedheights None None height
       = (me_rx_seedheight None None height, me_rx_seedheight None None (height + 64))"
proof (cases "height \<le> 2112")
  case True
  then have "unat height \<le> 2112" by (simp add: word_le_nat_alt)
  then have "(unat height - 65) div 2048 = 0" by simp
  with True show ?thesis
    by (simp add: me_rx_seedheight_def me_rx_seedheights_def get_seedhash_epoch_lag_def get_seedhash_epoch_blocks_def)
next
  case False
  then have big: "2112 < unat height" by (simp add: word_le_nat_alt)
  have "unat (height - 64 - 1) = unat height - 65"
    using big by (simp add: unat_sub_u64 word_le_nat_alt flip: diff_diff_eq2)
  moreover have "(2048 :: u64) - 1 = mask 11" by (simp add: mask_eq_exp_minus_1)
  ultimately show ?thesis
    using False big and_not_mask [of "height - 64 - 1" 11]
    by (simp add: me_rx_seedheight_def me_rx_seedheights_def get_seedhash_epoch_lag_def get_seedhash_epoch_blocks_def)
qed

section \<open>Programs\<close>

text \<open>\<open>as_hex\<close> of a 64-bit register.\<close>

definition as_hex :: "u64 \<Rightarrow> string" where
  "as_hex i = (let h = nat_to_hex (unat i) in ''0x'' @ replicate (16 - length h) (CHR ''0'') @ h)"

definition rx_float_as_str :: "u64 \<times> u64 \<Rightarrow> string" where
  "rx_float_as_str fpu = ''{'' @ as_hex (fst fpu) @ '', '' @ as_hex (snd fpu) @ ''}''"

text \<open>The registers of a program and its two listings, which RandomX prints.\<close>

record randomx_status =
  rx_code :: string
  rx_code_asm :: string
  reg_r :: "u64 list"
  reg_f :: "(u64 \<times> u64) list"
  reg_e :: "(u64 \<times> u64) list"
  reg_a :: "(u64 \<times> u64) list"

definition named :: "char \<Rightarrow> string list \<Rightarrow> (string \<times> json) list" where
  "named c vs = map (\<lambda>(i, v). (c # nat_to_dec i, JStr v)) (zip [0..<length vs] vs)"

definition rx_get_mstch :: "randomx_status \<Rightarrow> json" where
  "rx_get_mstch s =
     JObj ([(''rx_code'', JStr (rx_code s)), (''rx_code_asm'', JStr (rx_code_asm s))]
           @ named (CHR ''r'') (map as_hex (take 8 (reg_r s)))
           @ named (CHR ''f'') (map rx_float_as_str (take 4 (reg_f s)))
           @ named (CHR ''e'') (map rx_float_as_str (take 4 (reg_e s)))
           @ named (CHR ''a'') (map rx_float_as_str (take 4 (reg_a s))))"

text \<open>
  \<open>get_randomx_code\<close>: \<open>rx_vm\<close> is the virtual machine after the attempt to create one, \<open>None\<close> while there
  is none; the other fields are operations of RandomX.
\<close>

record 'v rx_machine =
  rx_vm :: "'v option"
  rx_hashing_blob :: "block \<Rightarrow> string"
  rx_blake2b :: "string \<Rightarrow> string"
  rx_scratchpad :: "string \<Rightarrow> 'v \<Rightarrow> 'v"
  rx_run :: "string \<Rightarrow> 'v \<Rightarrow> 'v"
  rx_register_file :: "'v \<Rightarrow> string"
  rx_status :: "'v \<Rightarrow> randomx_status"
  rx_program_count :: nat

fun rx_chain :: "'v rx_machine \<Rightarrow> nat \<Rightarrow> string \<Rightarrow> 'v \<Rightarrow> randomx_status list \<Rightarrow> randomx_status list" where
  "rx_chain M 0 tempHash vm codes = codes @ [rx_status M (rx_run M tempHash vm)]"
| "rx_chain M (Suc n) tempHash vm codes =
     (let vm' = rx_run M tempHash vm
      in rx_chain M n (rx_blake2b M (rx_register_file M vm')) vm' (codes @ [rx_status M vm']))"

definition get_randomx_code :: "'v rx_machine \<Rightarrow> block \<Rightarrow> randomx_status list" where
  "get_randomx_code M blk =
     (case rx_vm M of
        None \<Rightarrow> []
      | Some vm \<Rightarrow>
        let tempHash = rx_blake2b M (rx_hashing_blob M blk)
        in rx_chain M (rx_program_count M - 1) tempHash (rx_scratchpad M tempHash vm) [])"

fun randomx_rows :: "nat \<Rightarrow> randomx_status list \<Rightarrow> json list" where
  "randomx_rows n [] = []"
| "randomx_rows n (rx # rxs) =
     jset ''rx_code_idx'' (JNum (int n)) (jset ''first_program'' (JBool (n = 1)) (rx_get_mstch rx)) # randomx_rows (n + 1) rxs"

definition show_randomx :: "site \<Rightarrow> 'v rx_machine \<Rightarrow> page_world \<Rightarrow> nat \<Rightarrow> u64 \<Rightarrow> html" where
  "show_randomx S M w t h =
     (if \<not> st_enable_randomx S
      then PlainText ''RandomX code generation disabled! Use --enable-randomx flag to enable if.''
      else if current_height (pv_chain (w t)) < h
      then PlainText (''Cant get block '' @ u64_to_string h @ '' since its higher than current blockchain height!'')
      else case get_block_by_height (pv_chain (w (t + 1))) h of
             None \<Rightarrow> PlainText (''Cant get block '' @ u64_to_string h @ ''!'')
           | Some blk \<Rightarrow>
             let blk_hash = block_id_by_height (pv_chain (w (t + 2))) h in
             Rendered ''randomx'' (add_page_assets S
               (JObj [(''testnet'', JBool (st_testnet S)), (''stagenet'', JBool (st_stagenet S)),
                      (''blk_hash'', JStr blk_hash), (''blk_height'', JU64 h),
                      (''rx_codes'', JArr (randomx_rows 1 (get_randomx_code M blk)))])))"

lemma length_rx_chain: "length (rx_chain M n tempHash vm codes) = length codes + n + 1"
  by (induction M n tempHash vm codes rule: rx_chain.induct) (simp_all add: Let_def)

lemma rx_get_mstch_object [simp]: "is_object (rx_get_mstch rx)"
  by (simp add: rx_get_mstch_def)

lemma randomx_rows_index: "map (jget ''rx_code_idx'') (randomx_rows n rxs) = map (JNum \<circ> int) [n..<n + length rxs]"
  by (induction n rxs rule: randomx_rows.induct) (simp_all add: upt_rec)

lemma get_randomx_code_length:
  "0 < rx_program_count M \<Longrightarrow>
    length (get_randomx_code M blk) = (if rx_vm M = None then 0 else rx_program_count M)"
  by (auto simp: get_randomx_code_def length_rx_chain Let_def split: option.splits)

text \<open>
  The page of a block's programs numbers them from one, all of them or, when the machine could not
  be created, none.
\<close>

theorem randomx_page_lists_programs:
  assumes "show_randomx S M w t h = Rendered tmpl ctx" "0 < rx_program_count M"
  shows "map (jget ''rx_code_idx'') (jelems (jget ''rx_codes'' ctx))
      = map (JNum \<circ> int) [1..<1 + (if rx_vm M = None then 0 else rx_program_count M)]"
proof -
  obtain blk where "jget ''rx_codes'' ctx = JArr (randomx_rows 1 (get_randomx_code M blk))"
    using assms(1) by (auto simp: show_randomx_def Let_def add_page_assets_def split: if_splits option.splits)
  then show ?thesis using randomx_rows_index [of 1] get_randomx_code_length [OF assms(2)] by simp
qed

end
