(* ===== verification/Outcome.thy ===== *)
theory Outcome
  imports Page_Html
begin

text \<open>
  The outcomes of handlers that read data of the visitor: a value, an early answer, an exception, or a
  read outside a vector. Loops and vector accesses over them, and the fact that early answers are
  messages.
\<close>

section \<open>Outcomes\<close>

text \<open>
  A computation of the page: a value, an answer that ends the handler, an exception, or a read outside
  a vector through \<open>operator[]\<close>, of which the language says nothing.
\<close>

datatype 'a outcome = Value 'a | Answer html | Throws db_exn | OutOfBounds

fun obind :: "'a outcome \<Rightarrow> ('a \<Rightarrow> 'b outcome) \<Rightarrow> 'b outcome" where
  "obind (Value x) f = f x"
| "obind (Answer h) f = Answer h"
| "obind (Throws e) f = Throws e"
| "obind OutOfBounds f = OutOfBounds"

definition of_db :: "db_exn + 'a \<Rightarrow> 'a outcome" where
  "of_db r = (case r of Inl e \<Rightarrow> Throws e | Inr x \<Rightarrow> Value x)"

definition or_answer :: "string \<Rightarrow> 'a option \<Rightarrow> 'a outcome" where
  "or_answer msg r = (case r of None \<Rightarrow> Answer (PlainText msg) | Some x \<Rightarrow> Value x)"

text \<open>\<open>v[i]\<close> and \<open>v.at(i)\<close>.\<close>

definition vec_index :: "'a list \<Rightarrow> nat \<Rightarrow> 'a outcome" where
  "vec_index xs i = (if i < length xs then Value (xs ! i) else OutOfBounds)"

definition vec_at :: "'a list \<Rightarrow> nat \<Rightarrow> 'a outcome" where
  "vec_at xs i = (if i < length xs then Value (xs ! i) else Throws OTHER_EXN)"

text \<open>\<open>boost::get\<close> of a string and of an array in a context.\<close>

definition get_text :: "json \<Rightarrow> string outcome" where
  "get_text j = (case j of JStr s \<Rightarrow> Value s | _ \<Rightarrow> Throws OTHER_EXN)"

definition get_array :: "json \<Rightarrow> json list outcome" where
  "get_array j = (case j of JArr vs \<Rightarrow> Value vs | _ \<Rightarrow> Throws OTHER_EXN)"

text \<open>Loops whose body may end them: one that collects, and one that changes a state.\<close>

fun omap :: "('a \<Rightarrow> 'b outcome) \<Rightarrow> 'a list \<Rightarrow> 'b list outcome" where
  "omap f [] = Value []"
| "omap f (x # xs) = obind (f x) (\<lambda>y. obind (omap f xs) (\<lambda>ys. Value (y # ys)))"

fun ofold :: "('a \<Rightarrow> 's \<Rightarrow> 's outcome) \<Rightarrow> 'a list \<Rightarrow> 's \<Rightarrow> 's outcome" where
  "ofold f [] s = Value s"
| "ofold f (x # xs) s = obind (f x s) (ofold f xs)"

lemma obind_return [simp]: "obind m Value = m"
  by (cases m) simp_all

lemma obind_assoc: "obind (obind m f) g = obind m (\<lambda>x. obind (f x) g)"
  by (cases m) simp_all

lemma obind_cong [fundef_cong]: "m = m' \<Longrightarrow> (\<And>x. m' = Value x \<Longrightarrow> f x = f' x) \<Longrightarrow> obind m f = obind m' f'"
  by (cases m') simp_all

lemma ofold_append: "ofold f (xs @ ys) s = obind (ofold f xs s) (ofold f ys)"
  by (induction xs arbitrary: s) (simp_all add: obind_assoc cong: obind_cong)

lemma obind_Value [simp]: "obind m f = Value y \<longleftrightarrow> (\<exists>x. m = Value x \<and> f x = Value y)"
  by (cases m) auto

lemma obind_Value_sym [simp]: "Value y = obind m f \<longleftrightarrow> (\<exists>x. m = Value x \<and> f x = Value y)"
  by (metis obind_Value)

lemma of_db_Value [simp]: "of_db r = Value x \<longleftrightarrow> r = Inr x"
  by (auto simp: of_db_def split: sum.splits)

lemma or_answer_Value [simp]: "or_answer msg r = Value x \<longleftrightarrow> r = Some x"
  by (auto simp: or_answer_def split: option.splits)

lemma vec_index_Value [simp]: "vec_index xs i = Value x \<longleftrightarrow> i < length xs \<and> x = xs ! i"
  by (auto simp: vec_index_def)

lemma vec_at_Value [simp]: "vec_at xs i = Value x \<longleftrightarrow> i < length xs \<and> x = xs ! i"
  by (auto simp: vec_at_def)

lemma get_text_Value [simp]: "get_text j = Value s \<longleftrightarrow> j = JStr s"
  by (auto simp: get_text_def split: json.splits)

lemma get_array_Value [simp]: "get_array j = Value vs \<longleftrightarrow> j = JArr vs"
  by (auto simp: get_array_def split: json.splits)

lemma omap_Value: "omap f xs = Value ys \<longleftrightarrow> list_all2 (\<lambda>x y. f x = Value y) xs ys"
  by (induction xs arbitrary: ys) (auto simp: list_all2_Cons1)

section \<open>Answers that end the handler\<close>

text \<open>Every answer in the middle of the work is a message, no page.\<close>

definition plain_answers :: "'a outcome \<Rightarrow> bool" where
  "plain_answers m \<longleftrightarrow> (case m of Answer (Rendered _ _) \<Rightarrow> False | _ \<Rightarrow> True)"

named_theorems plain

lemma plain_Value [plain]: "plain_answers (Value x)" "plain_answers (Throws e)" "plain_answers OutOfBounds"
    "plain_answers (Answer (PlainText msg))"
  by (simp_all add: plain_answers_def)

lemma plain_obind [plain]: "plain_answers m \<Longrightarrow> (\<And>x. plain_answers (f x)) \<Longrightarrow> plain_answers (obind m f)"
  by (cases m) (auto simp: plain_answers_def)

lemma plain_obind_Value: "plain_answers m \<Longrightarrow> (\<And>x. m = Value x \<Longrightarrow> plain_answers (f x)) \<Longrightarrow> plain_answers (obind m f)"
  by (cases m) (auto simp: plain_answers_def)

lemma plain_omap [plain]: "(\<And>x. plain_answers (f x)) \<Longrightarrow> plain_answers (omap f xs)"
  by (induction xs) (simp_all add: plain)

lemma plain_ofold [plain]: "(\<And>x s. plain_answers (f x s)) \<Longrightarrow> plain_answers (ofold f xs s)"
  by (induction xs arbitrary: s) (simp_all add: plain)

lemma plain_parts [plain]: "plain_answers (of_db r)" "plain_answers (or_answer msg q)" "plain_answers (vec_index xs i)"
    "plain_answers (vec_at xs i)" "plain_answers (get_text j)" "plain_answers (get_array j)"
  by (auto simp: plain_answers_def of_db_def or_answer_def vec_index_def vec_at_def get_text_def get_array_def
      split: sum.splits option.splits json.splits)

lemma plain_split [plain]:
  "(\<And>x y. plain_answers (f x y)) \<Longrightarrow> plain_answers (case p of (x, y) \<Rightarrow> f x y)"
  "plain_answers a \<Longrightarrow> plain_answers b \<Longrightarrow> plain_answers (if c then a else b)"
  "plain_answers a \<Longrightarrow> (\<And>x. plain_answers (g x)) \<Longrightarrow> plain_answers (case q of None \<Rightarrow> a | Some x \<Rightarrow> g x)"
  by (simp_all split: prod.splits option.splits)

end
