(* ===== verification/Check_Tx.thy ===== *)
theory Check_Tx
  imports Search Outcome
begin

text \<open>
  Checking raw transactions: \<open>page::show_checkrawtx\<close> and \<open>mark_real_mixins_on_timescales\<close> of
  \<open>src/src/page.h\<close>, which show what a wallet's unsigned or signed set, or the blob of a transaction,
  would do. The data come from the visitor. The theorems show that the page of an unsigned set
  lists every ring completely, what a signed set shows of amounts, and which indices of the data
  the code trusts.
\<close>

section \<open>What wallets export\<close>

text \<open>
  The members the page reads of the wallet's \<open>tx_destination_entry\<close>, \<open>tx_source_entry\<close> (its ring is a
  list of global indices and keys), \<open>tx_construction_data\<close> and \<open>pending_tx\<close>.
\<close>

record tx_destination_entry =
  de_amount :: u64
  de_addr :: wallet_address
  de_is_subaddress :: bool

record tx_source_entry =
  se_outputs :: "(u64 \<times> string) list"
  se_real_output :: u64
  se_real_out_tx_key :: hash
  se_real_output_in_tx_index :: u64
  se_amount :: u64
  se_rct :: bool

record tx_construction_data =
  cd_sources :: "tx_source_entry list"
  cd_change_dts :: tx_destination_entry
  cd_splitted_dsts :: "tx_destination_entry list"
  cd_extra :: blob
  cd_use_rct :: bool

record pending_tx =
  pt_tx :: transaction
  pt_tx_key :: hash
  pt_construction_data :: tx_construction_data

text \<open>
  What the page calls: the two prefixes of the wallet's exports and the archives behind them
  (\<open>None\<close> when reading one throws), base64, hexadecimal, the core's parsers of a transaction blob and
  of an amount, the wallet's address format, and whether the database has a key image.
\<close>

record check_env =
  ce_unsigned_prefix :: string
  ce_signed_prefix :: string
  ce_base64_decode :: "string \<Rightarrow> string"
  ce_unpack_unsigned :: "string \<Rightarrow> tx_construction_data list option"
  ce_unpack_signed :: "string \<Rightarrow> pending_tx list option"
  ce_hex_to_blob :: "string \<Rightarrow> blob option"
  ce_parse_tx :: "blob \<Rightarrow> transaction option"
  ce_parse_amount :: "string \<Rightarrow> u64 option"
  ce_address :: "bool \<Rightarrow> wallet_address \<Rightarrow> string"
  ce_hex_to_image :: "string \<Rightarrow> hash option"
  ce_has_key_image :: "hash \<Rightarrow> bool"
  ce_uninit :: u64

section \<open>The real member of a ring\<close>

text \<open>\<open>xmr_amount_to_str\<close> with its default arguments: zero is a question mark.\<close>

definition shown_amount :: "site \<Rightarrow> u64 \<Rightarrow> string" where
  "shown_amount S a = xmr_amount_to_str (pl_coin (st_lib S)) (pl_decimals (st_lib S)) a True"

definition no_output_text :: "u64 \<Rightarrow> u64 \<Rightarrow> string" where
  "no_output_text amount i =
     ''Output with amount '' @ u64_to_string amount @ '' and index '' @ u64_to_string i @ '' does not exist!''"

definition source_amount :: "tx_source_entry \<Rightarrow> u64" where
  "source_amount s = (if se_rct s then 0 else se_amount s)"

text \<open>The transaction that holds an output of the chain, with the output's place in it.\<close>

definition output_tx :: "site \<Rightarrow> page_view \<Rightarrow> u64 \<Rightarrow> u64 \<Rightarrow> (tx_details \<times> u64) outcome" where
  "output_tx S v amount i =
     obind (or_answer (no_output_text amount i) (output_tx_and_index v amount i)) (\<lambda>(txh, out_idx).
     obind (of_db (micro_get_tx (pv_chain v) txh)) (\<lambda>found.
     obind (or_answer (''Cant get tx: '' @ txh) found) (\<lambda>tx.
     obind (of_db (get_tx_details (st_lib S) v tx False 0 0)) (\<lambda>txd. Value (txd, out_idx)))))"

text \<open>
  The public key of the real output: both positions are those the wallet's data give, and no one is
  compared with the size of the vector.
\<close>

definition real_out_pub_key :: "site \<Rightarrow> page_view \<Rightarrow> tx_source_entry \<Rightarrow> hash outcome" where
  "real_out_pub_key S v s =
     obind (vec_index (se_outputs s) (unat (se_real_output s))) (\<lambda>(index_of_real_output, _).
     obind (output_tx S v (source_amount s) index_of_real_output) (\<lambda>(real_txd, _).
     obind (vec_index (td_output_pub_keys real_txd) (unat (se_real_output_in_tx_index s))) (\<lambda>out.
     Value (fst out))))"

section \<open>Marks on the time scale\<close>

text \<open>The nth star of an axis becomes an \<open>R\<close>.\<close>

fun mark_nth :: "nat \<Rightarrow> string \<Rightarrow> string" where
  "mark_nth n [] = []"
| "mark_nth n (c # cs) =
     (if c = CHR ''*'' then (case n of 0 \<Rightarrow> CHR ''R'' # cs | Suc m \<Rightarrow> c # mark_nth m cs)
      else c # mark_nth n cs)"

definition stars :: "string \<Rightarrow> nat" where
  "stars s = length (filter (\<lambda>c. c = CHR ''*'') s)"

text \<open>
  One axis: without a star the search ends at the end of the text, where the code writes.
\<close>

definition mark_real :: "u64 \<Rightarrow> string \<Rightarrow> string outcome" where
  "mark_real real_output timescale =
     (let no_points = stars timescale;
          point_to_find = (if no_points \<le> unat real_output then no_points - 1 else unat real_output)
      in if no_points = 0 then OutOfBounds else Value (mark_nth point_to_find timescale))"

definition mark_node :: "u64 list \<Rightarrow> nat \<times> json \<Rightarrow> json outcome" where
  "mark_node real_output_indices node =
     (case node of (idx, timescale_node) \<Rightarrow>
        obind (get_text (jget ''timescale'' timescale_node)) (\<lambda>timescale.
        obind (vec_at real_output_indices idx) (\<lambda>real_output.
        obind (mark_real real_output timescale) (\<lambda>marked.
        Value (jset ''timescale'' (JStr marked) timescale_node)))))"

definition mark_real_mixins_on_timescales :: "u64 list \<Rightarrow> json \<Rightarrow> json outcome" where
  "mark_real_mixins_on_timescales real_output_indices tx_context =
     obind (get_array (jget ''timescales'' tx_context)) (\<lambda>mixins_timescales.
     obind (omap (mark_node real_output_indices) (enumerate 0 mixins_timescales)) (\<lambda>marked.
     Value (jset ''timescales'' (JArr marked) tx_context)))"

section \<open>Unsigned sets\<close>

text \<open>
  One member of a ring: its row, the time of its block and the format of its age. The height of a
  transaction the database does not have is uninitialised.
\<close>

definition ring_row ::
    "site \<Rightarrow> check_env \<Rightarrow> page_view \<Rightarrow> u64 \<Rightarrow> u64 \<Rightarrow> hash \<Rightarrow> u64 \<times> string \<Rightarrow> (json \<times> u64 \<times> string) outcome" where
  "ring_row S C v now amount real_key oe =
     obind (output_tx S v amount (fst oe)) (\<lambda>(txd, out_idx).
     obind (vec_index (td_output_pub_keys txd) (unat out_idx)) (\<lambda>(out_pub_key, _).
     let blk_height = (case td_blk_height txd of None \<Rightarrow> ce_uninit C | Some h \<Rightarrow> h) in
     obind (or_answer (''Cant get block: '' @ u64_to_string blk_height) (get_block_by_height (pv_chain v) blk_height)) (\<lambda>blk.
     let age = get_age now (blk_timestamp blk) False in
     Value (JObj [(''out_index'', JU64 (fst oe)), (''tx_hash'', JStr (td_hash txd)), (''out_pub_key'', JStr out_pub_key),
                  (''ctkey'', JStr (snd oe)), (''output_age'', JStr (fst age)),
                  (''is_real'', JBool (out_pub_key = real_key))],
            blk_timestamp blk, snd age))))"

text \<open>One source: its row and the times of its ring; the format of ages is that of the first member.\<close>

definition source_row ::
    "site \<Rightarrow> check_env \<Rightarrow> page_view \<Rightarrow> u64 \<Rightarrow> tx_source_entry \<Rightarrow> (json \<times> u64 list) outcome" where
  "source_row S C v now s =
     obind (real_out_pub_key S v s) (\<lambda>real_key.
     obind (omap (ring_row S C v now (source_amount s) real_key) (se_outputs s)) (\<lambda>ring.
     Value (JObj ([(''output_amount'', JStr (shown_amount S (se_amount s))), (''real_output'', JU64 (se_real_output s)),
                   (''real_out_tx_key'', JStr (se_real_out_tx_key s)),
                   (''real_output_in_tx_index'', JU64 (se_real_output_in_tx_index s)),
                   (''outputs'', JArr (map fst ring))]
                  @ (if ring = [] then [] else [(''age_format'', JStr (snd (snd (hd ring))))])),
            map (fst \<circ> snd) ring)))"

definition dest_row :: "site \<Rightarrow> check_env \<Rightarrow> tx_destination_entry \<Rightarrow> (string \<times> json) list" where
  "dest_row S C d =
     [(''dest_address'', JStr (ce_address C (de_is_subaddress d) (de_addr d))),
      (''dest_amount'', JStr (shown_amount S (de_amount d)))]"

definition unsigned_head :: "site \<Rightarrow> check_env \<Rightarrow> tx_construction_data \<Rightarrow> (string \<times> json) list" where
  "unsigned_head S C d =
     (case get_payment_id (extra_nonce (st_lib S)) (encrypted_payment_id (st_lib S)) (plain_payment_id (st_lib S)) (cd_extra d) of
        (_, pid, pid8) \<Rightarrow>
          [(''no_of_sources'', JNum (int (length (cd_sources d)))), (''use_rct'', JBool (cd_use_rct d)),
           (''change_amount'', JStr (shown_amount S (de_amount (cd_change_dts d)))),
           (''has_payment_id'', JBool (pid \<noteq> null_hash)), (''has_payment_id8'', JBool (pid8 \<noteq> null_hash8)),
           (''payment_id'', JStr (bare_hash S pid)), (''payment_id8'', JStr (bare_hash S pid8)),
           (''dest_infos'', JArr (map (JObj \<circ> dest_row S C) (cd_splitted_dsts d)))])"

text \<open>
  One transaction of the set. The least time of an empty ring is read through an iterator at the
  end.
\<close>

definition unsigned_tx ::
    "site \<Rightarrow> tx_env \<Rightarrow> check_env \<Rightarrow> page_view \<Rightarrow> u64 \<Rightarrow> tx_construction_data \<Rightarrow> json outcome" where
  "unsigned_tx S T C v now d =
     obind (omap (source_row S C v now) (cd_sources d)) (\<lambda>sources.
     let groups = map snd sources in
     obind (case construct_mstch_mixin_timescales T now groups of None \<Rightarrow> OutOfBounds | Some r \<Rightarrow> Value r) (\<lambda>(lo, hi, scales).
     mark_real_mixins_on_timescales (map se_real_output (cd_sources d))
       (JObj (unsigned_head S C d
          @ [(''dest_sources'', JArr (map fst sources)),
             (''sum_outputs_amounts'', JStr (shown_amount S (sum_list (map se_amount (cd_sources d))))),
             (''timescales'', JArr scales), (''min_mix_time'', JStr (timestamp_to_str_gm lo)),
             (''max_mix_time'', JStr (timestamp_to_str_gm hi)),
             (''timescales_scale'', JStr (te_scale_days T (if groups = [] then None else Some (hi - lo, 170))))]))))"

section \<open>Signed sets\<close>

text \<open>The outputs of a signed transaction: an amount that reads as zero is replaced.\<close>

definition signed_output :: "site \<Rightarrow> check_env \<Rightarrow> u64 list \<Rightarrow> nat \<times> json \<Rightarrow> json outcome" where
  "signed_output S C real_ammounts row =
     (case row of (i, output_map) \<Rightarrow>
        obind (get_text (jget ''amount'' output_map)) (\<lambda>out_amount_str.
        if ce_parse_amount C out_amount_str = Some 0
        then obind (vec_at real_ammounts i) (\<lambda>a. Value (jset ''amount'' (JStr (shown_amount S a)) output_map))
        else Value output_map))"

definition mark_mixin :: "string list \<Rightarrow> json \<Rightarrow> json outcome" where
  "mark_mixin real_output_pub_keys mixin =
     obind (get_text (jget ''mix_pub_key'' mixin)) (\<lambda>mix_pub_key_str.
     Value (if mix_pub_key_str \<in> set real_output_pub_keys then jset ''mix_is_it_real'' (JBool True) mixin else mixin))"

text \<open>The inputs: the amount of the source at the same position, the state of the key image, and the real member.\<close>

definition signed_input :: "site \<Rightarrow> check_env \<Rightarrow> u64 list \<Rightarrow> string list \<Rightarrow> nat \<times> json \<Rightarrow> json outcome" where
  "signed_input S C real_amounts real_output_pub_keys row =
     (case row of (input_idx, input_node) \<Rightarrow>
        obind (vec_at real_amounts input_idx) (\<lambda>a.
        obind (get_text (jget ''in_key_img'' input_node)) (\<lambda>in_key_img_str.
        obind (get_array (jget ''mixins'' input_node)) (\<lambda>mixins.
        obind (omap (mark_mixin real_output_pub_keys) mixins) (\<lambda>marked.
        let shown = jset ''amount'' (JStr (shown_amount S a)) input_node;
            checked = (case ce_hex_to_image C in_key_img_str of
                         None \<Rightarrow> shown
                       | Some k \<Rightarrow> jset ''already_spent'' (JBool (ce_has_key_image C k)) shown)
        in Value (jset ''mixins'' (JArr marked) checked))))))"

definition signed_dests :: "site \<Rightarrow> check_env \<Rightarrow> tx_construction_data \<Rightarrow> json list" where
  "signed_dests S C d =
     map (\<lambda>a. JObj (dest_row S C a @ [(''is_this_change'', JBool False)])) (cd_splitted_dsts d)
     @ (if 0 < de_amount (cd_change_dts d)
        then [JObj (dest_row S C (cd_change_dts d) @ [(''is_this_change'', JBool True)])] else [])"

definition signed_amounts :: "tx_construction_data \<Rightarrow> u64 list" where
  "signed_amounts d =
     map de_amount (cd_splitted_dsts d) @ (if 0 < de_amount (cd_change_dts d) then [de_amount (cd_change_dts d)] else [])"

definition signed_tx ::
    "site \<Rightarrow> tx_env \<Rightarrow> check_env \<Rightarrow> page_view \<Rightarrow> u64 \<Rightarrow> pending_tx \<Rightarrow> json outcome" where
  "signed_tx S T C v now ptx =
     (let d = pt_construction_data ptx in
      obind (of_db (construct_tx_context S T v now (pt_tx ptx) True)) (\<lambda>ctx0.
      if jget ''has_error'' ctx0 = JBool True
      then obind (get_text (jget ''error_msg'' ctx0)) (\<lambda>msg. Answer (PlainText msg))
      else
        let ctx1 = jset ''outputs_xmr_sum'' (JStr (shown_amount S (sum_list (map de_amount (cd_splitted_dsts d)))))
                     (jset ''tx_prv_key'' (JStr (pt_tx_key ptx)) ctx0);
            ctx2 = (if jcontains ctx1 ''dest_infos'' then ctx1 else jset ''dest_infos'' (JArr (signed_dests S C d)) ctx1)
        in obind (get_array (jget ''outputs'' ctx2)) (\<lambda>outputs.
           obind (omap (signed_output S C (signed_amounts d)) (enumerate 0 outputs)) (\<lambda>outputs'.
           obind (omap (real_out_pub_key S v) (cd_sources d)) (\<lambda>keys.
           obind (get_array (jget ''inputs'' ctx2)) (\<lambda>inputs.
           obind (omap (signed_input S C (map se_amount (cd_sources d)) (map (bare_hash S) keys)) (enumerate 0 inputs)) (\<lambda>inputs'.
           mark_real_mixins_on_timescales (map se_real_output (cd_sources d))
             (jset ''inputs'' (JArr inputs')
             (jset ''inputs_xmr_sum'' (JStr (shown_amount S (sum_list (map se_amount (cd_sources d)))))
             (jset ''have_raw_tx'' (JBool True)
             (jset ''outputs'' (JArr outputs') ctx2)))))))))))"

section \<open>The page\<close>

definition check_context :: "site \<Rightarrow> bool \<Rightarrow> string option \<Rightarrow> string \<Rightarrow> json list \<Rightarrow> (string \<times> json) list \<Rightarrow> html" where
  "check_context S unsigned_tx_given err data_prefix txs others =
     Rendered ''checkrawtx'' (add_page_assets S (JObj
       ([(''testnet'', JBool (st_testnet S)), (''stagenet'', JBool (st_stagenet S)),
         (''unsigned_tx_given'', JBool unsigned_tx_given), (''have_raw_tx'', JBool True),
         (''has_error'', JBool (err \<noteq> None)), (''error_msg'', JStr (case err of None \<Rightarrow> [] | Some m \<Rightarrow> m)),
         (''data_prefix'', JStr data_prefix), (''txs'', JArr txs)] @ others)))"

text \<open>The data are neither an unsigned nor a signed set: perhaps the blob of a transaction.\<close>

definition check_blob ::
    "site \<Rightarrow> tx_env \<Rightarrow> check_env \<Rightarrow> page_view \<Rightarrow> u64 \<Rightarrow> string \<Rightarrow> string \<Rightarrow> string \<Rightarrow> html outcome" where
  "check_blob S T C v now unsigned_prefix data_prefix raw_tx_data =
     obind (or_answer (''The data is neither unsigned, signed tx or raw tx! Its prefix is: '' @ data_prefix)
              (ce_hex_to_blob C raw_tx_data)) (\<lambda>tx_data_blob.
     case ce_parse_tx C tx_data_blob of
       None \<Rightarrow> Value (check_context S False (Some ''failed to validate transaction'') unsigned_prefix [] [])
     | Some tx \<Rightarrow>
       obind (of_db (construct_tx_context S T v now tx False)) (\<lambda>ctx.
       if jget ''has_error'' ctx = JBool True
       then obind (get_text (jget ''error_msg'' ctx)) (\<lambda>msg. Answer (PlainText msg))
       else Value (check_context S False None ''none as this is pure raw tx data''
              [jset ''show_more_details_link'' (JBool False) (jset ''raw_tx_data'' (JStr raw_tx_data) ctx)]
              [(''tx_json'', JStr (te_tx_json T tx))])))"

definition bad_archive_text :: "string \<Rightarrow> string" where
  "bad_archive_text kind = ''deserialization of '' @ kind @ '' tx data NOT successful. Maybe its not base64 encoded?''"

text \<open>
  \<open>page::show_checkrawtx\<close> over one state of the database; it does not use its second argument. The
  prefix that is first taken for the page has the length of the unsigned one.
\<close>

definition checked_page ::
    "site \<Rightarrow> tx_env \<Rightarrow> check_env \<Rightarrow> page_view \<Rightarrow> u64 \<Rightarrow> string \<Rightarrow> html outcome" where
  "checked_page S T C v now raw =
     (let raw_tx_data = clean_post_data raw;
          decoded = ce_base64_decode C raw_tx_data;
          unsigned_len = length (ce_unsigned_prefix C); signed_len = length (ce_signed_prefix C);
          unsigned_prefix = make_printable (take unsigned_len decoded);
          data_prefix = make_printable (take signed_len decoded)
      in if starts_with (ce_unsigned_prefix C) decoded
         then obind (or_answer (bad_archive_text ''unsigned'') (ce_unpack_unsigned C (drop unsigned_len decoded))) (\<lambda>ds.
              obind (omap (unsigned_tx S T C v now) ds) (\<lambda>txs.
              Value (check_context S True None unsigned_prefix txs [])))
         else if \<not> starts_with (ce_signed_prefix C) decoded
         then check_blob S T C v now unsigned_prefix data_prefix raw_tx_data
         else obind (or_answer (bad_archive_text ''signed'') (ce_unpack_signed C (drop signed_len decoded))) (\<lambda>ptxs.
              obind (omap (signed_tx S T C v now) ptxs) (\<lambda>txs.
              Value (check_context S False None data_prefix txs []))))"

text \<open>The result of the handler: a page, an exception, or no defined behaviour.\<close>

fun returned :: "html outcome \<Rightarrow> html outcome" where
  "returned (Answer h) = Value h"
| "returned r = r"

definition show_checkrawtx ::
    "site \<Rightarrow> tx_env \<Rightarrow> check_env \<Rightarrow> page_view \<Rightarrow> u64 \<Rightarrow> string \<Rightarrow> html outcome" where
  "show_checkrawtx S T C v now raw = returned (checked_page S T C v now raw)"

section \<open>The page and its messages\<close>

lemma plain_output_tx [plain]: "plain_answers (output_tx S v amount i)" "plain_answers (real_out_pub_key S v s)"
  unfolding real_out_pub_key_def output_tx_def by (intro plain)+

lemma plain_marks [plain]: "plain_answers (mark_real_mixins_on_timescales is ctx)"
  unfolding mark_real_mixins_on_timescales_def mark_node_def mark_real_def Let_def by (intro plain)

lemma plain_unsigned_tx [plain]: "plain_answers (unsigned_tx S T C v now d)"
  unfolding unsigned_tx_def source_row_def ring_row_def Let_def by (intro plain)

lemma plain_signed_tx [plain]: "plain_answers (signed_tx S T C v now ptx)"
  unfolding signed_tx_def signed_output_def signed_input_def mark_mixin_def Let_def by (intro plain)

lemma returned_page: "plain_answers m \<Longrightarrow> returned m = Value (Rendered t ctx) \<longleftrightarrow> m = Value (Rendered t ctx)"
  by (cases m) (auto simp: plain_answers_def split: html.splits)

lemma plain_checked_page [plain]: "plain_answers (checked_page S T C v now raw)"
  unfolding checked_page_def check_blob_def Let_def by (intro plain)

lemma show_checkrawtx_page:
  "show_checkrawtx S T C v now raw = Value (Rendered t ctx) \<longleftrightarrow> checked_page S T C v now raw = Value (Rendered t ctx)"
  unfolding show_checkrawtx_def by (rule returned_page [OF plain_checked_page])

section \<open>Unsigned sets are shown completely\<close>

text \<open>A row for a member of a ring, and the row of a source.\<close>

definition shows_member :: "site \<Rightarrow> page_view \<Rightarrow> u64 \<Rightarrow> hash \<Rightarrow> u64 \<times> string \<Rightarrow> json \<Rightarrow> bool" where
  "shows_member S v amount real_key oe row \<longleftrightarrow>
     jget ''out_index'' row = JU64 (fst oe) \<and> jget ''ctkey'' row = JStr (snd oe)
     \<and> (\<exists>txd i. output_tx S v amount (fst oe) = Value (txd, i) \<and> unat i < length (td_output_pub_keys txd)
          \<and> jget ''tx_hash'' row = JStr (td_hash txd)
          \<and> jget ''is_real'' row = JBool (fst (td_output_pub_keys txd ! unat i) = real_key))"

definition shows_source :: "site \<Rightarrow> page_view \<Rightarrow> tx_source_entry \<Rightarrow> json \<Rightarrow> bool" where
  "shows_source S v s row \<longleftrightarrow>
     jget ''output_amount'' row = JStr (shown_amount S (se_amount s))
     \<and> (\<exists>real_key. real_out_pub_key S v s = Value real_key
          \<and> list_all2 (shows_member S v (source_amount s) real_key) (se_outputs s) (jelems (jget ''outputs'' row)))"

lemma ring_row_shows:
  "ring_row S C v now amount real_key oe = Value (row, ts, age) \<Longrightarrow> shows_member S v amount real_key oe row"
  by (auto simp: ring_row_def shows_member_def Let_def case_prod_beta)

lemma source_row_shows:
  assumes "source_row S C v now s = Value (row, stamps)"
  shows "shows_source S v s row"
proof -
  from assms obtain real_key ring where key: "real_out_pub_key S v s = Value real_key"
    and ring: "list_all2 (\<lambda>oe r. ring_row S C v now (source_amount s) real_key oe = Value r) (se_outputs s) ring"
    and row: "jget ''output_amount'' row = JStr (shown_amount S (se_amount s))" "jget ''outputs'' row = JArr (map fst ring)"
    by (auto simp: source_row_def omap_Value)
  have "list_all2 (\<lambda>oe r. shows_member S v (source_amount s) real_key oe (fst r)) (se_outputs s) ring"
    by (rule list_all2_mono [OF ring]) (metis ring_row_shows prod.collapse)
  then show ?thesis using key row by (simp add: shows_source_def list_all2_map2)
qed

lemma marks_keep:
  assumes "mark_real_mixins_on_timescales is ctx = Value ctx'" "is_object ctx" "k \<noteq> ''timescales''"
  shows "jget k ctx' = jget k ctx"
  using assms by (auto simp: mark_real_mixins_on_timescales_def)

text \<open>The page of an unsigned set, for one of its transactions.\<close>

definition shows_unsigned :: "site \<Rightarrow> check_env \<Rightarrow> page_view \<Rightarrow> tx_construction_data \<Rightarrow> json \<Rightarrow> bool" where
  "shows_unsigned S C v d tx \<longleftrightarrow>
     list_all2 (shows_source S v) (cd_sources d) (jelems (jget ''dest_sources'' tx))
     \<and> jget ''dest_infos'' tx = JArr (map (JObj \<circ> dest_row S C) (cd_splitted_dsts d))
     \<and> jget ''sum_outputs_amounts'' tx = JStr (shown_amount S (sum_list (map se_amount (cd_sources d))))"

lemma unsigned_tx_shows:
  assumes "unsigned_tx S T C v now d = Value tx"
  shows "shows_unsigned S C v d tx"
proof -
  from assms obtain sources lo hi scales rest where
    rows: "list_all2 (\<lambda>s r. source_row S C v now s = Value r) (cd_sources d) sources"
    and marked: "mark_real_mixins_on_timescales (map se_real_output (cd_sources d))
       (JObj (unsigned_head S C d @ [(''dest_sources'', JArr (map fst sources)),
          (''sum_outputs_amounts'', JStr (shown_amount S (sum_list (map se_amount (cd_sources d))))),
          (''timescales'', JArr scales)] @ rest)) = Value tx"
    by (auto simp: unsigned_tx_def omap_Value Let_def case_prod_beta)
  have "list_all2 (\<lambda>s r. shows_source S v s (fst r)) (cd_sources d) sources"
    by (rule list_all2_mono [OF rows]) (metis source_row_shows prod.collapse)
  then show ?thesis
    by (auto simp: shows_unsigned_def marks_keep [OF marked] jget_JObj_append unsigned_head_def list_all2_map2
        split: prod.splits)
qed

lemma check_context_txs: "check_context S u err p txs others = Rendered t ctx \<Longrightarrow> jget ''txs'' ctx = JArr txs"
  by (auto simp: check_context_def jget_page_assets)

text \<open>
  C30. The page of an unsigned set is complete: it has one entry per transaction, in it one row
  per source and per destination, and in a source one row per ring member with the transaction that
  holds it; the real member is told by its public key, and the sum is that of the sources.
\<close>

theorem unsigned_page_complete:
  assumes "show_checkrawtx S T C v now raw = Value (Rendered t ctx)"
    and "starts_with (ce_unsigned_prefix C) (ce_base64_decode C (clean_post_data raw))"
  shows "\<exists>ds txs. ce_unpack_unsigned C (drop (length (ce_unsigned_prefix C)) (ce_base64_decode C (clean_post_data raw))) = Some ds
    \<and> jget ''txs'' ctx = JArr txs \<and> list_all2 (shows_unsigned S C v) ds txs"
proof -
  from assms obtain ds txs where
    "ce_unpack_unsigned C (drop (length (ce_unsigned_prefix C)) (ce_base64_decode C (clean_post_data raw))) = Some ds"
    and rows: "list_all2 (\<lambda>d tx. unsigned_tx S T C v now d = Value tx) ds txs"
    and "check_context S True None (make_printable (take (length (ce_unsigned_prefix C)) (ce_base64_decode C (clean_post_data raw)))) txs []
      = Rendered t ctx"
    by (auto simp: show_checkrawtx_page checked_page_def omap_Value Let_def)
  moreover have "list_all2 (shows_unsigned S C v) ds txs"
    using rows by (rule list_all2_mono) (rule unsigned_tx_shows)
  ultimately show ?thesis using check_context_txs by blast
qed

text \<open>The member at the real position carries the mark when the database places it where the wallet says.\<close>

lemma real_member_marked:
  assumes "shows_source S v s row" "output_tx S v (source_amount s) (fst (se_outputs s ! unat (se_real_output s))) = Value (txd, i)"
    and "i = se_real_output_in_tx_index s" "unat (se_real_output s) < length (se_outputs s)"
  shows "jget ''is_real'' (jelems (jget ''outputs'' row) ! unat (se_real_output s)) = JBool True"
proof -
  from assms(1) obtain key where key: "real_out_pub_key S v s = Value key"
    and ring: "list_all2 (shows_member S v (source_amount s) key) (se_outputs s) (jelems (jget ''outputs'' row))"
    by (auto simp: shows_source_def)
  have "key = fst (td_output_pub_keys txd ! unat i)"
    using key assms(2-4) by (auto simp: real_out_pub_key_def case_prod_beta)
  then show ?thesis
    using list_all2_nthD [OF ring assms(4)] assms(2) by (auto simp: shows_member_def)
qed

section \<open>Marks\<close>

text \<open>Exactly one star of the axis is replaced: the one the position names, or the last.\<close>

lemma mark_nth_update:
  "n < stars s \<Longrightarrow> \<exists>i < length s. s ! i = CHR ''*'' \<and> stars (take i s) = n \<and> mark_nth n s = s[i := CHR ''R'']"
proof (induction s arbitrary: n)
  case (Cons c cs)
  show ?case
  proof (cases "c = CHR ''*'' \<and> n = 0")
    case True
    then show ?thesis by (intro exI [of _ 0]) (simp add: stars_def)
  next
    case False
    define m where "m = (if c = CHR ''*'' then n - 1 else n)"
    have "m < stars cs" using Cons.prems False by (auto simp: m_def stars_def split: if_splits)
    from Cons.IH [OF this] obtain i where
      "i < length cs" "cs ! i = CHR ''*''" "stars (take i cs) = m" "mark_nth m cs = cs[i := CHR ''R'']" by blast
    then show ?thesis
      using False by (intro exI [of _ "Suc i"]) (auto simp: m_def stars_def split: nat.splits)
  qed
qed (simp add: stars_def)

theorem mark_real_one_star:
  assumes "mark_real n axis = Value marked"
  shows "\<exists>i < length axis. axis ! i = CHR ''*'' \<and> marked = axis[i := CHR ''R'']
    \<and> stars (take i axis) = min (unat n) (stars axis - 1)"
proof -
  let ?p = "if stars axis \<le> unat n then stars axis - 1 else unat n"
  from assms have "marked = mark_nth ?p axis" "0 < stars axis"
    by (auto simp: mark_real_def Let_def split: if_splits)
  then show ?thesis using mark_nth_update [of ?p axis] by (auto simp: min_def split: if_splits)
qed

section \<open>Signed sets\<close>

lemma construct_tx_context_object: "construct_tx_context S T v now tx rings = Inr ctx \<Longrightarrow> is_object ctx"
  by (auto simp: construct_tx_context_def Let_def split: sum.splits option.splits prod.splits)

lemma signed_output_hides:
  assumes "ce_parse_amount C ''confidential'' \<noteq> Some 0" "hides_amount (snd r)" "signed_output S C as r = Value row"
  shows "row = snd r"
  using assms by (auto simp: signed_output_def hides_amount_def case_prod_beta split: if_splits)

lemma signed_input_shows:
  assumes "signed_input S C as keys (i, row0) = Value row" "is_object row0"
  shows "i < length as \<and> jget ''amount'' row = JStr (shown_amount S (as ! i))"
  using assms by (auto simp: signed_input_def Let_def split: option.splits)

lemma tx_input_rows_objects:
  assumes "list_all is_object (is_rows st)"
    and "tx_input_rows S T v now c detailed part txd ks st = Inr (Inr st')"
  shows "list_all is_object (is_rows st')"
  using assms
  by (induction S T v now c detailed part txd ks st rule: tx_input_rows.induct)
     (auto simp: Let_def input_row_def split: if_splits option.splits sum.splits prod.splits)

text \<open>What the page of a signed set shows of one transaction.\<close>

definition shows_signed :: "site \<Rightarrow> pending_tx \<Rightarrow> json \<Rightarrow> bool" where
  "shows_signed S ptx tx \<longleftrightarrow>
     (let sources = cd_sources (pt_construction_data ptx);
          ins = jelems (jget ''inputs'' tx); outs = jelems (jget ''outputs'' tx)
      in length ins \<le> length sources
         \<and> (\<forall>i < length ins. jget ''amount'' (ins ! i) = JStr (shown_amount S (se_amount (sources ! i))))
         \<and> jget ''inputs_xmr_sum'' tx = JStr (shown_amount S (sum_list (map se_amount sources)))
         \<and> jget ''outputs_xmr_sum'' tx
             = JStr (shown_amount S (sum_list (map de_amount (cd_splitted_dsts (pt_construction_data ptx)))))
         \<and> (is_ringct (st_lib S) (pt_tx ptx) \<longrightarrow> list_all hides_amount outs))"

lemma signed_tx_parts:
  assumes "signed_tx S T C v now ptx = Value tx"
  obtains ctx0 outs outs' keys ins ins' where
    "construct_tx_context S T v now (pt_tx ptx) True = Inr ctx0" "jget ''has_error'' ctx0 \<noteq> JBool True"
    "jget ''outputs'' ctx0 = JArr outs" "jget ''inputs'' ctx0 = JArr ins"
    "list_all2 (\<lambda>r r'. signed_output S C (signed_amounts (pt_construction_data ptx)) r = Value r') (enumerate 0 outs) outs'"
    "list_all2 (\<lambda>r r'. signed_input S C (map se_amount (cd_sources (pt_construction_data ptx))) (map (bare_hash S) keys) r = Value r')
       (enumerate 0 ins) ins'"
    "jget ''outputs'' tx = JArr outs'" "jget ''inputs'' tx = JArr ins'"
    "jget ''inputs_xmr_sum'' tx = JStr (shown_amount S (sum_list (map se_amount (cd_sources (pt_construction_data ptx)))))"
    "jget ''outputs_xmr_sum'' tx = JStr (shown_amount S (sum_list (map de_amount (cd_splitted_dsts (pt_construction_data ptx)))))"
proof -
  from assms obtain ctx0 where ctx0: "construct_tx_context S T v now (pt_tx ptx) True = Inr ctx0"
    "jget ''has_error'' ctx0 \<noteq> JBool True"
    by (auto simp: signed_tx_def Let_def split: if_splits)
  note obj = construct_tx_context_object [OF ctx0(1)]
  show ?thesis
    using assms ctx0 obj
    by (auto simp: signed_tx_def Let_def omap_Value marks_keep intro!: that split: if_splits)
qed

text \<open>The rows the context of a transaction has before the page changes them.\<close>

lemma context_rows:
  assumes "construct_tx_context S T v now tx rings = Inr ctx" "jget ''has_error'' ctx \<noteq> JBool True"
    and "jget ''inputs'' ctx = JArr ins" "jget ''outputs'' ctx = JArr outs"
  shows "list_all is_object ins \<and> (is_ringct (st_lib S) tx \<longrightarrow> list_all hides_amount outs)"
  using assms(1)
proof (cases rule: construct_tx_context_cases)
  case abandoned
  then show ?thesis using assms(2) by (simp add: jget_JObj_append tx_base_context_lacks)
next
  case (complete txd st outs')
  have "list_all is_object ins"
    using tx_input_rows_objects [OF _ complete(4)] complete(7) assms(3) by (simp add: no_inputs_yet_def)
  moreover have "list_all (\<lambda>r. is_ringct (st_lib S) tx \<longrightarrow> hides_amount r) outs'"
    using complete(5) output_rows_done by fastforce
  ultimately show ?thesis using complete(8) assms(4) by (simp add: list_all_iff)
qed

lemma signed_tx_shows:
  assumes "signed_tx S T C v now ptx = Value tx" "ce_parse_amount C ''confidential'' \<noteq> Some 0"
  shows "shows_signed S ptx tx"
proof -
  let ?sources = "cd_sources (pt_construction_data ptx)"
  from assms(1) show ?thesis
  proof (rule signed_tx_parts)
    fix ctx0 outs outs' keys ins ins'
    assume ctx: "construct_tx_context S T v now (pt_tx ptx) True = Inr ctx0" "jget ''has_error'' ctx0 \<noteq> JBool True"
      "jget ''outputs'' ctx0 = JArr outs" "jget ''inputs'' ctx0 = JArr ins"
      and o: "list_all2 (\<lambda>r r'. signed_output S C (signed_amounts (pt_construction_data ptx)) r = Value r') (enumerate 0 outs) outs'"
      and i: "list_all2 (\<lambda>r r'. signed_input S C (map se_amount ?sources) (map (bare_hash S) keys) r = Value r') (enumerate 0 ins) ins'"
      and tx: "jget ''outputs'' tx = JArr outs'" "jget ''inputs'' tx = JArr ins'"
        "jget ''inputs_xmr_sum'' tx = JStr (shown_amount S (sum_list (map se_amount ?sources)))"
        "jget ''outputs_xmr_sum'' tx = JStr (shown_amount S (sum_list (map de_amount (cd_splitted_dsts (pt_construction_data ptx)))))"
    note rows = context_rows [OF ctx(1,2,4,3)]
    have len: "length ins' = length ins" "length outs' = length outs"
      using i o by (auto dest: list_all2_lengthD)
    have input: "n < length ?sources \<and> jget ''amount'' (ins' ! n) = JStr (shown_amount S (se_amount (?sources ! n)))"
      if "n < length ins" for n
    proof -
      have "signed_input S C (map se_amount ?sources) (map (bare_hash S) keys) (n, ins ! n) = Value (ins' ! n)"
        using list_all2_nthD [OF i, of n] that by (simp add: nth_enumerate_eq)
      from signed_input_shows [OF this] rows that show ?thesis by (auto simp: list_all_length)
    qed
    have "outs' ! n = outs ! n" if "is_ringct (st_lib S) (pt_tx ptx)" "n < length outs" for n
    proof -
      have "signed_output S C (signed_amounts (pt_construction_data ptx)) (n, outs ! n) = Value (outs' ! n)"
        using list_all2_nthD [OF o, of n] that(2) by (simp add: nth_enumerate_eq)
      from signed_output_hides [OF assms(2) _ this] rows that(1) that(2) show ?thesis by (simp add: list_all_length)
    qed
    then have "is_ringct (st_lib S) (pt_tx ptx) \<Longrightarrow> list_all hides_amount outs'"
      using rows len by (simp add: list_all_length)
    moreover have "length ins' \<le> length ?sources" using input len(1) by (metis linorder_not_less nat_less_le)
    ultimately show "shows_signed S ptx tx" using input len tx by (simp add: shows_signed_def Let_def)
  qed
qed

text \<open>
  The page of a signed set shows the amount of every source beside an input, in the order of
  the sources, and both sums; the amounts of a confidential transaction's outputs stay hidden even
  though the set has them, because the text that stands for them does not read as zero.
\<close>

theorem signed_page_amounts:
  assumes "show_checkrawtx S T C v now raw = Value (Rendered t ctx)"
    and "\<not> starts_with (ce_unsigned_prefix C) (ce_base64_decode C (clean_post_data raw))"
    and "starts_with (ce_signed_prefix C) (ce_base64_decode C (clean_post_data raw))"
    and "ce_parse_amount C ''confidential'' \<noteq> Some 0"
  shows "\<exists>ptxs txs. ce_unpack_signed C (drop (length (ce_signed_prefix C)) (ce_base64_decode C (clean_post_data raw))) = Some ptxs
    \<and> jget ''txs'' ctx = JArr txs \<and> list_all2 (shows_signed S) ptxs txs"
proof -
  from assms(1-3) obtain ptxs txs where
    "ce_unpack_signed C (drop (length (ce_signed_prefix C)) (ce_base64_decode C (clean_post_data raw))) = Some ptxs"
    and rows: "list_all2 (\<lambda>p tx. signed_tx S T C v now p = Value tx) ptxs txs"
    and "check_context S False None (make_printable (take (length (ce_signed_prefix C)) (ce_base64_decode C (clean_post_data raw)))) txs []
      = Rendered t ctx"
    by (auto simp: show_checkrawtx_page checked_page_def omap_Value Let_def)
  moreover have "list_all2 (shows_signed S) ptxs txs"
    using rows by (rule list_all2_mono) (rule signed_tx_shows [OF _ assms(4)])
  ultimately show ?thesis using check_context_txs by blast
qed

section \<open>Trusted positions\<close>

text \<open>
  C31. The position of the real output comes from the visitor and is used unchecked: data whose first
  source names a position outside its ring make the code read outside the vector.
\<close>

theorem check_reads_outside_ring:
  assumes "starts_with (ce_unsigned_prefix C) (ce_base64_decode C (clean_post_data raw))"
    and "ce_unpack_unsigned C (drop (length (ce_unsigned_prefix C)) (ce_base64_decode C (clean_post_data raw))) = Some (d # ds)"
    and "cd_sources d = s # ss" "length (se_outputs s) \<le> unat (se_real_output s)"
  shows "show_checkrawtx S T C v now raw = OutOfBounds"
proof -
  have "real_out_pub_key S v s = OutOfBounds" using assms(4) by (simp add: real_out_pub_key_def vec_index_def)
  then show ?thesis
    using assms(1-3) by (simp add: show_checkrawtx_def checked_page_def Let_def or_answer_def unsigned_tx_def source_row_def)
qed

section \<open>A small export\<close>

text \<open>A chain that has the sample transaction, and sets that spend its output.\<close>

definition spent_view :: page_view where
  "spent_view = sample_view\<lparr>pv_chain := (pv_chain sample_view)\<lparr>have_tx := (\<lambda>_. True), db_get_tx := (\<lambda>_. Inr sample_coinbase),
       block_from_height := (\<lambda>_. Inr (genesis_block\<lparr>blk_timestamp := 90000\<rparr>))\<rparr>,
     tx_block_height := (\<lambda>_. Inr 0), output_tx_and_index := (\<lambda>_ _. Some (''cb'', 0)), num_outputs := (\<lambda>_. 9),
     output_keys := (\<lambda>_ is. Some (map (\<lambda>_. (''aa'', 0)) is))\<rparr>"

definition sample_dest :: "u64 \<Rightarrow> tx_destination_entry" where
  "sample_dest a = \<lparr>de_amount = a,
     de_addr = \<lparr>wa_view_public = [], wa_spend_public = [], wa_hex = [], wa_is_subaddress = False, wa_payment_id = []\<rparr>,
     de_is_subaddress = False\<rparr>"

definition sample_source :: "u64 \<Rightarrow> tx_source_entry" where
  "sample_source real = \<lparr>se_outputs = [(4, ''k4''), (6, ''k6'')], se_real_output = real, se_real_out_tx_key = [],
     se_real_output_in_tx_index = 0, se_amount = 5, se_rct = True\<rparr>"

definition sample_construction :: "u64 \<Rightarrow> tx_construction_data" where
  "sample_construction real = \<lparr>cd_sources = [sample_source real], cd_change_dts = sample_dest 1, cd_splitted_dsts = [sample_dest 3],
     cd_extra = [], cd_use_rct = True\<rparr>"

definition sample_check :: "u64 \<Rightarrow> check_env" where
  "sample_check real = \<lparr>ce_unsigned_prefix = ''U'', ce_signed_prefix = ''S'', ce_base64_decode = (\<lambda>s. s),
     ce_unpack_unsigned = (\<lambda>_. Some [sample_construction real]),
     ce_unpack_signed = (\<lambda>_. Some [\<lparr>pt_tx = secret_tx, pt_tx_key = [], pt_construction_data = sample_construction real\<rparr>]),
     ce_hex_to_blob = Some, ce_parse_tx = (\<lambda>_. None),
     ce_parse_amount = (\<lambda>s. if s = ''0'' then Some 0 else None), ce_address = (\<lambda>_ _. []), ce_hex_to_image = Some,
     ce_has_key_image = (\<lambda>_. False), ce_uninit = 0\<rparr>"

lemma sample_output_tx:
  "\<exists>txd. (\<forall>amount i. output_tx sample_site spent_view amount i = Value (txd, 0))
     \<and> td_output_pub_keys txd = [(''aa'', 5, None)] \<and> td_blk_height txd = Some 0"
proof -
  have s: "summary_of_in_out_rct plain_core sample_coinbase [] [] = ((5, 0, 0, 0), [(''aa'', 5, None)], [])"
    by code_simp
  have p: "get_payment_id (extra_nonce sample_lib) (encrypted_payment_id sample_lib) (plain_payment_id sample_lib) (tx_extra sample_coinbase)
      = (False, null_hash, null_hash8)" by (simp add: get_payment_id_def sample_lib_def)
  have "pl_core sample_lib = plain_core" by (simp add: sample_lib_def)
  then have "\<exists>txd. get_tx_details sample_lib spent_view sample_coinbase False 0 0 = Inr txd \<and> td_output_pub_keys txd = [(''aa'', 5, None)]
      \<and> td_blk_height txd = Some 0"
    by (simp add: get_tx_details_def s p spent_view_def Let_def)
  then show ?thesis
    by (auto simp: output_tx_def or_answer_def of_db_def micro_get_tx_def spent_view_def sample_site_def)
qed

lemma sample_scale:
  "\<exists>axis. construct_mstch_mixin_timescales sample_tx_env 99000 [[90000, 90000]] = Some (86400, 93600, [JObj [(''timescale'', JStr axis)]])
     \<and> stars axis = 1"
proof -
  have "stars (timestamps_time_scale sample_tx_env [90000, 90000] 93600 170 86400) = 1" by code_simp
  then show ?thesis by (simp add: construct_mstch_mixin_timescales_def Let_def)
qed

lemma sample_marks: "stars axis = 1 \<Longrightarrow> jget ''timescales'' ctx = JArr [JObj [(''timescale'', JStr axis)]] \<Longrightarrow>
    \<exists>ctx'. mark_real_mixins_on_timescales [n] ctx = Value ctx'"
  by (simp add: mark_real_mixins_on_timescales_def get_array_def mark_node_def get_text_def vec_at_def mark_real_def)

lemma sample_block: "get_block_by_height (pv_chain spent_view) h = Some (genesis_block\<lparr>blk_timestamp := 90000\<rparr>)"
  by (simp add: spent_view_def get_block_by_height_def)

lemma sample_real_key: "real_out_pub_key sample_site spent_view (sample_source 1) = Value ''aa''"
proof -
  obtain txd where "\<And>amount i. output_tx sample_site spent_view amount i = Value (txd, 0)" "td_output_pub_keys txd = [(''aa'', 5, None)]"
    using sample_output_tx by blast
  then show ?thesis by (simp add: real_out_pub_key_def vec_index_def sample_source_def)
qed

lemma sample_ring_row:
  "\<exists>row age. ring_row sample_site (sample_check 1) spent_view 99000 amount key oe = Value (row, 90000, age)"
proof -
  obtain txd where "\<And>amount i. output_tx sample_site spent_view amount i = Value (txd, 0)" "td_output_pub_keys txd = [(''aa'', 5, None)]"
    "td_blk_height txd = Some 0"
    using sample_output_tx by blast
  then show ?thesis by (simp add: ring_row_def vec_index_def or_answer_def sample_block Let_def)
qed

lemma sample_source_row: "\<exists>row. source_row sample_site (sample_check 1) spent_view 99000 (sample_source 1) = Value (row, [90000, 90000])"
proof -
  let ?ring = "ring_row sample_site (sample_check 1) spent_view 99000 (source_amount (sample_source 1)) ''aa''"
  obtain a b where "?ring (4, ''k4'') = Value (a, 90000, b)" using sample_ring_row by blast
  moreover obtain c d where "?ring (6, ''k6'') = Value (c, 90000, d)" using sample_ring_row by blast
  moreover have "se_outputs (sample_source 1) = [(4, ''k4''), (6, ''k6'')]" by (simp add: sample_source_def)
  ultimately show ?thesis by (simp add: source_row_def sample_real_key)
qed

lemma sample_unsigned_page:
  "\<exists>ctx. show_checkrawtx sample_site sample_tx_env (sample_check 1) spent_view 99000 ''UX'' = Value (Rendered ''checkrawtx'' ctx)"
proof -
  obtain row where row: "source_row sample_site (sample_check 1) spent_view 99000 (sample_source 1) = Value (row, [90000, 90000])"
    using sample_source_row by blast
  obtain axis where axis: "construct_mstch_mixin_timescales sample_tx_env 99000 [[90000, 90000]]
      = Some (86400, 93600, [JObj [(''timescale'', JStr axis)]])" "stars axis = 1"
    using sample_scale by blast
  have "\<exists>tx. unsigned_tx sample_site sample_tx_env (sample_check 1) spent_view 99000 (sample_construction 1) = Value tx"
    by (auto simp: unsigned_tx_def sample_construction_def row axis(1) Let_def jget_JObj_append unsigned_head_def
        intro!: sample_marks [OF axis(2)] split: prod.splits)
  moreover have "clean_post_data ''UX'' = ''UX''" by code_simp
  ultimately show ?thesis
    by (auto simp: show_checkrawtx_page checked_page_def Let_def or_answer_def sample_check_def starts_with_def check_context_def)
qed

theorem unsigned_page_complete_witness:
  "\<exists>ctx txs. show_checkrawtx sample_site sample_tx_env (sample_check 1) spent_view 99000 ''UX'' = Value (Rendered ''checkrawtx'' ctx)
     \<and> jget ''txs'' ctx = JArr txs \<and> list_all2 (shows_unsigned sample_site (sample_check 1) spent_view) [sample_construction 1] txs"
proof -
  have data: "clean_post_data ''UX'' = ''UX''" "ce_base64_decode (sample_check 1) s = s" "ce_unsigned_prefix (sample_check 1) = ''U''"
    "ce_unpack_unsigned (sample_check 1) s = Some [sample_construction 1]" for s
    by (code_simp, simp_all add: sample_check_def)
  have starts: "starts_with (ce_unsigned_prefix (sample_check 1)) (ce_base64_decode (sample_check 1) (clean_post_data ''UX''))"
    by (simp add: data starts_with_def)
  obtain ctx where run: "show_checkrawtx sample_site sample_tx_env (sample_check 1) spent_view 99000 ''UX'' = Value (Rendered ''checkrawtx'' ctx)"
    using sample_unsigned_page by blast
  from unsigned_page_complete [OF run starts] run show ?thesis by (auto simp: data)
qed

theorem check_reads_outside_ring_witness:
  "show_checkrawtx sample_site sample_tx_env (sample_check 2) spent_view 99000 ''UX'' = OutOfBounds"
proof (rule check_reads_outside_ring)
  show "starts_with (ce_unsigned_prefix (sample_check 2)) (ce_base64_decode (sample_check 2) (clean_post_data ''UX''))" by code_simp
  show "ce_unpack_unsigned (sample_check 2) s = Some [sample_construction 2]" for s by (simp add: sample_check_def)
  show "cd_sources (sample_construction 2) = [sample_source 2]" by (simp add: sample_construction_def)
  show "length (se_outputs (sample_source 2)) \<le> unat (se_real_output (sample_source 2))" by (simp add: sample_source_def)
qed

text \<open>The confidential transaction of the examples, signed.\<close>

lemma secret_details_known:
  "\<exists>txd. get_tx_details sample_lib spent_view secret_tx False 0 0 = Inr txd \<and> td_input_key_imgs txd = [ring_input]"
proof -
  have "snd (snd (summary_of_in_out_rct plain_core secret_tx [] [])) = [ring_input]"
    by (simp add: summary_of_in_out_rct_def secret_tx_simps Let_def split: prod.splits)
  then obtain a b c d ks where s: "summary_of_in_out_rct plain_core secret_tx [] [] = ((a, b, c, d), ks, [ring_input])"
    by (metis prod.collapse)
  have "pl_core sample_lib = plain_core" by (simp add: sample_lib_def)
  with s show ?thesis by (auto simp: get_tx_details_def Let_def spent_view_def split: prod.splits)
qed

lemma sample_details_known: "\<exists>txd. get_tx_details sample_lib spent_view tx cb h n = Inr txd"
  by (auto simp: get_tx_details_def Let_def spent_view_def split: prod.splits)

lemma spent_view_simps:
  "output_keys spent_view a is = Some (map (\<lambda>_. (''aa'', 0)) is)" "output_tx_and_index spent_view a i = Some (''cb'', 0)"
  "have_tx (pv_chain spent_view) h" "tx_block_height spent_view h = Inr 0"
  "micro_get_tx (pv_chain spent_view) h = Inr (Some sample_coinbase)"
  "are_absolute_offsets_good spent_view [4] ring_input" "absolute_output_offsets sample_lib (key_offsets ring_input) = [4]"
  by (simp_all add: spent_view_def micro_get_tx_def are_absolute_offsets_good_def ring_input_def sample_lib_def)

lemma sample_signed_scale:
  "\<exists>axis. construct_mstch_mixin_timescales sample_tx_env 99000 [[90000]] = Some (86400, 93600, [JObj [(''timescale'', JStr axis)]])
     \<and> stars axis = 1"
proof -
  have "stars (timestamps_time_scale sample_tx_env [90000] 93600 170 86400) = 1" by code_simp
  then show ?thesis by (simp add: construct_mstch_mixin_timescales_def Let_def)
qed

lemma sample_signed_context:
  "\<exists>ctx axis row mixin. construct_tx_context sample_site sample_tx_env spent_view 99000 secret_tx True = Inr ctx
     \<and> jget ''has_error'' ctx = JBool False \<and> jget ''timescales'' ctx = JArr [JObj [(''timescale'', JStr axis)]] \<and> stars axis = 1
     \<and> jget ''inputs'' ctx = JArr [row] \<and> is_object row \<and> (\<exists>k. jget ''in_key_img'' row = JStr k)
     \<and> jget ''mixins'' row = JArr [mixin] \<and> (\<exists>p. jget ''mix_pub_key'' mixin = JStr p)
     \<and> (\<exists>outs. jget ''outputs'' ctx = JArr outs \<and> list_all hides_amount outs)"
proof -
  obtain txd where txd: "get_tx_details sample_lib spent_view secret_tx False 0 0 = Inr txd" "td_input_key_imgs txd = [ring_input]"
    using secret_details_known by blast
  obtain mtd where mtd: "get_tx_details sample_lib spent_view sample_coinbase True 0 0 = Inr mtd"
    using sample_details_known by blast
  obtain axis where axis: "construct_mstch_mixin_timescales sample_tx_env 99000 [[90000]]
      = Some (86400, 93600, [JObj [(''timescale'', JStr axis)]])" "stars axis = 1"
    using sample_signed_scale by blast
  have lib: "st_lib sample_site = sample_lib" by (simp add: sample_site_def)
  have ix: "te_amount_indices sample_tx_env h = []" for h by (simp add: sample_tx_env_def)
  have "\<exists>r. output_rows sample_site sample_tx_env spent_view c [] os n rows sm = Some r" for c os n rows sm
    by (induction os arbitrary: n rows sm) simp_all
  then obtain outs sm where outs: "output_rows sample_site sample_tx_env spent_view True [] (td_output_pub_keys txd) 0 [] 0 = Some (outs, sm)"
    by fast
  have base: "map_of (tx_base_context S T now tx td r found err) ''timescales'' = None" for S T now tx td r found err
    by (simp add: tx_base_context_def Let_def)
  have "list_all hides_amount outs" using output_rows_done [OF outs] by simp
  then show ?thesis
    using axis
    by (simp add: construct_tx_context_def lib txd mtd secret_tx_simps max_no_of_inputs_to_show_def no_inputs_yet_def spent_view_simps
        sample_block ix outs jget_JObj_append tx_base_context_lacks base detail_context_def input_row_def mixin_row_def Let_def)
qed

lemma signed_outputs_kept:
  assumes "list_all hides_amount outs"
  shows "omap (signed_output sample_site (sample_check real) as) (enumerate n outs) = Value outs"
  using assms
  by (induction outs arbitrary: n) (simp_all add: signed_output_def hides_amount_def get_text_def sample_check_def)

lemma sample_signed_page:
  "\<exists>ctx. show_checkrawtx sample_site sample_tx_env (sample_check 1) spent_view 99000 ''SX'' = Value (Rendered ''checkrawtx'' ctx)"
proof -
  let ?ptx = "\<lparr>pt_tx = secret_tx, pt_tx_key = [], pt_construction_data = sample_construction 1\<rparr>"
  obtain ctx axis row mixin k p outs where
    ctx: "construct_tx_context sample_site sample_tx_env spent_view 99000 secret_tx True = Inr ctx" "jget ''has_error'' ctx = JBool False"
      "jget ''timescales'' ctx = JArr [JObj [(''timescale'', JStr axis)]]" "stars axis = 1"
    and row: "jget ''inputs'' ctx = JArr [row]" "is_object row" "jget ''in_key_img'' row = JStr k" "jget ''mixins'' row = JArr [mixin]"
      "jget ''mix_pub_key'' mixin = JStr p"
    and outs: "jget ''outputs'' ctx = JArr outs" "list_all hides_amount outs"
    using sample_signed_context by blast
  have obj: "is_object ctx" using ctx(1) by (rule construct_tx_context_object)
  have "\<exists>tx. signed_tx sample_site sample_tx_env (sample_check 1) spent_view 99000 ?ptx = Value tx"
    using sample_marks [OF ctx(4)] sample_real_key
    by (simp add: signed_tx_def ctx row outs obj signed_outputs_kept sample_construction_def signed_input_def vec_at_def mark_mixin_def
        sample_source_def Let_def of_db_def get_array_def get_text_def)
  moreover have "clean_post_data ''SX'' = ''SX''" by code_simp
  ultimately show ?thesis
    by (auto simp: show_checkrawtx_page checked_page_def Let_def or_answer_def sample_check_def starts_with_def check_context_def)
qed

theorem signed_page_amounts_witness:
  "\<exists>ctx txs. show_checkrawtx sample_site sample_tx_env (sample_check 1) spent_view 99000 ''SX'' = Value (Rendered ''checkrawtx'' ctx)
     \<and> jget ''txs'' ctx = JArr txs
     \<and> list_all2 (shows_signed sample_site) [\<lparr>pt_tx = secret_tx, pt_tx_key = [], pt_construction_data = sample_construction 1\<rparr>] txs"
proof -
  let ?C = "sample_check 1"
  have data: "clean_post_data ''SX'' = ''SX''" "ce_base64_decode ?C s = s" "ce_unsigned_prefix ?C = ''U''" "ce_signed_prefix ?C = ''S''"
    "ce_unpack_signed ?C s = Some [\<lparr>pt_tx = secret_tx, pt_tx_key = [], pt_construction_data = sample_construction 1\<rparr>]"
    "ce_parse_amount ?C ''confidential'' \<noteq> Some 0" for s
    by (code_simp, simp_all add: sample_check_def)
  have starts: "\<not> starts_with (ce_unsigned_prefix ?C) (ce_base64_decode ?C (clean_post_data ''SX''))"
    "starts_with (ce_signed_prefix ?C) (ce_base64_decode ?C (clean_post_data ''SX''))"
    by (simp_all add: data starts_with_def)
  obtain ctx where run: "show_checkrawtx sample_site sample_tx_env ?C spent_view 99000 ''SX'' = Value (Rendered ''checkrawtx'' ctx)"
    using sample_signed_page by blast
  from signed_page_amounts [OF run starts data(6)] run show ?thesis by (auto simp: data)
qed

end
