(* ===== verification/Server.thy ===== *)
theory Server
  imports Routes Randomx Check_Tx
begin

text \<open>
  The explorer as a whole: one request after the other goes through the router of Crow, the closures
  of \<open>main.cpp\<close> and the handlers of \<open>src/src/page.h\<close>, and changes the caches, the connection to the
  daemon and the gateway's state. The theorems hold in every state such a server can reach: API
  answers are well-formed envelopes whose HTTP status agrees with them, and answers carry the
  headers that protect them.
\<close>

text \<open>\<open>show_rawtx\<close>: the form for a raw transaction.\<close>

definition show_rawtx :: "site \<Rightarrow> html" where
  "show_rawtx S =
     Rendered ''rawtx'' (add_page_assets S (JObj [(''testnet'', JBool (st_testnet S)), (''stagenet'', JBool (st_stagenet S))]))"

section \<open>The server\<close>

text \<open>
  What one request meets, besides the state of the server: the configured site, the libraries the
  handlers use, the observations of the database, the mirror of the pool, the clock, the answers of
  the daemon and of the service nodes, the printer and the parser of JSON, the connections of the
  gateway, and the file server of Crow.
\<close>

record server_env =
  sv_site :: site
  sv_tx :: tx_env
  sv_search :: search_env
  sv_wallet :: wallet_crypto
  sv_hex :: hex_env
  sv_push :: push_env
  sv_world :: page_world
  sv_pool :: mempool_status
  sv_pools :: "nat \<Rightarrow> mempool_status"
  sv_times :: "nat \<Rightarrow> nat"
  sv_after :: nat
  sv_now :: u64
  sv_index :: "supply_index option"
  sv_uninit :: u64
  sv_uninit_hash :: hash
  sv_reward_of :: "hash \<Rightarrow> epose_reward_response option"
  sv_fee_of :: "u64 \<Rightarrow> string + u64"
  sv_versions :: "(string \<times> string) list"
  sv_api :: u64
  sv_build :: build_info
  sv_hex_to_pod :: "string \<Rightarrow> hash option"
  sv_answers1 :: epose_answers
  sv_answers2 :: epose_answers
  sv_probe :: "string + rpc_info"
  sv_ok_status :: string
  sv_dump :: "json \<Rightarrow> string"
  sv_parse :: "string \<Rightarrow> json option"
  sv_http :: http_env
  sv_posts :: "nat \<Rightarrow> post_fn"
  sv_what :: string
  sv_nettype :: nat
  sv_check :: check_env
  sv_randomx :: "string rx_machine"
  sv_file :: "string \<Rightarrow> response \<Rightarrow> response"

text \<open>The state that lives from one request to the next.\<close>

record server =
  sr_overview :: overview_cache
  sr_epose :: epose_cache
  sr_rpc :: http_client
  sr_gateway :: gateway

text \<open>An exception, as the exception handler of the router sees it.\<close>

definition thrown :: "db_exn + 'a \<Rightarrow> 'a option" where
  "thrown r = (case r of Inl _ \<Rightarrow> None | Inr x \<Rightarrow> Some x)"

text \<open>
  The readiness route tests the probe before it asks for the identity, so a failed probe leaves the
  caches alone.
\<close>

definition probe_ok :: "string \<Rightarrow> string + rpc_info \<Rightarrow> bool" where
  "probe_ok ok_status probe \<longleftrightarrow>
     (case probe of
        Inl _ \<Rightarrow> False
      | Inr info \<Rightarrow> ri_status info = ok_status \<and> \<not> ri_testnet info \<and> \<not> ri_stagenet info
          \<and> ri_height info \<noteq> 0 \<and> ri_target info \<noteq> 0)"

definition serve_identity :: "server_env \<Rightarrow> server \<Rightarrow> json option \<times> server" where
  "serve_identity E s =
     (case json_identity (st_lib (sv_site E)) (sv_build E) (sv_hex_to_pod E) (sv_world E) 0 (sv_after E) (sv_pool E) (sv_now E)
             (sv_answers1 E) (sv_answers2 E) (sr_epose s) of
        None \<Rightarrow> (None, s)
      | Some (j, c) \<Rightarrow> (Some j, s\<lparr>sr_epose := c\<rparr>))"

definition serve_readyz :: "server_env \<Rightarrow> server \<Rightarrow> json option \<times> server" where
  "serve_readyz E s =
     (if \<not> probe_ok (sv_ok_status E) (sv_probe E)
      then (Some (readyz (sv_ok_status E) (sv_probe E) JNull JNull), s)
      else case serve_identity E s of
             (None, s') \<Rightarrow> (None, s')
           | (Some identity, s') \<Rightarrow> (Some (readyz (sv_ok_status E) (sv_probe E) identity (json_emission (sv_index E))), s'))"

definition serve_epose :: "server_env \<Rightarrow> string \<Rightarrow> server \<Rightarrow> json option \<times> server" where
  "serve_epose E section' s =
     (case json_epose_snapshot (sv_hex_to_pod E) (sv_world E) 0 (sv_now E) (sv_answers1 E) (sv_answers2 E) (sr_epose s) of
        None \<Rightarrow> (None, s)
      | Some (snap, c) \<Rightarrow> (Some (json_epose_snapshot_section section' snap), s\<lparr>sr_epose := c\<rparr>))"

definition serve_overview :: "server_env \<Rightarrow> server \<Rightarrow> json option \<times> server" where
  "serve_overview E s =
     (case json_overview (st_lib (sv_site E)) (sv_world E) 0 (sv_pool E) (sv_index E) (st_no_blocks_on_index (sv_site E)) (sv_now E)
             (sr_overview s) of
        (j, c) \<Rightarrow> (Some j, s\<lparr>sr_overview := c\<rparr>))"

text \<open>The answer of an API call, \<open>None\<close> inside for an exception; other calls have none.\<close>

fun json_answer :: "server_env \<Rightarrow> call \<Rightarrow> server \<Rightarrow> (json option \<times> server) option" where
  "json_answer E CHealthz s = Some (Some healthz, s)"
| "json_answer E CReadyz s = Some (serve_readyz E s)"
| "json_answer E (CJsonTransaction h) s = Some (thrown (json_transaction (st_lib (sv_site E)) (sv_world E) 0 (sv_pool E) h), s)"
| "json_answer E (CJsonRawtransaction h) s = Some (thrown (json_rawtransaction (st_lib (sv_site E)) (sv_world E) 0 (sv_pool E) h), s)"
| "json_answer E (CJsonDetailedtransaction h) s =
     Some (thrown (json_detailedtransaction (sv_site E) (sv_tx E) (sv_world E 0) (sv_pool E) (sv_now E) h), s)"
| "json_answer E (CJsonBlock b) s = Some (thrown (json_block (st_lib (sv_site E)) (sv_world E) 0 (sv_reward_of E) b), s)"
| "json_answer E (CJsonRawblock b) s = Some (Some (json_rawblock (st_lib (sv_site E)) (sv_world E) 0 b), s)"
| "json_answer E (CJsonTransactions p l n tip) s =
     Some (thrown (json_transactions (st_lib (sv_site E)) (sv_world E) 0 (sv_now E) p l n tip), s)"
| "json_answer E (CJsonMempool p l) s = Some (thrown (json_mempool (st_lib (sv_site E)) (sv_world E) 0 (sv_pool E) p l), s)"
| "json_answer E CJsonNetworkinfo s = Some (Some (json_networkinfo (st_lib (sv_site E)) (sv_world E) 0 (sv_pool E)), s)"
| "json_answer E (CJsonEpose sec) s = Some (serve_epose E sec s)"
| "json_answer E (CJsonFeeestimate g) s = Some (Some (json_feeestimate (st_lib (sv_site E)) (sv_fee_of E) g), s)"
| "json_answer E CJsonVersion s = Some (Some (json_version (sv_versions E) (sv_api E) (sv_world E) 0), s)"
| "json_answer E CJsonOverview s = Some (serve_overview E s)"
| "json_answer E CJsonEmission s = Some (Some (json_emission (sv_index E)), s)"
| "json_answer E CJsonIdentity s = Some (serve_identity E s)"
| "json_answer E _ s = None"

text \<open>The page of a call, with the status of its answer.\<close>

definition show_push :: "server_env \<Rightarrow> string \<Rightarrow> server \<Rightarrow> (db_exn + html) \<times> server" where
  "show_push E raw s =
     (case show_pushrawtx (sv_site E) (sv_push E) (sv_world E) (sv_pools E) 0 raw (sr_rpc s) of
        Inl e \<Rightarrow> (Inl e, s)
      | Inr (h, c) \<Rightarrow> (Inr h, s\<lparr>sr_rpc := c\<rparr>))"

text \<open>A read outside a vector has no defined behaviour; here it ends the request like an exception.\<close>

fun check_answer :: "html outcome \<Rightarrow> db_exn + html" where
  "check_answer (Value h) = Inr h"
| "check_answer (Answer h) = Inr h"
| "check_answer (Throws e) = Inl e"
| "check_answer OutOfBounds = Inl OTHER_EXN"

fun html_answer :: "server_env \<Rightarrow> call \<Rightarrow> server \<Rightarrow> (nat \<times> (db_exn + html) \<times> server) option" where
  "html_answer E (CIndex page_no refresh view n tip) s =
     Some (200, index2 (sv_site E) (sv_world E) 0 (sv_pool E) (sv_index E) (sv_now E) page_no refresh view n tip, s)"
| "html_answer E (CShowBlock h) s =
     Some (200, show_block (sv_site E) (sv_uninit E) (sv_uninit_hash E) (sv_world E) 0 (sv_reward_of E) (sv_now E) h, s)"
| "html_answer E (CShowBlockOfHash b) s =
     Some (200, show_block_of_hash (sv_site E) (sv_uninit E) (sv_uninit_hash E) (sv_world E) 0 (sv_reward_of E) (sv_now E) b, s)"
| "html_answer E (CShowRandomx h) s = Some (200, Inr (show_randomx (sv_site E) (sv_randomx E) (sv_world E) 0 h), s)"
| "html_answer E (CShowTx t ring refresh) s =
     Some (200, show_tx (sv_site E) (sv_tx E) (sv_world E 0) (sv_pool E) (sv_now E) t (ring \<noteq> 0) refresh, s)"
| "html_answer E CShowRawtx s = Some (200, Inr (show_rawtx (sv_site E)), s)"
| "html_answer E (CShowCheckrawtx raw) s =
     Some (200, check_answer (show_checkrawtx (sv_site E) (sv_tx E) (sv_check E) (sv_world E 0) (sv_now E) raw), s)"
| "html_answer E (CShowPushrawtx raw) s = Some (200, show_push E raw s)"
| "html_answer E (CText msg) s = Some (200, Inr (PlainText msg), s)"
| "html_answer E (CSearch t) s =
     Some (200, search (sv_site E) (sv_tx E) (sv_search E) (sv_wallet E) (sv_uninit E) (sv_uninit_hash E) (sv_world E) (sv_times E)
                  (sv_pool E) (sv_reward_of E) (sv_now E) t, s)"
| "html_answer E (CSearchResults status t) s =
     Some (status, show_search_results (sv_site E) (sv_search E) (sv_uninit E) (sv_uninit_hash E) (sv_world E) 0 (sv_pool E) t [], s)"
| "html_answer E CMempool s = Some (200, Inr (mempool (sv_site E) (sv_pool E) (sv_now E) True 0), s)"
| "html_answer E _ s = None"

definition robots_text :: string where
  "robots_text = ''User-agent: *'' @ [CHR 0x0A] @ ''Disallow: ''"

definition text_response :: "string option \<Rightarrow> response" where
  "text_response t = (case t of None \<Rightarrow> code_response 500 | Some s \<Rightarrow> blank_response\<lparr>body := s\<rparr>)"

definition file_response :: "server_env \<Rightarrow> string \<Rightarrow> string \<Rightarrow> string \<Rightarrow> response" where
  "file_response E path cache mime =
     set_header ''Content-Type'' mime (sv_file E path
       (set_header ''X-Content-Type-Options'' ''nosniff'' (set_header ''Cache-Control'' cache blank_response)))"

text \<open>The remaining closures, which answer with a bare response.\<close>

fun plain_answer :: "server_env \<Rightarrow> web_request \<Rightarrow> call \<Rightarrow> server \<Rightarrow> response \<times> server" where
  "plain_answer E req (CShowTxHex t) s = (text_response (thrown (show_tx_hex (sv_hex E) (sv_world E 0) (sv_pool E) t)), s)"
| "plain_answer E req (CShowRingmembersHex t) s =
     (text_response (thrown (show_ringmembers_hex (sv_hex E) (st_lib (sv_site E)) (sv_world E) 0 (sv_pool E) t)), s)"
| "plain_answer E req (CShowBlockHex h full) s =
     (text_response (Some (show_block_hex (sv_hex E) (st_lib (sv_site E)) (sv_what E) (sv_world E) 0 h full)), s)"
| "plain_answer E req (CShowRingmemberstxJsonhex t) s =
     (case show_ringmemberstx_jsonhex (sv_hex E) (st_lib (sv_site E)) (sv_nettype E) (sv_world E) 0 (sv_pool E) t of
        Inl e \<Rightarrow> (code_response 500, s)
      | Inr j \<Rightarrow> (jsonresponse (sv_dump E) j, s))"
| "plain_answer E req (CWalletRpc path) s =
     (case wallet_rpc_handler (sv_parse E) (sv_http E) (sv_posts E) (request.truncate req) path (sr_gateway s) of
        (r, g) \<Rightarrow> (r, s\<lparr>sr_gateway := g\<rparr>))"
| "plain_answer E req (CFile path cache mime) s = (file_response E path cache mime, s)"
| "plain_answer E req CNoFile s = (code_response 404, s)"
| "plain_answer E req (CStatic path) s = (sv_file E path blank_response, s)"
| "plain_answer E req CRobots s = (text_response (Some robots_text), s)"
| "plain_answer E req _ s = (code_response 500, s)"

definition serve :: "server_env \<Rightarrow> web_request \<Rightarrow> call \<Rightarrow> server \<Rightarrow> response \<times> server" where
  "serve E req c s =
     (case json_answer E c s of
        Some (None, s') \<Rightarrow> (code_response 500, s')
      | Some (Some j, s') \<Rightarrow> (jsonresponse (sv_dump E) j, s')
      | None \<Rightarrow>
        (case html_answer E c s of
           Some (status, Inl e, s') \<Rightarrow> (code_response 500, s')
         | Some (status, Inr h, s') \<Rightarrow> ((htmlresponse (html_text (sv_site E) h))\<lparr>code := status\<rparr>, s')
         | None \<Rightarrow> plain_answer E req c s))"

text \<open>One request: the router, the closure and the answer, without its body for \<open>HEAD\<close>.\<close>

definition handle_http ::
    "(string \<Rightarrow> nat option) \<Rightarrow> features \<Rightarrow> server_env \<Rightarrow> web_request \<Rightarrow> server \<Rightarrow> response \<times> server" where
  "handle_http strtod F E req s =
     (case dispatch strtod F (req_method req) (rq_url req) of
        Reply r \<Rightarrow> (r, s)
      | Corrupted \<Rightarrow> (code_response 500, s)
      | Handler h ps skip_body \<Rightarrow>
        (case serve E req (call_of h ps req) s of (r, s') \<Rightarrow> (if skip_body then r\<lparr>body := []\<rparr> else r, s')))"


section \<open>Every API answer is an envelope\<close>

definition is_text :: "json option \<Rightarrow> bool" where
  "is_text j \<longleftrightarrow> (case j of Some (JStr _) \<Rightarrow> True | _ \<Rightarrow> False)"

definition jsend_ok :: "json \<Rightarrow> bool" where
  "jsend_ok j \<longleftrightarrow>
     jat j ''status'' = Some (JStr ''success'') \<and> jat j ''data'' \<noteq> None
     \<or> jat j ''status'' = Some (JStr ''fail'') \<and> (is_text (jat (jget ''data'' j) ''title'') \<or> is_text (jat j ''message''))
     \<or> jat j ''status'' = Some (JStr ''error'') \<and> is_text (jat j ''message'')"

named_theorems envelopes

lemma jsend_success [envelopes]: "jsend_ok (jsend ''success'' d)"
  by (simp add: jsend_ok_def jsend_def)

lemma jsend_fail [envelopes]: "jsend_ok (fail_title t)"
  by (simp add: jsend_ok_def fail_title_def jsend_def is_text_def)

lemma jsend_error [envelopes]: "jsend_ok (error_message d m)"
  by (simp add: jsend_ok_def error_message_def is_text_def)

lemma tx_block_envelope: "tx_block w t txh s = Inl j \<Longrightarrow> jsend_ok j"
  by (auto simp: tx_block_def envelopes split: sum.splits option.splits)

lemma json_transaction_envelope: "json_transaction P w t ms h = Inr j \<Longrightarrow> jsend_ok j"
  by (auto simp: json_transaction_def Let_def envelopes dest: tx_block_envelope
      split: option.splits sum.splits prod.splits if_splits)

lemma json_rawtransaction_envelope: "json_rawtransaction P w t ms h = Inr j \<Longrightarrow> jsend_ok j"
  by (auto simp: json_rawtransaction_def envelopes dest: tx_block_envelope
      split: option.splits sum.splits prod.splits if_splits)

lemma json_detailedtransaction_envelope: "json_detailedtransaction S T v ms now h = Inr j \<Longrightarrow> jsend_ok j"
  by (auto simp: json_detailedtransaction_def envelopes split: option.splits sum.splits prod.splits)

lemma json_block_envelope: "json_block P w t reward_of b = Inr j \<Longrightarrow> jsend_ok j"
  by (auto simp: json_block_def Let_def envelopes split: option.splits sum.splits prod.splits)

lemma json_rawblock_envelope: "jsend_ok (json_rawblock P w t b)"
  by (auto simp: json_rawblock_def Let_def envelopes split: option.splits sum.splits prod.splits)

lemma json_transactions_envelope: "json_transactions P w t now p l n tip = Inr j \<Longrightarrow> jsend_ok j"
proof -
  have "jsend_ok (jsend ''fail'' (JObj [(''blocks'', JArr rows), (''title'', JStr title)]))" for rows title
    by (simp add: jsend_ok_def jsend_def is_text_def)
  then show "json_transactions P w t now p l n tip = Inr j \<Longrightarrow> jsend_ok j"
    by (auto simp: json_transactions_def Let_def envelopes split: option.splits page_loop.splits if_splits)
qed

lemma json_mempool_envelope: "json_mempool P w t ms p l = Inr j \<Longrightarrow> jsend_ok j"
  by (auto simp: json_mempool_def Let_def envelopes split: option.splits sum.splits)

lemma json_networkinfo_envelope: "jsend_ok (json_networkinfo P w t ms)"
  by (auto simp: json_networkinfo_def Let_def envelopes split: prod.splits bool.splits)

lemma json_emission_envelope: "jsend_ok (json_emission index)"
  by (auto simp: json_emission_def envelopes split: option.splits)

lemma json_feeestimate_envelope: "jsend_ok (json_feeestimate P fee_of g)"
proof -
  have "jsend_ok (jset ''message'' (JStr m) (jsend ''fail'' JNull))" for m
    by (simp add: jsend_ok_def jsend_def is_text_def)
  then show ?thesis
    by (auto simp: json_feeestimate_def envelopes split: option.splits sum.splits)
qed

lemma json_version_envelope: "jsend_ok (json_version build api w t)"
  by (simp add: json_version_def envelopes)

lemma healthz_envelope: "jsend_ok healthz"
  by (simp add: healthz_def envelopes)

lemma readyz_envelope: "jsend_ok (readyz ok probe identity supply)"
proof -
  have "jsend_ok (JObj [(''status'', JStr ''error''), (''message'', JStr m)])" for m
    by (simp add: jsend_ok_def is_text_def)
  then show ?thesis by (auto simp: readyz_def envelopes split: sum.splits)
qed

definition cached_ok :: "json \<Rightarrow> bool" where
  "cached_ok j \<longleftrightarrow> j = JNull \<or> jsend_ok j"

lemma json_overview_envelope:
  assumes "json_overview P w t ms index n now c = (j, c')" "cached_ok (oc_answer c)"
  shows "jsend_ok j \<and> cached_ok (oc_answer c')"
proof -
  have "jsend_ok (fst (build_overview P w t ms index n now))"
    by (auto simp: build_overview_def Let_def overview_error_def envelopes split: sum.splits prod.splits)
  then show ?thesis
    using assms by (auto simp: json_overview_def cached_ok_def split: if_splits prod.splits)
qed

lemma finish_attempt_envelope:
  "finish_attempt w t A before info ni rw ends rows c = Built j c' \<Longrightarrow> jsend_ok j \<and> es_snapshot c' = j"
  by (auto simp: finish_attempt_def Let_def snapshot_json_def envelopes split: option.splits if_splits)

lemma snapshot_attempt_envelope:
  "snapshot_attempt hp w t A c = Built j c' \<Longrightarrow> jsend_ok j \<and> es_snapshot c' = j"
  by (auto simp: snapshot_attempt_def resolve_nodes_def Let_def dest: finish_attempt_envelope
      split: option.splits if_splits prod.splits)

lemma cache_failure_envelope:
  "cache_failure now msg c = (j, c') \<Longrightarrow> jsend_ok j \<and> es_snapshot c' = j"
  by (auto simp: cache_failure_def Let_def jsend_ok_def is_text_def)

lemma snapshot_attempts_envelope:
  "snapshot_attempts hp w now As t msg c = Some (j, c') \<Longrightarrow> jsend_ok j \<and> es_snapshot c' = j"
  by (induction As arbitrary: t msg c)
     (auto dest: cache_failure_envelope snapshot_attempt_envelope split: attempt.splits)

lemma snapshot_envelope:
  assumes "json_epose_snapshot hp w t now A1 A2 c = Some (j, c')" "cached_ok (es_snapshot c)"
  shows "jsend_ok j \<and> cached_ok (es_snapshot c')"
  using assms snapshot_attempts_envelope [of hp w now "[A1, A2]"]
  by (auto simp: json_epose_snapshot_def serve_cached_def cached_ok_def simp del: snapshot_attempts.simps split: if_splits)

lemma section_envelope: "jsend_ok j \<Longrightarrow> jsend_ok (json_epose_snapshot_section sec j)"
  by (simp add: json_epose_snapshot_section_def envelopes)

section \<open>The caches of a running server\<close>

definition server_inv :: "server \<Rightarrow> bool" where
  "server_inv s \<longleftrightarrow> cached_ok (oc_answer (sr_overview s)) \<and> cached_ok (es_snapshot (sr_epose s)) \<and> epose_inv (sr_epose s)"

definition fresh_server :: "http_client \<Rightarrow> gateway \<Rightarrow> server" where
  "fresh_server rpc g =
     \<lparr>sr_overview = \<lparr>oc_answer = JNull, oc_time = 0\<rparr>, sr_epose = blank_epose_cache, sr_rpc = rpc, sr_gateway = g\<rparr>"

lemma fresh_server_inv: "server_inv (fresh_server rpc g)"
  using blank_epose_inv by (simp add: server_inv_def fresh_server_def cached_ok_def blank_epose_cache_def)

lemma snapshot_served:
  assumes "epose_inv c" "cached_ok (es_snapshot c)"
  shows "\<exists>j c'. json_epose_snapshot hp w t now A1 A2 c = Some (j, c') \<and> jsend_ok j
    \<and> epose_inv c' \<and> cached_ok (es_snapshot c')"
proof -
  obtain j c' where run: "json_epose_snapshot hp w t now A1 A2 c = Some (j, c')"
    using snapshot_total assms(1) unfolding epose_inv_def by blast
  moreover have "epose_inv c'"
    using epose_step_keeps [OF assms(1) epose_step.request [OF run]] .
  ultimately show ?thesis using snapshot_envelope [OF run assms(2)] by blast
qed

lemma serve_identity_ok:
  assumes "server_inv s" "serve_identity E s = (a, s')"
  shows "server_inv s' \<and> (\<exists>j. a = Some j \<and> jsend_ok j)"
proof -
  let ?s = "json_epose_snapshot (sv_hex_to_pod E) (sv_world E) (0 + 3) (sv_now E) (sv_answers1 E) (sv_answers2 E) (sr_epose s)"
  obtain j c where "?s = Some (j, c)" "jsend_ok j" "epose_inv c" "cached_ok (es_snapshot c)"
    using snapshot_served assms(1) unfolding server_inv_def by blast
  with assms show ?thesis
    by (auto simp: serve_identity_def json_identity_def Let_def server_inv_def envelopes split: if_splits)
qed

lemma serve_epose_ok:
  assumes "server_inv s" "serve_epose E sec s = (a, s')"
  shows "server_inv s' \<and> (\<exists>j. a = Some j \<and> jsend_ok j)"
proof -
  let ?s = "json_epose_snapshot (sv_hex_to_pod E) (sv_world E) 0 (sv_now E) (sv_answers1 E) (sv_answers2 E) (sr_epose s)"
  obtain j c where "?s = Some (j, c)" "jsend_ok j" "epose_inv c" "cached_ok (es_snapshot c)"
    using snapshot_served assms(1) unfolding server_inv_def by blast
  with assms show ?thesis
    by (auto simp: serve_epose_def server_inv_def section_envelope)
qed

lemma serve_overview_ok:
  assumes "server_inv s" "serve_overview E s = (a, s')"
  shows "server_inv s' \<and> (\<exists>j. a = Some j \<and> jsend_ok j)"
  using assms json_overview_envelope unfolding serve_overview_def server_inv_def
  by (fastforce split: prod.splits)

lemma serve_readyz_ok:
  assumes "server_inv s" "serve_readyz E s = (a, s')"
  shows "server_inv s' \<and> (\<exists>j. a = Some j \<and> jsend_ok j)"
proof (cases "probe_ok (sv_ok_status E) (sv_probe E)")
  case True
  obtain b s1 where id: "serve_identity E s = (b, s1)" by (cases "serve_identity E s")
  with True assms serve_identity_ok [OF assms(1) id] show ?thesis
    by (auto simp: serve_readyz_def readyz_envelope)
qed (use assms in \<open>auto simp: serve_readyz_def readyz_envelope\<close>)

lemma thrown_simps [simp]: "thrown r = Some x \<longleftrightarrow> r = Inr x" "thrown r = None \<longleftrightarrow> (\<exists>e. r = Inl e)"
  by (auto simp: thrown_def split: sum.splits)

text \<open>The calls whose handlers may let an exception of the database through.\<close>

fun may_throw :: "call \<Rightarrow> bool" where
  "may_throw (CJsonTransaction _) = True"
| "may_throw (CJsonRawtransaction _) = True"
| "may_throw (CJsonDetailedtransaction _) = True"
| "may_throw (CJsonBlock _) = True"
| "may_throw (CJsonTransactions _ _ _ _) = True"
| "may_throw (CJsonMempool _ _) = True"
| "may_throw _ = False"

lemmas direct_envelopes = json_rawblock_envelope json_networkinfo_envelope json_emission_envelope
  json_feeestimate_envelope json_version_envelope healthz_envelope

lemmas thrown_envelopes = json_transaction_envelope json_rawtransaction_envelope json_detailedtransaction_envelope
  json_block_envelope json_transactions_envelope json_mempool_envelope

lemma json_answer_ok:
  assumes "server_inv s" "json_answer E c s = Some (a, s')"
  shows "server_inv s' \<and> (\<forall>j. a = Some j \<longrightarrow> jsend_ok j) \<and> (a = None \<longrightarrow> may_throw c)"
  using assms
  by (cases c)
     (auto simp: direct_envelopes
        dest: thrown_envelopes serve_identity_ok serve_epose_ok serve_overview_ok serve_readyz_ok)

lemma html_answer_inv: "server_inv s \<Longrightarrow> html_answer E c s = Some (status, h, s') \<Longrightarrow> server_inv s'"
  by (cases c) (auto simp: show_push_def server_inv_def split: sum.splits prod.splits)

lemma plain_answer_inv: "server_inv s \<Longrightarrow> plain_answer E req c s = (r, s') \<Longrightarrow> server_inv s'"
  by (cases c) (auto simp: server_inv_def split: sum.splits prod.splits)

lemma serve_inv: "server_inv s \<Longrightarrow> serve E req c s = (r, s') \<Longrightarrow> server_inv s'"
  by (auto simp: serve_def dest: json_answer_ok html_answer_inv plain_answer_inv split: option.splits prod.splits sum.splits)


inductive server_step :: "(string \<Rightarrow> nat option) \<Rightarrow> features \<Rightarrow> server \<Rightarrow> server \<Rightarrow> bool" for strtod F where
  request: "handle_http strtod F E req s = (r, s') \<Longrightarrow> server_step strtod F s s'"

inductive_cases server_stepE: "server_step strtod F s s'"

lemma handle_http_inv: "server_inv s \<Longrightarrow> handle_http strtod F E req s = (r, s') \<Longrightarrow> server_inv s'"
  by (auto simp: handle_http_def dest: serve_inv split: routed.splits prod.splits)

interpretation server_system: invariant_system "server_step strtod F" server_inv for strtod F
  by unfold_locales (auto elim!: server_stepE dest: handle_http_inv)

lemma running_server_inv: "steps (server_step strtod F) (fresh_server rpc g) s \<Longrightarrow> server_inv s"
  using server_system.steps_keep fresh_server_inv by blast

text \<open>The status of an answer in HTTP, by the status of its envelope.\<close>

definition envelope_code :: "json \<Rightarrow> nat" where
  "envelope_code j =
     (if jat j ''status'' = Some (JStr ''success'') then 200
      else if jat j ''status'' = Some (JStr ''fail'') then 400 else 503)"

lemma envelope_code_exact: "jsend_ok j \<Longrightarrow> json_status_code j = envelope_code j"
  by (auto simp: jsend_ok_def json_status_code_def envelope_code_def)


definition sample_features :: features where
  "sample_features = \<lparr>enable_json_api = True, enable_as_hex = False, enable_pusher = False, enable_autorefresh_option = False\<rparr>"

definition sample_server :: server where
  "sample_server = fresh_server sample_client \<lparr>inflight = 0, next_slot = 0, pool = [sample_client]\<rparr>"


section \<open>Headers\<close>

definition guarded :: "response \<Rightarrow> bool" where
  "guarded r \<longleftrightarrow> map_of (headers r) ''X-Content-Type-Options'' = Some ''nosniff''
     \<and> map_of (headers r) ''Cache-Control'' = Some ''no-store''"

lemma htmlresponse_guarded: "guarded ((htmlresponse t)\<lparr>code := n\<rparr>)"
  by (simp add: guarded_def htmlresponse_def common_headers_def)

lemma jsonresponse_guarded: "guarded (jsonresponse dump j)"
  by (simp add: guarded_def jsonresponse_def common_headers_def)

text \<open>
  Every answer of a page or of the API that is not an exception forbids guessing its type and
  storing it, and every page forbids being framed and loading anything from elsewhere.
\<close>

theorem answers_carry_security_headers:
  assumes "json_answer E c s \<noteq> None \<or> html_answer E c s \<noteq> None"
  shows "serve E req c s = (r, s') \<Longrightarrow> code r = 500 \<or>
    guarded r \<and> (json_answer E c s = None \<longrightarrow>
      map_of (headers r) ''X-Frame-Options'' = Some ''DENY''
      \<and> map_of (headers r) ''Content-Security-Policy'' = Some content_security_policy)"
  using assms htmlresponse_guarded jsonresponse_guarded
  by (auto simp: serve_def code_response_def htmlresponse_def common_headers_def split: option.splits prod.splits sum.splits)

lemma answers_carry_security_headers_witness:
  "\<forall>E req. guarded (fst (serve E req CShowRawtx sample_server))
    \<and> map_of (headers (fst (serve E req CShowRawtx sample_server))) ''X-Frame-Options'' = Some ''DENY''"
proof (intro allI)
  fix E :: server_env and req
  have "code (fst (serve E req CShowRawtx sample_server)) = 200"
    by (simp add: serve_def)
  then show "guarded (fst (serve E req CShowRawtx sample_server))
    \<and> map_of (headers (fst (serve E req CShowRawtx sample_server))) ''X-Frame-Options'' = Some ''DENY''"
    using answers_carry_security_headers [of E CShowRawtx sample_server req] by (cases "serve E req CShowRawtx sample_server") simp
qed

section \<open>Who may submit\<close>

lemma json_answer_frame: "json_answer E c s = Some (a, s') \<Longrightarrow> sr_rpc s' = sr_rpc s \<and> sr_gateway s' = sr_gateway s"
  by (cases c)
     (auto simp: serve_readyz_def serve_identity_def serve_epose_def serve_overview_def
        split: option.splits prod.splits if_splits)

lemma html_answer_frame:
  "html_answer E c s = Some (n, h, s') \<Longrightarrow>
    sr_gateway s' = sr_gateway s \<and> (sr_rpc s' \<noteq> sr_rpc s \<longrightarrow> (\<exists>raw. c = CShowPushrawtx raw))"
  by (cases c) (auto simp: show_push_def split: sum.splits prod.splits)

lemma plain_answer_frame:
  "plain_answer E req c s = (r, s') \<Longrightarrow>
    sr_rpc s' = sr_rpc s \<and> (sr_gateway s' \<noteq> sr_gateway s \<longrightarrow> (\<exists>path. c = CWalletRpc path))"
  by (cases c) (auto split: sum.splits prod.splits)

lemma serve_frame:
  assumes "serve E req c s = (r, s')"
  shows "sr_rpc s' \<noteq> sr_rpc s \<Longrightarrow> \<exists>raw. c = CShowPushrawtx raw"
    and "sr_gateway s' \<noteq> sr_gateway s \<Longrightarrow> \<exists>path. c = CWalletRpc path"
  using assms by (auto simp: serve_def dest: json_answer_frame html_answer_frame plain_answer_frame
      split: option.splits prod.splits sum.splits)

lemmas call_defs = page_call_def search_call_def feeestimate_call_def file_call_def checkandpush_call_def Let_def

lemma call_of_push:
  "call_of h ps req = CShowPushrawtx raw \<Longrightarrow> h = HCheckandpush \<and> checkandpush_route (req_body req) = Inr (raw, PushTx)"
  by (cases h)
     (auto simp: call_defs split: option.splits if_splits sum.splits push_action.splits prod.splits)

lemma call_of_wallet: "call_of h ps req = CWalletRpc path \<Longrightarrow> h = HWalletRpc"
  by (cases h)
     (auto simp: call_defs split: option.splits if_splits sum.splits push_action.splits prod.splits)

lemma dispatch_post:
  assumes "dispatch strtod F m url = Handler h ps skip" "h \<in> {HCheckandpush, HWalletRpc}"
  shows "m = Post" "h = HCheckandpush \<Longrightarrow> enable_pusher F"
proof -
  obtain m' r ft where d: "serving_method m m'" "(ft, r) \<in> set all_routes" "enabled F ft"
      "m' \<in> set (rule_methods r)" "rule_handler r = h"
    using assms(1) by (rule dispatch_handler)
  have ok: "route_ok (ft, r)" using all_routes_ok d(2) by (auto simp: list_all_iff)
  show "m = Post" using ok d(1,4,5) assms(2) by (auto simp: route_ok_def serving_method_def)
  show "h = HCheckandpush \<Longrightarrow> enable_pusher F" using ok d(3,5) by (auto simp: route_ok_def)
qed


definition sample_request :: web_request where
  "sample_request = \<lparr>req_method = Get, req_origin = [], req_body = ''rawtxdata=00&action=push'', rq_url = ''/checkandpush'',
     rq_raw_url = ''/checkandpush'', rq_param = Map.empty\<rparr>"


end
