(* ===== verification/Exports.thy ===== *)
theory Exports
  imports Check_Tx
begin

text \<open>
  The checkers of exported key images and exported outputs (\<open>show_rawkeyimgs\<close>, \<open>show_rawoutputkeys\<close>,
  \<open>show_checkrawkeyimgs\<close> and \<open>show_checkcheckrawoutput\<close> of \<open>src/src/page.h\<close>, \<open>decrypt\<close> of
  \<open>src/src/tools.cpp\<close>), which no route of \<open>main.cpp\<close> reaches. The theorems show that only data with a
  valid signature are shown, that an export of key images is read back, and that the total is the
  sum of the unspent outputs.
\<close>

section \<open>Decryption\<close>

text \<open>
  The sizes of the core's types, its cryptography, the wallet's archive of outputs (\<open>Inl\<close> the text of
  an exception) and the answers of the database.
\<close>

record exported_output =
  xo_public_key :: hash
  xo_amount :: u64
  xo_is_rct :: bool
  xo_txid :: hash
  xo_internal_output_index :: u64
  xo_block_height :: u64
  xo_key_image :: "hash option"

record export_env =
  xe_iv_size :: nat
  xe_signature_size :: nat
  xe_key_size :: nat
  xe_image_size :: nat
  xe_chacha_key :: "hash \<Rightarrow> string"
  xe_chacha20 :: "string \<Rightarrow> string \<Rightarrow> string \<Rightarrow> string"
  xe_public_of :: "hash \<Rightarrow> hash"
  xe_check_signature :: "string \<Rightarrow> hash \<Rightarrow> string \<Rightarrow> bool"
  xe_base64_decode :: "string \<Rightarrow> string"
  xe_key_image_magic :: string
  xe_output_magic :: string
  xe_address_of :: "string \<Rightarrow> wallet_address"
  xe_pod_to_hex :: "string \<Rightarrow> hash"
  xe_show_signature :: "string \<Rightarrow> string"
  xe_unpack_outputs :: "string \<Rightarrow> string + exported_output list"
  xe_ecdh_count :: "transaction \<Rightarrow> nat"
  xe_spent :: "hash \<Rightarrow> bool"
  xe_block_timestamp :: "u64 \<Rightarrow> db_exn + u64"

text \<open>\<open>decrypt\<close>: the vector, the text and the signature follow one another. The signature covers what is before it.\<close>

definition decrypt :: "export_env \<Rightarrow> string \<Rightarrow> hash \<Rightarrow> bool \<Rightarrow> string" where
  "decrypt X ciphertext skey authenticated =
     (let prefix_size = xe_iv_size X + (if authenticated then xe_signature_size X else 0);
          signed = length ciphertext - xe_signature_size X
      in if length ciphertext < prefix_size then []
         else if authenticated
              \<and> \<not> xe_check_signature X (take signed ciphertext) (xe_public_of X skey) (drop signed ciphertext)
         then []
         else xe_chacha20 X (xe_chacha_key X skey) (take (xe_iv_size X) ciphertext)
                (take (length ciphertext - prefix_size) (drop (xe_iv_size X) ciphertext)))"

section \<open>The forms\<close>

definition show_rawkeyimgs :: "site \<Rightarrow> html" where
  "show_rawkeyimgs S =
     Rendered ''rawkeyimgs'' (add_page_assets S (JObj [(''testnet'', JBool (st_testnet S)), (''stagenet'', JBool (st_stagenet S))]))"

definition show_rawoutputkeys :: "site \<Rightarrow> html" where
  "show_rawoutputkeys S =
     Rendered ''rawoutputkeys'' (add_page_assets S (JObj [(''testnet'', JBool (st_testnet S)), (''stagenet'', JBool (st_stagenet S))]))"

section \<open>Opening an export\<close>

definition export_page :: "site \<Rightarrow> string \<Rightarrow> string option \<Rightarrow> (string \<times> json) list \<Rightarrow> html" where
  "export_page S template err members =
     Rendered template (add_page_assets S (JObj
       ([(''testnet'', JBool (st_testnet S)), (''stagenet'', JBool (st_stagenet S)), (''has_error'', JBool (err \<noteq> None)),
         (''error_msg'', JStr (case err of None \<Rightarrow> [] | Some m \<Rightarrow> m))] @ members)))"

text \<open>
  The steps both checkers start with; the words of the messages differ. \<open>Inl\<close> is the page of an error,
  \<open>Inr\<close> the prefix shown, the private key and the decrypted data.
\<close>

definition open_export ::
    "site \<Rightarrow> export_env \<Rightarrow> string \<Rightarrow> string \<Rightarrow> string \<times> string \<times> string \<Rightarrow> string \<Rightarrow> string \<Rightarrow> html + string \<times> hash \<times> string" where
  "open_export S X template magic words raw_data viewkey_arg =
     (case words of (what, kind, of_kind) \<Rightarrow>
      let data = xe_base64_decode X (clean_post_data raw_data); viewkey_str = trim viewkey_arg;
          magiclen = length magic; shown = [(''data_prefix'', JStr (make_printable (take magiclen data)))]
      in if viewkey_str = []
         then Inl (export_page S template (Some (''View key not given. Cant decode the '' @ what @ '' data without it!'')) [])
         else case parse_str_secret_key (pl_core (st_lib S)) viewkey_str of
                None \<Rightarrow> Inl (export_page S template (Some ''Cant parse the private key'') [])
              | Some prv_view_key \<Rightarrow>
                if \<not> starts_with magic data
                then Inl (export_page S template (Some (''This does not seem to be '' @ kind @ '' export data.'')) shown)
                else let plain = decrypt X (drop magiclen data) prv_view_key True in
                     if plain = []
                     then Inl (export_page S template
                            (Some (''Failed to authenticate '' @ of_kind @ '' data. Maybe wrong viewkey was porvided?'')) shown)
                     else Inr (make_printable (take magiclen data), prv_view_key, plain))"

section \<open>Key images\<close>

definition header_length :: "export_env \<Rightarrow> nat" where
  "header_length X = 2 * xe_key_size X"

definition record_length :: "export_env \<Rightarrow> nat" where
  "record_length X = xe_image_size X + xe_signature_size X"

text \<open>The nth record: the key image and its signature.\<close>

definition key_image_record :: "export_env \<Rightarrow> string \<Rightarrow> nat \<Rightarrow> string \<times> string" where
  "key_image_record X data n =
     (let record_ptr = drop (header_length X + n * record_length X) data
      in (take (xe_image_size X) record_ptr, take (xe_signature_size X) (drop (xe_image_size X) record_ptr)))"

definition key_image_row :: "site \<Rightarrow> wallet_crypto \<Rightarrow> export_env \<Rightarrow> wallet_address \<Rightarrow> nat \<Rightarrow> string \<times> string \<Rightarrow> json" where
  "key_image_row S W X a n r =
     JObj [(''key_no'', JStr (pad_nat 3 n)), (''key_image'', JStr (xe_pod_to_hex X (fst r))),
           (''signature'', JStr (xe_show_signature X (snd r))), (''address'', JStr (print_address W (wc_nettype W) a)),
           (''is_spent'', JBool (xe_spent X (xe_pod_to_hex X (fst r)))), (''tx_hash'', JStr [])]"

definition export_head :: "wallet_crypto \<Rightarrow> string \<Rightarrow> wallet_address \<Rightarrow> (string \<times> json) list" where
  "export_head W data_prefix a =
     [(''data_prefix'', JStr data_prefix), (''address'', JStr (remove_hash_brackets (print_address W (wc_nettype W) a)))]"

definition show_checkrawkeyimgs ::
    "site \<Rightarrow> wallet_crypto \<Rightarrow> export_env \<Rightarrow> string \<Rightarrow> string \<Rightarrow> html" where
  "show_checkrawkeyimgs S W X raw_data viewkey_str =
     (case open_export S X ''checkrawkeyimgs'' (xe_key_image_magic X) (''key image'', ''key image'', ''key images'') raw_data viewkey_str of
        Inl h \<Rightarrow> h
      | Inr (data_prefix, prv_view_key, data) \<Rightarrow>
        if length data < header_length X
        then export_page S ''checkrawkeyimgs'' (Some ''Bad data size from submitted key images raw data.'')
               [(''data_prefix'', JStr data_prefix)]
        else
          let a = xe_address_of X (take (header_length X) data);
              no_key_images = (length data - header_length X) div record_length X
          in export_page S ''checkrawkeyimgs'' None (export_head W data_prefix a
               @ [(''has_total_xmr'', JBool False), (''total_xmr'', JStr []),
                  (''key_imgs'', JArr (map (\<lambda>n. key_image_row S W X a n (key_image_record X data n)) [0..<no_key_images]))]))"

section \<open>Outputs\<close>

text \<open>
  The amount of an output: \<open>Inl\<close> a message. The entry of the transaction's list of encrypted amounts and
  the additional key are read at the position the export names, without a test.
\<close>

definition exported_amount ::
    "site \<Rightarrow> wallet_crypto \<Rightarrow> export_env \<Rightarrow> page_view \<Rightarrow> hash \<Rightarrow> exported_output \<Rightarrow> (string + u64) outcome" where
  "exported_amount S W X v key x =
     (if \<not> xo_is_rct x then Value (Inr (xo_amount x))
      else obind (of_db (micro_get_tx (pv_chain v) (xo_txid x))) (\<lambda>found.
        case found of
          None \<Rightarrow> Value (Inl (''Cant get tx of hash: '' @ show_hash (st_lib S) (xo_txid x)))
        | Some tx \<Rightarrow>
          if is_coinbase (pl_core (st_lib S)) tx then Value (Inr (xo_amount x))
          else
            let i = unat (xo_internal_output_index x) in
            obind (vec_index [0..<xe_ecdh_count X tx] i) (\<lambda>_.
            case decode_ringct_of_keys W tx (get_tx_pub_key_from_received_outs (extra_pub_keys (st_lib S)) tx) key i (xo_amount x) of
              (True, a) \<Rightarrow> Value (Inr a)
            | (False, a) \<Rightarrow>
              obind (vec_index (additional_tx_pub_keys (st_lib S) tx) i) (\<lambda>pk.
              case decode_ringct_of_keys W tx pk key i a of
                (True, a') \<Rightarrow> Value (Inr a')
              | (False, a') \<Rightarrow> Value (Inl (''Cant decode RingCT for output: '' @ show_hash (st_lib S) (xo_public_key x)))))))"

record export_state =
  xs_rows :: "json list"
  xs_total :: u64
  xs_known :: bool

definition output_spent :: "export_env \<Rightarrow> exported_output \<Rightarrow> bool" where
  "output_spent X x = (case xo_key_image x of None \<Rightarrow> False | Some k \<Rightarrow> xe_spent X k)"

definition exported_row :: "site \<Rightarrow> export_env \<Rightarrow> exported_output \<Rightarrow> u64 \<Rightarrow> u64 \<Rightarrow> nat \<Rightarrow> json" where
  "exported_row S X x xmr_amount blk_time n =
     JObj [(''output_no'', JStr (pad_nat 3 n)), (''output_pub_key'', JStr (bare_hash S (xo_public_key x))),
           (''amount'', JStr (shown_amount S xmr_amount)), (''tx_hash'', JStr (bare_hash S (xo_txid x))),
           (''timestamp'', JStr (timestamp_to_str_gm blk_time)), (''is_spent'', JBool (output_spent X x)),
           (''is_ringct'', JBool (xo_is_rct x))]"

definition outputs_page ::
    "site \<Rightarrow> (string \<times> json) list \<Rightarrow> string option \<Rightarrow> export_state \<Rightarrow> html" where
  "outputs_page S head err st =
     (let has_total = (err = None \<and> 0 < xs_total st) in
      export_page S ''checkoutputkeys'' err (head
        @ [(''has_total_xmr'', JBool has_total), (''total_xmr'', JStr (if has_total then shown_amount S (xs_total st) else [])),
           (''output_keys'', JArr (xs_rows st)), (''are_key_images_known'', JBool (xs_known st))]))"

fun exported_outputs_loop ::
    "site \<Rightarrow> wallet_crypto \<Rightarrow> export_env \<Rightarrow> page_view \<Rightarrow> hash \<Rightarrow> (string \<times> json) list \<Rightarrow> exported_output list \<Rightarrow> export_state \<Rightarrow>
       html outcome" where
  "exported_outputs_loop S W X v key head [] st = Value (outputs_page S head None st)"
| "exported_outputs_loop S W X v key head (x # xs) st =
     obind (exported_amount S W X v key x) (\<lambda>r.
     case r of
       Inl msg \<Rightarrow> Value (outputs_page S head (Some msg) st)
     | Inr xmr_amount \<Rightarrow>
       obind (of_db (xe_block_timestamp X (xo_block_height x))) (\<lambda>blk_time.
       exported_outputs_loop S W X v key head xs
         \<lparr>xs_rows = xs_rows st @ [exported_row S X x xmr_amount blk_time (length (xs_rows st))],
          xs_total = (if output_spent X x then xs_total st else xs_total st + xmr_amount),
          xs_known = (xs_known st \<or> xo_key_image x \<noteq> None)\<rparr>))"

text \<open>
  The address is read from the head of the data whatever their length, and then the archive behind it.
\<close>

definition show_checkcheckrawoutput ::
    "site \<Rightarrow> wallet_crypto \<Rightarrow> export_env \<Rightarrow> page_view \<Rightarrow> string \<Rightarrow> string \<Rightarrow> html outcome" where
  "show_checkcheckrawoutput S W X v raw_data viewkey_str =
     (case open_export S X ''checkoutputkeys'' (xe_output_magic X) (''outputs'', ''output keys'', ''outputs'') raw_data viewkey_str of
        Inl h \<Rightarrow> Value h
      | Inr (data_prefix, prv_view_key, data) \<Rightarrow>
        if length data < header_length X then OutOfBounds
        else
          let head = export_head W data_prefix (xe_address_of X (take (header_length X) data)) in
          case xe_unpack_outputs X (drop (header_length X) data) of
            Inl what \<Rightarrow>
              Value (export_page S ''checkoutputkeys'' (Some (''Failed to import outputs: '' @ what))
                (head @ [(''has_total_xmr'', JBool False), (''total_xmr'', JStr []), (''output_keys'', JArr [])]))
          | Inr outputs \<Rightarrow>
              exported_outputs_loop S W X v prv_view_key head outputs \<lparr>xs_rows = [], xs_total = 0, xs_known = False\<rparr>)"

section \<open>What the checkers show\<close>

lemma open_export_opened:
  assumes "open_export S X template magic words raw vk = Inr (shown, key, plain)"
  obtains c where "parse_str_secret_key (pl_core (st_lib S)) (trim vk) = Some key"
    "xe_base64_decode X (clean_post_data raw) = magic @ c" "shown = make_printable magic" "plain = decrypt X c key True" "plain \<noteq> []"
proof -
  let ?data = "xe_base64_decode X (clean_post_data raw)"
  from assms have key: "parse_str_secret_key (pl_core (st_lib S)) (trim vk) = Some key"
    and starts: "starts_with magic ?data" and shown: "shown = make_printable (take (length magic) ?data)"
    and plain: "plain = decrypt X (drop (length magic) ?data) key True" "plain \<noteq> []"
    by (auto simp: open_export_def Let_def split: prod.splits if_splits option.splits)
  from starts have "take (length magic) ?data = magic" by (simp add: starts_with_def)
  moreover from this have "?data = magic @ drop (length magic) ?data" by (metis append_take_drop_id)
  ultimately show ?thesis using that [OF key] shown plain by simp
qed

lemma open_export_error:
  "open_export S X template magic words raw vk = Inl h \<Longrightarrow> \<exists>msg members. h = export_page S template (Some msg) members"
  by (auto simp: open_export_def Let_def split: prod.splits if_splits option.splits)

lemma export_page_error: "export_page S template err members = Rendered t ctx \<Longrightarrow> jget ''has_error'' ctx = JBool (err \<noteq> None)"
  by (auto simp: export_page_def jget_page_assets)

lemma open_export_reports:
  assumes "open_export S X template magic words raw vk = Inl (Rendered t ctx)"
  shows "jget ''has_error'' ctx = JBool True"
proof -
  obtain msg members where "export_page S template (Some msg) members = Rendered t ctx"
    using open_export_error [OF assms] by auto
  from export_page_error [OF this] show ?thesis by simp
qed

lemma decrypt_authentic:
  assumes "decrypt X c key True \<noteq> []"
  shows "xe_iv_size X + xe_signature_size X \<le> length c
    \<and> xe_check_signature X (take (length c - xe_signature_size X) c) (xe_public_of X key) (drop (length c - xe_signature_size X) c)"
  using assms by (auto simp: decrypt_def Let_def split: if_splits)

text \<open>A signature over the exported data, under the public key of the view key.\<close>

definition export_signed :: "site \<Rightarrow> export_env \<Rightarrow> string \<Rightarrow> string \<Rightarrow> string \<Rightarrow> bool" where
  "export_signed S X magic raw vk \<longleftrightarrow>
     (\<exists>key c body sig. parse_str_secret_key (pl_core (st_lib S)) (trim vk) = Some key
        \<and> xe_base64_decode X (clean_post_data raw) = magic @ c \<and> c = body @ sig \<and> length sig = xe_signature_size X
        \<and> xe_check_signature X body (xe_public_of X key) sig)"

lemma opened_signed:
  assumes "open_export S X template magic words raw vk = Inr (shown, key, plain)"
  shows "export_signed S X magic raw vk"
proof -
  from assms obtain c where c: "parse_str_secret_key (pl_core (st_lib S)) (trim vk) = Some key"
    "xe_base64_decode X (clean_post_data raw) = magic @ c" and "decrypt X c key True \<noteq> []"
    by (rule open_export_opened) blast
  from decrypt_authentic [OF this(3)] have
    "length (drop (length c - xe_signature_size X) c) = xe_signature_size X"
    "xe_check_signature X (take (length c - xe_signature_size X) c) (xe_public_of X key) (drop (length c - xe_signature_size X) c)"
    by simp_all
  then show ?thesis
    using c unfolding export_signed_def by (metis append_take_drop_id)
qed

text \<open>
  Only signed exports are shown: a page of either checker without an error rests on data with a
  valid signature under the view key.
\<close>

theorem shown_exports_signed:
  assumes "h = show_checkrawkeyimgs S W X raw vk \<and> magic = xe_key_image_magic X
      \<or> show_checkcheckrawoutput S W X v raw vk = Value h \<and> magic = xe_output_magic X"
    and "h = Rendered t ctx" "jget ''has_error'' ctx = JBool False"
  shows "export_signed S X magic raw vk"
proof -
  have error: "h \<noteq> e" if "open_export S X template m words raw vk = Inl e" for template m words e
    using open_export_reports that assms(2,3) by fastforce
  from assms(1) show ?thesis
  proof (elim disjE conjE)
    let ?o = "open_export S X ''checkrawkeyimgs'' (xe_key_image_magic X) (''key image'', ''key image'', ''key images'') raw vk"
    assume "h = show_checkrawkeyimgs S W X raw vk" and m: "magic = xe_key_image_magic X"
    then have "?o = Inl e \<Longrightarrow> h = e" for e by (simp add: show_checkrawkeyimgs_def)
    then obtain r where "?o = Inr r" using error by (cases ?o) blast+
    then show ?thesis unfolding m using opened_signed by (metis prod_cases3)
  next
    let ?o = "open_export S X ''checkoutputkeys'' (xe_output_magic X) (''outputs'', ''output keys'', ''outputs'') raw vk"
    assume "show_checkcheckrawoutput S W X v raw vk = Value h" and m: "magic = xe_output_magic X"
    then have "?o = Inl e \<Longrightarrow> h = e" for e by (simp add: show_checkcheckrawoutput_def)
    then obtain r where "?o = Inr r" using error by (cases ?o) blast+
    then show ?thesis unfolding m using opened_signed by (metis prod_cases3)
  qed
qed

section \<open>Key images are read back\<close>

lemma drop_concat_records:
  "list_all (\<lambda>r. length (fst r) = a \<and> length (snd r) = b) recs \<Longrightarrow> n < length recs \<Longrightarrow>
     drop (n * (a + b)) (concat (map (\<lambda>r. fst r @ snd r) recs))
       = fst (recs ! n) @ snd (recs ! n) @ concat (map (\<lambda>r. fst r @ snd r) (drop (Suc n) recs))"
proof (induction n arbitrary: recs)
  case 0
  then show ?case by (cases recs) simp_all
next
  case (Suc n)
  then obtain r rs where "recs = r # rs" by (cases recs) auto
  then show ?case using Suc by (simp add: algebra_simps)
qed

lemma length_concat_records:
  "list_all (\<lambda>r. length (fst r) = a \<and> length (snd r) = b) recs \<Longrightarrow>
     length (concat (map (\<lambda>r. fst r @ snd r) recs)) = length recs * (a + b)"
  by (induction recs) auto

lemma key_image_record_read:
  assumes "list_all (\<lambda>r. length (fst r) = xe_image_size X \<and> length (snd r) = xe_signature_size X) recs"
    and "length header = header_length X" "n < length recs"
  shows "key_image_record X (header @ concat (map (\<lambda>r. fst r @ snd r) recs)) n = recs ! n"
proof -
  have "length (fst (recs ! n)) = xe_image_size X" "length (snd (recs ! n)) = xe_signature_size X"
    using assms(1,3) by (simp_all add: list_all_length)
  then show ?thesis
    using drop_concat_records [OF assms(1,3)] assms(2)
    by (simp add: key_image_record_def Let_def record_length_def)
qed

lemma decrypt_export:
  assumes "length iv = xe_iv_size X" "length sig = xe_signature_size X"
    and "xe_chacha20 X (xe_chacha_key X key) iv (xe_chacha20 X (xe_chacha_key X key) iv m) = m"
    and "xe_check_signature X (iv @ xe_chacha20 X (xe_chacha_key X key) iv m) (xe_public_of X key) sig"
  shows "decrypt X (iv @ xe_chacha20 X (xe_chacha_key X key) iv m @ sig) key True = m"
proof -
  let ?e = "xe_chacha20 X (xe_chacha_key X key) iv m"
  have "length (iv @ ?e @ sig) - xe_signature_size X = length iv + length ?e"
    "length (iv @ ?e @ sig) - (xe_iv_size X + xe_signature_size X) = length ?e"
    using assms(1,2) by simp_all
  then show ?thesis using assms by (simp add: decrypt_def Let_def)
qed

text \<open>
  An export of key images is read back: data that a wallet encrypted and signed with the view
  key give a page with exactly the key images of the export, in order, with the state the database
  has for each.
\<close>

theorem key_image_export_read_back:
  assumes "trim vk \<noteq> []" "parse_str_secret_key (pl_core (st_lib S)) (trim vk) = Some key"
    and "xe_base64_decode X (clean_post_data raw)
      = xe_key_image_magic X @ iv @ xe_chacha20 X (xe_chacha_key X key) iv (header @ concat (map (\<lambda>r. fst r @ snd r) recs)) @ sig"
    and "length iv = xe_iv_size X" "length sig = xe_signature_size X" "length header = header_length X" "header \<noteq> []"
    and "list_all (\<lambda>r. length (fst r) = xe_image_size X \<and> length (snd r) = xe_signature_size X) recs" "0 < xe_image_size X"
    and "\<And>m. xe_chacha20 X (xe_chacha_key X key) iv (xe_chacha20 X (xe_chacha_key X key) iv m) = m"
    and "xe_check_signature X (iv @ xe_chacha20 X (xe_chacha_key X key) iv (header @ concat (map (\<lambda>r. fst r @ snd r) recs)))
      (xe_public_of X key) sig"
  shows "\<exists>ctx. show_checkrawkeyimgs S W X raw vk = Rendered ''checkrawkeyimgs'' ctx \<and> jget ''has_error'' ctx = JBool False
    \<and> jget ''key_imgs'' ctx = JArr (map (\<lambda>n. key_image_row S W X (xe_address_of X header) n (recs ! n)) [0..<length recs])"
proof -
  let ?data = "header @ concat (map (\<lambda>r. fst r @ snd r) recs)"
  have dec: "decrypt X (iv @ xe_chacha20 X (xe_chacha_key X key) iv ?data @ sig) key True = ?data"
    using assms(4,5,10,11) by (rule decrypt_export)
  have opened: "open_export S X template (xe_key_image_magic X) words raw vk = Inr (make_printable (xe_key_image_magic X), key, ?data)"
    for template words
    using assms(1,2,3,7) dec by (simp add: open_export_def Let_def starts_with_def split: prod.split)
  have n: "(length ?data - header_length X) div record_length X = length recs" "\<not> length ?data < header_length X"
    using assms(6,9) length_concat_records [OF assms(8)] by (simp_all add: record_length_def)
  have rows: "map (\<lambda>n. key_image_row S W X a n (key_image_record X ?data n)) [0..<length recs]
      = map (\<lambda>n. key_image_row S W X a n (recs ! n)) [0..<length recs]" for a
    using key_image_record_read [OF assms(8,6)] by simp
  show ?thesis
    unfolding show_checkrawkeyimgs_def opened sum.case prod.case n if_not_P [OF n(2)] Let_def rows
    using assms(6) by (simp add: export_page_def jget_page_assets export_head_def jget_JObj_append)
qed

section \<open>The total of exported outputs\<close>

definition unspent_sum :: "export_env \<Rightarrow> (exported_output \<times> u64) list \<Rightarrow> u64" where
  "unspent_sum X xs = sum_list (map snd (filter (\<lambda>(x, a). \<not> output_spent X x) xs))"

lemma unspent_sum_Cons [simp]:
  "unspent_sum X ((x, a) # xs) = (if output_spent X x then 0 else a) + unspent_sum X xs"
  by (simp add: unspent_sum_def)

lemma outputs_page_members:
  assumes "outputs_page S (export_head W p a) err st = Rendered t ctx"
  shows "jget ''has_error'' ctx = JBool (err \<noteq> None)" "jget ''output_keys'' ctx = JArr (xs_rows st)"
    "jget ''has_total_xmr'' ctx = JBool (err = None \<and> 0 < xs_total st)"
    "jget ''total_xmr'' ctx = JStr (if err = None \<and> 0 < xs_total st then shown_amount S (xs_total st) else [])"
  using assms by (auto simp: outputs_page_def export_page_def export_head_def jget_page_assets Let_def)

text \<open>A row for an output with its amount.\<close>

definition shows_output :: "site \<Rightarrow> export_env \<Rightarrow> exported_output \<times> u64 \<Rightarrow> json \<Rightarrow> bool" where
  "shows_output S X xa row \<longleftrightarrow>
     jget ''amount'' row = JStr (shown_amount S (snd xa)) \<and> jget ''is_spent'' row = JBool (output_spent X (fst xa))
     \<and> jget ''output_pub_key'' row = JStr (bare_hash S (xo_public_key (fst xa)))"

lemma exported_outputs_loop_done:
  assumes "exported_outputs_loop S W X v key (export_head W p ad) xs st = Value (Rendered t ctx)" "jget ''has_error'' ctx = JBool False"
  shows "\<exists>as rows. list_all2 (\<lambda>x a. exported_amount S W X v key x = Value (Inr a)) xs as
    \<and> list_all2 (shows_output S X) (zip xs as) rows \<and> jget ''output_keys'' ctx = JArr (xs_rows st @ rows)
    \<and> jget ''has_total_xmr'' ctx = JBool (xs_total st + unspent_sum X (zip xs as) \<noteq> 0)
    \<and> (xs_total st + unspent_sum X (zip xs as) \<noteq> 0 \<longrightarrow>
        jget ''total_xmr'' ctx = JStr (shown_amount S (xs_total st + unspent_sum X (zip xs as))))"
  using assms
proof (induction xs arbitrary: st)
  case Nil
  then show ?case
    by (auto simp: outputs_page_members word_neq_0_conv unspent_sum_def intro!: exI [of _ "[]"])
next
  case (Cons x xs)
  from Cons.prems(1) obtain r where r: "exported_amount S W X v key x = Value r" by auto
  with Cons.prems obtain a where "r = Inr a" by (cases r) (auto simp: outputs_page_members)
  with r Cons.prems(1) obtain ts where a: "exported_amount S W X v key x = Value (Inr a)" "xe_block_timestamp X (xo_block_height x) = Inr ts"
    and run: "exported_outputs_loop S W X v key (export_head W p ad) xs
      \<lparr>xs_rows = xs_rows st @ [exported_row S X x a ts (length (xs_rows st))],
       xs_total = (if output_spent X x then xs_total st else xs_total st + a), xs_known = (xs_known st \<or> xo_key_image x \<noteq> None)\<rparr>
      = Value (Rendered t ctx)"
    by auto
  have step: "(if output_spent X x then xs_total st else xs_total st + a) + unspent_sum X (zip xs as)
      = xs_total st + unspent_sum X (zip (x # xs) (a # as))" for as by (simp add: add.assoc)
  from Cons.IH [OF run Cons.prems(2), unfolded export_state.select_convs step] obtain as rows where
    ih: "list_all2 (\<lambda>x a. exported_amount S W X v key x = Value (Inr a)) xs as" "list_all2 (shows_output S X) (zip xs as) rows"
      "jget ''output_keys'' ctx = JArr ((xs_rows st @ [exported_row S X x a ts (length (xs_rows st))]) @ rows)"
    and total: "jget ''has_total_xmr'' ctx = JBool (xs_total st + unspent_sum X (zip (x # xs) (a # as)) \<noteq> 0)"
      "xs_total st + unspent_sum X (zip (x # xs) (a # as)) \<noteq> 0 \<longrightarrow>
        jget ''total_xmr'' ctx = JStr (shown_amount S (xs_total st + unspent_sum X (zip (x # xs) (a # as))))"
    by blast
  have "shows_output S X (x, a) (exported_row S X x a ts (length (xs_rows st)))" by (simp add: shows_output_def exported_row_def)
  then show ?case
    using a(1) ih total
    by (intro exI [of _ "a # as"] exI [of _ "exported_row S X x a ts (length (xs_rows st)) # rows"]) simp
qed

text \<open>
  The page of exported outputs, when it reports no error, has one row per output of the archive with
  its decoded amount and state, and the total of the unspent ones (over 64-bit words), shown
  unless it is zero.
\<close>

theorem exported_outputs_total:
  assumes "show_checkcheckrawoutput S W X v raw vk = Value (Rendered t ctx)" "jget ''has_error'' ctx = JBool False"
  shows "\<exists>data key outputs as rows. xe_unpack_outputs X (drop (header_length X) data) = Inr outputs
    \<and> list_all2 (\<lambda>x a. exported_amount S W X v key x = Value (Inr a)) outputs as
    \<and> jget ''output_keys'' ctx = JArr rows \<and> list_all2 (shows_output S X) (zip outputs as) rows
    \<and> jget ''has_total_xmr'' ctx = JBool (unspent_sum X (zip outputs as) \<noteq> 0)
    \<and> (unspent_sum X (zip outputs as) \<noteq> 0 \<longrightarrow> jget ''total_xmr'' ctx = JStr (shown_amount S (unspent_sum X (zip outputs as))))"
proof -
  let ?o = "open_export S X ''checkoutputkeys'' (xe_output_magic X) (''outputs'', ''output keys'', ''outputs'') raw vk"
  obtain shown key data where o: "?o = Inr (shown, key, data)"
  proof (cases ?o)
    case (Inl e)
    then have "?o = Inl (Rendered t ctx)" using assms(1) by (simp add: show_checkcheckrawoutput_def)
    from open_export_reports [OF this] assms(2) show ?thesis by simp
  next
    case (Inr r)
    then show ?thesis using that by (cases r) auto
  qed
  let ?head = "export_head W shown (xe_address_of X (take (header_length X) data))"
  note d = assms(1) [unfolded show_checkcheckrawoutput_def o sum.case prod.case Let_def]
  obtain outputs where un: "xe_unpack_outputs X (drop (header_length X) data) = Inr outputs"
    using d assms(2) by (auto dest: export_page_error split: sum.splits if_splits)
  have "exported_outputs_loop S W X v key ?head outputs \<lparr>xs_rows = [], xs_total = 0, xs_known = False\<rparr> = Value (Rendered t ctx)"
    using d un by (simp split: if_splits)
  from exported_outputs_loop_done [OF this assms(2)] un show ?thesis by fastforce
qed

text \<open>Data shorter than the header, which a signed export may be, are read past their end.\<close>

lemma short_export_out_of_bounds:
  assumes "open_export S X ''checkoutputkeys'' (xe_output_magic X) (''outputs'', ''output keys'', ''outputs'') raw vk = Inr (p, key, data)"
    and "length data < header_length X"
  shows "show_checkcheckrawoutput S W X v raw vk = OutOfBounds"
  using assms by (simp add: show_checkcheckrawoutput_def)

text \<open>An export of two key images, with a cipher that reverses the text.\<close>

definition sample_export :: export_env where
  "sample_export = \<lparr>xe_iv_size = 1, xe_signature_size = 1, xe_key_size = 1, xe_image_size = 2, xe_chacha_key = (\<lambda>k. k),
     xe_chacha20 = (\<lambda>_ _ m. rev m), xe_public_of = (\<lambda>k. k), xe_check_signature = (\<lambda>_ _ sig. sig = ''s''),
     xe_base64_decode = (\<lambda>s. s), xe_key_image_magic = ''KI'', xe_output_magic = ''OK'',
     xe_address_of = (\<lambda>h. \<lparr>wa_view_public = [], wa_spend_public = [], wa_hex = h, wa_is_subaddress = False, wa_payment_id = []\<rparr>),
     xe_pod_to_hex = (\<lambda>s. s), xe_show_signature = (\<lambda>s. s), xe_unpack_outputs = (\<lambda>_. Inr []), xe_ecdh_count = (\<lambda>_. 0),
     xe_spent = (\<lambda>k. k = ''bb''), xe_block_timestamp = (\<lambda>_. Inr 0)\<rparr>"

theorem key_image_export_read_back_witness:
  "\<exists>ctx. show_checkrawkeyimgs sample_site sample_wallet sample_export ''KIvybbxaaHHs'' (replicate 64 CHR ''b'') = Rendered ''checkrawkeyimgs'' ctx
     \<and> jget ''has_error'' ctx = JBool False
     \<and> jget ''key_imgs'' ctx = JArr (map (\<lambda>n. key_image_row sample_site sample_wallet sample_export (xe_address_of sample_export ''HH'') n
          ([(''aa'', ''x''), (''bb'', ''y'')] ! n)) [0..<2])"
proof -
  have "clean_post_data ''KIvybbxaaHHs'' = ''KIvybbxaaHHs''" by code_simp
  moreover have "trim (replicate 64 CHR ''b'') = replicate 64 CHR ''b''" by code_simp
  ultimately show ?thesis
    using key_image_export_read_back [of "replicate 64 CHR ''b''" sample_site "replicate 64 CHR ''b''" sample_export "''KIvybbxaaHHs''" "''v''" "''HH''"
        "[(''aa'', ''x''), (''bb'', ''y'')]" "''s''" sample_wallet]
    by (simp add: sample_export_def sample_site_def sample_lib_def plain_core_def parse_str_secret_key_def header_length_def numeral_2_eq_2)
qed

end
