(* ===== verification/My_Outputs.thy ===== *)
theory My_Outputs
  imports Exports
begin

text \<open>
  The page of one's own outputs and of a proof of payment (\<open>show_my_outputs\<close>, \<open>show_prove\<close> of
  \<open>src/src/page.h\<close>), with the guess which ring members were spent; no route of \<open>main.cpp\<close> reaches them. The
  theorems show that the sum is that of the matching outputs, when a spending is guessed, and that the
  guess decodes amounts with the derivation of another output.
\<close>

section \<open>Own outputs\<close>

text \<open>
  What the page takes from elsewhere beside the wallet's cryptography: the values of what the code leaves
  uninitialised, the parsers of a submitted transaction, the number of encrypted amounts a
  transaction carries, and whether the guess is enabled.
\<close>

record guess_env =
  ge_enable_mixin_guess :: bool
  ge_uninit_key :: hash
  ge_uninit_prefix :: hash
  ge_blank_block :: block
  ge_blank_derivation :: string
  ge_hex_to_blob :: "string \<Rightarrow> blob option"
  ge_parse_tx :: "blob \<Rightarrow> transaction option"
  ge_ecdh_count :: "transaction \<Rightarrow> nat"

text \<open>The amount of an own output: hidden amounts are decoded, and stay as they are when that fails.\<close>

definition decoded_amount ::
    "wallet_crypto \<Rightarrow> guess_env \<Rightarrow> transaction \<Rightarrow> string \<Rightarrow> nat \<Rightarrow> u64 \<Rightarrow> u64 outcome" where
  "decoded_amount W G tx derivation n amount =
     obind (vec_index [0..<ge_ecdh_count G tx] n) (\<lambda>_. Value (snd (decode_ringct W tx derivation n amount)))"

definition my_output_row :: "site \<Rightarrow> hash \<Rightarrow> u64 \<Rightarrow> bool \<Rightarrow> nat \<Rightarrow> json" where
  "my_output_row S out_key amount mine n =
     JObj [(''out_pub_key'', JStr out_key), (''amount'', JStr (shown_amount S amount)), (''mine_output'', JBool mine),
           (''output_idx'', JStr (pad_nat 2 n))]"

fun my_output_rows ::
    "site \<Rightarrow> wallet_crypto \<Rightarrow> guess_env \<Rightarrow> transaction \<Rightarrow> tx_details \<Rightarrow> hash \<Rightarrow> string \<Rightarrow> string list \<Rightarrow>
       output_tuple list \<Rightarrow> nat \<Rightarrow> json list \<Rightarrow> u64 \<Rightarrow> (json list \<times> u64) outcome" where
  "my_output_rows S W G tx txd spend d ds [] n rows sum_xmr = Value (rows, sum_xmr)"
| "my_output_rows S W G tx txd spend d ds ((out_key, plain, tag) # outs) n rows sum_xmr =
     (case match_output W txd spend d ds n out_key of (mine, derivation_to_use) \<Rightarrow>
        obind (if mine \<and> hidden_amount (st_lib S) tx then decoded_amount W G tx derivation_to_use n 0 else Value plain) (\<lambda>xmr_amount.
        my_output_rows S W G tx txd spend d ds outs (n + 1) (rows @ [my_output_row S out_key xmr_amount mine n])
          (if mine then sum_xmr + xmr_amount else sum_xmr)))"

section \<open>Guessing the ring members that are spent\<close>

text \<open>What the loops over inputs, ring members and their transactions' outputs change.\<close>

record guess =
  gs_show :: bool
  gs_sum :: u64
  gs_matched :: u64
  gs_possible :: "(hash \<times> u64) list"

record member_state =
  mb_found :: "json list"
  mb_something :: bool
  mb_matches :: nat
  mb_ringct :: u64
  mb_guess :: guess

text \<open>
  Whether an output of a ring member's transaction is one's own, and the derivation its amount is
  decoded with. Where the additional keys decide, the code takes the derivation at \<open>output_idx\<close>, the
  counter of the loop over the outputs of the transaction of the page, which has ended.
\<close>

definition member_match ::
    "wallet_crypto \<Rightarrow> hash \<Rightarrow> string \<Rightarrow> string list \<Rightarrow> nat \<Rightarrow> nat \<Rightarrow> hash \<times> u64 \<times> u64 \<Rightarrow> (bool \<times> string outcome) outcome" where
  "member_match W spend derivation additional no_of_outputs output_idx out =
     (case out of (key, amount, i) \<Rightarrow>
        let n = unat i in
        if key \<noteq> wc_derive_public_key W derivation n spend \<and> length additional = no_of_outputs
        then obind (vec_index additional n) (\<lambda>d. Value (key = wc_derive_public_key W d n spend, vec_index additional output_idx))
        else Value (key = wc_derive_public_key W derivation n spend, Value derivation))"

definition member_amount ::
    "site \<Rightarrow> wallet_crypto \<Rightarrow> guess_env \<Rightarrow> transaction \<Rightarrow> bool \<Rightarrow> string outcome \<Rightarrow> hash \<times> u64 \<times> u64 \<Rightarrow> u64 outcome" where
  "member_amount S W G mixin_tx mine derivation_to_use out =
     (case out of (key, amount, i) \<Rightarrow>
        if mine \<and> hidden_amount (st_lib S) mixin_tx
        then obind derivation_to_use (\<lambda>d. decoded_amount W G mixin_tx d (unat i) amount)
        else Value amount)"

text \<open>The sums: only the first own output that is the ring member counts for an input.\<close>

definition count_match :: "transaction \<Rightarrow> u64 \<Rightarrow> u64 \<Rightarrow> member_state \<Rightarrow> member_state" where
  "count_match mixin_tx in_amt amount st =
     (let g = mb_guess st;
          counted = (tx_version mixin_tx < 2 \<and> amount = in_amt) \<or> tx_version mixin_tx = 2;
          st' = (if mb_matches st \<noteq> 0 then st
                 else st\<lparr>mb_guess := g\<lparr>gs_sum := (if counted then gs_sum g + amount else gs_sum g), gs_matched := gs_matched g + 1\<rparr>,
                         mb_ringct := (if tx_version mixin_tx = 2 then mb_ringct st + amount else mb_ringct st)\<rparr>)
      in st'\<lparr>mb_matches := mb_matches st + 1\<rparr>)"

definition member_output ::
    "site \<Rightarrow> wallet_crypto \<Rightarrow> guess_env \<Rightarrow> hash \<Rightarrow> string \<Rightarrow> u64 \<Rightarrow> hash \<Rightarrow> transaction \<Rightarrow> string \<Rightarrow> string list \<Rightarrow> nat \<Rightarrow> nat \<Rightarrow>
       hash \<times> u64 \<times> u64 \<Rightarrow> member_state \<Rightarrow> member_state outcome" where
  "member_output S W G spend tx_hash_str in_amt ring_key mixin_tx derivation additional no_of_outputs output_idx out st =
     obind (member_match W spend derivation additional no_of_outputs output_idx out) (\<lambda>(mine, derivation_to_use).
     obind (member_amount S W G mixin_tx mine derivation_to_use out) (\<lambda>amount.
     let row = JObj [(''my_public_key'', JStr (fst out)), (''tx_hash'', JStr tx_hash_str), (''mine_output'', JBool mine),
                     (''out_idx'', JU64 (snd (snd out))), (''formed_output_pk'', JStr ring_key),
                     (''out_in_match'', JBool (fst out = ring_key \<and> mb_matches st = 0)),
                     (''amount'', JStr (shown_amount S amount))];
         shown = st\<lparr>mb_found := mb_found st @ [row]\<rparr>;
         own = shown\<lparr>mb_something := True, mb_guess := (mb_guess shown)\<lparr>gs_show := True\<rparr>\<rparr>
     in Value (if \<not> mine then shown else if fst out \<noteq> ring_key then own else count_match mixin_tx in_amt amount own)))"

text \<open>The derivations of the additional keys; one that fails stays as it was constructed.\<close>

definition additional_derivations :: "wallet_crypto \<Rightarrow> guess_env \<Rightarrow> hash \<Rightarrow> hash list \<Rightarrow> string list" where
  "additional_derivations W G key pks =
     map (\<lambda>pk. case wc_derivation W pk key of None \<Rightarrow> ge_blank_derivation G | Some d \<Rightarrow> d) pks"

definition member_row :: "hash \<Rightarrow> json list \<Rightarrow> bool \<Rightarrow> json" where
  "member_row pubkey outputs something =
     JObj [(''mixin_pub_key'', JStr pubkey), (''mixin_outputs'', JArr outputs), (''has_mixin_outputs'', JBool something)]"

text \<open>
  The loop over a ring. An output or a transaction the database does not have ends it; a key that has no
  derivation goes on with the next offset without counting, so that the following offsets are paired with
  the keys of the ones before them.
\<close>

fun guess_ring ::
    "site \<Rightarrow> wallet_crypto \<Rightarrow> guess_env \<Rightarrow> page_view \<Rightarrow> hash \<Rightarrow> hash \<Rightarrow> string \<Rightarrow> nat \<Rightarrow> u64 \<Rightarrow> (hash \<times> u64) list \<Rightarrow> u64 list \<Rightarrow>
       nat \<Rightarrow> nat \<Rightarrow> json list \<Rightarrow> guess \<Rightarrow> (json list \<times> guess) outcome" where
  "guess_ring S W G v spend key tx_hash_str output_idx in_amt outs [] n matches rows g = Value (rows, g)"
| "guess_ring S W G v spend key tx_hash_str output_idx in_amt outs (abs_offset # offsets) n matches rows g =
     obind (vec_at outs n) (\<lambda>(ring_key, _).
     case output_tx_and_index v in_amt abs_offset of
       None \<Rightarrow> Value (rows, g)
     | Some (txh, _) \<Rightarrow>
       obind (of_db (micro_get_tx (pv_chain v) txh)) (\<lambda>found.
       case found of
         None \<Rightarrow> Value (rows, g)
       | Some mixin_tx \<Rightarrow>
         let mixin_tx_pub_key = get_tx_pub_key_from_received_outs (extra_pub_keys (st_lib S)) mixin_tx;
             outputs = get_ouputs_tuple (pl_core (st_lib S)) mixin_tx
         in case wc_derivation W mixin_tx_pub_key key of
              None \<Rightarrow> guess_ring S W G v spend key tx_hash_str output_idx in_amt outs offsets n matches
                        (rows @ [member_row ring_key [] False]) g
            | Some derivation \<Rightarrow>
              obind (ofold (member_output S W G spend tx_hash_str in_amt ring_key mixin_tx derivation
                       (additional_derivations W G key (additional_tx_pub_keys (st_lib S) mixin_tx)) (length outputs) output_idx)
                     outputs \<lparr>mb_found = [], mb_something = False, mb_matches = matches, mb_ringct = 0, mb_guess = g\<rparr>) (\<lambda>st.
              let g' = mb_guess st;
                  possible = (if mb_something st
                              then gs_possible g' @ [(mixin_tx_pub_key, if in_amt = 0 then mb_ringct st else in_amt)]
                              else gs_possible g')
              in guess_ring S W G v spend key tx_hash_str output_idx in_amt outs offsets (n + 1) (mb_matches st)
                   (rows @ [member_row ring_key
                      [JObj [(''mix_tx_hash'', JStr txh), (''mix_tx_pub_key'', JStr mixin_tx_pub_key),
                             (''found_outputs'', JArr (mb_found st)), (''has_found_outputs'', JBool (mb_found st \<noteq> []))]]
                      (mb_something st)])
                   (g'\<lparr>gs_possible := possible\<rparr>))))"

text \<open>The loop over the inputs; one whose offsets are out of range or unknown is skipped.\<close>

fun guess_inputs ::
    "site \<Rightarrow> wallet_crypto \<Rightarrow> guess_env \<Rightarrow> page_view \<Rightarrow> hash \<Rightarrow> hash \<Rightarrow> string \<Rightarrow> nat \<Rightarrow> txin_to_key list \<Rightarrow> json list \<Rightarrow> guess \<Rightarrow>
       (json list \<times> guess) outcome" where
  "guess_inputs S W G v spend key tx_hash_str output_idx [] rows g = Value (rows, g)"
| "guess_inputs S W G v spend key tx_hash_str output_idx (k # ks) rows g =
     (let offsets = absolute_output_offsets (st_lib S) (key_offsets k) in
      case (if are_absolute_offsets_good v offsets k then output_keys v (in_amount k) offsets else None) of
        None \<Rightarrow> guess_inputs S W G v spend key tx_hash_str output_idx ks rows g
      | Some outs \<Rightarrow>
        obind (guess_ring S W G v spend key tx_hash_str output_idx (in_amount k) outs offsets 0 0 [] g) (\<lambda>(mixins, g').
        guess_inputs S W G v spend key tx_hash_str output_idx ks
          (rows @ [JObj [(''key_image'', JStr (k_image k)), (''key_image_amount'', JStr (shown_amount S (in_amount k))),
                         (''mixins'', JArr mixins)]]) g'))"

text \<open>The spending that is shown: only when all inputs matched and more came in than went out.\<close>

definition possible_spending :: "u64 \<Rightarrow> u64 \<Rightarrow> u64 \<Rightarrow> u64 \<Rightarrow> nat \<Rightarrow> u64" where
  "possible_spending sum_mixin_xmr sum_xmr fee matched inputs_no =
     (if sum_xmr + fee < sum_mixin_xmr \<and> unat matched = inputs_no then (sum_mixin_xmr - sum_xmr) - fee else 0)"

definition guess_context ::
    "site \<Rightarrow> wallet_crypto \<Rightarrow> guess_env \<Rightarrow> page_view \<Rightarrow> hash \<Rightarrow> hash \<Rightarrow> string \<Rightarrow> transaction \<Rightarrow> tx_details \<Rightarrow> u64 \<Rightarrow>
       (string \<times> json) list outcome" where
  "guess_context S W G v spend key tx_hash_str tx txd sum_xmr =
     (if \<not> ge_enable_mixin_guess G then Value []
      else obind (guess_inputs S W G v spend key tx_hash_str (length (td_output_pub_keys txd)) (get_key_images tx) []
             \<lparr>gs_show = False, gs_sum = 0, gs_matched = 0, gs_possible = []\<rparr>) (\<lambda>(inputs, g).
        Value [(''inputs'', JArr inputs), (''show_inputs'', JBool (gs_show g)), (''inputs_no'', JNum (int (length inputs))),
               (''sum_mixin_xmr'', JStr (amount8 S (gs_sum g))),
               (''no_all_possible_mixins'', JNum (int (length (gs_possible g)))),
               (''all_possible_mixins_amount'', JU64 (sum_list (map snd (gs_possible g)))),
               (''possible_spending'',
                 JStr (amount8 S (possible_spending (gs_sum g) sum_xmr (td_fee txd) (gs_matched g) (length inputs))))]))"

section \<open>The page\<close>

text \<open>The transaction of the page: submitted, in the chain, or in the pool with the time it came in.\<close>

definition my_outputs_tx ::
    "guess_env \<Rightarrow> page_view \<Rightarrow> mempool_status \<Rightarrow> string \<Rightarrow> string \<Rightarrow> hash \<Rightarrow> (transaction \<times> u64 option) outcome" where
  "my_outputs_tx G v ms raw_tx_data tx_hash_str txh =
     (if raw_tx_data \<noteq> []
      then obind (or_answer ''Cant obtain tx_data_blob from raw_tx_data'' (ge_hex_to_blob G raw_tx_data)) (\<lambda>b.
           obind (or_answer ''cant parse_and_validate_tx_from_blob'' (ge_parse_tx G b)) (\<lambda>tx. Value (tx, None)))
      else obind (of_db (micro_get_tx (pv_chain v) txh)) (\<lambda>found.
           case found of
             Some tx \<Rightarrow> Value (tx, None)
           | None \<Rightarrow>
             (case search_mempool ms txh of
                [] \<Rightarrow> Answer (PlainText (''Cant get tx: '' @ tx_hash_str))
              | m # _ \<Rightarrow> Value (mt_tx m, Some (mt_receive_time m)))))"

text \<open>The derivations: with the keys of the transaction for a proof, otherwise with the view key.\<close>

definition my_derivations ::
    "wallet_crypto \<Rightarrow> bool \<Rightarrow> wallet_address \<Rightarrow> hash list \<Rightarrow> hash \<Rightarrow> tx_details \<Rightarrow> (string \<times> string list) outcome" where
  "my_derivations W tx_prove address keys prv_view_key txd =
     (let pub_key = (if tx_prove then wa_view_public address else td_pk txd);
          derive = (\<lambda>pub sec. or_answer ''Cant get key_derivation'' (wc_derivation W pub sec))
      in if tx_prove \<and> length keys \<noteq> length (td_additional_pks txd) + 1
         then Answer (PlainText (''This transaction includes additional tx pubkeys whose size doesn'' @ [CHR 0x27]
                @ ''t match with the provided tx secret keys''))
         else obind (derive pub_key (if tx_prove then keys ! 0 else prv_view_key)) (\<lambda>derivation.
              obind (omap (\<lambda>(i, pk). derive (if tx_prove then pub_key else pk) (if tx_prove then keys ! (i + 1) else prv_view_key))
                       (enumerate 0 (td_additional_pks txd))) (\<lambda>additional.
              Value (derivation, additional))))"

definition my_outputs_head ::
    "site \<Rightarrow> wallet_crypto \<Rightarrow> guess_env \<Rightarrow> page_view \<Rightarrow> u64 \<Rightarrow> string \<Rightarrow> string \<Rightarrow> bool \<Rightarrow> hash \<Rightarrow> u64 option \<Rightarrow> hash \<Rightarrow> hash \<Rightarrow>
       tx_details \<Rightarrow> (string \<times> json) list" where
  "my_outputs_head S W G v now tx_hash_str address_str tx_prove txh received pub_key prv_view_key txd =
     (let height = (case tx_block_height v txh of Inl e \<Rightarrow> None | Inr h \<Rightarrow> Some h);
          stamp = (case height of
                     None \<Rightarrow> received
                   | Some h \<Rightarrow> Some (blk_timestamp (case get_block_by_height (pv_chain v) h of None \<Rightarrow> ge_blank_block G | Some b \<Rightarrow> b)));
          decrypted = (if td_payment_id8 txd = null_hash8 then None
                       else wc_decrypt_payment_id W (td_payment_id8 txd) pub_key prv_view_key)
      in [(''testnet'', JBool (st_testnet S)), (''stagenet'', JBool (st_stagenet S)), (''tx_hash'', JStr tx_hash_str),
          (''tx_prefix_hash'', JStr (ge_uninit_prefix G)), (''xmr_address'', JStr address_str), (''tx_pub_key'', JStr (td_pk txd)),
          (''blk_height'', JStr (case height of None \<Rightarrow> ''N/A'' | Some h \<Rightarrow> u64_to_string h)),
          (''tx_size'', JStr (st_kib4_text S (td_size txd))), (''tx_fee'', JStr (shown_amount S (td_fee txd))),
          (''blk_timestamp'', JStr (case stamp of None \<Rightarrow> ''N/A'' | Some s \<Rightarrow> timestamp_to_str_gm s)),
          (''delta_time'', JStr (case stamp of None \<Rightarrow> [] | Some s \<Rightarrow> fst (get_age now s True))),
          (''outputs_no'', JNum (int (length (td_output_pub_keys txd)))),
          (''has_payment_id'', JBool (td_payment_id txd \<noteq> null_hash)), (''has_payment_id8'', JBool (td_payment_id8 txd \<noteq> null_hash8)),
          (''payment_id'', JStr (td_payment_id txd)), (''payment_id8'', JStr (td_payment_id8 txd)),
          (''decrypted_payment_id8'', JStr (case decrypted of None \<Rightarrow> [] | Some pid8 \<Rightarrow> pid8)), (''tx_prove'', JBool tx_prove)])"

text \<open>What the arguments must be, in the order of the tests: the hash, the address and the keys.\<close>

definition my_arguments ::
    "site \<Rightarrow> wallet_crypto \<Rightarrow> guess_env \<Rightarrow> string \<Rightarrow> string \<Rightarrow> string \<Rightarrow> bool \<Rightarrow> (hash \<times> wallet_address \<times> hash list \<times> hash) outcome" where
  "my_arguments S W G tx_hash_str address_str viewkey_str tx_prove =
     (if tx_hash_str = [] then Answer (PlainText ''tx hash not provided!'')
      else if address_str = [] then Answer (PlainText ''Qwertycoin address not provided!'')
      else if viewkey_str = []
      then Answer (PlainText (if tx_prove then ''Tx private key not provided!'' else ''Viewkey not provided!''))
      else
        obind (or_answer (''Cant get tx hash due to parse error: '' @ tx_hash_str)
                 (parse_str_secret_key (pl_core (st_lib S)) tx_hash_str)) (\<lambda>txh.
        obind (or_answer (''Cant parse Qwertycoin address: '' @ address_str) (parse_str_address W (wc_nettype W) address_str)) (\<lambda>address.
        obind (or_answer ''Cant parse private key'' (parse_str_secret_keys (pl_core (st_lib S)) viewkey_str)) (\<lambda>keys.
        if length keys = 1 then Value (txh, address, keys, keys ! 0)
        else if tx_prove then Value (txh, address, keys, ge_uninit_key G)
        else Answer (PlainText ''Concatenated secret keys are only for tx proving!'')))))"

definition my_outputs_page ::
    "site \<Rightarrow> wallet_crypto \<Rightarrow> guess_env \<Rightarrow> page_view \<Rightarrow> mempool_status \<Rightarrow> u64 \<Rightarrow> string \<Rightarrow> string \<Rightarrow> string \<Rightarrow> string \<Rightarrow> bool \<Rightarrow> html outcome" where
  "my_outputs_page S W G v ms now tx_hash_str address_str viewkey_str raw_tx_data tx_prove =
     obind (my_arguments S W G tx_hash_str address_str viewkey_str tx_prove) (\<lambda>(txh, address, keys, prv_view_key).
     obind (my_outputs_tx G v ms raw_tx_data tx_hash_str txh) (\<lambda>(tx, received).
     obind (of_db (get_tx_details (st_lib S) v tx False 0 0)) (\<lambda>txd.
     obind (my_derivations W tx_prove address keys prv_view_key txd) (\<lambda>(derivation, additional).
     let pub_key = (if tx_prove then wa_view_public address else td_pk txd); spend = wa_spend_public address in
     obind (my_output_rows S W G tx txd spend derivation additional (td_output_pub_keys txd) 0 [] 0) (\<lambda>(outputs, sum_xmr).
     obind (guess_context S W G v spend prv_view_key tx_hash_str tx txd sum_xmr) (\<lambda>guessed.
     Value (Rendered ''my_outputs'' (add_page_assets S (JObj
       (my_outputs_head S W G v now tx_hash_str address_str tx_prove txh received pub_key prv_view_key txd
        @ [(''outputs'', JArr outputs), (''found_our_outputs'', JBool (0 < sum_xmr)), (''sum_xmr'', JStr (shown_amount S sum_xmr))]
        @ guessed))))))))))"

definition show_my_outputs ::
    "site \<Rightarrow> wallet_crypto \<Rightarrow> guess_env \<Rightarrow> page_view \<Rightarrow> mempool_status \<Rightarrow> u64 \<Rightarrow> string \<Rightarrow> string \<Rightarrow> string \<Rightarrow> string \<Rightarrow> bool \<Rightarrow> html outcome" where
  "show_my_outputs S W G v ms now tx_hash_str address_str viewkey_str raw_tx_data tx_prove =
     returned (my_outputs_page S W G v ms now (trim tx_hash_str) (trim address_str) (trim viewkey_str) (trim raw_tx_data) tx_prove)"

definition show_prove ::
    "site \<Rightarrow> wallet_crypto \<Rightarrow> guess_env \<Rightarrow> page_view \<Rightarrow> mempool_status \<Rightarrow> u64 \<Rightarrow> string \<Rightarrow> string \<Rightarrow> string \<Rightarrow> string \<Rightarrow> html outcome" where
  "show_prove S W G v ms now tx_hash_str address_str tx_prv_key_str raw_tx_data =
     show_my_outputs S W G v ms now tx_hash_str address_str tx_prv_key_str raw_tx_data True"

section \<open>The sum of own outputs\<close>

text \<open>Whether an output is one's own, and its amount.\<close>

definition out_entry ::
    "site \<Rightarrow> wallet_crypto \<Rightarrow> guess_env \<Rightarrow> transaction \<Rightarrow> tx_details \<Rightarrow> hash \<Rightarrow> string \<Rightarrow> string list \<Rightarrow> nat \<times> output_tuple \<Rightarrow>
       (bool \<times> u64) outcome" where
  "out_entry S W G tx txd spend d ds no =
     (case match_output W txd spend d ds (fst no) (fst (snd no)) of (mine, derivation_to_use) \<Rightarrow>
        obind (if mine \<and> hidden_amount (st_lib S) tx then decoded_amount W G tx derivation_to_use (fst no) 0
               else Value (fst (snd (snd no)))) (\<lambda>a. Value (mine, a)))"

definition entry_row :: "site \<Rightarrow> nat \<times> output_tuple \<Rightarrow> bool \<times> u64 \<Rightarrow> json" where
  "entry_row S no e = my_output_row S (fst (snd no)) (snd e) (fst e) (fst no)"

definition own_sum :: "(bool \<times> u64) list \<Rightarrow> u64" where
  "own_sum es = sum_list (map snd (filter fst es))"

lemma my_output_rows_entries:
  "my_output_rows S W G tx txd spend d ds outs n rows s = Value (rows', s') \<Longrightarrow>
    \<exists>es. list_all2 (\<lambda>no e. out_entry S W G tx txd spend d ds no = Value e) (enumerate n outs) es
      \<and> rows' = rows @ map2 (entry_row S) (enumerate n outs) es \<and> s' = s + own_sum es"
proof (induction outs arbitrary: n rows s)
  case Nil
  then show ?case by (auto simp: own_sum_def)
next
  case (Cons out outs)
  obtain key plain tag where out: "out = (key, plain, tag)" by (metis prod_cases3)
  obtain mine d' where m: "match_output W txd spend d ds n key = (mine, d')" by fastforce
  from Cons.prems obtain a where
    a: "(if mine \<and> hidden_amount (st_lib S) tx then decoded_amount W G tx d' n 0 else Value plain) = Value a"
    and run: "my_output_rows S W G tx txd spend d ds outs (Suc n) (rows @ [my_output_row S key a mine n]) (if mine then s + a else s)
      = Value (rows', s')"
    by (auto simp: out m)
  from Cons.IH [OF run] obtain es where
    es: "list_all2 (\<lambda>no e. out_entry S W G tx txd spend d ds no = Value e) (enumerate (Suc n) outs) es"
      "rows' = (rows @ [my_output_row S key a mine n]) @ map2 (entry_row S) (enumerate (Suc n) outs) es"
      "s' = (if mine then s + a else s) + own_sum es" by blast
  have "out_entry S W G tx txd spend d ds (n, out) = Value (mine, a)" using a by (auto simp: out_entry_def out m split: if_splits)
  then show ?case
    using es by (intro exI [of _ "(mine, a) # es"]) (auto simp: out entry_row_def own_sum_def add.assoc)
qed

lemma my_outputs_head_lacks:
  "map_of (my_outputs_head S W G v now h a p txh r pub key txd) ''outputs'' = None"
  "map_of (my_outputs_head S W G v now h a p txh r pub key txd) ''sum_xmr'' = None"
  "map_of (my_outputs_head S W G v now h a p txh r pub key txd) ''found_our_outputs'' = None"
  by (simp_all add: my_outputs_head_def Let_def)

lemma my_arguments_plain [plain]: "plain_answers (my_arguments S W G h a k p)"
  unfolding my_arguments_def by (intro plain)

lemma my_outputs_tx_plain [plain]: "plain_answers (my_outputs_tx G v ms raw h txh)"
  unfolding my_outputs_tx_def by (auto intro!: plain split: option.splits list.splits)

lemma my_derivations_plain [plain]: "plain_answers (my_derivations W p a keys key txd)"
  unfolding my_derivations_def Let_def by (intro plain)

lemma decoded_amount_plain [plain]: "plain_answers (decoded_amount W G tx d n a)"
  unfolding decoded_amount_def by (intro plain)

lemma my_output_rows_plain [plain]: "plain_answers (my_output_rows S W G tx txd spend d ds outs n rows s)"
proof (induction outs arbitrary: n rows s)
  case (Cons out outs)
  show ?case by (cases out) (simp only: my_output_rows.simps, intro plain Cons.IH)
qed (simp add: plain)

lemma member_output_plain [plain]:
  "plain_answers (member_output S W G spend h amt rk mtx d ds m i out st)"
proof -
  have "plain_answers du \<Longrightarrow> plain_answers (member_amount S W G mtx mine du out)" for mine du
    unfolding member_amount_def by (intro plain)
  moreover have "member_match W spend d ds m i out = Value (mine, du) \<Longrightarrow> plain_answers du" for mine du
    by (auto simp: member_match_def plain Let_def split: prod.splits if_splits)
  moreover have "plain_answers (member_match W spend d ds m i out)"
    unfolding member_match_def Let_def by (intro plain)
  ultimately show ?thesis
    unfolding member_output_def Let_def by (intro plain_obind_Value) (auto intro!: plain_obind_Value plain split: prod.splits)
qed

lemma guess_ring_plain [plain]: "plain_answers (guess_ring S W G v spend key h i amt outs offs n m rows g)"
proof (induction offs arbitrary: n m rows g)
  case (Cons off offs)
  show ?case unfolding guess_ring.simps Let_def by (intro plain Cons.IH)
qed (simp add: plain)

lemma guess_inputs_plain [plain]: "plain_answers (guess_inputs S W G v spend key h i ks rows g)"
proof (induction ks arbitrary: rows g)
  case (Cons k ks)
  show ?case unfolding guess_inputs.simps Let_def by (intro plain Cons.IH)
qed (simp add: plain)

lemma guess_context_plain [plain]: "plain_answers (guess_context S W G v spend key h tx txd s)"
  unfolding guess_context_def by (intro plain)

text \<open>The parts of a page that was shown.\<close>

lemma my_outputs_page_parts:
  assumes "my_outputs_page S W G v ms now h a k raw p = Value (Rendered t ctx)"
  shows "\<exists>tx txd spend d ds outputs sum_xmr txh received pub key guessed.
    get_tx_details (st_lib S) v tx False 0 0 = Inr txd
    \<and> my_output_rows S W G tx txd spend d ds (td_output_pub_keys txd) 0 [] 0 = Value (outputs, sum_xmr)
    \<and> guess_context S W G v spend key h tx txd sum_xmr = Value guessed
    \<and> ctx = add_page_assets S (JObj (my_outputs_head S W G v now h a p txh received pub key txd
        @ [(''outputs'', JArr outputs), (''found_our_outputs'', JBool (0 < sum_xmr)), (''sum_xmr'', JStr (shown_amount S sum_xmr))] @ guessed))"
  using assms unfolding my_outputs_page_def Let_def case_prod_beta obind_Value of_db_Value outcome.inject html.inject
  apply (elim exE conjE)
  subgoal for x xa xb xc xd xe
    by (rule exI [of _ "fst xa"], rule exI [of _ xb], rule exI [of _ "wa_spend_public (fst (snd x))"], rule exI [of _ "fst xc"],
        rule exI [of _ "snd xc"], rule exI [of _ "fst xd"], rule exI [of _ "snd xd"], rule exI [of _ "fst x"], rule exI [of _ "snd xa"],
        rule exI [of _ "if p then wa_view_public (fst (snd x)) else td_pk xb"], rule exI [of _ "snd (snd (snd x))"], rule exI [of _ xe])
       simp
  done

text \<open>
  The page of one's own outputs has a row for every output of the transaction, marked by the
  wallet's test, and its sum is that of the marked rows, over 64-bit words.
\<close>

theorem my_outputs_sum:
  assumes "show_my_outputs S W G v ms now h a k raw p = Value (Rendered t ctx)"
  shows "\<exists>tx txd spend d ds es. get_tx_details (st_lib S) v tx False 0 0 = Inr txd
    \<and> list_all2 (\<lambda>no e. out_entry S W G tx txd spend d ds no = Value e) (enumerate 0 (td_output_pub_keys txd)) es
    \<and> jget ''outputs'' ctx = JArr (map2 (entry_row S) (enumerate 0 (td_output_pub_keys txd)) es)
    \<and> jget ''sum_xmr'' ctx = JStr (shown_amount S (own_sum es)) \<and> jget ''found_our_outputs'' ctx = JBool (own_sum es \<noteq> 0)"
proof -
  have "plain_answers (my_outputs_page S W G v ms now (trim h) (trim a) (trim k) (trim raw) p)"
    unfolding my_outputs_page_def Let_def by (intro plain)
  then have "my_outputs_page S W G v ms now (trim h) (trim a) (trim k) (trim raw) p = Value (Rendered t ctx)"
    using assms by (simp add: show_my_outputs_def returned_page)
  from my_outputs_page_parts [OF this] obtain tx txd spend d ds outputs sum_xmr txh received pub key guessed where
    parts: "get_tx_details (st_lib S) v tx False 0 0 = Inr txd"
      "my_output_rows S W G tx txd spend d ds (td_output_pub_keys txd) 0 [] 0 = Value (outputs, sum_xmr)"
    and ctx: "ctx = add_page_assets S (JObj (my_outputs_head S W G v now (trim h) (trim a) p txh received pub key txd
        @ [(''outputs'', JArr outputs), (''found_our_outputs'', JBool (0 < sum_xmr)), (''sum_xmr'', JStr (shown_amount S sum_xmr))] @ guessed))"
    by blast
  from my_output_rows_entries [OF parts(2)] obtain es where
    es: "list_all2 (\<lambda>no e. out_entry S W G tx txd spend d ds no = Value e) (enumerate 0 (td_output_pub_keys txd)) es"
      "outputs = map2 (entry_row S) (enumerate 0 (td_output_pub_keys txd)) es" "sum_xmr = own_sum es" by auto
  have "jget ''outputs'' ctx = JArr outputs" "jget ''sum_xmr'' ctx = JStr (shown_amount S sum_xmr)"
    "jget ''found_our_outputs'' ctx = JBool (sum_xmr \<noteq> 0)"
    unfolding ctx by (simp_all add: jget_page_assets jget_JObj_append my_outputs_head_lacks word_neq_0_conv)
  then show ?thesis using parts(1) es by blast
qed

section \<open>The guess\<close>

text \<open>
  While the outputs of ring members are searched, the inputs that matched and whether the present one has
  matched move together.
\<close>

definition match_balance :: "nat \<Rightarrow> guess \<Rightarrow> u64" where
  "match_balance matches g = gs_matched g + (if matches = 0 then 1 else 0)"

lemma member_output_balance:
  assumes "member_output S W G spend h amt rk mtx d ds m i out st = Value st'"
  shows "match_balance (mb_matches st') (mb_guess st') = match_balance (mb_matches st) (mb_guess st)"
  using assms by (auto simp: member_output_def count_match_def match_balance_def Let_def case_prod_beta split: if_splits)

lemma member_outputs_balance:
  "ofold (member_output S W G spend h amt rk mtx d ds m i) outs st = Value st' \<Longrightarrow>
     match_balance (mb_matches st') (mb_guess st') = match_balance (mb_matches st) (mb_guess st)"
  by (induction outs arbitrary: st) (auto dest: member_output_balance)

lemma guess_ring_balance:
  "guess_ring S W G v spend key h i amt outs offs n matches rows g = Value (rows', g') \<Longrightarrow>
     \<exists>matches'. match_balance matches' g' = match_balance matches g"
proof (induction offs arbitrary: n matches rows g)
  case (Cons off offs)
  note step = Cons.prems [unfolded guess_ring.simps Let_def]
  from step obtain r where r: "vec_at outs n = Value r" by (auto simp del: vec_at_Value)
  note step = step [unfolded r obind.simps case_prod_beta]
  show ?case
  proof (cases "output_tx_and_index v amt off")
    case None
    with step show ?thesis by auto
  next
    case (Some t)
    note step = step [unfolded Some option.case]
    from step obtain found where f: "micro_get_tx (pv_chain v) (fst t) = Inr found" by auto
    show ?thesis
    proof (cases found)
      case None
      with step f show ?thesis by (auto simp: of_db_def)
    next
      case mtx: (Some mtx)
      let ?pk = "get_tx_pub_key_from_received_outs (extra_pub_keys (st_lib S)) mtx"
      show ?thesis
      proof (cases "wc_derivation W ?pk key")
        case None
        with step f mtx Cons.IH show ?thesis by (simp add: of_db_def)
      next
        case (Some d)
        note step = step [unfolded f mtx Some of_db_def sum.case obind.simps option.case obind_Value]
        from step obtain st where
          st: "ofold (member_output S W G spend h amt (fst r) mtx d (additional_derivations W G key (additional_tx_pub_keys (st_lib S) mtx))
                 (length (get_ouputs_tuple (pl_core (st_lib S)) mtx)) i) (get_ouputs_tuple (pl_core (st_lib S)) mtx)
                 \<lparr>mb_found = [], mb_something = False, mb_matches = matches, mb_ringct = 0, mb_guess = g\<rparr> = Value st"
          and run: "\<exists>rows1 possible. guess_ring S W G v spend key h i amt outs offs (n + 1) (mb_matches st) rows1
                 (mb_guess st\<lparr>gs_possible := possible\<rparr>) = Value (rows', g')"
          by blast
        from run Cons.IH obtain matches' possible where
          "match_balance matches' g' = match_balance (mb_matches st) (mb_guess st\<lparr>gs_possible := possible\<rparr>)" by blast
        moreover have "match_balance k (g1\<lparr>gs_possible := possible\<rparr>) = match_balance k g1" for k g1 by (simp add: match_balance_def)
        moreover from member_outputs_balance [OF st] have "match_balance (mb_matches st) (mb_guess st) = match_balance matches g" by simp
        ultimately show ?thesis by metis
      qed
    qed
  qed
qed auto

lemma guess_inputs_matched:
  "guess_inputs S W G v spend key h i ks rows g = Value (rows', g') \<Longrightarrow> \<exists>m \<le> length rows. gs_matched g = of_nat m \<Longrightarrow>
     \<exists>m \<le> length rows'. gs_matched g' = of_nat m"
proof (induction ks arbitrary: rows g)
  case (Cons k ks)
  let ?offs = "absolute_output_offsets (st_lib S) (key_offsets k)"
  show ?case
  proof (cases "if are_absolute_offsets_good v ?offs k then output_keys v (in_amount k) ?offs else None")
    case None
    with Cons show ?thesis by (simp add: Let_def)
  next
    case (Some outs)
    from Cons.prems(1) Some obtain mixins g1 row where
      ring: "guess_ring S W G v spend key h i (in_amount k) outs ?offs 0 0 [] g = Value (mixins, g1)"
      and run: "guess_inputs S W G v spend key h i ks (rows @ [row]) g1 = Value (rows', g')"
      by (auto simp: Let_def)
    from guess_ring_balance [OF ring] obtain matches' where
      "match_balance matches' g1 = gs_matched g + 1" by (auto simp: match_balance_def)
    then have "gs_matched g1 = gs_matched g \<or> gs_matched g1 = gs_matched g + 1"
      by (auto simp: match_balance_def split: if_splits)
    moreover from Cons.prems(2) obtain m where "m \<le> length rows" "gs_matched g = of_nat m" by blast
    ultimately have "\<exists>m \<le> length (rows @ [row]). gs_matched g1 = of_nat m"
      by (auto intro: exI [of _ m] exI [of _ "Suc m"])
    from Cons.IH [OF run this] show ?thesis .
  qed
qed auto

text \<open>
  An input counts at most once: the number of matches never exceeds the number of inputs shown, so
  that a spending is guessed only when every one of them has a match.
\<close>

theorem guess_counts_inputs_once:
  assumes "guess_inputs S W G v spend key h i ks [] \<lparr>gs_show = False, gs_sum = 0, gs_matched = 0, gs_possible = []\<rparr> = Value (rows, g)"
  shows "unat (gs_matched g) \<le> length rows
    \<and> (possible_spending (gs_sum g) s fee (gs_matched g) (length rows) \<noteq> 0 \<longrightarrow> unat (gs_matched g) = length rows)"
proof -
  from guess_inputs_matched [OF assms] obtain m where "m \<le> length rows" "gs_matched g = of_nat m" by auto
  moreover have "unat (of_nat m :: u64) \<le> m" by (simp add: unat_of_nat)
  ultimately show ?thesis by (auto simp: possible_spending_def split: if_splits)
qed

text \<open>The amount of a guessed spending is exact when receipts and fee do not overflow.\<close>

lemma possible_spending_exact:
  assumes "unat s + unat fee < 2 ^ 64" "possible_spending x s fee m n \<noteq> 0"
  shows "unat (possible_spending x s fee m n) + unat s + unat fee = unat x"
proof -
  from assms(2) have p: "possible_spending x s fee m n = x - s - fee" and lt: "s + fee < x"
    by (auto simp: possible_spending_def split: if_splits)
  have "unat (s + fee) = unat s + unat fee" using assms(1) by (simp add: unat_add_no_overflow)
  moreover have "unat (x - (s + fee)) = unat x - unat (s + fee)" using lt by (simp add: unat_sub)
  ultimately show ?thesis using lt by (simp add: p word_less_nat_alt diff_diff_eq)
qed

text \<open>
  Where the additional keys of a ring member's transaction decide, the hidden amount is decoded with the
  derivation at the number of outputs of the transaction of the page, not with the one that matched; a
  transaction with at least as many outputs as the ring member's makes the code read past the derivations.
\<close>

theorem guess_uses_other_derivation:
  assumes "key \<noteq> wc_derive_public_key W derivation (unat i) spend" "length additional = m" "unat i < m"
    and "key = wc_derive_public_key W (additional ! unat i) (unat i) spend" "hidden_amount (st_lib S) mtx"
  shows "output_idx < m \<Longrightarrow> \<exists>du. member_match W spend derivation additional m output_idx (key, a, i) = Value (True, du)
      \<and> member_amount S W G mtx True du (key, a, i) = decoded_amount W G mtx (additional ! output_idx) (unat i) a"
    and "m \<le> output_idx \<Longrightarrow> member_output S W G spend h amt rk mtx derivation additional m output_idx (key, a, i) st = OutOfBounds"
  using assms by (auto simp: member_match_def member_amount_def member_output_def vec_index_def Let_def)

end
