(* ===== verification/Startup.thy ===== *)
theory Startup
  imports Server
begin

text \<open>
  The program from its options to its end: \<open>main\<close> of \<open>src/main.cpp\<close> around the routes, and the defaults of
  \<open>src/src/CmdLineOptions.cpp\<close>. The theorems show what holds of a server that was started, that
  unusable options leave the chain alone, and the order in which its parts are started and stopped.
\<close>

section \<open>Options\<close>

text \<open>Options with a default always have a value; reading them is Boost's.\<close>

record options =
  op_help :: bool
  op_testnet :: bool
  op_stagenet :: bool
  op_enable_pusher :: bool
  op_enable_randomx :: bool
  op_enable_mixin_details :: bool
  op_enable_json_api :: bool
  op_enable_as_hex :: bool
  op_enable_autorefresh_option :: bool
  op_enable_mixin_guess :: bool
  op_port :: string
  op_bindaddr :: string
  op_testnet_url :: string
  op_stagenet_url :: string
  op_mainnet_url :: string
  op_no_blocks_on_index :: string
  op_mempool_info_timeout :: string
  op_mempool_refresh_time :: string
  op_concurrency :: nat
  op_bc_path :: "string option"
  op_ssl_crt_file :: "string option"
  op_ssl_key_file :: "string option"
  op_daemon_login :: "string option"
  op_daemon_url :: "string option"
  op_derived_data_path :: "string option"
  op_chain_reset_id :: "string option"

definition default_options :: options where
  "default_options = \<lparr>op_help = False, op_testnet = False, op_stagenet = False, op_enable_pusher = False,
     op_enable_randomx = False, op_enable_mixin_details = False, op_enable_json_api = False, op_enable_as_hex = False,
     op_enable_autorefresh_option = False, op_enable_mixin_guess = False, op_port = ''8081'', op_bindaddr = ''0.0.0.0'',
     op_testnet_url = [], op_stagenet_url = [], op_mainnet_url = [], op_no_blocks_on_index = ''10'',
     op_mempool_info_timeout = ''5000'', op_mempool_refresh_time = ''5'', op_concurrency = 0, op_bc_path = None,
     op_ssl_crt_file = None, op_ssl_key_file = None, op_daemon_login = None, op_daemon_url = None,
     op_derived_data_path = None, op_chain_reset_id = None\<rparr>"

text \<open>\<open>boost::lexical_cast<uint16_t>\<close>, with the sign as for the wider type.\<close>

definition lexical_cast_u16 :: "string \<Rightarrow> 16 word option" where
  "lexical_cast_u16 s =
     (let signed = (s \<noteq> [] \<and> (hd s = CHR ''+'' \<or> hd s = CHR ''-'')); body = (if signed then tl s else s)
      in if body \<noteq> [] \<and> list_all is_digit body \<and> dec_value body < 2 ^ 16
         then Some (if s \<noteq> [] \<and> hd s = CHR ''-'' then - of_nat (dec_value body) else of_nat (dec_value body))
         else None)"

section \<open>Starting and stopping\<close>

text \<open>The files, the chain and the outcome of starting the supply index, as the program meets them.\<close>

record start_env =
  sx_exists :: "string \<Rightarrow> bool"
  sx_data_dir :: string
  sx_is_directory :: "string \<Rightarrow> bool"
  sx_opened :: "bool option"
  sx_storage_init :: bool
  sx_micro_core :: micro_core
  sx_index_starts :: "string \<Rightarrow> string \<Rightarrow> network_type \<Rightarrow> bool"

record config =
  cf_nettype :: network_type
  cf_features :: features
  cf_enable_randomx :: bool
  cf_enable_key_image_checker :: bool
  cf_enable_output_key_checker :: bool
  cf_enable_mixin_details :: bool
  cf_enable_mixin_guess :: bool
  cf_port :: "16 word"
  cf_bindaddr :: string
  cf_ssl_files :: "(string \<times> string) option"
  cf_concurrency :: nat
  cf_no_blocks_on_index :: u64
  cf_mempool_info_timeout :: u64
  cf_mempool_refresh_time :: u64
  cf_daemon_url :: string
  cf_login :: "(string \<times> string) option"
  cf_derived_data_path :: string
  cf_chain_reset_id :: string
  cf_urls :: "string \<times> string \<times> string"

text \<open>What the program does to the outside, in order, and how it ends.\<close>

datatype event =
    InitChain string
  | StartIndex string string network_type
  | StartMempool u64
  | Listen "16 word"
  | JoinMempool
  | StopIndex

datatype run = Help | Failure string | Uncaught | Served config

text \<open>Both files are needed for TLS; when both are named they must exist.\<close>

definition ssl_files :: "options \<Rightarrow> start_env \<Rightarrow> string + (string \<times> string) option" where
  "ssl_files Opts X =
     (case (op_ssl_crt_file Opts, op_ssl_key_file Opts) of
        (Some crt, Some key_file) \<Rightarrow>
          if \<not> sx_exists X crt then Inl (''ssl_crt_file path: '' @ crt @ ''does not exist!'')
          else if \<not> sx_exists X key_file then Inl (''ssl_key_file path: '' @ key_file @ ''does not exist!'')
          else Inr (Some (crt, key_file))
      | _ \<Rightarrow> Inr None)"

definition number_or :: "u64 \<Rightarrow> string \<Rightarrow> u64" where
  "number_or d s = (case lexical_cast_u64 s of None \<Rightarrow> d | Some n \<Rightarrow> n)"

text \<open>The settings; RandomX, the key image checker and the output checker are switched off whatever the options say.\<close>

definition config_of ::
    "options \<Rightarrow> network_type \<Rightarrow> 16 word \<Rightarrow> u64 \<Rightarrow> (string \<times> string) option \<Rightarrow> string \<Rightarrow> string \<Rightarrow> string \<Rightarrow> config" where
  "config_of Opts nt port no_blocks ssl daemon_url dir reset_id =
     \<lparr>cf_nettype = nt,
      cf_features = \<lparr>enable_json_api = op_enable_json_api Opts, enable_as_hex = op_enable_as_hex Opts,
                     enable_pusher = op_enable_pusher Opts, enable_autorefresh_option = op_enable_autorefresh_option Opts\<rparr>,
      cf_enable_randomx = False, cf_enable_key_image_checker = False, cf_enable_output_key_checker = False,
      cf_enable_mixin_details = op_enable_mixin_details Opts, cf_enable_mixin_guess = op_enable_mixin_guess Opts,
      cf_port = port, cf_bindaddr = op_bindaddr Opts, cf_ssl_files = ssl, cf_concurrency = op_concurrency Opts,
      cf_no_blocks_on_index = no_blocks, cf_mempool_info_timeout = number_or 5000 (op_mempool_info_timeout Opts),
      cf_mempool_refresh_time = number_or 10 (op_mempool_refresh_time Opts), cf_daemon_url = daemon_url,
      cf_login = map_option daemon_login (op_daemon_login Opts), cf_derived_data_path = dir, cf_chain_reset_id = reset_id,
      cf_urls = (op_testnet_url Opts, op_stagenet_url Opts, op_mainnet_url Opts)\<rparr>"

text \<open>
  From the opened chain on. The server runs until it is stopped; then the thread of the pool is joined and
  the index stopped.
\<close>

definition run_services :: "options \<Rightarrow> start_env \<Rightarrow> network_type \<Rightarrow> 16 word \<Rightarrow> u64 \<Rightarrow> (string \<times> string) option \<Rightarrow> run \<times> event list" where
  "run_services Opts X nt port no_blocks ssl =
     (case (op_daemon_url Opts, op_derived_data_path Opts, op_chain_reset_id Opts) of
        (Some url, Some dir, Some reset_id) \<Rightarrow>
          if \<not> required_options_ok (Some url) (Some dir) (Some reset_id)
          then (Failure ''--daemon-url, --derived-data-path and --chain-reset-id are required'', [])
          else if \<not> sx_index_starts X dir reset_id nt
          then (Failure ''Supply index failed to start'', [StartIndex dir reset_id nt])
          else let c = config_of Opts nt port no_blocks ssl url dir reset_id in
               (Served c, [StartIndex dir reset_id nt, StartMempool (cf_mempool_refresh_time c), Listen port, JoinMempool, StopIndex])
      | _ \<Rightarrow> (Failure ''--daemon-url, --derived-data-path and --chain-reset-id are required'', []))"

definition main_program :: "options \<Rightarrow> start_env \<Rightarrow> run \<times> event list" where
  "main_program Opts X =
     (if op_help Opts then (Help, [])
      else case nettype_of_flags (op_testnet Opts) (op_stagenet Opts) of
        None \<Rightarrow> (Failure ''testnet and stagenet cannot be specified at the same time!'', [])
      | Some nt \<Rightarrow>
      (case (lexical_cast_u16 (op_port Opts), lexical_cast_u64 (op_no_blocks_on_index Opts)) of
        (Some port, Some no_blocks) \<Rightarrow>
        (case ssl_files Opts X of
           Inl msg \<Rightarrow> (Failure msg, [])
         | Inr ssl \<Rightarrow>
         (case get_blockchain_path (sx_data_dir X) (sx_is_directory X) (op_bc_path Opts) nt of
            (False, _) \<Rightarrow> (Failure ''Error getting blockchain path.'', [])
          | (True, path) \<Rightarrow>
            if \<not> fst (init_blockchain (sx_opened X) (sx_storage_init X) path nt (sx_micro_core X) False)
            then (Failure ''Error accessing blockchain.'', [InitChain path])
            else (case run_services Opts X nt port no_blocks ssl of (r, es) \<Rightarrow> (r, InitChain path # es))))
      | _ \<Rightarrow> (Uncaught, [])))"

section \<open>What a started server has\<close>


text \<open>
  A run that does not serve starts nothing but the chain and, last, an index that fails to start; and with
  conflicting networks or numbers that cannot be read not even the chain is opened.
\<close>

theorem failed_start_is_inert:
  assumes "main_program Opts X = (r, es)" "\<And>c. r \<noteq> Served c"
  shows "(es = [] \<or> (\<exists>path. es = [InitChain path]) \<or> (\<exists>path dir reset_id nt. es = [InitChain path, StartIndex dir reset_id nt]
          \<and> \<not> sx_index_starts X dir reset_id nt))
    \<and> (op_testnet Opts \<and> op_stagenet Opts \<or> lexical_cast_u16 (op_port Opts) = None
         \<or> lexical_cast_u64 (op_no_blocks_on_index Opts) = None \<longrightarrow> es = [])"
  using assms
  by (auto simp: main_program_def run_services_def nettype_of_flags_def Let_def
      split: if_splits option.splits prod.splits sum.splits bool.splits)

text \<open>Every index that started is stopped, and nothing happens after that.\<close>

lemma started_index_stopped:
  assumes "main_program Opts X = (r, es)" "StartMempool n \<in> set es"
  shows "last es = StopIndex \<and> (\<exists>c. r = Served c)"
  using assms
  by (auto simp: main_program_def run_services_def Let_def
      split: if_splits option.splits prod.splits sum.splits bool.splits)

text \<open>The port of a text with a minus sign wraps around.\<close>

lemma negative_port: "lexical_cast_u16 ''-1'' = Some 65535"
  by (simp add: lexical_cast_u16_def dec_value_def digit_val_def is_digit_def Let_def)

section \<open>A start\<close>

definition sample_start :: start_env where
  "sample_start = \<lparr>sx_exists = (\<lambda>_. True), sx_data_dir = ''/d'', sx_is_directory = (\<lambda>_. True), sx_opened = Some True,
     sx_storage_init = True, sx_micro_core = \<lparr>blockchain_path = [], mc_nettype = MAINNET\<rparr>, sx_index_starts = (\<lambda>_ _ _. True)\<rparr>"

definition sample_options :: options where
  "sample_options = default_options\<lparr>op_daemon_url := Some ''http'', op_derived_data_path := Some ''/x'', op_chain_reset_id := Some ''r1''\<rparr>"

lemma sample_numbers: "lexical_cast_u16 ''8081'' = Some 8081" "lexical_cast_u64 ''10'' = Some 10" "lexical_cast_u16 ''x'' = None"
  by (simp_all add: lexical_cast_u16_def lexical_cast_u64_def dec_value_def digit_val_def is_digit_def Let_def)

lemma sample_main: "\<exists>c es. main_program sample_options sample_start = (Served c, es)"
proof -
  have "required_options_ok (Some ''http'') (Some ''/x'') (Some ''r1'')"
    by (simp add: required_options_ok_def valid_reset_id_def reset_id_char_def ascii_letter_def is_digit_def)
  then show ?thesis
    by (simp add: main_program_def sample_options_def default_options_def sample_start_def nettype_of_flags_def sample_numbers
        ssl_files_def get_blockchain_path_def init_blockchain_def micro_core_init_def run_services_def Let_def)
qed


theorem failed_start_is_inert_witness:
  "snd (main_program (sample_options\<lparr>op_port := ''x''\<rparr>) sample_start) = []"
proof -
  let ?O = "sample_options\<lparr>op_port := ''x''\<rparr>"
  have port: "lexical_cast_u16 (op_port ?O) = None" by (simp add: sample_numbers)
  have "main_program ?O sample_start = (Uncaught, snd (main_program ?O sample_start))"
    by (simp add: main_program_def port) (simp add: sample_options_def default_options_def nettype_of_flags_def sample_numbers)
  from failed_start_is_inert [OF this] port show ?thesis by simp
qed

end
