(* ===== verification/Randomx_Hash.thy ===== *)
theory Randomx_Hash
  imports Randomx
begin

text \<open>
  The hashing context of RandomX shared by the threads of the server (\<open>src/src/crypto/rx-slow-hash.c\<close>):
  the main data set and its cache, the secondary cache, the three read-write locks in front of
  them and the virtual machines each thread owns. Each C function is a step function over the shared state and
  the state of the running thread, one step per access to shared state; any number of threads interleave.
  RandomX itself (\<open>randomx.h\<close>) is a parameter: the value of its hash under a seed, the bits of its
  flags and the number of items of a data set.
\<close>

unbundle bit_operations_syntax

section \<open>Environment and flags\<close>

type_synonym rx_flags = "32 word"

text \<open>
  What the code takes from \<open>randomx.h\<close> and from the environment: \<open>randomx_get_flags\<close> and the bits of the
  flags, \<open>randomx_dataset_item_count\<close>, the texts of two environment variables (\<open>None\<close> when they are not
  set), and the hash of some data under a seed.
\<close>

record 'h rx_env =
  rx_get_flags :: rx_flags
  flag_large_pages :: rx_flags
  flag_full_mem :: rx_flags
  flag_jit :: rx_flags
  flag_secure :: rx_flags
  rx_item_count :: u64
  env_umask :: "string option"
  env_full_mem :: "string option"
  rx_value :: "string \<Rightarrow> string \<Rightarrow> 'h"

text \<open>
  \<open>strtol(env, &endptr, 0)\<close>: white space, one sign, a prefix that chooses the base, digits, and
  saturation at the limits of \<open>long\<close>; \<open>None\<close> when \<open>endptr\<close> is left at the start of the text.
\<close>

definition base_digit :: "char \<Rightarrow> nat" where
  "base_digit c =
     (let n = of_char c :: nat in
      if 48 \<le> n \<and> n \<le> 57 then n - 48
      else if 97 \<le> n \<and> n \<le> 122 then n - 87
      else if 65 \<le> n \<and> n \<le> 90 then n - 55
      else 36)"

definition in_base :: "nat \<Rightarrow> char \<Rightarrow> bool" where
  "in_base b c \<longleftrightarrow> base_digit c < b"

definition base_value :: "nat \<Rightarrow> string \<Rightarrow> nat" where
  "base_value b s = foldl (\<lambda>acc c. b * acc + base_digit c) 0 s"

definition strtol_digits :: "string \<Rightarrow> nat option" where
  "strtol_digits s =
     (if 2 < length s \<and> s ! 0 = CHR ''0'' \<and> (s ! 1 = CHR ''x'' \<or> s ! 1 = CHR ''X'') \<and> in_base 16 (s ! 2)
      then Some (base_value 16 (takeWhile (in_base 16) (drop 2 s)))
      else if s \<noteq> [] \<and> s ! 0 = CHR ''0'' then Some (base_value 8 (takeWhile (in_base 8) s))
      else if s \<noteq> [] \<and> in_base 10 (s ! 0) then Some (base_value 10 (takeWhile (in_base 10) s))
      else None)"

definition strtol :: "string \<Rightarrow> int option" where
  "strtol s =
     (let rest = dropWhile is_space s;
          signed = (rest \<noteq> [] \<and> (hd rest = CHR ''+'' \<or> hd rest = CHR ''-''));
          neg = (rest \<noteq> [] \<and> hd rest = CHR ''-'')
      in case strtol_digits (if signed then tl rest else rest) of
           None \<Rightarrow> None
         | Some n \<Rightarrow> Some (if neg then max (- (2 ^ 63)) (- int n) else min (2 ^ 63 - 1) (int n)))"

definition disabled_flags :: "'h rx_env \<Rightarrow> rx_flags" where
  "disabled_flags E =
     (case env_umask E of
        None \<Rightarrow> 0
      | Some e \<Rightarrow>
        (case strtol e of
           None \<Rightarrow> 0
         | Some v \<Rightarrow> if 0 \<le> v \<and> v < 2 ^ 31 - 1 then word_of_int v else 0))"

definition enabled_flags :: "'h rx_env \<Rightarrow> rx_flags" where
  "enabled_flags E = rx_get_flags E"

definition usable_flags :: "'h rx_env \<Rightarrow> rx_flags" where
  "usable_flags E = enabled_flags E AND NOT (disabled_flags E)"

text \<open>\<open>hash2hex\<close>: two hexadecimal digits for each byte of a hash.\<close>

definition rx_hex_digit :: "nat \<Rightarrow> char" where
  "rx_hex_digit k = ''0123456789abcdef'' ! k"

definition hash2hex :: "string \<Rightarrow> string" where
  "hash2hex hash =
     concat (map (\<lambda>c. let b = of_char c :: nat in [rx_hex_digit (b div 16), rx_hex_digit (b mod 16)]) hash)"

section \<open>Memory and virtual machines\<close>

text \<open>
  A data set or a cache: no memory yet, memory whose content is not determined (fresh, or in the
  middle of an initialisation), or memory initialised from a seed hash.
\<close>

datatype rx_mem = Null | Undef | Holds string

text \<open>
  What RandomX and the operating system decide at a step: whether an allocation or the creation of a
  virtual machine with some flags succeeds, whether \<open>malloc\<close> and the start of a thread do, and what an unprotected
  comparison yields that races with a writer.
\<close>

record rx_choice =
  ch_alloc :: "rx_flags \<Rightarrow> bool"
  ch_create :: "rx_flags \<Rightarrow> bool"
  ch_malloc :: bool
  ch_spawn :: bool
  ch_race :: bool

definition rx_alloc_dataset :: "'h rx_env \<Rightarrow> rx_choice \<Rightarrow> rx_mem \<Rightarrow> bool \<Rightarrow> rx_mem" where
  "rx_alloc_dataset E c dataset ignore_env =
     (if dataset \<noteq> Null then dataset
      else if disabled_flags E AND flag_full_mem E \<noteq> 0 then Null
      else if \<not> ignore_env \<and> env_full_mem E = None then Null
      else if ch_alloc c ((usable_flags E OR flag_large_pages E) AND NOT (disabled_flags E)) then Undef
      else if ch_alloc c (usable_flags E AND NOT (disabled_flags E)) then Undef
      else Null)"

text \<open>The result \<open>None\<close> of the next functions is \<open>local_abort\<close>: the process ends.\<close>

definition rx_alloc_cache :: "'h rx_env \<Rightarrow> rx_choice \<Rightarrow> rx_mem \<Rightarrow> rx_mem option" where
  "rx_alloc_cache E c cache =
     (if cache \<noteq> Null then Some cache
      else if ch_alloc c ((usable_flags E OR flag_large_pages E) AND NOT (disabled_flags E)) then Some Undef
      else if ch_alloc c (usable_flags E AND NOT (disabled_flags E)) then Some Undef
      else None)"

definition secure_flags :: "'h rx_env \<Rightarrow> 32 word \<Rightarrow> rx_flags" where
  "secure_flags E miner =
     (if usable_flags E AND flag_jit E \<noteq> 0 \<and> miner = 0 then usable_flags E OR flag_secure E else usable_flags E)"

text \<open>A full virtual machine is bound to the only data set there is, so that its presence is all that varies.\<close>

definition rx_init_full_vm :: "'h rx_env \<Rightarrow> rx_choice \<Rightarrow> 32 word \<Rightarrow> rx_mem \<Rightarrow> bool \<Rightarrow> bool" where
  "rx_init_full_vm E c miner dataset vm =
     (if vm \<or> dataset = Null \<or> disabled_flags E AND flag_full_mem E \<noteq> 0 then vm
      else let flags = secure_flags E miner in
        ch_create c ((flags OR flag_large_pages E OR flag_full_mem E) AND NOT (disabled_flags E))
        \<or> ch_create c ((flags OR flag_full_mem E) AND NOT (disabled_flags E)))"

text \<open>A light virtual machine is prepared for the content the cache has when it is set.\<close>

definition rx_init_light_vm ::
  "'h rx_env \<Rightarrow> rx_choice \<Rightarrow> 32 word \<Rightarrow> rx_mem \<Rightarrow> rx_mem option \<Rightarrow> rx_mem option option" where
  "rx_init_light_vm E c miner cache vm =
     (if vm \<noteq> None then Some (Some cache)
      else let flags = secure_flags E miner AND NOT (flag_full_mem E) in
        if ch_create c ((flags OR flag_large_pages E) AND NOT (disabled_flags E)) then Some (Some cache)
        else if ch_create c (flags AND NOT (disabled_flags E)) then Some (Some cache)
        else None)"

text \<open>
  \<open>randomx_calculate_hash\<close>: the hash under the seed whose content the machine reads. A light machine needs
  the content it was prepared for; on any other content the result is not determined (\<open>None\<close>).
\<close>

definition calculate_full :: "'h rx_env \<Rightarrow> rx_mem \<Rightarrow> string \<Rightarrow> 'h option" where
  "calculate_full E dataset dat = (case dataset of Holds s \<Rightarrow> Some (rx_value E s dat) | _ \<Rightarrow> None)"

definition calculate_light :: "'h rx_env \<Rightarrow> rx_mem option \<Rightarrow> rx_mem \<Rightarrow> string \<Rightarrow> 'h option" where
  "calculate_light E vm cache dat =
     (case cache of Holds s \<Rightarrow> if vm = Some (Holds s) then Some (rx_value E s dat) else None | _ \<Rightarrow> None)"

section \<open>Initialising the data set\<close>

text \<open>
  \<open>me_rx_init_dataset\<close> splits the items over threads: 64-bit item counts and thread numbers, but 32-bit
  \<open>delta\<close> and \<open>start\<close> (here \<open>first\<close>).
\<close>

record seedinfo =
  si_start :: u64
  si_count :: u64

definition dataset_threads :: "u64 \<Rightarrow> u64" where
  "dataset_threads max_threads = (if max_threads < 4 then 1 else max_threads - 2)"

fun seed_jobs :: "u64 \<Rightarrow> 32 word \<Rightarrow> nat \<Rightarrow> 32 word \<Rightarrow> seedinfo list" where
  "seed_jobs items delta 0 first = [\<lparr>si_start = ucast first, si_count = items - ucast first\<rparr>]"
| "seed_jobs items delta (Suc n) first =
     \<lparr>si_start = ucast first, si_count = ucast delta\<rparr> # seed_jobs items delta n (first + delta)"

definition dataset_jobs :: "u64 \<Rightarrow> u64 \<Rightarrow> seedinfo list" where
  "dataset_jobs items max_threads =
     (let num_threads = dataset_threads max_threads
      in seed_jobs items (ucast (items div num_threads)) (unat (num_threads - 1)) 0)"

definition job_items :: "seedinfo \<Rightarrow> nat list" where
  "job_items j = [unat (si_start j) ..< unat (si_start j) + unat (si_count j)]"

text \<open>
  The content after all the jobs have run on a cache: that of the cache, when their ranges are within the
  data set and together all of it.
\<close>

definition dataset_after :: "u64 \<Rightarrow> rx_mem \<Rightarrow> seedinfo list \<Rightarrow> rx_mem" where
  "dataset_after items cache jobs = (if concat (map job_items jobs) = [0..<unat items] then cache else Undef)"

section \<open>Threads and shared state\<close>

record rx_shared =
  main_seed :: "string option"
  main_dataset :: rx_mem
  main_cache :: rx_mem
  secondary_seed :: "string option"
  secondary_cache :: rx_mem

text \<open>
  How the process may end: by \<open>local_abort\<close>, or by a null pointer that RandomX follows when the data set
  is initialised from a cache that was never allocated.
\<close>

datatype rx_fault = Local_abort | Null_cache

datatype hash_pc =
    H_test | H_try | H_full_check | H_full_vm | H_full_hash | H_full_unlock bool
  | H_light_lock | H_light_check | H_light_vm | H_light_hash | H_light_unlock bool
  | H_first_test | H_first_lock | H_first_check | H_first_alloc | H_first_init | H_first_fill | H_first_set | H_first_unlock
  | H_read_lock | H_read_check | H_read_vm | H_read_hash | H_read_unlock bool
  | H_slow_lock | H_slow_check | H_slow_init | H_slow_fill | H_slow_set | H_slow_vm | H_slow_hash | H_slow_unlock

datatype seed_pc =
    S_test | S_dataset_lock | S_cache_lock | S_check | S_set | S_dataset_alloc | S_cache_alloc | S_init | S_fill | S_cache_unlock | S_early_unlock

datatype data_pc = D_test | D_lock | D_init | D_fill | D_unlock | D_dataset_unlock

datatype miner_pc = M_set | M_lock | M_check | M_alloc

datatype rx_pc = Idle | Ended | Hash hash_pc | Seed seed_pc | Data data_pc bool | Miner miner_pc

record 'h rx_thread =
  pc :: rx_pc
  arg_seed :: string
  arg_data :: string
  arg_threads :: u64
  arg_miner :: "32 word"
  miner_thread :: "32 word"
  main_vm_full :: bool
  main_vm_light :: "rx_mem option"
  secondary_vm_light :: "rx_mem option"
  result_hash :: "'h option"
  returned :: "(string \<times> string \<times> 'h option) list"

definition fresh_thread :: "'h rx_thread" where
  "fresh_thread =
     \<lparr>pc = Idle, arg_seed = [], arg_data = [], arg_threads = 0, arg_miner = 0, miner_thread = 0,
      main_vm_full = False, main_vm_light = None, secondary_vm_light = None, result_hash = None, returned = []\<rparr>"

text \<open>
  Which lock a thread holds is a function of where it is: \<open>main_dataset_lock\<close>, \<open>main_cache_lock\<close> and
  \<open>secondary_cache_lock\<close>.
\<close>

datatype rx_lock = Dataset_lock | Cache_lock | Secondary_lock

fun hash_reads :: "rx_lock \<Rightarrow> hash_pc \<Rightarrow> bool" where
  "hash_reads Dataset_lock p = (case p of H_full_check \<Rightarrow> True | H_full_vm \<Rightarrow> True | H_full_hash \<Rightarrow> True | H_full_unlock _ \<Rightarrow> True | _ \<Rightarrow> False)"
| "hash_reads Cache_lock p = (case p of H_light_check \<Rightarrow> True | H_light_vm \<Rightarrow> True | H_light_hash \<Rightarrow> True | H_light_unlock _ \<Rightarrow> True | _ \<Rightarrow> False)"
| "hash_reads Secondary_lock p = (case p of H_read_check \<Rightarrow> True | H_read_vm \<Rightarrow> True | H_read_hash \<Rightarrow> True | H_read_unlock _ \<Rightarrow> True | _ \<Rightarrow> False)"

definition hash_writes :: "hash_pc \<Rightarrow> bool" where
  "hash_writes p \<longleftrightarrow>
     p \<in> {H_first_check, H_first_alloc, H_first_init, H_first_fill, H_first_set, H_first_unlock,
          H_slow_check, H_slow_init, H_slow_fill, H_slow_set, H_slow_vm, H_slow_hash, H_slow_unlock}"

fun reads :: "rx_lock \<Rightarrow> rx_pc \<Rightarrow> bool" where
  "reads L (Hash p) = hash_reads L p"
| "reads L (Data p b) = (L = Cache_lock \<and> p \<in> {D_init, D_fill, D_unlock})"
| "reads L _ = False"

fun writes :: "rx_lock \<Rightarrow> rx_pc \<Rightarrow> bool" where
  "writes L (Hash p) = (L = Secondary_lock \<and> hash_writes p)"
| "writes L (Seed p) =
     (L = Dataset_lock \<and> p \<notin> {S_test, S_dataset_lock}
      \<or> L = Cache_lock \<and> p \<in> {S_check, S_set, S_dataset_alloc, S_cache_alloc, S_init, S_fill, S_cache_unlock, S_early_unlock})"
| "writes L (Data p b) = (L = Dataset_lock)"
| "writes L (Miner p) = (L = Dataset_lock \<and> p \<in> {M_check, M_alloc})"
| "writes L _ = False"

text \<open>A lock is given for reading while no other thread writes, for writing while no other thread has it.\<close>

definition can_read :: "rx_lock \<Rightarrow> 'h rx_thread list \<Rightarrow> bool" where
  "can_read L others = list_all (\<lambda>u. \<not> writes L (pc u)) others"

definition can_write :: "rx_lock \<Rightarrow> 'h rx_thread list \<Rightarrow> bool" where
  "can_write L others = list_all (\<lambda>u. \<not> writes L (pc u) \<and> \<not> reads L (pc u)) others"

definition is_main :: "rx_shared \<Rightarrow> string \<Rightarrow> bool" where
  "is_main \<sigma> seedhash \<longleftrightarrow> main_seed \<sigma> = Some seedhash"

definition is_secondary :: "rx_shared \<Rightarrow> string \<Rightarrow> bool" where
  "is_secondary \<sigma> seedhash \<longleftrightarrow> secondary_seed \<sigma> = Some seedhash"

text \<open>Outside the locks the comparison may meet a writer in the middle of its copy.\<close>

definition is_main_unlocked :: "rx_choice \<Rightarrow> 'h rx_thread list \<Rightarrow> rx_shared \<Rightarrow> string \<Rightarrow> bool" where
  "is_main_unlocked c others \<sigma> seedhash = (if can_read Cache_lock others then is_main \<sigma> seedhash else ch_race c)"

text \<open>
  The outcome of a step: the thread waits for a lock, the process ends, or the thread moves on,
  possibly after it started another one.
\<close>

datatype 'h rx_outcome =
    Waits
  | Faults rx_fault
  | Moves rx_shared "'h rx_thread" "'h rx_thread option"

definition goto :: "rx_shared \<Rightarrow> 'h rx_thread \<Rightarrow> rx_pc \<Rightarrow> 'h rx_outcome" where
  "goto \<sigma> t p = Moves \<sigma> (t\<lparr>pc := p\<rparr>) None"

text \<open>The call returns: what it was asked and the content of the result buffer are noted.\<close>

definition hash_return :: "rx_shared \<Rightarrow> 'h rx_thread \<Rightarrow> 'h rx_outcome" where
  "hash_return \<sigma> t =
     Moves \<sigma> (t\<lparr>pc := Idle, returned := (arg_seed t, arg_data t, result_hash t) # returned t\<rparr>) None"

section \<open>The operations\<close>

text \<open>\<open>me_rx_slow_hash\<close>.\<close>

fun hash_step ::
  "hash_pc \<Rightarrow> 'h rx_env \<Rightarrow> rx_choice \<Rightarrow> 'h rx_thread list \<Rightarrow> rx_shared \<Rightarrow> 'h rx_thread \<Rightarrow> 'h rx_outcome" where
  "hash_step H_test E c others \<sigma> t =
     goto \<sigma> t (Hash (if is_main_unlocked c others \<sigma> (arg_seed t) then H_try else H_first_test))"
| "hash_step H_try E c others \<sigma> t =
     goto \<sigma> t (Hash (if main_dataset \<sigma> \<noteq> Null \<and> can_read Dataset_lock others then H_full_check else H_light_lock))"
| "hash_step H_full_check E c others \<sigma> t =
     goto \<sigma> t (Hash (if is_main \<sigma> (arg_seed t) then H_full_vm else H_full_unlock False))"
| "hash_step H_full_vm E c others \<sigma> t =
     (let vm = rx_init_full_vm E c (miner_thread t) (main_dataset \<sigma>) (main_vm_full t)
      in goto \<sigma> (t\<lparr>main_vm_full := vm\<rparr>) (Hash (if vm then H_full_hash else H_full_unlock False)))"
| "hash_step H_full_hash E c others \<sigma> t =
     goto \<sigma> (t\<lparr>result_hash := calculate_full E (main_dataset \<sigma>) (arg_data t)\<rparr>) (Hash (H_full_unlock True))"
| "hash_step (H_full_unlock success) E c others \<sigma> t =
     (if success then hash_return \<sigma> t else goto \<sigma> t (Hash H_first_test))"
| "hash_step H_light_lock E c others \<sigma> t =
     (if can_read Cache_lock others then goto \<sigma> t (Hash H_light_check) else Waits)"
| "hash_step H_light_check E c others \<sigma> t =
     goto \<sigma> t (Hash (if is_main \<sigma> (arg_seed t) then H_light_vm else H_light_unlock False))"
| "hash_step H_light_vm E c others \<sigma> t =
     (case rx_init_light_vm E c (miner_thread t) (main_cache \<sigma>) (main_vm_light t) of
        None \<Rightarrow> Faults Local_abort
      | Some vm \<Rightarrow> goto \<sigma> (t\<lparr>main_vm_light := vm\<rparr>) (Hash H_light_hash))"
| "hash_step H_light_hash E c others \<sigma> t =
     goto \<sigma> (t\<lparr>result_hash := calculate_light E (main_vm_light t) (main_cache \<sigma>) (arg_data t)\<rparr>) (Hash (H_light_unlock True))"
| "hash_step (H_light_unlock success) E c others \<sigma> t =
     (if success then hash_return \<sigma> t else goto \<sigma> t (Hash H_first_test))"
| "hash_step H_first_test E c others \<sigma> t =
     goto \<sigma> t (Hash (if secondary_cache \<sigma> = Null then H_first_lock else H_read_lock))"
| "hash_step H_first_lock E c others \<sigma> t =
     (if can_write Secondary_lock others then goto \<sigma> t (Hash H_first_check) else Waits)"
| "hash_step H_first_check E c others \<sigma> t =
     goto \<sigma> t (Hash (if secondary_cache \<sigma> = Null then H_first_alloc else H_first_unlock))"
| "hash_step H_first_alloc E c others \<sigma> t =
     (case rx_alloc_cache E c (secondary_cache \<sigma>) of
        None \<Rightarrow> Faults Local_abort
      | Some cache \<Rightarrow> goto (\<sigma>\<lparr>secondary_cache := cache\<rparr>) t (Hash H_first_init))"
| "hash_step H_first_init E c others \<sigma> t = goto (\<sigma>\<lparr>secondary_cache := Undef\<rparr>) t (Hash H_first_fill)"
| "hash_step H_first_fill E c others \<sigma> t = goto (\<sigma>\<lparr>secondary_cache := Holds (arg_seed t)\<rparr>) t (Hash H_first_set)"
| "hash_step H_first_set E c others \<sigma> t = goto (\<sigma>\<lparr>secondary_seed := Some (arg_seed t)\<rparr>) t (Hash H_first_unlock)"
| "hash_step H_first_unlock E c others \<sigma> t = goto \<sigma> t (Hash H_read_lock)"
| "hash_step H_read_lock E c others \<sigma> t =
     (if can_read Secondary_lock others then goto \<sigma> t (Hash H_read_check) else Waits)"
| "hash_step H_read_check E c others \<sigma> t =
     goto \<sigma> t (Hash (if is_secondary \<sigma> (arg_seed t) then H_read_vm else H_read_unlock False))"
| "hash_step H_read_vm E c others \<sigma> t =
     (case rx_init_light_vm E c (miner_thread t) (secondary_cache \<sigma>) (secondary_vm_light t) of
        None \<Rightarrow> Faults Local_abort
      | Some vm \<Rightarrow> goto \<sigma> (t\<lparr>secondary_vm_light := vm\<rparr>) (Hash H_read_hash))"
| "hash_step H_read_hash E c others \<sigma> t =
     goto \<sigma> (t\<lparr>result_hash := calculate_light E (secondary_vm_light t) (secondary_cache \<sigma>) (arg_data t)\<rparr>) (Hash (H_read_unlock True))"
| "hash_step (H_read_unlock success) E c others \<sigma> t =
     (if success then hash_return \<sigma> t else goto \<sigma> t (Hash H_slow_lock))"
| "hash_step H_slow_lock E c others \<sigma> t =
     (if can_write Secondary_lock others then goto \<sigma> t (Hash H_slow_check) else Waits)"
| "hash_step H_slow_check E c others \<sigma> t =
     goto \<sigma> t (Hash (if is_secondary \<sigma> (arg_seed t) then H_slow_vm else H_slow_init))"
| "hash_step H_slow_init E c others \<sigma> t =
     (if secondary_cache \<sigma> = Null then Faults Null_cache
      else goto (\<sigma>\<lparr>secondary_cache := Undef\<rparr>) t (Hash H_slow_fill))"
| "hash_step H_slow_fill E c others \<sigma> t = goto (\<sigma>\<lparr>secondary_cache := Holds (arg_seed t)\<rparr>) t (Hash H_slow_set)"
| "hash_step H_slow_set E c others \<sigma> t = goto (\<sigma>\<lparr>secondary_seed := Some (arg_seed t)\<rparr>) t (Hash H_slow_vm)"
| "hash_step H_slow_vm E c others \<sigma> t =
     (case rx_init_light_vm E c (miner_thread t) (secondary_cache \<sigma>) (secondary_vm_light t) of
        None \<Rightarrow> Faults Local_abort
      | Some vm \<Rightarrow> goto \<sigma> (t\<lparr>secondary_vm_light := vm\<rparr>) (Hash H_slow_hash))"
| "hash_step H_slow_hash E c others \<sigma> t =
     goto \<sigma> (t\<lparr>result_hash := calculate_light E (secondary_vm_light t) (secondary_cache \<sigma>) (arg_data t)\<rparr>) (Hash H_slow_unlock)"
| "hash_step H_slow_unlock E c others \<sigma> t = hash_return \<sigma> t"

text \<open>
  \<open>me_rx_set_main_seedhash\<close> (its first step) and the thread it starts, \<open>me_rx_set_main_seedhash_thread\<close>, up to
  the call of \<open>me_rx_init_dataset\<close>.
\<close>

fun seed_step ::
  "seed_pc \<Rightarrow> 'h rx_env \<Rightarrow> rx_choice \<Rightarrow> 'h rx_thread list \<Rightarrow> rx_shared \<Rightarrow> 'h rx_thread \<Rightarrow> 'h rx_outcome" where
  "seed_step S_test E c others \<sigma> t =
     (if is_main_unlocked c others \<sigma> (arg_seed t) then goto \<sigma> t Idle
      else if \<not> ch_malloc c \<or> \<not> ch_spawn c then Faults Local_abort
      else Moves \<sigma> (t\<lparr>pc := Idle\<rparr>)
             (Some (fresh_thread\<lparr>pc := Seed S_dataset_lock, arg_seed := arg_seed t, arg_threads := arg_threads t\<rparr>)))"
| "seed_step S_dataset_lock E c others \<sigma> t =
     (if can_write Dataset_lock others then goto \<sigma> t (Seed S_cache_lock) else Waits)"
| "seed_step S_cache_lock E c others \<sigma> t =
     (if can_write Cache_lock others then goto \<sigma> t (Seed S_check) else Waits)"
| "seed_step S_check E c others \<sigma> t =
     goto \<sigma> t (Seed (if is_main \<sigma> (arg_seed t) then S_early_unlock else S_set))"
| "seed_step S_early_unlock E c others \<sigma> t = goto \<sigma> t (Data D_dataset_unlock True)"
| "seed_step S_set E c others \<sigma> t = goto (\<sigma>\<lparr>main_seed := Some (arg_seed t)\<rparr>) t (Seed S_dataset_alloc)"
| "seed_step S_dataset_alloc E c others \<sigma> t =
     goto (\<sigma>\<lparr>main_dataset := rx_alloc_dataset E c (main_dataset \<sigma>) False\<rparr>) t (Seed S_cache_alloc)"
| "seed_step S_cache_alloc E c others \<sigma> t =
     (case rx_alloc_cache E c (main_cache \<sigma>) of
        None \<Rightarrow> Faults Local_abort
      | Some cache \<Rightarrow> goto (\<sigma>\<lparr>main_cache := cache\<rparr>) t (Seed S_init))"
| "seed_step S_init E c others \<sigma> t = goto (\<sigma>\<lparr>main_cache := Undef\<rparr>) t (Seed S_fill)"
| "seed_step S_fill E c others \<sigma> t = goto (\<sigma>\<lparr>main_cache := Holds (arg_seed t)\<rparr>) t (Seed S_cache_unlock)"
| "seed_step S_cache_unlock E c others \<sigma> t = goto \<sigma> t (Data D_test True)"

text \<open>
  \<open>me_rx_init_dataset\<close> and the release of \<open>main_dataset_lock\<close> after it, in a seed thread (\<open>True\<close>) or in a call
  of \<open>me_rx_set_miner_thread\<close>.
\<close>

fun dataset_step ::
  "data_pc \<Rightarrow> bool \<Rightarrow> 'h rx_env \<Rightarrow> rx_choice \<Rightarrow> 'h rx_thread list \<Rightarrow> rx_shared \<Rightarrow> 'h rx_thread \<Rightarrow> 'h rx_outcome" where
  "dataset_step D_test b E c others \<sigma> t =
     (if main_dataset \<sigma> = Null then goto \<sigma> t (Data D_dataset_unlock b)
      else if \<not> ch_malloc c then Faults Local_abort
      else goto \<sigma> t (Data D_lock b))"
| "dataset_step D_lock b E c others \<sigma> t =
     (if can_read Cache_lock others then goto \<sigma> t (Data D_init b) else Waits)"
| "dataset_step D_init b E c others \<sigma> t =
     (if main_cache \<sigma> = Null then Faults Null_cache
      else if 1 < length (dataset_jobs (rx_item_count E) (arg_threads t)) \<and> \<not> ch_spawn c then Faults Local_abort
      else goto (\<sigma>\<lparr>main_dataset := Undef\<rparr>) t (Data D_fill b))"
| "dataset_step D_fill b E c others \<sigma> t =
     goto (\<sigma>\<lparr>main_dataset := dataset_after (rx_item_count E) (main_cache \<sigma>) (dataset_jobs (rx_item_count E) (arg_threads t))\<rparr>)
       t (Data D_unlock b)"
| "dataset_step D_unlock b E c others \<sigma> t = goto \<sigma> t (Data D_dataset_unlock b)"
| "dataset_step D_dataset_unlock b E c others \<sigma> t = goto \<sigma> t (if b then Ended else Idle)"

text \<open>\<open>me_rx_set_miner_thread\<close>, up to the call of \<open>me_rx_init_dataset\<close>.\<close>

fun miner_step ::
  "miner_pc \<Rightarrow> 'h rx_env \<Rightarrow> rx_choice \<Rightarrow> 'h rx_thread list \<Rightarrow> rx_shared \<Rightarrow> 'h rx_thread \<Rightarrow> 'h rx_outcome" where
  "miner_step M_set E c others \<sigma> t = goto \<sigma> (t\<lparr>miner_thread := arg_miner t\<rparr>) (Miner M_lock)"
| "miner_step M_lock E c others \<sigma> t =
     (if can_write Dataset_lock others then goto \<sigma> t (Miner M_check) else Waits)"
| "miner_step M_check E c others \<sigma> t =
     goto \<sigma> t (if main_dataset \<sigma> \<noteq> Null then Data D_dataset_unlock False else Miner M_alloc)"
| "miner_step M_alloc E c others \<sigma> t =
     goto (\<sigma>\<lparr>main_dataset := rx_alloc_dataset E c (main_dataset \<sigma>) True\<rparr>) t (Data D_test False)"

definition rx_step ::
  "'h rx_env \<Rightarrow> rx_choice \<Rightarrow> 'h rx_thread list \<Rightarrow> rx_shared \<Rightarrow> 'h rx_thread \<Rightarrow> 'h rx_outcome" where
  "rx_step E c others \<sigma> t =
     (case pc t of
        Idle \<Rightarrow> Waits
      | Ended \<Rightarrow> Waits
      | Hash p \<Rightarrow> hash_step p E c others \<sigma> t
      | Seed p \<Rightarrow> seed_step p E c others \<sigma> t
      | Data p b \<Rightarrow> dataset_step p b E c others \<sigma> t
      | Miner p \<Rightarrow> miner_step p E c others \<sigma> t)"

text \<open>The calls a thread makes while it is in none of them; \<open>me_rx_slow_hash_free_state\<close> touches only its own machines.\<close>

datatype rx_call =
    Slow_hash string string
  | Set_main_seedhash string u64
  | Set_miner_thread "32 word" u64
  | Free_state

definition me_rx_slow_hash_free_state :: "'h rx_thread \<Rightarrow> 'h rx_thread" where
  "me_rx_slow_hash_free_state t = t\<lparr>main_vm_full := False, main_vm_light := None, secondary_vm_light := None\<rparr>"

fun rx_enter :: "rx_call \<Rightarrow> 'h rx_thread \<Rightarrow> 'h rx_thread" where
  "rx_enter (Slow_hash s d) t = t\<lparr>pc := Hash H_test, arg_seed := s, arg_data := d, result_hash := None\<rparr>"
| "rx_enter (Set_main_seedhash s n) t = t\<lparr>pc := Seed S_test, arg_seed := s, arg_threads := n\<rparr>"
| "rx_enter (Set_miner_thread v n) t = t\<lparr>pc := Miner M_set, arg_miner := v, arg_threads := n\<rparr>"
| "rx_enter Free_state t = me_rx_slow_hash_free_state t"

record 'h rx_system =
  shared :: rx_shared
  threads :: "'h rx_thread list"
  fault :: "rx_fault option"

datatype rx_event = New_thread | Call nat rx_call | Run nat rx_choice

definition others_of :: "nat \<Rightarrow> 'a list \<Rightarrow> 'a list" where
  "others_of i ts = take i ts @ drop (Suc i) ts"

fun rx_next :: "'h rx_env \<Rightarrow> 'h rx_system \<Rightarrow> rx_event \<Rightarrow> 'h rx_system option" where
  "rx_next E s New_thread = (if fault s = None then Some (s\<lparr>threads := threads s @ [fresh_thread]\<rparr>) else None)"
| "rx_next E s (Call i k) =
     (if fault s = None \<and> i < length (threads s) \<and> pc (threads s ! i) = Idle
      then Some (s\<lparr>threads := (threads s)[i := rx_enter k (threads s ! i)]\<rparr>) else None)"
| "rx_next E s (Run i c) =
     (if fault s = None \<and> i < length (threads s)
      then case rx_step E c (others_of i (threads s)) (shared s) (threads s ! i) of
             Waits \<Rightarrow> None
           | Faults f \<Rightarrow> Some (s\<lparr>fault := Some f\<rparr>)
           | Moves \<sigma> t new \<Rightarrow>
             Some (s\<lparr>shared := \<sigma>, threads := (threads s)[i := t] @ (case new of None \<Rightarrow> [] | Some u \<Rightarrow> [u])\<rparr>)
      else None)"

definition rx_initial :: "'h rx_system" where
  "rx_initial =
     \<lparr>shared = \<lparr>main_seed = None, main_dataset = Null, main_cache = Null, secondary_seed = None, secondary_cache = Null\<rparr>,
      threads = [], fault = None\<rparr>"

definition rx_system_step :: "'h rx_env \<Rightarrow> 'h rx_system \<Rightarrow> 'h rx_system \<Rightarrow> bool" where
  "rx_system_step E s s' \<longleftrightarrow> (\<exists>ev. rx_next E s ev = Some s')"

section \<open>The split of the data set\<close>

lemma job_items_simp: "job_items \<lparr>si_start = a, si_count = b\<rparr> = [unat a ..< unat a + unat b]"
  by (simp add: job_items_def)

lemma upt_join: "i \<le> j \<Longrightarrow> j \<le> k \<Longrightarrow> [i..<j] @ [j..<k] = [i..<k]"
  by (metis le_Suc_ex upt_add_eq_append)

lemma unat_ucast_up: "unat (ucast (w :: 32 word) :: u64) = unat w"
  by (simp add: unsigned_ucast_eq take_bit_nat_eq_self_iff) (rule less_trans [OF unsigned_less], simp)

lemma seed_jobs_tile:
  assumes "unat first + n * unat delta \<le> unat items" "unat items < 2 ^ 32"
  shows "concat (map job_items (seed_jobs items delta n first)) = [unat first ..< unat items]"
  using assms
proof (induction n arbitrary: first)
  case 0
  then have "(ucast first :: u64) \<le> items" by (simp add: word_le_nat_alt unat_ucast_up)
  then have "unat (items - ucast first) = unat items - unat first" by (simp add: unat_sub unat_ucast_up)
  with 0 show ?case by (simp add: job_items_simp unat_ucast_up)
next
  case (Suc n)
  have le: "unat first + unat delta + n * unat delta \<le> unat items" using Suc.prems by simp
  then have sum: "unat (first + delta) = unat first + unat delta"
    using Suc.prems(2) by (intro unat_add_lem [THEN iffD1]) simp
  then have "concat (map job_items (seed_jobs items delta n (first + delta))) = [unat first + unat delta ..< unat items]"
    using Suc.IH [of "first + delta"] le Suc.prems(2) by simp
  moreover have "unat first + unat delta \<le> unat items" using le by simp
  ultimately show ?case by (simp add: job_items_simp unat_ucast_up upt_join)
qed

lemma dataset_threads_pos: "0 < unat (dataset_threads m)"
proof -
  have "dataset_threads m \<noteq> 0"
    by (cases "m < 4") (auto simp: dataset_threads_def dest: arg_cong [of _ _ "\<lambda>x. x + 2"])
  then show ?thesis by (simp add: unat_gt_0)
qed

text \<open>
  The jobs of \<open>me_rx_init_dataset\<close> visit every item of the data set once and in order, whatever number of
  threads is asked for, as long as the item count fits the 32 bits the code computes with.
\<close>

lemma dataset_jobs_tile:
  assumes small: "unat items < 2 ^ 32"
  shows "concat (map job_items (dataset_jobs items m)) = [0..<unat items]"
proof -
  let ?k = "dataset_threads m"
  have pos: "0 < unat ?k" by (rule dataset_threads_pos)
  have div: "unat (items div ?k) = unat items div unat ?k" by (simp add: unat_div)
  have "unat items div unat ?k < 2 ^ 32" using small by (meson div_le_dividend le_less_trans)
  then have delta: "unat (ucast (items div ?k) :: 32 word) = unat items div unat ?k"
    by (simp add: unsigned_ucast_eq take_bit_nat_eq_self_iff div)
  have "unat (?k - 1) = unat ?k - 1" using pos by (simp add: unat_sub word_le_nat_alt Suc_le_eq)
  then have "unat (?k - 1) * (unat items div unat ?k) \<le> unat items"
    by (metis diff_le_self div_times_less_eq_dividend le_trans mult.commute mult_le_mono1)
  then show ?thesis
    using seed_jobs_tile [of 0 "unat (?k - 1)" "ucast (items div ?k)" items] small
    by (simp add: dataset_jobs_def Let_def delta)
qed

section \<open>The invariant\<close>

definition dataset_ok :: "rx_shared \<Rightarrow> bool" where
  "dataset_ok \<sigma> \<longleftrightarrow> (\<forall>s. main_seed \<sigma> = Some s \<longrightarrow> main_dataset \<sigma> = Null \<or> main_dataset \<sigma> = Holds s)"

definition cache_ok :: "rx_shared \<Rightarrow> bool" where
  "cache_ok \<sigma> \<longleftrightarrow> (\<forall>s. main_seed \<sigma> = Some s \<longrightarrow> main_cache \<sigma> = Holds s)"

definition secondary_ok :: "rx_shared \<Rightarrow> bool" where
  "secondary_ok \<sigma> \<longleftrightarrow> (\<forall>s. secondary_seed \<sigma> = Some s \<longrightarrow> secondary_cache \<sigma> = Holds s)"

definition hashed :: "'h rx_env \<Rightarrow> 'h rx_thread \<Rightarrow> bool" where
  "hashed E t \<longleftrightarrow> result_hash t = Some (rx_value E (arg_seed t) (arg_data t))"

text \<open>What a thread knows at each point, kept true by the lock it holds there.\<close>

fun hash_ok :: "hash_pc \<Rightarrow> 'h rx_env \<Rightarrow> rx_shared \<Rightarrow> 'h rx_thread \<Rightarrow> bool" where
  "hash_ok H_full_vm E \<sigma> t = (is_main \<sigma> (arg_seed t) \<and> dataset_ok \<sigma>)"
| "hash_ok H_full_hash E \<sigma> t = (is_main \<sigma> (arg_seed t) \<and> main_vm_full t \<and> dataset_ok \<sigma>)"
| "hash_ok (H_full_unlock b) E \<sigma> t = (b \<longrightarrow> hashed E t)"
| "hash_ok H_light_vm E \<sigma> t = (is_main \<sigma> (arg_seed t) \<and> cache_ok \<sigma>)"
| "hash_ok H_light_hash E \<sigma> t = (is_main \<sigma> (arg_seed t) \<and> main_vm_light t = Some (main_cache \<sigma>) \<and> cache_ok \<sigma>)"
| "hash_ok (H_light_unlock b) E \<sigma> t = (b \<longrightarrow> hashed E t)"
| "hash_ok H_first_check E \<sigma> t = secondary_ok \<sigma>"
| "hash_ok H_first_init E \<sigma> t = (secondary_cache \<sigma> \<noteq> Null)"
| "hash_ok H_first_fill E \<sigma> t = (secondary_cache \<sigma> \<noteq> Null)"
| "hash_ok H_first_set E \<sigma> t = (secondary_cache \<sigma> = Holds (arg_seed t))"
| "hash_ok H_first_unlock E \<sigma> t = (secondary_cache \<sigma> \<noteq> Null \<and> secondary_ok \<sigma>)"
| "hash_ok H_read_lock E \<sigma> t = (secondary_cache \<sigma> \<noteq> Null)"
| "hash_ok H_read_check E \<sigma> t = (secondary_cache \<sigma> \<noteq> Null)"
| "hash_ok H_read_vm E \<sigma> t = (is_secondary \<sigma> (arg_seed t) \<and> secondary_ok \<sigma>)"
| "hash_ok H_read_hash E \<sigma> t =
     (is_secondary \<sigma> (arg_seed t) \<and> secondary_vm_light t = Some (secondary_cache \<sigma>) \<and> secondary_ok \<sigma>)"
| "hash_ok (H_read_unlock b) E \<sigma> t = (if b then hashed E t else secondary_cache \<sigma> \<noteq> Null)"
| "hash_ok H_slow_lock E \<sigma> t = (secondary_cache \<sigma> \<noteq> Null)"
| "hash_ok H_slow_check E \<sigma> t = (secondary_cache \<sigma> \<noteq> Null \<and> secondary_ok \<sigma>)"
| "hash_ok H_slow_init E \<sigma> t = (secondary_cache \<sigma> \<noteq> Null)"
| "hash_ok H_slow_set E \<sigma> t = (secondary_cache \<sigma> = Holds (arg_seed t))"
| "hash_ok H_slow_vm E \<sigma> t = (is_secondary \<sigma> (arg_seed t) \<and> secondary_ok \<sigma>)"
| "hash_ok H_slow_hash E \<sigma> t =
     (is_secondary \<sigma> (arg_seed t) \<and> secondary_vm_light t = Some (secondary_cache \<sigma>) \<and> secondary_ok \<sigma>)"
| "hash_ok H_slow_unlock E \<sigma> t = (hashed E t \<and> secondary_ok \<sigma>)"
| "hash_ok _ E \<sigma> t = True"

fun seed_ok :: "seed_pc \<Rightarrow> rx_shared \<Rightarrow> 'h rx_thread \<Rightarrow> bool" where
  "seed_ok S_cache_lock \<sigma> t = dataset_ok \<sigma>"
| "seed_ok S_check \<sigma> t = (dataset_ok \<sigma> \<and> cache_ok \<sigma>)"
| "seed_ok S_early_unlock \<sigma> t = (dataset_ok \<sigma> \<and> cache_ok \<sigma>)"
| "seed_ok S_dataset_alloc \<sigma> t = (main_seed \<sigma> = Some (arg_seed t))"
| "seed_ok S_cache_alloc \<sigma> t = (main_seed \<sigma> = Some (arg_seed t))"
| "seed_ok S_init \<sigma> t = (main_seed \<sigma> = Some (arg_seed t))"
| "seed_ok S_fill \<sigma> t = (main_seed \<sigma> = Some (arg_seed t))"
| "seed_ok S_cache_unlock \<sigma> t = (main_seed \<sigma> = Some (arg_seed t) \<and> cache_ok \<sigma>)"
| "seed_ok _ \<sigma> t = True"

fun data_ok :: "data_pc \<Rightarrow> rx_shared \<Rightarrow> bool" where
  "data_ok D_init \<sigma> = cache_ok \<sigma>"
| "data_ok D_fill \<sigma> = (cache_ok \<sigma> \<and> main_cache \<sigma> \<noteq> Null)"
| "data_ok D_unlock \<sigma> = dataset_ok \<sigma>"
| "data_ok D_dataset_unlock \<sigma> = dataset_ok \<sigma>"
| "data_ok _ \<sigma> = True"

fun pc_ok :: "rx_pc \<Rightarrow> 'h rx_env \<Rightarrow> rx_shared \<Rightarrow> 'h rx_thread \<Rightarrow> bool" where
  "pc_ok (Hash p) E \<sigma> t = hash_ok p E \<sigma> t"
| "pc_ok (Seed p) E \<sigma> t = seed_ok p \<sigma> t"
| "pc_ok (Data p b) E \<sigma> t = data_ok p \<sigma>"
| "pc_ok (Miner p) E \<sigma> t = (p = M_check \<longrightarrow> dataset_ok \<sigma>)"
| "pc_ok _ E \<sigma> t = True"

definition returned_ok :: "'h rx_env \<Rightarrow> 'h rx_thread \<Rightarrow> bool" where
  "returned_ok E t \<longleftrightarrow> (\<forall>(s, d, h) \<in> set (returned t). h = Some (rx_value E s d))"

definition thread_ok :: "'h rx_env \<Rightarrow> rx_shared \<Rightarrow> 'h rx_thread \<Rightarrow> bool" where
  "thread_ok E \<sigma> t \<longleftrightarrow> pc_ok (pc t) E \<sigma> t \<and> returned_ok E t \<and> (main_vm_full t \<longrightarrow> main_dataset \<sigma> \<noteq> Null)"

text \<open>Two threads never hold a lock together unless both read.\<close>

definition compatible :: "'h rx_thread \<Rightarrow> 'h rx_thread \<Rightarrow> bool" where
  "compatible t u \<longleftrightarrow>
     (\<forall>L. (writes L (pc t) \<longrightarrow> \<not> writes L (pc u) \<and> \<not> reads L (pc u)) \<and> (writes L (pc u) \<longrightarrow> \<not> reads L (pc t)))"

text \<open>What a lock protects is in order while nobody has the lock for writing.\<close>

fun protected_ok :: "rx_lock \<Rightarrow> rx_shared \<Rightarrow> bool" where
  "protected_ok Dataset_lock \<sigma> = dataset_ok \<sigma>"
| "protected_ok Cache_lock \<sigma> = cache_ok \<sigma>"
| "protected_ok Secondary_lock \<sigma> = secondary_ok \<sigma>"

definition rx_inv :: "'h rx_env \<Rightarrow> 'h rx_system \<Rightarrow> bool" where
  "rx_inv E s \<longleftrightarrow>
     (\<forall>t \<in> set (threads s). thread_ok E (shared s) t)
     \<and> sorted_wrt compatible (threads s)
     \<and> (\<forall>L. (\<forall>t \<in> set (threads s). \<not> writes L (pc t)) \<longrightarrow> protected_ok L (shared s))"

section \<open>Frames\<close>

text \<open>A step changes only what a lock the thread has for writing protects, and never takes memory away.\<close>

fun same_protected :: "rx_lock \<Rightarrow> rx_shared \<Rightarrow> rx_shared \<Rightarrow> bool" where
  "same_protected Dataset_lock \<sigma> \<sigma>' = (main_seed \<sigma>' = main_seed \<sigma> \<and> main_dataset \<sigma>' = main_dataset \<sigma>)"
| "same_protected Cache_lock \<sigma> \<sigma>' = (main_seed \<sigma>' = main_seed \<sigma> \<and> main_cache \<sigma>' = main_cache \<sigma>)"
| "same_protected Secondary_lock \<sigma> \<sigma>' = (secondary_seed \<sigma>' = secondary_seed \<sigma> \<and> secondary_cache \<sigma>' = secondary_cache \<sigma>)"

definition keeps_memory :: "rx_shared \<Rightarrow> rx_shared \<Rightarrow> bool" where
  "keeps_memory \<sigma> \<sigma>' \<longleftrightarrow>
     (main_dataset \<sigma> \<noteq> Null \<longrightarrow> main_dataset \<sigma>' \<noteq> Null) \<and> (secondary_cache \<sigma> \<noteq> Null \<longrightarrow> secondary_cache \<sigma>' \<noteq> Null)"

lemmas outcome_defs = goto_def hash_return_def
lemmas ok_defs = dataset_ok_def cache_ok_def secondary_ok_def is_main_def is_secondary_def hashed_def returned_ok_def

lemma rx_alloc_cache_mem: "rx_alloc_cache E c cache = Some m \<Longrightarrow> m \<noteq> Null"
  by (auto simp: rx_alloc_cache_def split: if_splits)

lemma rx_alloc_dataset_keeps: "dataset \<noteq> Null \<Longrightarrow> rx_alloc_dataset E c dataset b = dataset"
  by (simp add: rx_alloc_dataset_def)

lemma rx_init_light_vm_set: "rx_init_light_vm E c m cache vm = Some vm' \<Longrightarrow> vm' = Some cache"
  by (auto simp: rx_init_light_vm_def Let_def split: if_splits)

lemma rx_init_full_vm_mem: "rx_init_full_vm E c m dataset vm \<Longrightarrow> vm \<or> dataset \<noteq> Null"
  by (auto simp: rx_init_full_vm_def split: if_splits)

lemma dataset_after_mem: "cache \<noteq> Null \<Longrightarrow> dataset_after n cache jobs \<noteq> Null"
  by (simp add: dataset_after_def)

lemma step_frame:
  assumes "rx_step E c others \<sigma> t = Moves \<sigma>' t' new" "\<not> writes L (pc t)"
  shows "same_protected L \<sigma> \<sigma>'"
proof (cases "pc t")
  case (Hash p)
  with assms show ?thesis
    by (cases L; cases p) (auto simp: rx_step_def outcome_defs hash_writes_def Let_def split: if_splits option.splits)
next
  case (Seed p)
  with assms show ?thesis
    by (cases L; cases p) (auto simp: rx_step_def outcome_defs split: if_splits option.splits)
next
  case (Data p b)
  with assms show ?thesis
    by (cases L; cases p) (auto simp: rx_step_def outcome_defs split: if_splits option.splits)
next
  case (Miner p)
  with assms show ?thesis
    by (cases L; cases p) (auto simp: rx_step_def outcome_defs split: if_splits option.splits)
qed (use assms in \<open>auto simp: rx_step_def\<close>)

lemma step_keeps_memory:
  assumes "rx_step E c others \<sigma> t = Moves \<sigma>' t' new" "pc_ok (pc t) E \<sigma> t"
  shows "keeps_memory \<sigma> \<sigma>'"
proof (cases "pc t")
  case (Hash p)
  with assms show ?thesis
    by (cases p) (auto simp: rx_step_def outcome_defs keeps_memory_def Let_def split: if_splits option.splits dest: rx_alloc_cache_mem)
next
  case (Seed p)
  with assms show ?thesis
    by (cases p) (auto simp: rx_step_def outcome_defs keeps_memory_def rx_alloc_dataset_keeps split: if_splits option.splits)
next
  case (Data p b)
  with assms show ?thesis
    by (cases p) (auto simp: rx_step_def outcome_defs keeps_memory_def dataset_after_mem split: if_splits option.splits)
next
  case (Miner p)
  with assms show ?thesis
    by (cases p) (auto simp: rx_step_def outcome_defs keeps_memory_def rx_alloc_dataset_keeps split: if_splits option.splits)
qed (use assms in \<open>auto simp: rx_step_def\<close>)

text \<open>What a thread knows stays true while the locks it holds keep the others away.\<close>

lemma pc_ok_stable:
  assumes "pc_ok (pc u) E \<sigma> u" "keeps_memory \<sigma> \<sigma>'"
    and "\<And>L. reads L (pc u) \<or> writes L (pc u) \<Longrightarrow> same_protected L \<sigma> \<sigma>'"
  shows "pc_ok (pc u) E \<sigma>' u"
proof (cases "pc u")
  case (Hash p)
  with assms(1,2) assms(3) [of Dataset_lock] assms(3) [of Cache_lock] assms(3) [of Secondary_lock] show ?thesis
    by (cases p) (auto simp: keeps_memory_def ok_defs hash_writes_def)
next
  case (Seed p)
  with assms(1) assms(3) [of Dataset_lock] assms(3) [of Cache_lock] show ?thesis
    by (cases p) (auto simp: ok_defs)
next
  case (Data p b)
  with assms(1) assms(3) [of Dataset_lock] assms(3) [of Cache_lock] show ?thesis
    by (cases p) (auto simp: ok_defs)
next
  case (Miner p)
  with assms(1) assms(3) [of Dataset_lock] show ?thesis
    by (cases p) (auto simp: ok_defs)
qed simp_all

section \<open>One step\<close>

text \<open>The state seen by one thread: what it knows, and what the locks protect while nobody writes.\<close>

definition seen_ok :: "'h rx_env \<Rightarrow> 'h rx_thread list \<Rightarrow> rx_shared \<Rightarrow> 'h rx_thread \<Rightarrow> bool" where
  "seen_ok E others \<sigma> t \<longleftrightarrow>
     thread_ok E \<sigma> t \<and> (\<forall>u \<in> set others. compatible t u)
     \<and> (\<forall>L. \<not> writes L (pc t) \<and> can_read L others \<longrightarrow> protected_ok L \<sigma>)"

lemma can_write_can_read: "can_write L others \<Longrightarrow> can_read L others"
  by (auto simp: can_write_def can_read_def list_all_iff)

lemma reader_excludes: "\<forall>u \<in> set others. compatible t u \<Longrightarrow> reads L (pc t) \<or> writes L (pc t) \<Longrightarrow> can_read L others"
  by (auto simp: can_read_def compatible_def list_all_iff)

lemma reader_sees:
  assumes "seen_ok E others \<sigma> t" "reads L (pc t)" "\<not> writes L (pc t)"
  shows "protected_ok L \<sigma>"
  using assms reader_excludes [of others t L] by (auto simp: seen_ok_def)

lemma hash_step_ok:
  assumes seen: "seen_ok E others \<sigma> t" and pc: "pc t = Hash p"
    and step: "hash_step p E c others \<sigma> t = Moves \<sigma>' t' new"
  shows "pc_ok (pc t') E \<sigma>' t' \<and> returned_ok E t' \<and> (main_vm_full t' \<longrightarrow> main_vm_full t \<or> main_dataset \<sigma> \<noteq> Null) \<and> new = None"
proof -
  note ok = seen [unfolded seen_ok_def thread_ok_def pc pc_ok.simps]
  have dataset: "reads Dataset_lock (Hash p) \<Longrightarrow> dataset_ok \<sigma>"
    using reader_sees [OF seen, of Dataset_lock] pc by simp
  have cache: "reads Cache_lock (Hash p) \<or> p = H_light_lock \<and> can_read Cache_lock others \<Longrightarrow> cache_ok \<sigma>"
    using reader_sees [OF seen, of Cache_lock] ok pc by (cases "p = H_light_lock") (auto dest: spec [of _ Cache_lock])
  have secondary: "\<not> hash_writes p \<Longrightarrow> reads Secondary_lock (Hash p) \<or> can_read Secondary_lock others \<Longrightarrow> secondary_ok \<sigma>"
    using reader_sees [OF seen, of Secondary_lock] ok pc by (auto dest: spec [of _ Secondary_lock])
  have "hash_ok p E \<sigma> t" "returned_ok E t" "main_vm_full t \<longrightarrow> main_dataset \<sigma> \<noteq> Null" using ok by simp_all
  then show ?thesis
    using step dataset cache secondary
    by (cases p)
      (auto simp: outcome_defs ok_defs Let_def calculate_full_def calculate_light_def hash_writes_def can_write_can_read
        split: if_splits option.splits dest!: rx_init_light_vm_set rx_alloc_cache_mem dest: rx_init_full_vm_mem)
qed


lemma seed_step_ok:
  assumes seen: "seen_ok E others \<sigma> t" and pc: "pc t = Seed p"
    and step: "seed_step p E c others \<sigma> t = Moves \<sigma>' t' new"
  shows "pc_ok (pc t') E \<sigma>' t' \<and> returned t' = returned t \<and> main_vm_full t' = main_vm_full t
    \<and> (\<forall>u. new = Some u \<longrightarrow> pc u = Seed S_dataset_lock \<and> returned u = [] \<and> \<not> main_vm_full u)"
proof -
  note ok = seen [unfolded seen_ok_def thread_ok_def pc pc_ok.simps]
  have dataset: "\<not> writes Dataset_lock (Seed p) \<Longrightarrow> can_read Dataset_lock others \<Longrightarrow> dataset_ok \<sigma>"
    using ok pc by (auto dest: spec [of _ Dataset_lock])
  have cache: "\<not> writes Cache_lock (Seed p) \<Longrightarrow> can_read Cache_lock others \<Longrightarrow> cache_ok \<sigma>"
    using ok pc by (auto dest: spec [of _ Cache_lock])
  show ?thesis
    using ok step dataset cache
    by (cases p)
      (auto simp: outcome_defs ok_defs can_write_can_read fresh_thread_def split: if_splits option.splits)
qed

lemma dataset_step_ok:
  assumes seen: "seen_ok E others \<sigma> t" and pc: "pc t = Data p b"
    and step: "dataset_step p b E c others \<sigma> t = Moves \<sigma>' t' new"
    and small: "unat (rx_item_count E) < 2 ^ 32"
  shows "pc_ok (pc t') E \<sigma>' t' \<and> returned t' = returned t \<and> main_vm_full t' = main_vm_full t \<and> new = None"
proof -
  note ok = seen [unfolded seen_ok_def thread_ok_def pc pc_ok.simps]
  have cache: "can_read Cache_lock others \<Longrightarrow> cache_ok \<sigma>"
    using ok pc by (auto dest: spec [of _ Cache_lock])
  show ?thesis
    using ok step cache
    by (cases p)
      (auto simp: outcome_defs ok_defs dataset_after_def dataset_jobs_tile [OF small] split: if_splits)
qed

lemma miner_step_ok:
  assumes seen: "seen_ok E others \<sigma> t" and pc: "pc t = Miner p"
    and step: "miner_step p E c others \<sigma> t = Moves \<sigma>' t' new"
  shows "pc_ok (pc t') E \<sigma>' t' \<and> returned t' = returned t \<and> main_vm_full t' = main_vm_full t \<and> new = None"
proof -
  note ok = seen [unfolded seen_ok_def thread_ok_def pc pc_ok.simps]
  have dataset: "\<not> writes Dataset_lock (Miner p) \<Longrightarrow> can_read Dataset_lock others \<Longrightarrow> dataset_ok \<sigma>"
    using ok pc by (auto dest: spec [of _ Dataset_lock])
  show ?thesis
    using ok step dataset
    by (cases p) (auto simp: outcome_defs ok_defs can_write_can_read split: if_splits)
qed

lemma step_thread_ok:
  assumes seen: "seen_ok E others \<sigma> t" and step: "rx_step E c others \<sigma> t = Moves \<sigma>' t' new"
    and small: "unat (rx_item_count E) < 2 ^ 32"
  shows "thread_ok E \<sigma>' t'" and "\<forall>u. new = Some u \<longrightarrow> pc u = Seed S_dataset_lock \<and> thread_ok E \<sigma>' u"
proof -
  have keeps: "keeps_memory \<sigma> \<sigma>'"
    using step_keeps_memory [OF step] seen by (simp add: seen_ok_def thread_ok_def)
  have ok: "returned_ok E t" "main_vm_full t \<longrightarrow> main_dataset \<sigma> \<noteq> Null" using seen by (simp_all add: seen_ok_def thread_ok_def)
  have "pc_ok (pc t') E \<sigma>' t' \<and> returned_ok E t' \<and> (main_vm_full t' \<longrightarrow> main_vm_full t \<or> main_dataset \<sigma> \<noteq> Null)
    \<and> (\<forall>u. new = Some u \<longrightarrow> pc u = Seed S_dataset_lock \<and> returned u = [] \<and> \<not> main_vm_full u)"
  proof (cases "pc t")
    case (Hash p)
    then show ?thesis using hash_step_ok [OF seen Hash, of c \<sigma>' t' new] step by (simp add: rx_step_def)
  next
    case (Seed p)
    then show ?thesis using seed_step_ok [OF seen Seed, of c \<sigma>' t' new] step ok by (simp add: rx_step_def returned_ok_def)
  next
    case (Data p b)
    then show ?thesis using dataset_step_ok [OF seen Data _ small, of c \<sigma>' t' new] step ok by (simp add: rx_step_def returned_ok_def)
  next
    case (Miner p)
    then show ?thesis using miner_step_ok [OF seen Miner, of c \<sigma>' t' new] step ok by (simp add: rx_step_def returned_ok_def)
  qed (use step in \<open>simp_all add: rx_step_def\<close>)
  then show "thread_ok E \<sigma>' t'" "\<forall>u. new = Some u \<longrightarrow> pc u = Seed S_dataset_lock \<and> thread_ok E \<sigma>' u"
    using keeps ok by (auto simp: thread_ok_def keeps_memory_def returned_ok_def)
qed

text \<open>Locks: a step takes one only when it is free.\<close>

lemma step_locks:
  assumes "rx_step E c others \<sigma> t = Moves \<sigma>' t' new"
  shows "(writes L (pc t') \<longrightarrow> writes L (pc t) \<or> can_write L others)
    \<and> (reads L (pc t') \<longrightarrow> reads L (pc t) \<or> can_read L others)"
proof (cases "pc t")
  case (Hash p)
  with assms show ?thesis
    by (cases L; cases p) (auto simp: rx_step_def outcome_defs hash_writes_def Let_def split: if_splits option.splits)
next
  case (Seed p)
  with assms show ?thesis
    by (cases L; cases p) (auto simp: rx_step_def outcome_defs split: if_splits option.splits)
next
  case (Data p b)
  with assms show ?thesis
    by (cases L; cases p) (auto simp: rx_step_def outcome_defs split: if_splits option.splits)
next
  case (Miner p)
  with assms show ?thesis
    by (cases L; cases p) (auto simp: rx_step_def outcome_defs split: if_splits option.splits)
qed (use assms in \<open>auto simp: rx_step_def\<close>)

lemma step_compatible:
  assumes "rx_step E c others \<sigma> t = Moves \<sigma>' t' new" "\<forall>u \<in> set others. compatible t u" "u \<in> set others"
  shows "compatible t' u"
  using assms(2,3) step_locks [OF assms(1)]
  by (fastforce simp: compatible_def can_write_def can_read_def list_all_iff)

text \<open>A writer that lets go leaves what the lock protects in order.\<close>

lemma step_release:
  assumes seen: "seen_ok E others \<sigma> t" and step: "rx_step E c others \<sigma> t = Moves \<sigma>' t' new"
    and release: "writes L (pc t)" "\<not> writes L (pc t')"
  shows "protected_ok L \<sigma>'"
proof (cases "pc t")
  case (Hash p)
  with assms show ?thesis
    by (cases L; cases p) (auto simp: rx_step_def outcome_defs hash_writes_def Let_def seen_ok_def thread_ok_def split: if_splits option.splits)
next
  case (Seed p)
  with assms show ?thesis
    by (cases L; cases p) (auto simp: rx_step_def outcome_defs seen_ok_def thread_ok_def split: if_splits option.splits)
next
  case (Data p b)
  with assms show ?thesis
    by (cases L; cases p) (auto simp: rx_step_def outcome_defs seen_ok_def thread_ok_def split: if_splits option.splits)
next
  case (Miner p)
  with assms show ?thesis
    by (cases L; cases p) (auto simp: rx_step_def outcome_defs seen_ok_def thread_ok_def split: if_splits option.splits)
qed (use assms in \<open>auto simp: rx_step_def\<close>)

section \<open>The system\<close>

lemma compatible_sym: "compatible t u \<longleftrightarrow> compatible u t"
  by (auto simp: compatible_def)

lemma rx_inv_focus:
  "rx_inv E \<lparr>shared = \<sigma>, threads = xs @ t # ys, fault = f\<rparr> \<longleftrightarrow>
     seen_ok E (xs @ ys) \<sigma> t \<and> (\<forall>u \<in> set (xs @ ys). thread_ok E \<sigma> u) \<and> sorted_wrt compatible (xs @ ys)"
  unfolding rx_inv_def seen_ok_def can_read_def list_all_iff
  by (auto simp: sorted_wrt_append compatible_sym [where u = t])

lemma rx_inv_append:
  assumes inv: "rx_inv E \<lparr>shared = \<sigma>, threads = ts, fault = f\<rparr>"
    and new: "thread_ok E \<sigma> u" "\<And>L. \<not> writes L (pc u) \<and> \<not> reads L (pc u)"
  shows "rx_inv E \<lparr>shared = \<sigma>, threads = ts @ [u], fault = f\<rparr>"
  using assms by (auto simp: rx_inv_def sorted_wrt_append compatible_def)

lemma thread_ok_stable:
  assumes "thread_ok E \<sigma> u" "keeps_memory \<sigma> \<sigma>'"
    and "\<And>L. reads L (pc u) \<or> writes L (pc u) \<Longrightarrow> same_protected L \<sigma> \<sigma>'"
  shows "thread_ok E \<sigma>' u"
  using assms pc_ok_stable [of u E \<sigma> \<sigma>'] by (auto simp: thread_ok_def keeps_memory_def)

lemma same_protected_ok: "same_protected L \<sigma> \<sigma>' \<Longrightarrow> protected_ok L \<sigma> \<Longrightarrow> protected_ok L \<sigma>'"
  by (cases L) (auto simp: ok_defs)

lemma focus_step:
  assumes inv: "rx_inv E \<lparr>shared = \<sigma>, threads = xs @ t # ys, fault = f\<rparr>"
    and step: "rx_step E c (xs @ ys) \<sigma> t = Moves \<sigma>' t' new"
    and small: "unat (rx_item_count E) < 2 ^ 32"
  shows "rx_inv E \<lparr>shared = \<sigma>', threads = xs @ t' # ys, fault = f'\<rparr>"
proof -
  have seen: "seen_ok E (xs @ ys) \<sigma> t"
    and rest: "\<forall>u \<in> set (xs @ ys). thread_ok E \<sigma> u" "sorted_wrt compatible (xs @ ys)"
    using inv unfolding rx_inv_focus by blast+
  have compat: "\<forall>u \<in> set (xs @ ys). compatible t u" using seen by (simp add: seen_ok_def)
  have keeps: "keeps_memory \<sigma> \<sigma>'" using step_keeps_memory [OF step] seen by (simp add: seen_ok_def thread_ok_def)
  have others: "thread_ok E \<sigma>' u" if "u \<in> set (xs @ ys)" for u
  proof (rule thread_ok_stable [OF rest(1) [rule_format, OF that] keeps])
    fix L assume "reads L (pc u) \<or> writes L (pc u)"
    then have "\<not> writes L (pc t)" using compat that by (auto simp: compatible_def)
    then show "same_protected L \<sigma> \<sigma>'" by (rule step_frame [OF step])
  qed
  have "protected_ok L \<sigma>'" if L: "\<not> writes L (pc t')" "can_read L (xs @ ys)" for L
  proof (cases "writes L (pc t)")
    case True
    then show ?thesis using step_release [OF seen step] L by blast
  next
    case False
    then have "protected_ok L \<sigma>" using seen L by (simp add: seen_ok_def)
    with step_frame [OF step False] show ?thesis by (rule same_protected_ok)
  qed
  then show ?thesis
    using others rest step_thread_ok(1) [OF seen step small] step_compatible [OF step compat]
    by (simp only: rx_inv_focus seen_ok_def) blast
qed

lemma rx_next_keeps:
  assumes inv: "rx_inv E s" and nxt: "rx_next E s ev = Some s'" and small: "unat (rx_item_count E) < 2 ^ 32"
  shows "rx_inv E s'"
proof -
  obtain \<sigma> ts f where s: "s = \<lparr>shared = \<sigma>, threads = ts, fault = f\<rparr>" by (cases s)
  have focus: "ts = take i ts @ ts ! i # drop (Suc i) ts" if "i < length ts" for i by (rule id_take_nth_drop [OF that])
  show ?thesis
  proof (cases ev)
    case New_thread
    have "thread_ok E \<sigma> fresh_thread" by (simp add: thread_ok_def fresh_thread_def returned_ok_def)
    with New_thread inv nxt show ?thesis
      by (auto simp: s fresh_thread_def split: if_splits intro!: rx_inv_append)
  next
    case (Call i k)
    with nxt have i: "i < length ts" "pc (ts ! i) = Idle" and s': "s' = \<lparr>shared = \<sigma>, threads = ts[i := rx_enter k (ts ! i)], fault = f\<rparr>"
      by (auto simp: s split: if_splits)
    have pc: "writes L (pc (rx_enter k t)) = writes L (pc t) \<and> reads L (pc (rx_enter k t)) = reads L (pc t)
      \<and> (thread_ok E \<sigma> t \<longrightarrow> thread_ok E \<sigma> (rx_enter k t))" if "pc t = Idle" for t L
      using that by (cases k; cases L) (auto simp: thread_ok_def returned_ok_def hash_writes_def me_rx_slow_hash_free_state_def)
    have "rx_inv E \<lparr>shared = \<sigma>, threads = take i ts @ rx_enter k (ts ! i) # drop (Suc i) ts, fault = f\<rparr>"
      using inv pc [OF i(2)] by (subst (asm) s, subst (asm) focus [OF i(1)]) (simp add: rx_inv_focus seen_ok_def compatible_def)
    then show ?thesis by (simp add: s' upd_conv_take_nth_drop i)
  next
    case (Run i c)
    with nxt have i: "i < length ts" by (auto simp: s split: if_splits)
    have focused: "rx_inv E \<lparr>shared = \<sigma>, threads = take i ts @ ts ! i # drop (Suc i) ts, fault = f\<rparr>"
      using inv s focus [OF i] by simp
    show ?thesis
    proof (cases "rx_step E c (others_of i ts) \<sigma> (ts ! i)")
      case Waits
      with nxt Run show ?thesis by (simp add: s split: if_splits)
    next
      case (Faults k)
      with nxt Run inv show ?thesis by (auto simp: s rx_inv_def split: if_splits)
    next
      case (Moves \<sigma>' t' new)
      then have step: "rx_step E c (take i ts @ drop (Suc i) ts) \<sigma> (ts ! i) = Moves \<sigma>' t' new" by (simp add: others_of_def)
      have s': "s' = \<lparr>shared = \<sigma>', threads = ts[i := t'] @ (case new of None \<Rightarrow> [] | Some u \<Rightarrow> [u]), fault = f\<rparr>"
        using nxt Run Moves by (auto simp: s split: if_splits)
      have base: "rx_inv E \<lparr>shared = \<sigma>', threads = ts[i := t'], fault = f\<rparr>"
        using focus_step [OF focused step small] i by (simp add: upd_conv_take_nth_drop)
      have "seen_ok E (take i ts @ drop (Suc i) ts) \<sigma> (ts ! i)" using focused by (simp only: rx_inv_focus)
      from step_thread_ok(2) [OF this step small] base show ?thesis
        by (cases new) (auto simp: s' intro!: rx_inv_append)
    qed
  qed
qed

lemma rx_initial_inv: "rx_inv E rx_initial"
proof -
  have "protected_ok L (shared rx_initial)" for L by (cases L) (simp_all add: rx_initial_def ok_defs)
  then show ?thesis by (simp add: rx_inv_def rx_initial_def)
qed

interpretation rx_hashing: invariant_system "rx_system_step E" "\<lambda>s. unat (rx_item_count E) < 2 ^ 32 \<longrightarrow> rx_inv E s" for E
  by unfold_locales (auto simp: rx_system_step_def intro: rx_next_keeps)

text \<open>
  C9. Whatever calls the threads make and however they interleave, every hash that \<open>me_rx_slow_hash\<close> has
  returned is the RandomX hash of its data under the seed it was asked for, although data set, caches
  and seeds are replaced by other threads in the meantime. The data set has fewer than \<open>2 ^ 32\<close> items.
\<close>

theorem rx_hashes_are_right:
  assumes "steps (rx_system_step E) rx_initial s" "unat (rx_item_count E) < 2 ^ 32"
    and "t \<in> set (threads s)" "(seedhash, dat, h) \<in> set (returned t)"
  shows "h = Some (rx_value E seedhash dat)"
proof -
  have "rx_inv E s" using rx_hashing.steps_keep [OF assms(1)] rx_initial_inv assms(2) by blast
  then have "returned_ok E t" using assms(3) by (simp add: rx_inv_def thread_ok_def)
  then show ?thesis using assms(4) by (auto simp: returned_ok_def)
qed

text \<open>A run along a list of events, to evaluate schedules.\<close>

fun rx_execute :: "'h rx_env \<Rightarrow> 'h rx_system \<Rightarrow> rx_event list \<Rightarrow> 'h rx_system option" where
  "rx_execute E s [] = Some s"
| "rx_execute E s (ev # evs) = (case rx_next E s ev of None \<Rightarrow> None | Some s' \<Rightarrow> rx_execute E s' evs)"

lemma rx_execute_steps: "rx_execute E s evs = Some s' \<Longrightarrow> steps (rx_system_step E) s s'"
proof (induction evs arbitrary: s)
  case Nil
  then show ?case by (simp add: steps.stop)
next
  case (Cons ev evs)
  then obtain u where u: "rx_next E s ev = Some u" "rx_execute E u evs = Some s'" by (auto split: option.splits)
  then have "rx_system_step E s u" by (auto simp: rx_system_step_def)
  with Cons.IH [OF u(2)] show ?case by (blast intro: steps_trans steps_single)
qed

definition sample_rx_env :: "string rx_env" where
  "sample_rx_env =
     \<lparr>rx_get_flags = 10, flag_large_pages = 1, flag_full_mem = 4, flag_jit = 8, flag_secure = 16, rx_item_count = 7,
      env_umask = None, env_full_mem = Some ''1'', rx_value = (\<lambda>s d. s @ d)\<rparr>"

definition rx_succeeds :: rx_choice where
  "rx_succeeds = \<lparr>ch_alloc = \<lambda>_. True, ch_create = \<lambda>_. True, ch_malloc = True, ch_spawn = True, ch_race = False\<rparr>"

text \<open>
  Thread 0 sets a seed; the thread it starts (number 2) has filled the cache and still holds the data
  set when thread 1 hashes in light mode; afterwards thread 1 hashes under another seed.
\<close>

definition sample_schedule :: "rx_event list" where
  "sample_schedule =
     [New_thread, New_thread, Call 0 (Set_main_seedhash ''a'' 6), Run 0 rx_succeeds]
     @ replicate 11 (Run 2 rx_succeeds) @ [Call 1 (Slow_hash ''a'' ''x'')] @ replicate 7 (Run 1 rx_succeeds)
     @ [Call 1 (Slow_hash ''b'' ''y'')] @ replicate 14 (Run 1 rx_succeeds) @ replicate 4 (Run 2 rx_succeeds)"

lemma sample_run:
  "map_option (\<lambda>s. (map returned (threads s), main_dataset (shared s), map pc (threads s))) (rx_execute sample_rx_env rx_initial sample_schedule)
   = Some ([[], [(''b'', ''y'', Some ''by''), (''a'', ''x'', Some ''ax'')], []], Holds ''a'', [Idle, Idle, Ended])"
  by code_simp


theorem rx_hashes_are_right_witness:
  "\<exists>s t. steps (rx_system_step sample_rx_env) rx_initial s \<and> t \<in> set (threads s)
     \<and> (''a'', ''x'', Some (rx_value sample_rx_env ''a'' ''x'')) \<in> set (returned t)"
proof -
  obtain s where run: "rx_execute sample_rx_env rx_initial sample_schedule = Some s"
    and ts: "map returned (threads s) = [[], [(''b'', ''y'', Some ''by''), (''a'', ''x'', Some ''ax'')], []]"
    using sample_run by auto
  have reach: "steps (rx_system_step sample_rx_env) rx_initial s" by (rule rx_execute_steps [OF run])
  have len: "1 < length (threads s)" using arg_cong [OF ts, of length] by simp
  then have t: "threads s ! 1 \<in> set (threads s)" by simp
  have "returned (threads s ! 1) = map returned (threads s) ! 1" using len by simp
  then have mem: "(''a'', ''x'', Some ''ax'') \<in> set (returned (threads s ! 1))" by (simp add: ts)
  have small: "unat (rx_item_count sample_rx_env) < 2 ^ 32" by (simp add: sample_rx_env_def)
  have "Some ''ax'' = Some (rx_value sample_rx_env ''a'' ''x'')" by (rule rx_hashes_are_right [OF reach small t mem])
  with reach t mem show ?thesis by metis
qed

section \<open>Every call returns\<close>

text \<open>A bound on the steps a thread still has before it; the thread it may start is counted with it.\<close>

fun hash_left :: "hash_pc \<Rightarrow> nat" where
  "hash_left H_test = 28"
| "hash_left H_try = 27"
| "hash_left H_light_lock = 26"
| "hash_left H_light_check = 25"
| "hash_left H_light_vm = 24"
| "hash_left H_light_hash = 23"
| "hash_left (H_light_unlock b) = 22"
| "hash_left H_full_check = 25"
| "hash_left H_full_vm = 24"
| "hash_left H_full_hash = 23"
| "hash_left (H_full_unlock b) = 22"
| "hash_left H_first_test = 21"
| "hash_left H_first_lock = 20"
| "hash_left H_first_check = 19"
| "hash_left H_first_alloc = 18"
| "hash_left H_first_init = 17"
| "hash_left H_first_fill = 16"
| "hash_left H_first_set = 15"
| "hash_left H_first_unlock = 14"
| "hash_left H_read_lock = 13"
| "hash_left H_read_check = 12"
| "hash_left H_read_vm = 11"
| "hash_left H_read_hash = 10"
| "hash_left (H_read_unlock b) = 9"
| "hash_left H_slow_lock = 8"
| "hash_left H_slow_check = 7"
| "hash_left H_slow_init = 6"
| "hash_left H_slow_fill = 5"
| "hash_left H_slow_set = 4"
| "hash_left H_slow_vm = 3"
| "hash_left H_slow_hash = 2"
| "hash_left H_slow_unlock = 1"

fun data_left :: "data_pc \<Rightarrow> nat" where
  "data_left D_test = 6"
| "data_left D_lock = 5"
| "data_left D_init = 4"
| "data_left D_fill = 3"
| "data_left D_unlock = 2"
| "data_left D_dataset_unlock = 1"

fun seed_left :: "seed_pc \<Rightarrow> nat" where
  "seed_left S_test = 17"
| "seed_left S_dataset_lock = 16"
| "seed_left S_cache_lock = 15"
| "seed_left S_check = 14"
| "seed_left S_set = 13"
| "seed_left S_dataset_alloc = 12"
| "seed_left S_cache_alloc = 11"
| "seed_left S_init = 10"
| "seed_left S_fill = 9"
| "seed_left S_cache_unlock = 8"
| "seed_left S_early_unlock = 2"

fun miner_left :: "miner_pc \<Rightarrow> nat" where
  "miner_left M_set = 10"
| "miner_left M_lock = 9"
| "miner_left M_check = 8"
| "miner_left M_alloc = 7"

fun steps_left :: "rx_pc \<Rightarrow> nat" where
  "steps_left (Hash p) = hash_left p"
| "steps_left (Seed p) = seed_left p"
| "steps_left (Data p b) = data_left p"
| "steps_left (Miner p) = miner_left p"
| "steps_left _ = 0"

definition rx_left :: "'h rx_system \<Rightarrow> nat" where
  "rx_left s = (if fault s = None then Suc (sum_list (map (steps_left \<circ> pc) (threads s))) else 0)"

definition rx_run_step :: "'h rx_env \<Rightarrow> 'h rx_system \<Rightarrow> 'h rx_system \<Rightarrow> bool" where
  "rx_run_step E s s' \<longleftrightarrow> (\<exists>i c. rx_next E s (Run i c) = Some s')"

lemma step_left:
  assumes "rx_step E c others \<sigma> t = Moves \<sigma>' t' new"
  shows "steps_left (pc t') + (case new of None \<Rightarrow> 0 | Some u \<Rightarrow> steps_left (pc u)) < steps_left (pc t)"
proof (cases "pc t")
  case (Hash p)
  with assms show ?thesis
    by (cases p) (auto simp: rx_step_def outcome_defs Let_def split: if_splits option.splits)
next
  case (Seed p)
  with assms show ?thesis
    by (cases p) (auto simp: rx_step_def outcome_defs split: if_splits option.splits)
next
  case (Data p b)
  with assms show ?thesis
    by (cases p) (auto simp: rx_step_def outcome_defs split: if_splits option.splits)
next
  case (Miner p)
  with assms show ?thesis
    by (cases p) (auto simp: rx_step_def outcome_defs split: if_splits option.splits)
qed (use assms in \<open>auto simp: rx_step_def\<close>)

lemma run_step_left:
  assumes "rx_run_step E s s'"
  shows "rx_left s' < rx_left s"
proof -
  obtain i c where nxt: "rx_next E s (Run i c) = Some s'" using assms by (auto simp: rx_run_step_def)
  then have i: "i < length (threads s)" and f: "fault s = None" by (auto split: if_splits)
  show ?thesis
  proof (cases "rx_step E c (others_of i (threads s)) (shared s) (threads s ! i)")
    case (Moves \<sigma> t new)
    have s': "s' = s\<lparr>shared := \<sigma>, threads := (threads s)[i := t] @ (case new of None \<Rightarrow> [] | Some u \<Rightarrow> [u])\<rparr>"
      using nxt Moves i f by simp
    have "sum_list (map (steps_left \<circ> pc) (threads s))
      = sum_list (map (steps_left \<circ> pc) (take i (threads s))) + steps_left (pc (threads s ! i))
        + sum_list (map (steps_left \<circ> pc) (drop (Suc i) (threads s)))"
      by (subst id_take_nth_drop [OF i]) simp
    with step_left [OF Moves] f show ?thesis
      by (cases new) (simp_all add: rx_left_def s' upd_conv_take_nth_drop [OF i])
  qed (use nxt i f in \<open>auto simp: rx_left_def\<close>)
qed

definition waits_for :: "rx_lock \<Rightarrow> rx_pc \<Rightarrow> bool" where
  "waits_for L p \<longleftrightarrow>
     (case L of
        Dataset_lock \<Rightarrow> p = Seed S_dataset_lock \<or> p = Miner M_lock
      | Cache_lock \<Rightarrow> p = Hash H_light_lock \<or> p = Seed S_cache_lock \<or> (\<exists>b. p = Data D_lock b)
      | Secondary_lock \<Rightarrow> p \<in> {Hash H_first_lock, Hash H_read_lock, Hash H_slow_lock})"

lemma moves_or_faults:
  assumes "pc t \<noteq> Idle" "pc t \<noteq> Ended" and free: "\<And>L. waits_for L (pc t) \<Longrightarrow> can_write L others"
  shows "rx_step E c others \<sigma> t \<noteq> Waits"
proof -
  have dataset: "waits_for Dataset_lock (pc t) \<Longrightarrow> can_write Dataset_lock others \<and> can_read Dataset_lock others"
    and cache: "waits_for Cache_lock (pc t) \<Longrightarrow> can_write Cache_lock others \<and> can_read Cache_lock others"
    and secondary: "waits_for Secondary_lock (pc t) \<Longrightarrow> can_write Secondary_lock others \<and> can_read Secondary_lock others"
    by (simp_all add: free can_write_can_read)
  show ?thesis
  proof (cases "pc t")
    case (Hash p)
    with cache secondary show ?thesis
      by (cases p) (simp_all add: rx_step_def outcome_defs Let_def waits_for_def split: option.split)
  next
    case (Seed p)
    with dataset cache show ?thesis
      by (cases p) (simp_all add: rx_step_def outcome_defs waits_for_def split: option.split)
  next
    case (Data p b)
    with cache show ?thesis
      by (cases p) (simp_all add: rx_step_def outcome_defs waits_for_def split: option.split)
  next
    case (Miner p)
    with dataset show ?thesis
      by (cases p) (simp_all add: rx_step_def outcome_defs waits_for_def)
  qed (use assms in simp_all)
qed

text \<open>Who holds a lock waits at most for the cache, and who holds that waits for nothing.\<close>

lemma lock_order:
  "waits_for L p \<Longrightarrow> reads M p \<or> writes M p \<Longrightarrow> L = Cache_lock \<and> M = Dataset_lock"
  by (cases L; cases M) (auto simp: waits_for_def hash_writes_def)


definition lock_held :: "rx_lock \<Rightarrow> 'h rx_system \<Rightarrow> bool" where
  "lock_held L s \<longleftrightarrow> (\<exists>t \<in> set (threads s). reads L (pc t) \<or> writes L (pc t))"

lemma run_possible:
  assumes "fault s = None" "i < length (threads s)" "rx_step E c (others_of i (threads s)) (shared s) (threads s ! i) \<noteq> Waits"
  shows "\<exists>s'. rx_run_step E s s'"
  using assms by (cases "rx_step E c (others_of i (threads s)) (shared s) (threads s ! i)")
    (force simp: rx_run_step_def intro!: exI [of _ i] exI [of _ c])+

lemma thread_can_run:
  assumes "fault s = None" "t \<in> set (threads s)" "pc t \<noteq> Idle" "pc t \<noteq> Ended"
    and free: "\<And>L. waits_for L (pc t) \<Longrightarrow> \<not> lock_held L s"
  shows "\<exists>s'. rx_run_step E s s'"
proof -
  obtain i where i: "i < length (threads s)" "threads s ! i = t" using assms(2) by (auto simp: in_set_conv_nth)
  have "set (others_of i (threads s)) \<subseteq> set (threads s)"
    by (auto simp: others_of_def dest: in_set_takeD in_set_dropD)
  then have "can_write L (others_of i (threads s))" if "waits_for L (pc t)" for L
    using free [OF that] by (auto simp: lock_held_def can_write_def list_all_iff)
  then have "rx_step E rx_succeeds (others_of i (threads s)) (shared s) (threads s ! i) \<noteq> Waits"
    using assms(3,4) i by (intro moves_or_faults) auto
  then show ?thesis using run_possible [OF assms(1) i(1)] by blast
qed

lemma holder_busy: "reads L (pc t) \<or> writes L (pc t) \<Longrightarrow> pc t \<noteq> Idle \<and> pc t \<noteq> Ended"
  by auto

lemma not_stuck:
  assumes f: "fault s = None" and t: "t \<in> set (threads s)" "pc t \<noteq> Idle" "pc t \<noteq> Ended"
  shows "\<exists>s'. rx_run_step E s s'"
proof (cases "\<exists>L. lock_held L s")
  case True
  then obtain L u where u: "u \<in> set (threads s)" "reads L (pc u) \<or> writes L (pc u)"
    and first: "L \<noteq> Dataset_lock \<or> \<not> lock_held Cache_lock s"
    by (cases "lock_held Cache_lock s") (fastforce simp: lock_held_def)+
  have "\<not> lock_held M s" if "waits_for M (pc u)" for M
    using lock_order [OF that u(2)] first by auto
  then show ?thesis using thread_can_run [OF f u(1)] holder_busy [OF u(2)] by blast
next
  case False
  then show ?thesis using thread_can_run [OF f t] by blast
qed


definition started_hash :: "string rx_system" where
  "started_hash = the (rx_execute sample_rx_env rx_initial [New_thread, Call 0 (Slow_hash ''a'' ''x'')])"


section \<open>The explorer's own use\<close>

text \<open>
  The explorer calls \<open>me_rx_slow_hash\<close> (in \<open>me_get_block_longhash\<close>) and \<open>me_rx_slow_hash_free_state\<close>, but nowhere
  \<open>me_rx_set_main_seedhash\<close>.
\<close>

definition sets_no_seed :: "rx_event \<Rightarrow> bool" where
  "sets_no_seed ev = (case ev of Call i (Set_main_seedhash s n) \<Rightarrow> False | _ \<Rightarrow> True)"

definition off_main :: "'h rx_thread \<Rightarrow> bool" where
  "off_main t \<longleftrightarrow>
     \<not> main_vm_full t
     \<and> (case pc t of
          Seed p \<Rightarrow> False
        | Hash p \<Rightarrow> \<not> hash_reads Dataset_lock p \<and> \<not> hash_reads Cache_lock p \<and> p \<notin> {H_try, H_light_lock}
        | _ \<Rightarrow> True)"

definition seedless :: "'h rx_system \<Rightarrow> bool" where
  "seedless s \<longleftrightarrow> main_seed (shared s) = None \<and> (\<forall>t \<in> set (threads s). off_main t)"

lemma off_main_free: "\<forall>u \<in> set others. off_main u \<Longrightarrow> can_read Cache_lock others"
  by (auto simp: can_read_def list_all_iff off_main_def elim!: writes.elims)

lemma off_main_step:
  assumes "rx_step E c others \<sigma> t = Moves \<sigma>' t' new" "off_main t" "\<forall>u \<in> set others. off_main u" "main_seed \<sigma> = None"
  shows "off_main t' \<and> main_seed \<sigma>' = None \<and> new = None"
proof (cases "pc t")
  case (Hash p)
  with assms off_main_free [OF assms(3)] show ?thesis
    by (cases p) (auto simp: rx_step_def outcome_defs off_main_def is_main_unlocked_def is_main_def split: if_splits option.splits)
next
  case (Data p b)
  with assms show ?thesis
    by (cases p) (auto simp: rx_step_def outcome_defs off_main_def split: if_splits)
next
  case (Miner p)
  with assms show ?thesis
    by (cases p) (auto simp: rx_step_def outcome_defs off_main_def split: if_splits)
qed (use assms in \<open>auto simp: rx_step_def off_main_def\<close>)

lemma seedless_next:
  assumes "seedless s" "rx_next E s ev = Some s'" "sets_no_seed ev"
  shows "seedless s'"
proof (cases ev)
  case New_thread
  with assms show ?thesis by (auto simp: seedless_def off_main_def fresh_thread_def split: if_splits)
next
  case (Call i k)
  with assms show ?thesis
    by (cases k)
      (auto simp: seedless_def off_main_def sets_no_seed_def me_rx_slow_hash_free_state_def
        split: if_splits dest!: set_update_subset_insert [THEN subsetD])
next
  case (Run i c)
  then have i: "i < length (threads s)" using assms(2) by (auto split: if_splits)
  have sub: "set (others_of i (threads s)) \<subseteq> set (threads s)"
    by (auto simp: others_of_def dest: in_set_takeD in_set_dropD)
  show ?thesis
  proof (cases "rx_step E c (others_of i (threads s)) (shared s) (threads s ! i)")
    case (Moves \<sigma> t new)
    then have "off_main t \<and> main_seed \<sigma> = None \<and> new = None"
      using off_main_step [OF Moves] assms(1) i sub by (auto simp: seedless_def)
    with assms Run Moves i show ?thesis
      by (auto simp: seedless_def split: if_splits dest!: set_update_subset_insert [THEN subsetD])
  qed (use assms Run in \<open>auto simp: seedless_def split: if_splits\<close>)
qed

lemma full_vm_needs_main_seed:
  assumes "rx_execute E rx_initial evs = Some s" "list_all sets_no_seed evs" "t \<in> set (threads s)"
  shows "\<not> main_vm_full t"
proof -
  have "seedless s'" if "rx_execute E s0 evs = Some s'" "seedless s0" for s0 s'
    using that assms(2) by (induction evs arbitrary: s0) (auto split: option.splits dest: seedless_next)
  then have "seedless s" using assms(1) by (force simp: seedless_def rx_initial_def)
  then show ?thesis using assms(3) by (auto simp: seedless_def off_main_def)
qed

text \<open>
  C11. The page of a block's programs shows none, on any server: as long as nobody sets a main seed, which the
  explorer never does, no thread gets the full virtual machine \<open>get_randomx_code\<close> waits for, whatever the
  threads hash before.
\<close>

theorem randomx_page_shows_no_code:
  assumes "rx_execute E rx_initial evs = Some s" "list_all sets_no_seed evs" "t \<in> set (threads s)"
    and "rx_vm M \<noteq> None \<longleftrightarrow> main_vm_full t"
  shows "get_randomx_code M blk = []"
  using full_vm_needs_main_seed [OF assms(1-3)] assms(4) by (simp add: get_randomx_code_def)

definition idle_machine :: "unit rx_machine" where
  "idle_machine =
     \<lparr>rx_vm = None, rx_hashing_blob = (\<lambda>_. ''blob''), rx_blake2b = (\<lambda>s. s), rx_scratchpad = (\<lambda>_ v. v), rx_run = (\<lambda>_ v. v),
      rx_register_file = (\<lambda>_. []),
      rx_status = (\<lambda>_. \<lparr>rx_code = [], rx_code_asm = [], reg_r = [], reg_f = [], reg_e = [], reg_a = []\<rparr>), rx_program_count = 8\<rparr>"

definition hash_schedule :: "rx_event list" where
  "hash_schedule = [New_thread, Call 0 (Slow_hash ''a'' ''x'')] @ replicate 14 (Run 0 rx_succeeds)"

lemma hash_schedule_run:
  "map_option (\<lambda>s. (map returned (threads s), map main_vm_full (threads s))) (rx_execute sample_rx_env rx_initial hash_schedule)
   = Some ([[(''a'', ''x'', Some ''ax'')]], [False])"
  by code_simp

theorem randomx_page_shows_no_code_witness:
  "(\<exists>s. rx_execute sample_rx_env rx_initial hash_schedule = Some s \<and> map returned (threads s) = [[(''a'', ''x'', Some ''ax'')]])
   \<and> get_randomx_code idle_machine genesis_block = []"
proof -
  obtain s where run: "rx_execute sample_rx_env rx_initial hash_schedule = Some s"
    and ts: "map returned (threads s) = [[(''a'', ''x'', Some ''ax'')]]" "map main_vm_full (threads s) = [False]"
    using hash_schedule_run by auto
  then obtain t where t: "threads s = [t]" "\<not> main_vm_full t" by (auto simp: map_eq_Cons_conv)
  have "list_all sets_no_seed hash_schedule" by (simp add: hash_schedule_def sets_no_seed_def list_all_iff)
  moreover have "t \<in> set (threads s)" "rx_vm idle_machine \<noteq> None \<longleftrightarrow> main_vm_full t" using t by (simp_all add: idle_machine_def)
  ultimately have "get_randomx_code idle_machine genesis_block = []" by (rule randomx_page_shows_no_code [OF run])
  moreover from run ts(1)
  have "\<exists>s. rx_execute sample_rx_env rx_initial hash_schedule = Some s \<and> map returned (threads s) = [[(''a'', ''x'', Some ''ax'')]]"
    by (intro exI [of _ s] conjI)
  ultimately show ?thesis by (intro conjI)
qed

text \<open>
  \<open>me_rx_set_miner_thread\<close> before a seed was set allocates the data set and initialises it from the null
  pointer of the cache.
\<close>

lemma miner_before_seed_faults:
  "map_option fault (rx_execute sample_rx_env rx_initial
     ([New_thread, Call 0 (Set_miner_thread 1 1)] @ replicate 7 (Run 0 rx_succeeds))) = Some (Some Null_cache)"
  by code_simp

lemma hash2hex_length: "length (hash2hex h) = 2 * length h"
  by (induction h) (simp_all add: hash2hex_def Let_def)

section \<open>The hash of a block\<close>

text \<open>
  \<open>me_get_block_longhash\<close> of \<open>src/src/page.h\<close>: it always answers true. What it does about the hash is one of three things: a
  constant for one block, nothing for a block of an older version, and otherwise a call of \<open>me_rx_slow_hash\<close> with the
  arguments below, written as it declares that function (\<open>page.h\<close> declares eight parameters, the first two of them heights,
  where \<open>rx-slow-hash.c\<close> defines four, the first a pointer). \<open>None\<close> for the chain stands for the null pointer.
\<close>

datatype longhash = Longhash_text string | Longhash_unset | Longhash_call u64 u64 hash string

record longhash_core =
  lh_rx_block_version :: "8 word"
  lh_hashing_blob :: "block \<Rightarrow> string"
  lh_lag :: "32 word option"
  lh_blocks :: "32 word option"

record longhash_chain =
  lh_pending_id :: "u64 \<Rightarrow> hash"
  lh_chain_height :: u64

definition me_get_block_longhash :: "longhash_core \<Rightarrow> longhash_chain option \<Rightarrow> block \<Rightarrow> u64 \<Rightarrow> bool \<times> longhash" where
  "me_get_block_longhash K pbc b h =
     (if h = 202612 then (True, Longhash_text ''84f64766475d51837ac9efbef1926486e58563c95a19fef4aec3254f03000000'')
      else if lh_rx_block_version K \<le> major_version b
      then (case pbc of
              Some chain \<Rightarrow>
                let seed_height = me_rx_seedheight (lh_lag K) (lh_blocks K) h
                in (True, Longhash_call (lh_chain_height chain) seed_height (lh_pending_id chain seed_height) (lh_hashing_blob K b))
            | None \<Rightarrow> (True, Longhash_call 0 0 null_hash (lh_hashing_blob K b)))
      else (True, Longhash_unset))"

lemma longhash_unset_iff:
  "snd (me_get_block_longhash K pbc b h) = Longhash_unset \<longleftrightarrow> h \<noteq> 202612 \<and> major_version b < lh_rx_block_version K"
  by (auto simp: me_get_block_longhash_def Let_def not_le not_less split: option.split)

end
