(* ===== verification/Tools_Json.thy ===== *)
theory Tools_Json
  imports Tools Json
begin

text \<open>
  The rest of \<open>src/src/tools.cpp\<close>: the overloads of the sums and summaries that read the JSON of a transaction, as
  text or as a value, and the helpers on dates, keys, files and raw transactions. JSON is that of
  nlohmann 3.12 (\<open>src/ext/json.hpp\<close>): what its operators do with missing members and wrong types is written out.
\<close>

section \<open>Reading JSON\<close>

text \<open>
  The ways a read ends without a value: the exceptions of the library, and a member that is missing in
  a constant object, which is an assertion of the library and undefined without assertions.
\<close>

datatype json_exn = Parse_error | Type_error | Out_of_range | Undefined_member

type_synonym 'a jread = "json_exn + 'a"

fun jbind :: "'a jread \<Rightarrow> ('a \<Rightarrow> 'b jread) \<Rightarrow> 'b jread" where
  "jbind (Inr x) f = f x"
| "jbind (Inl e) f = Inl e"

text \<open>\<open>j[key]\<close>; on a value that is not constant a missing member is added as null.\<close>

fun jmember :: "bool \<Rightarrow> json \<Rightarrow> string \<Rightarrow> json jread" where
  "jmember constant (JObj kvs) k =
     (case map_of kvs k of Some v \<Rightarrow> Inr v | None \<Rightarrow> if constant then Inl Undefined_member else Inr JNull)"
| "jmember constant JNull k = (if constant then Inl Type_error else Inr JNull)"
| "jmember constant _ k = Inl Type_error"

text \<open>\<open>for (auto& x : j)\<close>, \<open>j.size()\<close> and \<open>j.at(0)\<close>.\<close>

fun jrange :: "json \<Rightarrow> json list" where
  "jrange JNull = []"
| "jrange (JArr vs) = vs"
| "jrange (JObj kvs) = map snd kvs"
| "jrange j = [j]"

definition jsize :: "json \<Rightarrow> u64" where
  "jsize j = size_u64 (jrange j)"

fun jfirst :: "json \<Rightarrow> json jread" where
  "jfirst (JArr []) = Inl Out_of_range"
| "jfirst (JArr (v # vs)) = Inr v"
| "jfirst _ = Inl Type_error"

text \<open>\<open>get<uint64_t>()\<close>; the conversion of a floating-point number is a parameter.\<close>

fun jget_u64 :: "(string \<Rightarrow> u64) \<Rightarrow> json \<Rightarrow> u64 jread" where
  "jget_u64 F (JNum n) = Inr (word_of_int n)"
| "jget_u64 F (JFloat t) = Inr (F t)"
| "jget_u64 F _ = Inl Type_error"

text \<open>
  \<open>json::parse\<close> with \<open>catch (std::invalid_argument&)\<close>: the library throws \<open>json::parse_error\<close>, which is not one of those,
  so the handler is never entered and the exception leaves the function. \<open>None\<close> is a text that is not JSON.
\<close>

definition jparse :: "(string \<Rightarrow> json option) \<Rightarrow> string \<Rightarrow> json jread" where
  "jparse P s = (case P s of None \<Rightarrow> Inl Parse_error | Some j \<Rightarrow> Inr j)"

section \<open>Sums and summaries over JSON\<close>

definition vout_amount :: "(string \<Rightarrow> u64) \<Rightarrow> bool \<Rightarrow> json \<Rightarrow> u64 jread" where
  "vout_amount F constant v = jbind (jmember constant v ''amount'') (jget_u64 F)"

definition vin_amount :: "(string \<Rightarrow> u64) \<Rightarrow> bool \<Rightarrow> json \<Rightarrow> u64 jread" where
  "vin_amount F constant v =
     jbind (jmember constant v ''key'') (\<lambda>k. jbind (jmember constant k ''amount'') (jget_u64 F))"

fun json_sum_loop :: "(json \<Rightarrow> u64 jread) \<Rightarrow> json list \<Rightarrow> u64 \<times> u64 \<Rightarrow> (u64 \<times> u64) jread" where
  "json_sum_loop amount [] acc = Inr acc"
| "json_sum_loop amount (v # vs) acc =
     jbind (amount v) (\<lambda>x. json_sum_loop amount vs (fst acc + x, snd acc + 1))"

definition sum_money_in_outputs_json :: "(string \<Rightarrow> u64) \<Rightarrow> json \<Rightarrow> (u64 \<times> u64) jread" where
  "sum_money_in_outputs_json F j =
     jbind (jmember True j ''vout'') (\<lambda>vs. json_sum_loop (vout_amount F True) (jrange vs) (0, 0))"

definition sum_money_in_outputs_text :: "(string \<Rightarrow> json option) \<Rightarrow> (string \<Rightarrow> u64) \<Rightarrow> string \<Rightarrow> (u64 \<times> u64) jread" where
  "sum_money_in_outputs_text P F s =
     jbind (jparse P s) (\<lambda>j. jbind (jmember False j ''vout'') (\<lambda>vs. json_sum_loop (vout_amount F False) (jrange vs) (0, 0)))"

definition sum_money_in_inputs_json :: "(string \<Rightarrow> u64) \<Rightarrow> json \<Rightarrow> (u64 \<times> u64) jread" where
  "sum_money_in_inputs_json F j =
     jbind (jmember True j ''vin'') (\<lambda>vs. json_sum_loop (vin_amount F True) (jrange vs) (0, 0))"

definition sum_money_in_inputs_text :: "(string \<Rightarrow> json option) \<Rightarrow> (string \<Rightarrow> u64) \<Rightarrow> string \<Rightarrow> (u64 \<times> u64) jread" where
  "sum_money_in_inputs_text P F s =
     jbind (jparse P s) (\<lambda>j. jbind (jmember False j ''vin'') (\<lambda>vs. json_sum_loop (vin_amount F False) (jrange vs) (0, 0)))"

fun json_nonrct_loop :: "(json \<Rightarrow> u64 jread) \<Rightarrow> json list \<Rightarrow> u64 \<Rightarrow> u64 jread" where
  "json_nonrct_loop amount [] num = Inr num"
| "json_nonrct_loop amount (v # vs) num =
     jbind (amount v) (\<lambda>x. json_nonrct_loop amount vs (if x \<noteq> 0 then num + 1 else num))"

definition count_nonrct_inputs_json :: "(string \<Rightarrow> u64) \<Rightarrow> json \<Rightarrow> u64 jread" where
  "count_nonrct_inputs_json F j =
     jbind (jmember True j ''vin'') (\<lambda>vs. json_nonrct_loop (vin_amount F True) (jrange vs) 0)"

definition count_nonrct_inputs_text :: "(string \<Rightarrow> json option) \<Rightarrow> (string \<Rightarrow> u64) \<Rightarrow> string \<Rightarrow> u64 jread" where
  "count_nonrct_inputs_text P F s =
     jbind (jparse P s) (\<lambda>j. jbind (jmember False j ''vin'') (\<lambda>vs. json_nonrct_loop (vin_amount F False) (jrange vs) 0))"

text \<open>\<open>j["vin"].at(0)["key"]["key_offsets"].size()\<close>.\<close>

definition first_ring_size :: "bool \<Rightarrow> json \<Rightarrow> u64 jread" where
  "first_ring_size constant j =
     jbind (jmember constant j ''vin'') (\<lambda>vs. jbind (jfirst vs) (\<lambda>v. jbind (jmember constant v ''key'')
       (\<lambda>k. jbind (jmember constant k ''key_offsets'') (\<lambda>ks. Inr (jsize ks)))))"

definition get_mixin_no_json :: "json \<Rightarrow> u64 list jread" where
  "get_mixin_no_json j = jbind (first_ring_size True j) (\<lambda>n. Inr [n])"

definition get_mixin_no_text :: "(string \<Rightarrow> json option) \<Rightarrow> string \<Rightarrow> u64 list jread" where
  "get_mixin_no_text P s = jbind (jparse P s) (\<lambda>j. jbind (first_ring_size False j) (\<lambda>n. Inr [n]))"

record rct_summary =
  rs_outputs :: u64
  rs_inputs :: u64
  rs_no_outputs :: u64
  rs_no_inputs :: u64
  rs_mixin :: u64
  rs_nonrct :: u64

fun json_inputs_loop :: "(string \<Rightarrow> u64) \<Rightarrow> json list \<Rightarrow> u64 \<times> u64 \<Rightarrow> (u64 \<times> u64) jread" where
  "json_inputs_loop F [] acc = Inr acc"
| "json_inputs_loop F (v # vs) acc =
     jbind (vin_amount F True v)
       (\<lambda>x. json_inputs_loop F vs (fst acc + x, if x \<noteq> 0 then snd acc + 1 else snd acc))"

definition summary_of_in_out_rct_json :: "(string \<Rightarrow> u64) \<Rightarrow> json \<Rightarrow> rct_summary jread" where
  "summary_of_in_out_rct_json F j =
     jbind (jmember True j ''vout'') (\<lambda>outs.
     jbind (json_sum_loop (vout_amount F True) (jrange outs) (0, 0)) (\<lambda>out_sum.
     jbind (jmember True j ''vin'') (\<lambda>ins.
     jbind (json_inputs_loop F (jrange ins) (0, 0)) (\<lambda>in_sum.
     jbind (first_ring_size True j) (\<lambda>ring.
       Inr \<lparr>rs_outputs = fst out_sum, rs_inputs = fst in_sum, rs_no_outputs = jsize outs, rs_no_inputs = jsize ins,
            rs_mixin = ring - 1, rs_nonrct = snd in_sum\<rparr>)))))"

section \<open>Agreement with the overloads for transactions\<close>

text \<open>The JSON of a transaction, in the members these functions read (\<open>obj_to_json_str\<close> of the core).\<close>

definition out_doc :: "tx_out \<Rightarrow> json" where
  "out_doc x = JObj [(''amount'', JU64 (out_amount x)), (''target'', JNull)]"

fun in_doc :: "txin_v \<Rightarrow> json" where
  "in_doc (TxinToKey k) =
     JObj [(''key'', JObj [(''amount'', JU64 (in_amount k)), (''key_offsets'', JArr (map JU64 (key_offsets k))), (''k_image'', JStr (k_image k))])]"
| "in_doc TxinGen = JObj [(''gen'', JObj [(''height'', JNum 0)])]"
| "in_doc TxinToScript = JObj [(''script'', JNull)]"
| "in_doc TxinToScripthash = JObj [(''scripthash'', JNull)]"

definition tx_doc :: "transaction \<Rightarrow> json" where
  "tx_doc tx =
     JObj [(''version'', JU64 (tx_version tx)), (''vin'', JArr (map in_doc (vin tx))), (''vout'', JArr (map out_doc (vout tx)))]"

lemma vout_amount_doc [simp]: "vout_amount F b (out_doc x) = Inr (out_amount x)"
  by (simp add: vout_amount_def out_doc_def)

lemma vin_amount_doc [simp]: "vin_amount F b (in_doc (TxinToKey k)) = Inr (in_amount k)"
  by (simp add: vin_amount_def)

lemma vin_amount_no_key: "input_of x = None \<Longrightarrow> vin_amount F True (in_doc x) = Inl Undefined_member \<and> vin_amount F False (in_doc x) = Inl Type_error"
  by (cases x) (simp_all add: vin_amount_def)

lemma tx_doc_members [simp]:
  "jmember b (tx_doc tx) ''vin'' = Inr (JArr (map in_doc (vin tx)))"
  "jmember b (tx_doc tx) ''vout'' = Inr (JArr (map out_doc (vout tx)))"
  by (simp_all add: tx_doc_def)

lemma json_sum_outputs:
  "json_sum_loop (vout_amount F b) (map out_doc xs) (s, n) = Inr (sum_outputs_loop xs s, n + size_u64 xs)"
  by (induction xs arbitrary: s n) (simp_all add: size_u64_def add.assoc)

definition keyed :: "transaction \<Rightarrow> bool" where
  "keyed tx \<longleftrightarrow> (\<forall>x \<in> set (vin tx). input_of x \<noteq> None)"

lemma keyed_inputs: "\<forall>x \<in> set xs. input_of x \<noteq> None \<Longrightarrow> \<exists>ks. xs = map TxinToKey ks"
proof (induction xs)
  case (Cons x xs)
  then obtain ks where "xs = map TxinToKey ks" by auto
  moreover obtain k where "x = TxinToKey k" using Cons.prems by (cases x) auto
  ultimately have "x # xs = map TxinToKey (k # ks)" by simp
  then show ?case by (rule exI [of "\<lambda>ls. x # xs = map TxinToKey ls" "k # ks"])
qed simp

lemma json_sum_inputs:
  "json_sum_loop (vin_amount F b) (map (in_doc \<circ> TxinToKey) ks) (s, n)
   = Inr (sum_inputs_loop (map TxinToKey ks) s, n + size_u64 ks)"
  by (induction ks arbitrary: s n) (simp_all add: size_u64_def add.assoc del: in_doc.simps)

lemma json_nonrct_inputs:
  "json_nonrct_loop (vin_amount F b) (map (in_doc \<circ> TxinToKey) ks) n = Inr (count_nonrct_loop (map TxinToKey ks) n)"
  by (induction ks arbitrary: n) (simp_all del: in_doc.simps)

lemma json_inputs_both:
  "json_inputs_loop F (map (in_doc \<circ> TxinToKey) ks) (s, n)
   = Inr (sum_inputs_loop (map TxinToKey ks) s, count_nonrct_loop (map TxinToKey ks) n)"
  by (induction ks arbitrary: s n) (simp_all del: in_doc.simps)

text \<open>
  On the JSON of a transaction whose inputs all spend keys, the overloads for JSON (text and value) give
  what the overloads for transactions give: the same sums and counts, and the size of the ring of the
  first input. Only the ring size of the summary differs: the one over JSON leaves out one member.
\<close>

theorem json_overloads_agree:
  assumes "keyed tx" "P s = Some (tx_doc tx)"
  shows "sum_money_in_outputs_json F (tx_doc tx) = Inr (sum_money_in_outputs tx, size_u64 (vout tx))
    \<and> sum_money_in_outputs_text P F s = Inr (sum_money_in_outputs tx, size_u64 (vout tx))
    \<and> sum_money_in_inputs_json F (tx_doc tx) = Inr (sum_money_in_inputs tx, size_u64 (vin tx))
    \<and> sum_money_in_inputs_text P F s = Inr (sum_money_in_inputs tx, size_u64 (vin tx))
    \<and> count_nonrct_inputs_json F (tx_doc tx) = Inr (count_nonrct_inputs tx)
    \<and> count_nonrct_inputs_text P F s = Inr (count_nonrct_inputs tx)
    \<and> (\<forall>k ks. vin tx = TxinToKey k # ks \<longrightarrow>
         get_mixin_no_json (tx_doc tx) = Inr [size_u64 (key_offsets k)]
         \<and> get_mixin_no_text P s = Inr [size_u64 (key_offsets k)]
         \<and> summary_of_in_out_rct_json F (tx_doc tx)
             = Inr \<lparr>rs_outputs = sum_money_in_outputs tx, rs_inputs = sum_money_in_inputs tx,
                    rs_no_outputs = size_u64 (vout tx), rs_no_inputs = size_u64 (vin tx),
                    rs_mixin = size_u64 (key_offsets k) - 1, rs_nonrct = count_nonrct_inputs tx\<rparr>)"
proof -
  obtain ks where ks: "vin tx = map TxinToKey ks"
    using keyed_inputs assms(1) by (auto simp: keyed_def)
  have ring: "first_ring_size b (tx_doc tx) = Inr (size_u64 (key_offsets k))" if "vin tx = TxinToKey k # xs" for b k xs
    by (simp add: first_ring_size_def that jsize_def size_u64_def)
  note loops = json_sum_outputs json_sum_inputs json_nonrct_inputs json_inputs_both
  note defs = sum_money_in_outputs_def sum_money_in_inputs_def count_nonrct_inputs_def jparse_def
  have sums: "sum_money_in_outputs_json F (tx_doc tx) = Inr (sum_money_in_outputs tx, size_u64 (vout tx))"
    "sum_money_in_outputs_text P F s = Inr (sum_money_in_outputs tx, size_u64 (vout tx))"
    "sum_money_in_inputs_json F (tx_doc tx) = Inr (sum_money_in_inputs tx, size_u64 (vin tx))"
    "sum_money_in_inputs_text P F s = Inr (sum_money_in_inputs tx, size_u64 (vin tx))"
    "count_nonrct_inputs_json F (tx_doc tx) = Inr (count_nonrct_inputs tx)"
    "count_nonrct_inputs_text P F s = Inr (count_nonrct_inputs tx)"
    using assms(2)
    by (simp_all add: sum_money_in_outputs_json_def sum_money_in_outputs_text_def sum_money_in_inputs_json_def
        sum_money_in_inputs_text_def count_nonrct_inputs_json_def count_nonrct_inputs_text_def defs ks loops size_u64_def del: in_doc.simps)
  have "summary_of_in_out_rct_json F (tx_doc tx)
      = Inr \<lparr>rs_outputs = sum_money_in_outputs tx, rs_inputs = sum_money_in_inputs tx,
             rs_no_outputs = size_u64 (vout tx), rs_no_inputs = size_u64 (vin tx),
             rs_mixin = size_u64 (key_offsets k) - 1, rs_nonrct = count_nonrct_inputs tx\<rparr>"
    if "vin tx = TxinToKey k # xs" for k xs
    using ring [OF that, of True]
    by (simp add: summary_of_in_out_rct_json_def defs ks loops jsize_def size_u64_def del: in_doc.simps)
  with sums ring assms(2) show ?thesis
    by (simp add: get_mixin_no_json_def get_mixin_no_text_def jparse_def)
qed

text \<open>
  An input that spends no key, such as that of a coinbase: the overloads for a constant value run into a
  missing member, those for text throw.
\<close>

lemma json_coinbase_input:
  assumes "vin tx = [TxinGen]" "P s = Some (tx_doc tx)"
  shows "sum_money_in_inputs_json F (tx_doc tx) = Inl Undefined_member \<and> sum_money_in_inputs_text P F s = Inl Type_error"
  using assms vin_amount_no_key [of TxinGen F]
  by (simp add: sum_money_in_inputs_json_def sum_money_in_inputs_text_def jparse_def del: in_doc.simps)

text \<open>A text that is not JSON is not answered with a zero sum: the exception leaves the function.\<close>

lemma json_text_not_parsed:
  "P s = None \<Longrightarrow> sum_money_in_outputs_text P F s = Inl Parse_error \<and> sum_money_in_inputs_text P F s = Inl Parse_error
     \<and> count_nonrct_inputs_text P F s = Inl Parse_error \<and> get_mixin_no_text P s = Inl Parse_error"
  by (simp add: sum_money_in_outputs_text_def sum_money_in_inputs_text_def count_nonrct_inputs_text_def get_mixin_no_text_def jparse_def)

definition sample_ring_tx :: transaction where
  "sample_ring_tx =
     \<lparr>tx_version = 2, unlock_time = 0, vin = [TxinToKey \<lparr>in_amount = 7, key_offsets = [3, 4], k_image = ''k''\<rparr>],
      vout = [\<lparr>out_amount = 5, out_target = TxoutToKey ''o''\<rparr>], tx_extra = [], rct_type = 0, tx_pruned = False,
      prunable_hash = [], tx_signatures = []\<rparr>"

theorem json_overloads_agree_witness:
  "summary_of_in_out_rct_json (\<lambda>_. 0) (tx_doc sample_ring_tx)
     = Inr \<lparr>rs_outputs = 5, rs_inputs = 7, rs_no_outputs = 1, rs_no_inputs = 1, rs_mixin = 1, rs_nonrct = 1\<rparr>"
proof -
  have "keyed sample_ring_tx" by (simp add: keyed_def sample_ring_tx_def)
  from json_overloads_agree [OF this, of "\<lambda>_. Some (tx_doc sample_ring_tx)" "[]" "\<lambda>_. 0"] show ?thesis
    by (simp add: sample_ring_tx_def sum_money_in_outputs_def sum_money_in_inputs_def count_nonrct_inputs_def size_u64_def)
qed

section \<open>The remaining helpers\<close>

text \<open>
  \<open>get_tx_pub_key_from_str_hash\<close>: whether the hash could be read is not asked; \<open>uninit\<close> is the hash then. Only
  \<open>TX_DNE\<close> is caught.
\<close>

definition get_tx_pub_key_from_str_hash :: "core_lib \<Rightarrow> hash \<Rightarrow> chain_view \<Rightarrow> string \<Rightarrow> db_exn + transaction option" where
  "get_tx_pub_key_from_str_hash L uninit v hash_str =
     (let tx_hash = (case parse_hash256 L hash_str of None \<Rightarrow> uninit | Some h \<Rightarrow> h)
      in case db_get_tx v tx_hash of
           Inr tx \<Rightarrow> Inr (Some tx)
         | Inl e \<Rightarrow> if e = TX_DNE then Inr None else Inl e)"

definition print_sig :: "string \<times> string \<Rightarrow> string" where
  "print_sig sig = ''c: <'' @ fst sig @ ''> r: <'' @ snd sig @ ''>''"

text \<open>
  \<open>generate_key_image\<close>: the three steps of the core, each \<open>None\<close> when it answers false or throws.
\<close>

record ephemeral_lib =
  el_derive_public_key :: "string \<Rightarrow> u64 \<Rightarrow> hash \<Rightarrow> hash option"
  el_derive_secret_key :: "string \<Rightarrow> u64 \<Rightarrow> hash \<Rightarrow> hash option"
  el_key_image :: "hash \<Rightarrow> hash \<Rightarrow> hash option"

definition generate_key_image :: "ephemeral_lib \<Rightarrow> string \<Rightarrow> u64 \<Rightarrow> hash \<Rightarrow> hash \<Rightarrow> hash option" where
  "generate_key_image K derivation i sec_key pub_key =
     (case el_derive_public_key K derivation i pub_key of
        None \<Rightarrow> None
      | Some pub \<Rightarrow>
        (case el_derive_secret_key K derivation i sec_key of
           None \<Rightarrow> None
         | Some sec \<Rightarrow> el_key_image K pub sec))"

text \<open>\<open>read\<close>: a file that does not exist reads as an empty text. \<open>tx_to_hex\<close> over the core's serialisation.\<close>

definition read_text_file :: "(string \<rightharpoonup> string) \<Rightarrow> string \<Rightarrow> string" where
  "read_text_file fs filename = (case fs filename of None \<Rightarrow> [] | Some content \<Rightarrow> content)"

definition tx_to_hex :: "core_lib \<Rightarrow> (string \<Rightarrow> string) \<Rightarrow> transaction \<Rightarrow> string" where
  "tx_to_hex L hex tx = hex (tx_to_blob L tx)"

text \<open>
  \<open>get_human_readable_timestamp\<close> with the format \<open>%Y-%m-%d %I:%M:%S\<close>: \<open>%I\<close> is the hour on a clock of twelve. The years
  of a \<open>uint64_t\<close> below \<open>2 ^ 55\<close> fit the \<open>int\<close> of \<open>struct tm\<close>; above it \<open>gmtime_r\<close> may fail (\<open>None\<close>).
\<close>

definition twelve_hour :: "int \<Rightarrow> int" where
  "twelve_hour h = (if h mod 12 = 0 then 12 else h mod 12)"

definition get_human_readable_timestamp :: "u64 \<Rightarrow> string option" where
  "get_human_readable_timestamp ts =
     (if ts < 1234567890 then Some ''<unknown>''
      else let s = sint ts; sod = s mod 86400 in
        case civil_from_days (s div 86400) of
          (y, m, d) \<Rightarrow>
            if y - 1900 < - (2 ^ 31) \<or> 2 ^ 31 \<le> y - 1900 then None
            else Some (int_to_dec y @ ''-'' @ two_digits m @ ''-'' @ two_digits d @ '' '' @
              two_digits (twelve_hour (sod div 3600)) @ '':'' @ two_digits (sod mod 3600 div 60) @ '':'' @
              two_digits (sod mod 60)))"

text \<open>Without a mark for the half of the day two times twelve hours apart read the same.\<close>

lemma half_day_apart:
  fixes s :: int
  assumes "s mod 86400 < 43200"
  shows "(s + 43200) div 86400 = s div 86400 \<and> twelve_hour ((s + 43200) mod 86400 div 3600) = twelve_hour (s mod 86400 div 3600)
    \<and> (s + 43200) mod 86400 mod 3600 = s mod 86400 mod 3600 \<and> (s + 43200) mod 86400 mod 60 = s mod 86400 mod 60"
proof -
  have split: "s + 43200 = 86400 * (s div 86400) + (s mod 86400 + 43200)" by simp
  have r: "0 \<le> s mod 86400 + 43200" "s mod 86400 + 43200 < 86400" using assms by simp_all
  have m: "(s + 43200) mod 86400 = s mod 86400 + 43200" by (rule int_mod_pos_eq [OF split r])
  have d: "(s + 43200) div 86400 = s div 86400" by (rule int_div_pos_eq [OF split r])
  have "(s mod 86400 + 43200) div 3600 = s mod 86400 div 3600 + 12" using div_mult_self1 [of 3600 "s mod 86400" 12] by simp
  then have "twelve_hour ((s + 43200) mod 86400 div 3600) = twelve_hour (s mod 86400 div 3600)"
    by (simp add: m twelve_hour_def)
  moreover have "(s mod 86400 + 43200) mod 3600 = s mod 86400 mod 3600" using mod_mult_self1 [of "s mod 86400" 12 3600] by simp
  moreover have "(s mod 86400 + 43200) mod 60 = s mod 86400 mod 60" using mod_mult_self1 [of "s mod 86400" 720 60] by simp
  ultimately show ?thesis by (simp only: m d simp_thms)
qed

lemma readable_time_ambiguous:
  assumes "1234567890 \<le> ts" "unat ts < 2 ^ 62" "sint ts mod 86400 < 43200"
  shows "get_human_readable_timestamp (ts + 43200) = get_human_readable_timestamp ts"
proof -
  have u: "unat (ts + 43200) = unat ts + 43200"
    using assms(2) by (subst unat_add_lem [THEN iffD1]) simp_all
  have s: "sint (x :: u64) = int (unat x)" if "unat x < 2 ^ 63" for x
  proof -
    have "int (unat x) < int (2 ^ 63)" using that by (simp only: of_nat_less_iff)
    then have "int (unat x) < 2 ^ 63" by (simp only: of_nat_power of_nat_numeral)
    moreover have "- (2 ^ 63) \<le> int (unat x)" by (rule order_trans [of _ 0]) simp_all
    ultimately have "signed_take_bit 63 (int (unat x)) = int (unat x)" by (intro signed_take_bit_int_eq_self)
    then show ?thesis by (simp add: sint_uint)
  qed
  have "sint (ts + 43200) = sint ts + 43200" using assms(2) by (simp add: s u)
  moreover have "\<not> ts + 43200 < 1234567890" "\<not> ts < 1234567890"
    using assms(1) u by (simp_all add: word_less_nat_alt word_le_nat_alt)
  ultimately show ?thesis
    using half_day_apart [OF assms(3)] by (simp only: get_human_readable_timestamp_def Let_def case_prod_beta if_False)
qed

end
