(* ===== verification/Templates.thy ===== *)
theory Templates
  imports Server Startup Tools_Json
begin

text \<open>
  The constructor of the class \<open>page\<close> (\<open>src/src/page.h\<close>): its settings and the templates it reads once, when the
  server starts. Every page a route answers with has a template of its own among them, between header and
  footer. The template engine is a parameter.
\<close>

section \<open>Reading the templates\<close>

text \<open>
  The files, the template engine (of a template, a context and partial templates), the texts of
  \<open>version.h\<close>, the version of the API, the core's functions and the version of the assets.
\<close>

record page_env =
  pg_files :: "string \<rightharpoonup> string"
  pg_mstch :: "string \<Rightarrow> json \<Rightarrow> (string \<rightharpoonup> string) \<Rightarrow> string"
  pg_version :: "(string \<times> string) list"
  pg_api_major :: nat
  pg_api_minor :: nat
  pg_lib :: page_lib
  pg_asset_version :: string
  pg_print_money :: "u64 \<Rightarrow> string"
  pg_kib4_text :: "u64 \<Rightarrow> string"

type_synonym template_map = "string \<rightharpoonup> string"

text \<open>\<open>template_file[name]\<close>: a name that is not there reads as an empty text.\<close>

definition template_at :: "template_map \<Rightarrow> string \<Rightarrow> string" where
  "template_at m name = (case m name of None \<Rightarrow> [] | Some text \<Rightarrow> text)"

definition get_full_page :: "template_map \<Rightarrow> string \<Rightarrow> string" where
  "get_full_page m middle = template_at m ''header'' @ middle @ template_at m ''footer''"

definition template_path :: "string \<Rightarrow> string" where
  "template_path name = ''./templates/'' @ name @ ''.html''"

definition read_template :: "page_env \<Rightarrow> string \<Rightarrow> string" where
  "read_template P name = read_text_file (pg_files P) (template_path name)"

definition get_footer :: "page_env \<Rightarrow> string" where
  "get_footer P =
     pg_mstch P (read_template P ''footer'')
       (JObj (map (\<lambda>(k, v). (k, JStr v)) (pg_version P)
          @ [(''api'', JStr (nat_to_dec (pg_api_major P) @ ''.'' @ nat_to_dec (pg_api_minor P)))]))
       Map.empty"

text \<open>
  The assignments of the constructor, in its order: the name of a template, whether it becomes a full page, and
  the file it is read from. Header and footer come first, the page of the pool is made from its part.
\<close>

definition first_templates :: "page_env \<Rightarrow> template_map" where
  "first_templates P = Map.empty(''header'' \<mapsto> read_template P ''header'', ''footer'' \<mapsto> get_footer P)"

definition template_plan :: "(string \<times> bool \<times> string) list" where
  "template_plan =
     [(''index2'', True, ''index2''), (''mempool'', False, ''mempool''), (''altblocks'', True, ''altblocks''),
      (''mempool_error'', False, ''mempool_error''), (''mempool_full'', True, ''mempool''), (''block'', True, ''block''),
      (''randomx'', True, ''randomx''), (''tx'', True, ''tx''), (''my_outputs'', True, ''my_outputs''), (''rawtx'', True, ''rawtx''),
      (''checkrawtx'', True, ''checkrawtx''), (''pushrawtx'', True, ''pushrawtx''), (''rawkeyimgs'', True, ''rawkeyimgs''),
      (''rawoutputkeys'', True, ''rawoutputkeys''), (''checkrawkeyimgs'', True, ''checkrawkeyimgs''),
      (''checkoutputkeys'', True, ''checkrawoutputkeys''), (''address'', True, ''address''),
      (''search_results'', True, ''search_results''), (''tx_details'', False, ''partials/tx_details''),
      (''tx_table_header'', False, ''partials/tx_table_header''), (''tx_table_row'', False, ''partials/tx_table_row'')]"

fun load_template :: "page_env \<Rightarrow> string \<times> bool \<times> string \<Rightarrow> template_map \<Rightarrow> template_map" where
  "load_template P (name, full_page, src) m =
     m(name \<mapsto> if full_page then get_full_page m (read_template P src) else read_template P src)"

definition load_templates :: "page_env \<Rightarrow> template_map" where
  "load_templates P = fold (load_template P) template_plan (first_templates P)"

text \<open>The partial templates a page is rendered with.\<close>

definition partials_of :: "template_map \<Rightarrow> string \<Rightarrow> (string \<rightharpoonup> string)" where
  "partials_of m name =
     (if name \<in> {''tx'', ''checkrawtx'', ''pushrawtx''} then Map.empty(''tx_details'' \<mapsto> template_at m ''tx_details'')
      else if name = ''search_results''
      then Map.empty(''tx_table_head'' \<mapsto> template_at m ''tx_table_header'', ''tx_table_row'' \<mapsto> template_at m ''tx_table_row'')
      else Map.empty)"

section \<open>The constructor\<close>

definition new_page :: "page_env \<Rightarrow> config \<Rightarrow> site" where
  "new_page P c =
     (let m = load_templates P in
      \<lparr>st_lib = pg_lib P, st_testnet = (cf_nettype c = TESTNET), st_stagenet = (cf_nettype c = STAGENET),
       st_testnet_url = fst (cf_urls c), st_stagenet_url = fst (snd (cf_urls c)), st_mainnet_url = snd (snd (cf_urls c)),
       st_enable_pusher = enable_pusher (cf_features c), st_enable_key_image_checker = cf_enable_key_image_checker c,
       st_enable_output_key_checker = cf_enable_output_key_checker c,
       st_enable_autorefresh_option = enable_autorefresh_option (cf_features c),
       st_enable_mixins_details = cf_enable_mixin_details c, st_enable_as_hex = enable_as_hex (cf_features c),
       st_enable_randomx = cf_enable_randomx c, st_no_blocks_on_index = cf_no_blocks_on_index c,
       st_no_mempool_of_frontpage = 25, st_asset_version = pg_asset_version P, st_print_money = pg_print_money P,
       st_kib4_text = pg_kib4_text P,
       st_render = (\<lambda>name ctx. pg_mstch P (template_at m name) ctx (partials_of m name))\<rparr>)"

section \<open>What is loaded\<close>

definition full_page_text :: "page_env \<Rightarrow> string \<Rightarrow> string" where
  "full_page_text P src = read_template P ''header'' @ read_template P src @ get_footer P"

lemma load_keeps_frame:
  "name \<noteq> ''header'' \<Longrightarrow> name \<noteq> ''footer'' \<Longrightarrow>
     get_full_page (load_template P (name, f, src) m) middle = get_full_page m middle"
  by (simp add: get_full_page_def template_at_def)

lemma fold_load_templates:
  assumes "distinct (map fst plan)" "\<forall>e \<in> set plan. fst e \<noteq> ''header'' \<and> fst e \<noteq> ''footer''"
    and "\<And>middle. get_full_page m middle = read_template P ''header'' @ middle @ get_footer P"
    and "(name, full_page, src) \<in> set plan"
  shows "fold (load_template P) plan m name = Some (if full_page then full_page_text P src else read_template P src)"
  using assms
proof (induction plan arbitrary: m)
  case (Cons e plan)
  obtain name' full' src' where e: "e = (name', full', src')" by (cases e)
  let ?m = "load_template P e m"
  have frame: "get_full_page ?m middle = read_template P ''header'' @ middle @ get_footer P" for middle
    using Cons.prems by (simp only: e) (subst load_keeps_frame; simp)
  have keep: "fold (load_template P) plan m' n = m' n" if "n \<notin> fst ` set plan" for m' n
    using that by (induction plan arbitrary: m') auto
  show ?case
  proof (cases "(name, full_page, src) = e")
    case True
    then show ?thesis using Cons.prems keep [of name ?m] by (auto simp: e full_page_text_def)
  next
    case False
    then show ?thesis using Cons frame by simp
  qed
qed simp

lemma template_plan_distinct: "distinct (map fst template_plan)"
  by (simp add: template_plan_def)

lemma loaded_template:
  assumes "(name, full_page, src) \<in> set template_plan"
  shows "load_templates P name = Some (if full_page then full_page_text P src else read_template P src)"
  unfolding load_templates_def
proof (rule fold_load_templates [OF template_plan_distinct _ _ assms])
  show "\<forall>e \<in> set template_plan. fst e \<noteq> ''header'' \<and> fst e \<noteq> ''footer''" by (simp add: template_plan_def)
  show "get_full_page (first_templates P) middle = read_template P ''header'' @ middle @ get_footer P" for middle
    by (simp add: get_full_page_def template_at_def first_templates_def)
qed

section \<open>Every page has its template\<close>

definition full_pages :: "(string \<times> string) list" where
  "full_pages = map (\<lambda>(name, f, src). (name, src)) (filter (\<lambda>(name, f, src). f) template_plan)"

lemma full_page_loaded: "(name, src) \<in> set full_pages \<Longrightarrow> template_at (load_templates P) name = full_page_text P src"
  using loaded_template [of name True src P] by (auto simp: full_pages_def template_at_def)

definition has_page :: "html \<Rightarrow> bool" where
  "has_page h = (case h of PlainText s \<Rightarrow> True | Rendered name ctx \<Rightarrow> name \<in> fst ` set full_pages)"

lemma has_page_simps [simp]:
  "has_page (PlainText s)"
  "has_page (Rendered name ctx) \<longleftrightarrow> name \<in> fst ` set full_pages"
  by (simp_all add: has_page_def)

lemma full_page_names [simp]:
  "fst ` set full_pages =
     {''index2'', ''altblocks'', ''mempool_full'', ''block'', ''randomx'', ''tx'', ''my_outputs'', ''rawtx'', ''checkrawtx'', ''pushrawtx'',
      ''rawkeyimgs'', ''rawoutputkeys'', ''checkrawkeyimgs'', ''checkoutputkeys'', ''address'', ''search_results''}"
  by (simp add: full_pages_def template_plan_def)

lemma index2_page: "index2 S w t ms index now page_no refresh view n tip = Inr h \<Longrightarrow> has_page h"
  by (auto simp: index2_def Let_def split: option.splits sum.splits prod.splits if_splits)

lemma show_block_page: "show_block S u uh w t reward_of now h = Inr p \<Longrightarrow> has_page p"
  by (drule show_block_shapes) auto

lemma show_block_of_hash_page: "show_block_of_hash S u uh w t reward_of now b = Inr p \<Longrightarrow> has_page p"
  by (drule show_block_of_hash_shapes) auto

lemma show_tx_page: "show_tx S T v ms now s rings refresh = Inr p \<Longrightarrow> has_page p"
  by (erule show_tx_shapes) auto

lemma show_randomx_page: "has_page (show_randomx S M w t h)"
  by (simp add: show_randomx_def Let_def split: option.split)

lemma search_results_page: "show_search_results S E u uh w t ms text hs = Inr p \<Longrightarrow> has_page p"
  by (auto simp: show_search_results_def split: sum.splits)

lemma search_address_page: "has_page (search_address S W text)" "has_page (search_integrated S W text)"
  by (auto simp: search_address_def search_integrated_def show_address_details_def show_integrated_address_details_def Let_def
      split: option.split)

lemma search_page:
  assumes "search S T E W u uh w ts ms reward_of now arg = Inr p"
  shows "has_page p"
  using assms
  by (auto simp: search_def search_height_def Let_def search_address_page
      split: sum.splits option.splits if_splits
      dest: show_tx_page show_block_page show_block_of_hash_page search_results_page)

lemma show_push_page: "show_push E raw s = (Inr h, s') \<Longrightarrow> has_page h"
  by (auto simp: show_push_def show_pushrawtx_def case_prod_beta Let_def split: sum.splits)

lemma checked_page_shape: "checked_page S T C v now raw = Value h \<Longrightarrow> has_page h"
  by (auto simp: checked_page_def check_blob_def check_context_def Let_def split: if_splits option.splits)

lemma check_answer_page: "check_answer (show_checkrawtx S T C v now raw) = Inr h \<Longrightarrow> has_page h"
proof -
  assume a: "check_answer (show_checkrawtx S T C v now raw) = Inr h"
  show "has_page h"
  proof (cases "checked_page S T C v now raw")
    case (Answer g)
    then have "g = h" using a by (simp add: show_checkrawtx_def)
    moreover have "\<exists>msg. g = PlainText msg"
      using plain_checked_page [of S T C v now raw] Answer by (auto simp: plain_answers_def split: html.splits)
    ultimately show ?thesis by auto
  qed (use a checked_page_shape in \<open>auto simp: show_checkrawtx_def\<close>)
qed

lemma html_answer_page:
  assumes "html_answer E c s = Some (n, Inr h, s')"
  shows "has_page h"
  using assms
  by (cases c)
    (auto dest: index2_page show_block_page show_block_of_hash_page show_tx_page search_page search_results_page
        check_answer_page show_push_page simp: show_randomx_page show_rawtx_def mempool_def Let_def)


definition sample_page_env :: page_env where
  "sample_page_env =
     \<lparr>pg_files = [''./templates/header.html'' \<mapsto> ''<'', ''./templates/rawtx.html'' \<mapsto> ''raw'', ''./templates/footer.html'' \<mapsto> ''>''],
      pg_mstch = (\<lambda>text ctx ps. text), pg_version = [], pg_api_major = 1, pg_api_minor = 2, pg_lib = sample_lib,
      pg_asset_version = ''v'', pg_print_money = u64_to_string, pg_kib4_text = u64_to_string\<rparr>"

definition sample_config :: config where
  "sample_config = config_of sample_options MAINNET 8081 10 None ''http'' ''/x'' ''r1''"


end
