(* ===== verification/Emission.thy ===== *)
theory Emission
  imports Tools_Json
begin

text \<open>
  \<open>src/src/CurrentBlockchainStatus.h\<close> and \<open>.cpp\<close>, the monitor of the emission that the supply index replaced; the
  build no longer compiles it. It adds up blocks in chunks, leaves the top three for the moment a reader
  asks, and keeps its sums in a file. All sums are \<open>uint64_t\<close>.
\<close>

section \<open>The sums and their text\<close>

record emission =
  em_coinbase :: u64
  em_fee :: u64
  em_blk_no :: u64

definition checksum :: "emission \<Rightarrow> u64" where
  "checksum e = em_coinbase e + em_fee e + em_blk_no e"

definition emission_text :: "emission \<Rightarrow> string" where
  "emission_text e =
     u64_to_string (em_blk_no e) @ '','' @ u64_to_string (em_coinbase e) @ '','' @ u64_to_string (em_fee e) @ '','' @ u64_to_string (checksum e)"

definition blockchain_chunk_size :: u64 where
  "blockchain_chunk_size = 10000"

definition blockchain_chunk_gap :: u64 where
  "blockchain_chunk_gap = 3"

section \<open>Adding up blocks\<close>

text \<open>
  One block: whether it could be read is not asked (\<open>uninit\<close> is the block then), nor whether all of
  its transactions were found. The two reads are the observations \<open>t\<close> and \<open>t + 1\<close>.
\<close>

definition block_emission :: "core_lib \<Rightarrow> block \<Rightarrow> world \<Rightarrow> nat \<Rightarrow> u64 \<Rightarrow> u64 \<times> u64" where
  "block_emission L uninit w t h =
     (let blk = (case get_block_by_height (w t) h of None \<Rightarrow> uninit | Some b \<Rightarrow> b);
          coinbase_amount = get_outs_money_amount L (miner_tx blk);
          tx_fee_amount = (case get_transactions (w (t + 1)) (tx_hashes blk) of (ok, txs, missed_txs) \<Rightarrow> sum_fees_loop L txs 0)
      in (coinbase_amount - tx_fee_amount, tx_fee_amount))"

lemma up_one:
  assumes "(a :: u64) < b"
  shows "unat (a + 1) = unat a + 1"
proof -
  have "unat a + unat (1 :: u64) < 2 ^ 64" using assms unat_u64_less [of b] by (simp add: word_less_nat_alt)
  then show ?thesis by (subst unat_add_lem [THEN iffD1]) simp_all
qed

function emission_loop :: "core_lib \<Rightarrow> block \<Rightarrow> world \<Rightarrow> nat \<Rightarrow> u64 \<Rightarrow> u64 \<Rightarrow> emission \<Rightarrow> emission \<times> nat" where
  "emission_loop L uninit w t start_blk end_blk acc =
     (if start_blk < end_blk
      then case block_emission L uninit w t start_blk of
             (coinbase, fee) \<Rightarrow>
               emission_loop L uninit w (t + 2) (start_blk + 1) end_blk
                 (acc\<lparr>em_coinbase := em_coinbase acc + coinbase, em_fee := em_fee acc + fee\<rparr>)
      else (acc\<lparr>em_blk_no := start_blk\<rparr>, t))"
  by pat_completeness auto

termination
  by (relation "measure (\<lambda>(L, uninit, w, t, s, e, acc). unat e - unat s)")
    (auto simp: up_one word_less_nat_alt)

declare emission_loop.simps [simp del]

definition calculate_emission_in_blocks :: "core_lib \<Rightarrow> block \<Rightarrow> world \<Rightarrow> nat \<Rightarrow> u64 \<Rightarrow> u64 \<Rightarrow> emission \<times> nat" where
  "calculate_emission_in_blocks L uninit w t start_blk end_blk =
     emission_loop L uninit w t start_blk end_blk \<lparr>em_coinbase = 0, em_fee = 0, em_blk_no = 0\<rparr>"

text \<open>The static members that change.\<close>

record monitor =
  mo_emission :: emission
  mo_height :: u64
  mo_running :: bool

definition update_current_emission_amount :: "core_lib \<Rightarrow> block \<Rightarrow> world \<Rightarrow> nat \<Rightarrow> monitor \<Rightarrow> monitor \<times> nat" where
  "update_current_emission_amount L uninit w t m =
     (let current = mo_emission m;
          blk_no = em_blk_no current;
          end0 = blk_no + blockchain_chunk_size;
          end_block = (if mo_height m < end0 then mo_height m - blockchain_chunk_gap else end0)
      in case calculate_emission_in_blocks L uninit w t blk_no end_block of
           (e, t') \<Rightarrow>
             (m\<lparr>mo_emission := \<lparr>em_coinbase = em_coinbase current + em_coinbase e, em_fee = em_fee current + em_fee e, em_blk_no = em_blk_no e\<rparr>\<rparr>, t'))"

definition get_emission :: "core_lib \<Rightarrow> block \<Rightarrow> world \<Rightarrow> nat \<Rightarrow> monitor \<Rightarrow> emission" where
  "get_emission L uninit w t m =
     (let current = mo_emission m;
          start_blk = em_blk_no current;
          end0 = start_blk + blockchain_chunk_gap
      in if mo_height m \<le> end0 \<and> start_blk < mo_height m
         then let end_block = (if mo_height m < end0 then mo_height m else end0);
                  gap = fst (calculate_emission_in_blocks L uninit w t start_blk end_block)
              in \<lparr>em_coinbase = em_coinbase current + em_coinbase gap, em_fee = em_fee current + em_fee gap,
                  em_blk_no = (if 0 < em_blk_no gap then em_blk_no gap else em_blk_no current)\<rparr>
         else current)"

section \<open>The file and the thread\<close>

text \<open>
  Saving: the file is truncated when it is opened, \<open>part\<close> is what of the text reaches it; the result does not
  depend on that.
\<close>

definition save_current_emission_amount :: "bool \<Rightarrow> (string \<Rightarrow> string) \<Rightarrow> monitor \<Rightarrow> string option \<Rightarrow> bool \<times> string option" where
  "save_current_emission_amount opened part m f =
     (if \<not> opened then (False, f) else (True, Some (part (emission_text (mo_emission m)))))"

definition is_blank :: "char \<Rightarrow> bool" where
  "is_blank c \<longleftrightarrow> c \<in> {CHR '' '', CHR 0x0A, CHR 0x0D, CHR 0x09}"

definition erase_blanks :: "string \<Rightarrow> string" where
  "erase_blanks s = rev (dropWhile is_blank (rev s))"

text \<open>\<open>lexical_cast(strs.at(i))\<close>: a bad number is caught, a missing field (\<open>std::out_of_range\<close>) is not.\<close>

datatype load_result = Loaded emission | Rejected | Uncaught_range

fun field_values :: "nat \<Rightarrow> string list \<Rightarrow> load_result + u64 list" where
  "field_values 0 strs = Inr []"
| "field_values (Suc n) [] = Inl Uncaught_range"
| "field_values (Suc n) (s # strs) =
     (case lexical_cast_u64 s of
        None \<Rightarrow> Inl Rejected
      | Some v \<Rightarrow> (case field_values n strs of Inl r \<Rightarrow> Inl r | Inr vs \<Rightarrow> Inr (v # vs)))"

definition load_current_emission_amount :: "string option \<Rightarrow> load_result" where
  "load_current_emission_amount f =
     (let last_saved = (case f of None \<Rightarrow> [] | Some text \<Rightarrow> text)
      in if last_saved = [] then Rejected
         else case field_values 4 (split_at (CHR '','') (erase_blanks last_saved)) of
                Inl r \<Rightarrow> r
              | Inr vs \<Rightarrow>
                let e = \<lparr>em_coinbase = vs ! 1, em_fee = vs ! 2, em_blk_no = vs ! 0\<rparr>
                in if vs ! 3 \<noteq> checksum e then Rejected else Loaded e)"

text \<open>
  \<open>start_monitor_blockchain_thread\<close>: \<open>None\<close> is the exception that leaves it; the boolean tells whether a thread
  is started.
\<close>

definition start_monitor_blockchain_thread :: "string option \<Rightarrow> monitor \<Rightarrow> (bool \<times> monitor) option" where
  "start_monitor_blockchain_thread f m =
     (let m0 = m\<lparr>mo_emission := \<lparr>em_coinbase = 0, em_fee = 0, em_blk_no = 0\<rparr>\<rparr>;
          run = (\<lambda>m1. if mo_running m1 then (False, m1) else (True, m1\<lparr>mo_running := True\<rparr>))
      in if f = None then Some (run m0)
         else case load_current_emission_amount f of
                Loaded e \<Rightarrow> Some (run (m0\<lparr>mo_emission := e\<rparr>))
              | Rejected \<Rightarrow> Some (False, m0)
              | Uncaught_range \<Rightarrow> None)"

text \<open>One round of the thread, with the seconds it sleeps afterwards.\<close>

definition monitor_round ::
    "core_lib \<Rightarrow> block \<Rightarrow> bool \<Rightarrow> (string \<Rightarrow> string) \<Rightarrow> world \<Rightarrow> nat \<Rightarrow> monitor \<times> string option \<Rightarrow> (monitor \<times> string option) \<times> nat" where
  "monitor_round L uninit opened part w t s =
     (case s of (m, f) \<Rightarrow>
        let before = mo_emission m;
            m1 = m\<lparr>mo_height := current_height (w t)\<rparr>
        in case update_current_emission_amount L uninit w (t + 1) m1 of
             (m2, t2) \<Rightarrow>
               ((m2, snd (save_current_emission_amount opened part m2 f)),
                if em_blk_no before < mo_height m2 - blockchain_chunk_size then 1 else 60))"


section \<open>A saved emission is read back\<close>

interpretation lexical_u64: text_codec u64_to_string lexical_cast_u64 "{c. \<not> is_digit c}"
proof
  show "lexical_cast_u64 (u64_to_string x) = Some x" for x by (simp add: text_simps)
  show "c \<in> {c. \<not> is_digit c} \<Longrightarrow> c \<notin> set (u64_to_string x)" for c x
    by (auto simp: u64_to_string_def dest: nat_to_dec_set)
qed

lemma emission_text_join:
  "emission_text e = join (CHR '','') (map u64_to_string [em_blk_no e, em_coinbase e, em_fee e, checksum e])"
  by (simp add: emission_text_def)

lemma erase_blanks_clean: "s \<noteq> [] \<Longrightarrow> \<not> is_blank (last s) \<Longrightarrow> erase_blanks s = s"
  by (cases s rule: rev_cases) (simp_all add: erase_blanks_def)

lemma digit_not_blank: "is_digit c \<Longrightarrow> \<not> is_blank c"
  by (auto simp: is_digit_def is_blank_def)

lemma emission_text_clean: "erase_blanks (emission_text e) = emission_text e"
proof (rule erase_blanks_clean)
  have "u64_to_string (checksum e) \<noteq> []" by (simp add: u64_to_string_def)
  then have "last (emission_text e) \<in> set (u64_to_string (checksum e))" by (simp add: emission_text_def)
  then show "\<not> is_blank (last (emission_text e))"
    by (auto simp: u64_to_string_def dest: nat_to_dec_set digit_not_blank)
qed (simp add: emission_text_def)

lemma field_values_take:
  "map lexical_cast_u64 strs = map Some vs \<Longrightarrow> n \<le> length vs \<Longrightarrow> field_values n strs = Inr (take n vs)"
proof (induction n strs arbitrary: vs rule: field_values.induct)
  case (3 n s strs)
  then obtain v vs' where "vs = v # vs'" by (cases vs) auto
  with 3 show ?case by simp
qed auto

text \<open>
  The monitor reads back from its file exactly the emission it has saved, when the whole text reached
  the file.
\<close>

theorem emission_saved_and_loaded:
  assumes "save_current_emission_amount True (\<lambda>s. s) m f = (ok, f')"
  shows "ok \<and> load_current_emission_amount f' = Loaded (mo_emission m)"
proof -
  let ?e = "mo_emission m"
  let ?vs = "[em_blk_no ?e, em_coinbase ?e, em_fee ?e, checksum ?e]"
  have f': "f' = Some (emission_text ?e)" and ok using assms by (simp_all add: save_current_emission_amount_def)
  have "CHR '','' \<in> {c. \<not> is_digit c}" by (simp add: is_digit_def)
  then have "map lexical_cast_u64 (split_at (CHR '','') (emission_text ?e)) = map Some ?vs"
    unfolding emission_text_join by (intro lexical_u64.split_encoded_fields) simp_all
  then have "field_values 4 (split_at (CHR '','') (emission_text ?e)) = Inr (take 4 ?vs)" by (rule field_values_take) simp
  moreover have "emission_text ?e \<noteq> []" by (simp add: emission_text_def)
  ultimately show ?thesis using \<open>ok\<close> by (simp add: f' load_current_emission_amount_def emission_text_clean checksum_def Let_def)
qed

theorem emission_saved_and_loaded_witness:
  "load_current_emission_amount (Some ''7,5,2,14'')
     = Loaded \<lparr>em_coinbase = 5, em_fee = 2, em_blk_no = 7\<rparr>"
proof -
  let ?m = "\<lparr>mo_emission = \<lparr>em_coinbase = 5, em_fee = 2, em_blk_no = 7\<rparr>, mo_height = 9, mo_running = True\<rparr>"
  have "save_current_emission_amount True (\<lambda>s. s) ?m None = (True, Some ''7,5,2,14'')"
    by code_simp
  from emission_saved_and_loaded [OF this] show ?thesis by simp
qed

text \<open>A file with fewer than four fields is not rejected: the exception ends the program.\<close>

lemma short_file_uncaught: "start_monitor_blockchain_thread (Some ''5'') m = None"
proof -
  have "lexical_cast_u64 ''5'' = Some 5" by (simp add: lexical_cast_u64_def is_digit_def dec_value_def digit_val_def)
  then show ?thesis
    by (simp add: start_monitor_blockchain_thread_def load_current_emission_amount_def erase_blanks_def is_blank_def
        numeral_eq_Suc Let_def)
qed

text \<open>The checksum is a sum: it does not notice that coinbase and fee have changed places.\<close>

lemma checksum_swapped: "checksum \<lparr>em_coinbase = a, em_fee = b, em_blk_no = h\<rparr> = checksum \<lparr>em_coinbase = b, em_fee = a, em_blk_no = h\<rparr>"
  by (simp add: checksum_def)

section \<open>The emission of a chain that stands still\<close>

definition coinbase_sum :: "core_lib \<Rightarrow> block \<Rightarrow> chain_view \<Rightarrow> nat \<Rightarrow> nat \<Rightarrow> u64" where
  "coinbase_sum L uninit v a b = sum_list (map (\<lambda>h. fst (block_emission L uninit (\<lambda>_. v) 0 (of_nat h))) [a..<b])"

definition fee_sum :: "core_lib \<Rightarrow> block \<Rightarrow> chain_view \<Rightarrow> nat \<Rightarrow> nat \<Rightarrow> u64" where
  "fee_sum L uninit v a b = sum_list (map (\<lambda>h. snd (block_emission L uninit (\<lambda>_. v) 0 (of_nat h))) [a..<b])"

lemma sums_append:
  assumes "a \<le> b" "b \<le> c"
  shows "coinbase_sum L u v a b + coinbase_sum L u v b c = coinbase_sum L u v a c"
    and "fee_sum L u v a b + fee_sum L u v b c = fee_sum L u v a c"
proof -
  have "[a..<c] = [a..<b] @ [b..<c]" using assms by (metis le_Suc_ex upt_add_eq_append)
  then show "coinbase_sum L u v a b + coinbase_sum L u v b c = coinbase_sum L u v a c"
    "fee_sum L u v a b + fee_sum L u v b c = fee_sum L u v a c"
    by (simp_all add: coinbase_sum_def fee_sum_def)
qed

lemma emission_loop_still:
  "fst (emission_loop L u (\<lambda>_. v) t s e acc) =
     \<lparr>em_coinbase = em_coinbase acc + coinbase_sum L u v (unat s) (unat e),
      em_fee = em_fee acc + fee_sum L u v (unat s) (unat e), em_blk_no = max s e\<rparr>"
proof (induction L u "\<lambda>_ :: nat. v" t s e acc rule: emission_loop.induct)
  case (1 L u t s e acc)
  show ?case
  proof (cases "s < e")
    case True
    let ?be = "block_emission L u (\<lambda>_. v) 0 s"
    have le: "unat s < unat e" using True by (simp add: word_less_nat_alt)
    have be: "block_emission L u (\<lambda>_. v) t s = ?be" by (simp add: block_emission_def)
    have up: "[unat s..<unat e] = unat s # [unat (s + 1)..<unat e]" using le by (simp add: up_one [OF True] upt_rec)
    have "max (s + 1) e = e" using True by (simp add: max_def word_less_nat_alt word_le_nat_alt up_one)
    moreover have "max s e = e" using True by simp
    ultimately show ?thesis
      using 1 [OF True, of "fst ?be" "snd ?be"] True
      by (subst emission_loop.simps) (simp add: be case_prod_beta coinbase_sum_def fee_sum_def up add.assoc)
  next
    case False
    then have "unat e \<le> unat s" by (simp add: word_less_nat_alt)
    moreover have "max s e = s" using False by (auto simp: max_def not_less)
    ultimately have "unat e \<le> unat s" "max s e = s" by blast+
    then show ?thesis
      by (subst emission_loop.simps) (simp add: False coinbase_sum_def fee_sum_def)
  qed
qed

definition emission_exact :: "core_lib \<Rightarrow> block \<Rightarrow> chain_view \<Rightarrow> emission \<Rightarrow> bool" where
  "emission_exact L u v e \<longleftrightarrow>
     em_coinbase e = coinbase_sum L u v 0 (unat (em_blk_no e)) \<and> em_fee e = fee_sum L u v 0 (unat (em_blk_no e))"

text \<open>
  One update on a chain that stands still: the sums stay those of the blocks below \<open>em_blk_no\<close>, which
  advances by a chunk, or to three blocks below the top.
\<close>

lemma monitor_update_still:
  fixes t
  assumes exact: "emission_exact L u v (mo_emission m)" and le: "em_blk_no (mo_emission m) \<le> mo_height m"
    and big: "3 \<le> unat (mo_height m)" "unat (mo_height m) < 2 ^ 63"
  defines "m' \<equiv> fst (update_current_emission_amount L u (\<lambda>_. v) t m)"
    and "b \<equiv> unat (em_blk_no (mo_emission m))"
  shows "emission_exact L u v (mo_emission m') \<and> mo_height m' = mo_height m
    \<and> unat (em_blk_no (mo_emission m'))
        = (if unat (mo_height m) < b + 10000 then max b (unat (mo_height m) - 3) else b + 10000)"
proof -
  let ?e = "mo_emission m"
  let ?b = "em_blk_no ?e" and ?h = "mo_height m"
  define e where "e = (if ?h < ?b + 10000 then ?h - 3 else ?b + 10000)"
  have bh: "b \<le> unat ?h" using le by (simp add: b_def word_le_nat_alt)
  have add: "unat (?b + 10000) = b + 10000"
    using bh big(2) by (subst unat_add_lem [THEN iffD1]) (simp_all add: b_def)
  have sub: "unat (?h - 3) = unat ?h - 3" using big(1) by (simp add: unat_sub word_le_nat_alt)
  have e: "unat e = (if unat ?h < b + 10000 then unat ?h - 3 else b + 10000)"
    by (simp add: e_def word_less_nat_alt add sub)
  have m': "mo_emission m' = \<lparr>em_coinbase = em_coinbase ?e + coinbase_sum L u v b (unat e),
      em_fee = em_fee ?e + fee_sum L u v b (unat e), em_blk_no = max ?b e\<rparr>" "mo_height m' = ?h"
    by (simp_all add: emission_loop_still m'_def b_def update_current_emission_amount_def calculate_emission_in_blocks_def
        blockchain_chunk_size_def blockchain_chunk_gap_def Let_def case_prod_beta e_def)
  have max: "unat (max ?b e) = max b (unat e)" by (simp add: b_def max_def word_le_nat_alt)
  have "emission_exact L u v (mo_emission m')"
  proof (cases "b \<le> unat e")
    case True
    then show ?thesis
      using exact sums_append [of 0 b "unat e" L u v] by (simp add: emission_exact_def m' max max_absorb2 flip: b_def)
  next
    case False
    then show ?thesis
      using exact by (simp add: emission_exact_def m' max max_absorb1 coinbase_sum_def fee_sum_def flip: b_def)
  qed
  then show ?thesis using bh by (auto simp: m' max e)
qed

lemma get_emission_still:
  assumes exact: "emission_exact L u v (mo_emission m)" and le: "em_blk_no (mo_emission m) \<le> mo_height m"
    and near: "unat (mo_height m) \<le> unat (em_blk_no (mo_emission m)) + 3" and big: "unat (mo_height m) < 2 ^ 63"
  shows "emission_exact L u v (get_emission L u (\<lambda>_. v) t m) \<and> em_blk_no (get_emission L u (\<lambda>_. v) t m) = mo_height m"
proof -
  let ?e = "mo_emission m"
  let ?b = "em_blk_no ?e" and ?h = "mo_height m"
  have bh: "unat ?b \<le> unat ?h" using le by (simp add: word_le_nat_alt)
  have add: "unat (?b + 3) = unat ?b + 3" using bh big by (subst unat_add_lem [THEN iffD1]) simp_all
  have top: "?h \<le> ?b + 3" using near by (simp add: word_le_nat_alt add)
  show ?thesis
  proof (cases "?b < ?h")
    case True
    have "(if ?h < ?b + 3 then ?h else ?b + 3) = ?h" using top by auto
    moreover have "max ?b ?h = ?h" "0 < ?h" using True by (auto simp: word_gt_0)
    ultimately have "get_emission L u (\<lambda>_. v) t m
        = \<lparr>em_coinbase = em_coinbase ?e + coinbase_sum L u v (unat ?b) (unat ?h),
           em_fee = em_fee ?e + fee_sum L u v (unat ?b) (unat ?h), em_blk_no = ?h\<rparr>"
      using top True emission_loop_still [of L u v t ?b ?h "\<lparr>em_coinbase = 0, em_fee = 0, em_blk_no = 0\<rparr>"]
      by (simp add: get_emission_def blockchain_chunk_gap_def calculate_emission_in_blocks_def Let_def)
    then show ?thesis
      using exact sums_append [of 0 "unat ?b" "unat ?h" L u v] bh by (simp add: emission_exact_def)
  next
    case False
    then have "?b = ?h" using le by simp
    then show ?thesis using exact False by (simp add: get_emission_def Let_def)
  qed
qed

text \<open>The thread's rounds on a chain that stands still.\<close>

definition updates :: "core_lib \<Rightarrow> block \<Rightarrow> chain_view \<Rightarrow> nat \<Rightarrow> monitor \<Rightarrow> monitor" where
  "updates L u v n m = ((\<lambda>m. fst (update_current_emission_amount L u (\<lambda>_. v) 0 m)) ^^ n) m"

lemma updates_still:
  assumes exact: "emission_exact L u v (mo_emission m)" and le: "em_blk_no (mo_emission m) \<le> mo_height m"
    and big: "3 \<le> unat (mo_height m)" "unat (mo_height m) < 2 ^ 63"
  shows "emission_exact L u v (mo_emission (updates L u v n m)) \<and> mo_height (updates L u v n m) = mo_height m
    \<and> em_blk_no (mo_emission (updates L u v n m)) \<le> mo_height m
    \<and> min (10000 * n) (unat (mo_height m) - 3) \<le> unat (em_blk_no (mo_emission (updates L u v n m)))"
proof (induction n)
  case 0
  then show ?case using exact le by (simp add: updates_def)
next
  case (Suc n)
  let ?m = "updates L u v n m"
  have step: "updates L u v (Suc n) m = fst (update_current_emission_amount L u (\<lambda>_. v) 0 ?m)" by (simp add: updates_def)
  have ih: "emission_exact L u v (mo_emission ?m)" "mo_height ?m = mo_height m" "em_blk_no (mo_emission ?m) \<le> mo_height ?m"
    "min (10000 * n) (unat (mo_height m) - 3) \<le> unat (em_blk_no (mo_emission ?m))" using Suc by simp_all
  note one = monitor_update_still [OF ih(1,3), unfolded ih(2), OF big, of 0, folded step]
  then show ?case using ih(2,3,4) unfolding word_le_nat_alt by (auto simp: min_def max_def split: if_splits)
qed

text \<open>
  On a chain that stands still the monitor, started without a file and given enough rounds, answers with the
  exact sums over all blocks of the chain: coinbase without fees, and fees.
\<close>

theorem emission_complete:
  assumes "mo_emission m = \<lparr>em_coinbase = 0, em_fee = 0, em_blk_no = 0\<rparr>"
    and "3 \<le> unat (mo_height m)" "unat (mo_height m) < 2 ^ 63" "unat (mo_height m) \<le> 10000 * n"
  shows "get_emission L u (\<lambda>_. v) t (updates L u v n m)
    = \<lparr>em_coinbase = coinbase_sum L u v 0 (unat (mo_height m)), em_fee = fee_sum L u v 0 (unat (mo_height m)), em_blk_no = mo_height m\<rparr>"
proof -
  let ?m = "updates L u v n m"
  have "emission_exact L u v (mo_emission m)" "em_blk_no (mo_emission m) \<le> mo_height m"
    using assms(1) by (simp_all add: emission_exact_def coinbase_sum_def fee_sum_def)
  note run = updates_still [OF this assms(2,3), of n]
  have "unat (mo_height ?m) \<le> unat (em_blk_no (mo_emission ?m)) + 3" using run assms(4) by (auto simp: min_def split: if_splits)
  with run assms(3) get_emission_still [of L u v ?m t]
  have "emission_exact L u v (get_emission L u (\<lambda>_. v) t ?m)" "em_blk_no (get_emission L u (\<lambda>_. v) t ?m) = mo_height m" by auto
  then show ?thesis by (simp add: emission_exact_def)
qed

theorem emission_complete_witness:
  "\<forall>L u v t. get_emission L u (\<lambda>_. v) t
       (updates L u v 1 \<lparr>mo_emission = \<lparr>em_coinbase = 0, em_fee = 0, em_blk_no = 0\<rparr>, mo_height = 5, mo_running = True\<rparr>)
     = \<lparr>em_coinbase = coinbase_sum L u v 0 5, em_fee = fee_sum L u v 0 5, em_blk_no = 5\<rparr>"
proof (intro allI)
  fix L u v t
  let ?m = "\<lparr>mo_emission = \<lparr>em_coinbase = 0, em_fee = 0, em_blk_no = 0\<rparr>, mo_height = 5, mo_running = True\<rparr>"
  have "mo_emission ?m = \<lparr>em_coinbase = 0, em_fee = 0, em_blk_no = 0\<rparr>" "3 \<le> unat (mo_height ?m)" "unat (mo_height ?m) < 2 ^ 63"
    "unat (mo_height ?m) \<le> 10000 * 1" by simp_all
  from emission_complete [OF this, of L u v t]
  show "get_emission L u (\<lambda>_. v) t (updates L u v 1 ?m)
    = \<lparr>em_coinbase = coinbase_sum L u v 0 5, em_fee = fee_sum L u v 0 5, em_blk_no = 5\<rparr>" by simp
qed

text \<open>
  A chain of fewer than three blocks: the top the update aims at wraps around, so that it reads on to the
  end of the 64-bit numbers.
\<close>

lemma short_chain_wraps:
  assumes "em_blk_no (mo_emission m) = 0" "mo_height m < 3"
  shows "em_blk_no (mo_emission (fst (update_current_emission_amount L u (\<lambda>_. v) t m))) = mo_height m - 3
    \<and> 2 ^ 64 - 3 \<le> unat (mo_height m - 3)"
proof -
  have "mo_height m < 10000" using assms(2) by (rule less_trans) simp
  then have "em_blk_no (mo_emission (fst (update_current_emission_amount L u (\<lambda>_. v) t m))) = max 0 (mo_height m - 3)"
    using emission_loop_still [of L u v t 0 "mo_height m - 3" "\<lparr>em_coinbase = 0, em_fee = 0, em_blk_no = 0\<rparr>"]
    by (simp add: update_current_emission_amount_def calculate_emission_in_blocks_def assms(1)
        blockchain_chunk_size_def blockchain_chunk_gap_def Let_def case_prod_beta)
  moreover have "mo_height m = 0 \<or> mo_height m = 1 \<or> mo_height m = 2"
  proof -
    have "unat (mo_height m) < 3" using assms(2) by (simp add: word_less_nat_alt)
    then have "unat (mo_height m) = 0 \<or> unat (mo_height m) = unat (1 :: u64) \<or> unat (mo_height m) = unat (2 :: u64)" by auto
    then show ?thesis by (simp only: word_unat_eq_iff unat_0)
  qed
  ultimately show ?thesis by (auto simp: unsigned_minus_1_eq_mask mask_eq_exp_minus_1)
qed

end
