(* ===== verification/Query_String.thy ===== *)
theory Query_String
  imports Routes Page_Html
begin

text \<open>
  The parameters of a request's query, as \<open>req.url_params.get\<close> finds them: the functions \<open>qs_parse\<close>, \<open>qs_decode\<close>,
  \<open>qs_strncmp\<close> and \<open>qs_k2v\<close> of Crow (\<open>src/ext/crow_all.h\<close>), which cut and decode the URL in its own buffer. Each
  pair is a C string in that buffer; its text here ends before the first null byte. Reading behind the end of the
  whole buffer, which the comparison of keys can do, is an outcome of its own.
\<close>

section \<open>Characters\<close>

abbreviation NUL :: char where
  "NUL \<equiv> CHR 0x00"

definition qs_ishex :: "char \<Rightarrow> bool" where
  "qs_ishex c \<longleftrightarrow> is_hex c"

definition qs_hex2dec :: "char \<Rightarrow> nat" where
  "qs_hex2dec c = (if qs_ishex c then hex_val c else 0)"

text \<open>\<open>CROW_QS_ISQSCHR\<close>: not one of the delimiters and not the null byte.\<close>

definition qs_isqschr :: "char \<Rightarrow> bool" where
  "qs_isqschr c \<longleftrightarrow> c \<notin> {CHR ''='', CHR ''#'', CHR ''&'', NUL}"

definition qs_byte :: "char \<Rightarrow> char \<Rightarrow> char" where
  "qs_byte h l = char_of (qs_hex2dec h * 16 + qs_hex2dec l)"

section \<open>Comparing keys\<close>

text \<open>
  One unit of a C string at the pointer: the character it stands for (the null byte for a delimiter, the end and a bad
  escape) and the text behind it. An escape reads two characters; \<open>None\<close> when they lie behind the buffer, which
  happens when the text ends with \<open>%\<close> and the buffer with the text.
\<close>

fun qs_unit :: "bool \<Rightarrow> string \<Rightarrow> (char \<times> string) option" where
  "qs_unit at_end [] = Some (NUL, [])"
| "qs_unit at_end (c # r) =
     (if \<not> qs_isqschr c then Some (NUL, r)
      else if c = CHR ''+'' then Some (CHR '' '', r)
      else if c = CHR ''%''
      then (case r of
              [] \<Rightarrow> if at_end then None else Some (NUL, [])
            | [h] \<Rightarrow> Some (NUL, [])
            | h # l # r' \<Rightarrow> Some (if qs_ishex h \<and> qs_ishex l then qs_byte h l else NUL, r'))
      else Some (c, r))"

datatype qs_order = Equal | Differs | Overread

fun qs_strncmp :: "bool \<Rightarrow> nat \<Rightarrow> string \<Rightarrow> string \<Rightarrow> qs_order" where
  "qs_strncmp at_end 0 s qs = (case qs of [] \<Rightarrow> Equal | c # _ \<Rightarrow> if qs_isqschr c then Differs else Equal)"
| "qs_strncmp at_end (Suc n) s qs =
     (case (qs_unit True s, qs_unit at_end qs) of
        (Some (u1, s'), Some (u2, qs')) \<Rightarrow>
          if u1 \<noteq> u2 then Differs else if u1 = NUL then Equal else qs_strncmp at_end n s' qs'
      | _ \<Rightarrow> Overread)"

section \<open>Cutting and decoding\<close>

text \<open>\<open>qs_decode\<close> up to the first delimiter; the caller sees its result up to the first null byte.\<close>

fun qs_decode :: "string \<Rightarrow> string" where
  "qs_decode [] = []"
| "qs_decode (c # r) =
     (if \<not> qs_isqschr c then []
      else if c = CHR ''+'' then CHR '' '' # qs_decode r
      else if c = CHR ''%''
      then (case r of
              h # l # r' \<Rightarrow> if qs_ishex h \<and> qs_ishex l then qs_byte h l # qs_decode r' else []
            | _ \<Rightarrow> [])
      else c # qs_decode r)"

definition qs_value :: "string \<Rightarrow> string" where
  "qs_value raw = takeWhile (\<lambda>c. c \<noteq> NUL) (qs_decode raw)"

text \<open>
  A pair after parsing: its text, and whether the null byte behind it is the last of the buffer. The value of
  a pair is decoded in place, its key is not.
\<close>

record qs_pair =
  kv_text :: string
  kv_at_end :: bool

definition delimiter :: "char \<Rightarrow> bool" where
  "delimiter c \<longleftrightarrow> c = CHR ''='' \<or> c = CHR ''#''"

definition decode_pair :: "bool \<Rightarrow> string \<Rightarrow> qs_pair" where
  "decode_pair at_end seg =
     (case dropWhile (\<lambda>c. \<not> delimiter c) seg of
        [] \<Rightarrow> \<lparr>kv_text = seg, kv_at_end = at_end\<rparr>
      | d # raw \<Rightarrow> \<lparr>kv_text = takeWhile (\<lambda>c. \<not> delimiter c) seg @ d # qs_value raw, kv_at_end = False\<rparr>)"

definition max_pairs :: nat where
  "max_pairs = 256"

fun decode_pairs :: "string list \<Rightarrow> qs_pair list" where
  "decode_pairs [] = []"
| "decode_pairs [seg] = [decode_pair True seg]"
| "decode_pairs (seg # seg' # segs) = decode_pair False seg # decode_pairs (seg' # segs)"

definition qs_parse :: "string \<Rightarrow> qs_pair list" where
  "qs_parse url =
     (case dropWhile (\<lambda>c. c \<noteq> CHR ''?'' \<and> c \<noteq> CHR ''#'') (takeWhile (\<lambda>c. c \<noteq> NUL) url) of
        [] \<Rightarrow> []
      | _ # rest \<Rightarrow> take max_pairs (decode_pairs (split_at (CHR ''&'') rest)))"

section \<open>Looking up a parameter\<close>

datatype lookup = Found string | Absent | Beyond

definition pair_value :: "string \<Rightarrow> string" where
  "pair_value text = drop 1 (dropWhile (\<lambda>c. c \<noteq> CHR ''='') text)"

fun qs_k2v :: "string \<Rightarrow> qs_pair list \<Rightarrow> lookup" where
  "qs_k2v name [] = Absent"
| "qs_k2v name (kv # kvs) =
     (case qs_strncmp (kv_at_end kv) (length name) name (kv_text kv) of
        Equal \<Rightarrow> Found (pair_value (kv_text kv))
      | Differs \<Rightarrow> qs_k2v name kvs
      | Overread \<Rightarrow> Beyond)"

definition url_params_get :: "string \<Rightarrow> string \<Rightarrow> lookup" where
  "url_params_get raw_url name = qs_k2v name (qs_parse raw_url)"

section \<open>Plain keys and encoded values are read back\<close>

text \<open>Characters that stand for themselves in a key or a value.\<close>

definition plain_char :: "char \<Rightarrow> bool" where
  "plain_char c \<longleftrightarrow> qs_isqschr c \<and> c \<noteq> CHR ''+'' \<and> c \<noteq> CHR ''%''"

definition plain_text :: "string \<Rightarrow> bool" where
  "plain_text s \<longleftrightarrow> list_all plain_char s"

lemma plain_unit [simp]: "plain_char c \<Longrightarrow> qs_unit e (c # r) = Some (c, r)"
  by (simp add: plain_char_def)

lemma delimiter_unit: "d = CHR ''='' \<or> d = CHR ''#'' \<Longrightarrow> qs_unit e (d # v) = Some (NUL, v)"
  by (auto simp: qs_isqschr_def)

declare qs_unit.simps(2) [simp del]

lemma plain_not_nul: "plain_char c \<Longrightarrow> c \<noteq> NUL \<and> \<not> delimiter c \<and> c \<noteq> CHR ''&''"
  by (auto simp: plain_char_def qs_isqschr_def delimiter_def)

lemma strncmp_plain:
  assumes "plain_text name" "plain_text k" "d = CHR ''='' \<or> d = CHR ''#''"
  shows "qs_strncmp e (length name) name (k @ d # v) = (if name = k then Equal else Differs)"
  using assms(1,2)
proof (induction name arbitrary: k)
  case Nil
  then show ?case using assms(3) by (cases k) (auto simp: plain_text_def plain_char_def qs_isqschr_def)
next
  case (Cons a name)
  then have a: "plain_char a" by (simp add: plain_text_def)
  show ?case
  proof (cases k)
    case Nil
    with a plain_not_nul [OF a] show ?thesis by (simp add: delimiter_unit [OF assms(3)])
  next
    case (Cons b k')
    with Cons.prems Cons.IH [of k'] a plain_not_nul [OF a] show ?thesis by (auto simp: plain_text_def)
  qed
qed

lemma qs_decode_plain: "plain_text s \<Longrightarrow> qs_decode s = s"
  by (induction s) (auto simp: plain_text_def plain_char_def)

lemma qs_value_plain: "plain_text s \<Longrightarrow> qs_value s = s"
  by (auto simp: qs_value_def qs_decode_plain plain_text_def list_all_iff plain_not_nul)

lemma qs_decode_percent: "qs_decode (percent c @ s) = c # qs_decode s"
proof -
  have lt: "(of_char c :: nat) < 256" by simp
  then have "of_char c div 16 < (16 :: nat)" by (simp add: less_mult_imp_div_less)
  note a = hex_digit_ok [OF this]
  have "of_char c mod 16 < (16 :: nat)" by simp
  note b = hex_digit_ok [OF this]
  have "qs_byte (hex_digit (of_char c div 16)) (hex_digit (of_char c mod 16)) = char_of (of_char c :: nat)"
    using a b by (simp add: qs_byte_def qs_hex2dec_def qs_ishex_def del: char_of_nat)
  then show ?thesis using a b by (simp add: percent_def qs_isqschr_def qs_ishex_def)
qed

lemma qs_value_percent: "NUL \<notin> set s \<Longrightarrow> qs_value (concat (map percent s)) = s"
proof -
  have "qs_decode (concat (map percent s)) = s" by (induction s) (simp_all add: qs_decode_percent)
  then show "NUL \<notin> set s \<Longrightarrow> ?thesis" by (auto simp: qs_value_def)
qed

text \<open>A query as a client writes it: pairs of plain keys and raw values without \<open>&\<close>.\<close>

definition query_text :: "(string \<times> string) list \<Rightarrow> string" where
  "query_text kvs = join (CHR ''&'') (map (\<lambda>(k, v). k @ ''='' @ v) kvs)"

definition raw_value :: "string \<Rightarrow> bool" where
  "raw_value v \<longleftrightarrow> CHR ''&'' \<notin> set v \<and> NUL \<notin> set v"

lemma decode_pair_plain:
  "plain_text k \<Longrightarrow> decode_pair e (k @ ''='' @ v) = \<lparr>kv_text = k @ ''='' @ qs_value v, kv_at_end = False\<rparr>"
proof -
  assume "plain_text k"
  then have "\<forall>c \<in> set k. \<not> delimiter c" by (auto simp: plain_text_def list_all_iff dest: plain_not_nul)
  then have "dropWhile (\<lambda>c. \<not> delimiter c) (k @ ''='' @ v) = ''='' @ v" "takeWhile (\<lambda>c. \<not> delimiter c) (k @ ''='' @ v) = k"
    by (simp_all add: delimiter_def)
  then show ?thesis by (simp add: decode_pair_def)
qed

lemma decode_pairs_plain:
  "\<forall>(k, v) \<in> set kvs. plain_text k \<Longrightarrow>
     decode_pairs (map (\<lambda>(k, v). k @ ''='' @ v) kvs) = map (\<lambda>(k, v). \<lparr>kv_text = k @ ''='' @ qs_value v, kv_at_end = False\<rparr>) kvs"
proof (induction kvs)
  case (Cons e kvs)
  obtain k v where "e = (k, v)" by (cases e)
  with Cons show ?case using decode_pair_plain [of k _ v] by (cases kvs) auto
qed simp

lemma pair_value_plain: "plain_text k \<Longrightarrow> pair_value (k @ ''='' @ v) = v"
proof -
  assume "plain_text k"
  then have "\<forall>c \<in> set k. c \<noteq> CHR ''=''" by (auto simp: plain_text_def list_all_iff plain_char_def qs_isqschr_def)
  then show ?thesis by (simp add: pair_value_def)
qed

lemma qs_k2v_plain:
  assumes "plain_text name" "\<forall>(k, v) \<in> set kvs. plain_text k"
  shows "qs_k2v name (map (\<lambda>(k, v). \<lparr>kv_text = k @ ''='' @ qs_value v, kv_at_end = False\<rparr>) kvs)
    = (case map_of kvs name of None \<Rightarrow> Absent | Some v \<Rightarrow> Found (qs_value v))"
  using assms(2)
proof (induction kvs)
  case (Cons e kvs)
  obtain k v where e: "e = (k, v)" by (cases e)
  then have k: "plain_text k" using Cons.prems by simp
  show ?case
    using Cons strncmp_plain [OF assms(1) k, of "CHR ''=''" False "qs_value v"] pair_value_plain [OF k, of "qs_value v"]
    by (simp add: e)
qed simp

lemma url_params_plain:
  assumes "CHR ''?'' \<notin> set path" "CHR ''#'' \<notin> set path" "NUL \<notin> set path" "kvs \<noteq> []" "length kvs \<le> 256"
    and "\<forall>(k, v) \<in> set kvs. plain_text k \<and> raw_value v" "plain_text name"
  shows "url_params_get (path @ ''?'' @ query_text kvs) name
      = (case map_of kvs name of None \<Rightarrow> Absent | Some v \<Rightarrow> Found (qs_value v))"
proof -
  let ?pair = "\<lambda>(k, v). k @ ''='' @ v"
  have clean: "c \<noteq> NUL \<and> c \<noteq> CHR ''&''" if "p \<in> set (map ?pair kvs)" "c \<in> set p" for p c
  proof -
    obtain k v where kv: "(k, v) \<in> set kvs" "p = k @ ''='' @ v" using \<open>p \<in> set (map ?pair kvs)\<close> by auto
    then have "plain_text k" "raw_value v" using assms(6) by auto
    then show ?thesis using \<open>c \<in> set p\<close> kv(2) by (auto simp: raw_value_def plain_text_def list_all_iff dest: plain_not_nul)
  qed
  have "NUL \<notin> set (query_text kvs)"
  proof -
    have "set (join sep ps) \<subseteq> insert sep (\<Union> (set ` set ps))" for sep ps
      by (induction sep ps rule: join.induct) auto
    note chars = this [of "CHR ''&''" "map ?pair kvs", folded query_text_def]
    have "NUL \<notin> \<Union> (set ` set (map ?pair kvs))" using clean by blast
    then have "NUL \<notin> insert (CHR ''&'') (\<Union> (set ` set (map ?pair kvs)))" by (simp only: insert_iff) simp
    with chars show ?thesis by (rule contra_subsetD)
  qed
  then have all: "\<forall>c \<in> set (path @ ''?'' @ query_text kvs). c \<noteq> NUL" using assms(3) by auto
  have "\<forall>c \<in> set path. c \<noteq> CHR ''?'' \<and> c \<noteq> CHR ''#''" using assms(1,2) by auto
  then have "dropWhile (\<lambda>c. c \<noteq> CHR ''?'' \<and> c \<noteq> CHR ''#'') (path @ ''?'' @ query_text kvs) = ''?'' @ query_text kvs" by simp
  moreover have "split_at (CHR ''&'') (query_text kvs) = map ?pair kvs"
    unfolding query_text_def
  proof (rule split_at_join)
    show "list_all (\<lambda>p. CHR ''&'' \<notin> set p) (map ?pair kvs)" unfolding list_all_iff using clean by blast
  qed (simp add: assms(4))
  moreover have keys: "\<forall>(k, v) \<in> set kvs. plain_text k" using assms(6) by auto
  ultimately have "qs_parse (path @ ''?'' @ query_text kvs) = map (\<lambda>(k, v). \<lparr>kv_text = k @ ''='' @ qs_value v, kv_at_end = False\<rparr>) kvs"
    using all assms(5) decode_pairs_plain [OF keys]
    by (simp add: qs_parse_def max_pairs_def takeWhile_eq_all_conv [THEN iffD2] del: takeWhile_append)
  then show ?thesis
    using qs_k2v_plain [OF assms(7) keys] by (simp add: url_params_get_def)
qed

text \<open>
  The parameters of a query are read back: of a URL whose query has at most 256 pairs of plain keys and
  raw values, \<open>get\<close> finds for a name the decoded value of its first pair, and nothing for another name. A plain value
  decodes to itself, a percent-encoded one to its text.
\<close>

theorem query_read_back:
  assumes "CHR ''?'' \<notin> set path" "CHR ''#'' \<notin> set path" "NUL \<notin> set path" "kvs \<noteq> []" "length kvs \<le> 256"
    and "\<forall>(k, v) \<in> set kvs. plain_text k \<and> raw_value v" "plain_text name"
  shows "url_params_get (path @ ''?'' @ query_text kvs) name
      = (case map_of kvs name of None \<Rightarrow> Absent | Some v \<Rightarrow> Found (qs_value v))
    \<and> (\<forall>v. plain_text v \<longrightarrow> qs_value v = v) \<and> (\<forall>v. NUL \<notin> set v \<longrightarrow> qs_value (concat (map percent v)) = v)"
  using url_params_plain [OF assms] qs_value_plain qs_value_percent by blast

theorem query_read_back_witness:
  "url_params_get ''/blocks/2?block_count=7&tip_hash=%61b'' ''tip_hash'' = Found ''ab''"
proof -
  let ?kvs = "[(''block_count'', ''7''), (''tip_hash'', ''%61b'')]"
  have plain: "plain_text ''block_count'' \<and> plain_text ''tip_hash''" by code_simp
  have "CHR ''?'' \<notin> set ''/blocks/2''" "CHR ''#'' \<notin> set ''/blocks/2''" "NUL \<notin> set ''/blocks/2''" "?kvs \<noteq> []" "length ?kvs \<le> 256"
    "\<forall>(k, v) \<in> set ?kvs. plain_text k \<and> raw_value v" "plain_text ''tip_hash''"
    using plain by (simp_all add: raw_value_def)
  from query_read_back [OF this]
  have "url_params_get (''/blocks/2'' @ ''?'' @ query_text ?kvs) ''tip_hash'' = Found (qs_value ''%61b'')" by simp
  moreover have "qs_value ''%61b'' = ''ab''" by code_simp
  ultimately show ?thesis by (simp add: query_text_def)
qed

section \<open>Reads behind the buffer\<close>

lemma unit_beyond: "qs_unit e q = None \<Longrightarrow> e \<and> q = ''%''"
  by (cases "(e, q)" rule: qs_unit.cases) (auto simp: qs_unit.simps(2) split: if_splits list.splits)

lemma unit_suffix: "qs_unit e q = Some (u, q') \<Longrightarrow> \<exists>pre. q = pre @ q'"
  by (cases "(e, q)" rule: qs_unit.cases)
    (auto simp: qs_unit.simps(2) split: if_splits list.splits intro: exI [of _ "[_]"] exI [of _ "[_, _]"] exI [of _ "[_, _, _]"])

lemma strncmp_beyond:
  "qs_strncmp e n s q = Overread \<Longrightarrow> plain_text s \<Longrightarrow> e \<and> (\<exists>pre. q = pre @ ''%'')"
proof (induction e n s q rule: qs_strncmp.induct)
  case (1 e s q)
  then show ?case by (auto split: list.splits if_splits)
next
  case (2 e n s q)
  show ?case
  proof (cases "qs_unit e q")
    case None
    then show ?thesis using unit_beyond [of e q] by auto
  next
    case (Some uq)
    obtain u2 q' where q: "qs_unit e q = Some (u2, q')" using Some by (cases uq) auto
    have s: "(\<exists>u1 s'. qs_unit True s = Some (u1, s') \<and> plain_text s')"
      using 2(3) by (cases s) (auto simp: plain_text_def)
    then obtain u1 s' where s: "qs_unit True s = Some (u1, s')" "plain_text s'" by blast
    from 2(2) have "qs_strncmp e n s' q' = Overread" "u1 = u2" "u1 \<noteq> NUL" by (auto simp: q s split: if_splits)
    then have "e \<and> (\<exists>pre. q' = pre @ ''%'')" using 2(1) [OF _ s(1) _ q] s q by auto
    then show ?thesis using unit_suffix [OF q] by (metis append_assoc)
  qed
qed

lemma decode_pairs_end: "kv \<in> set (decode_pairs segs) \<Longrightarrow> kv_at_end kv \<Longrightarrow> segs \<noteq> [] \<and> kv_text kv = last segs"
proof (induction segs rule: decode_pairs.induct)
  case (2 seg)
  then show ?case by (cases "dropWhile (\<lambda>c. \<not> delimiter c) seg") (simp_all add: decode_pair_def)
next
  case (3 seg seg' segs)
  have "\<not> kv_at_end (decode_pair False seg)"
    unfolding decode_pair_def by (rule list.split [THEN iffD2]) simp
  with 3 show ?case by auto
qed simp

lemma split_at_suffix: "\<exists>pre. s = pre @ last (split_at sep s)"
proof (induction s)
  case (Cons c s)
  then obtain pre where "s = pre @ last (split_at sep s)" by blast
  then have s: "c # s = (c # pre) @ last (split_at sep s)" by simp
  show ?case
  proof (cases "c = sep")
    case True
    then have "last (split_at sep (c # s)) = last (split_at sep s)" by simp
    then show ?thesis using s by metis
  next
    case False
    obtain p ps where p: "split_at sep s = p # ps" by (cases "split_at sep s") auto
    show ?thesis
    proof (cases ps)
      case Nil
      then have "p = s" using join_split_at [of sep s] p by simp
      then show ?thesis using False p Nil by simp
    next
      case (Cons q qs)
      then have "last (split_at sep (c # s)) = last (split_at sep s)" using False p by simp
      then show ?thesis using s by metis
    qed
  qed
qed simp

text \<open>
  Looking up a parameter reads behind the end of the URL's buffer only for a URL that ends with \<open>%\<close>;
  such a URL is enough.
\<close>

theorem lookup_beyond_only_after_percent:
  assumes "url_params_get url name = Beyond" "plain_text name" "NUL \<notin> set url"
  shows "\<exists>pre. url = pre @ ''%''"
proof -
  have whole: "takeWhile (\<lambda>c. c \<noteq> NUL) url = url" using assms(3) by auto
  have "\<exists>kv \<in> set kvs. qs_strncmp (kv_at_end kv) (length name) name (kv_text kv) = Overread"
    if "qs_k2v name kvs = Beyond" for kvs
    using that by (induction kvs) (auto split: qs_order.splits)
  then obtain kv where kv: "kv \<in> set (qs_parse url)" "qs_strncmp (kv_at_end kv) (length name) name (kv_text kv) = Overread"
    using assms(1) by (auto simp: url_params_get_def)
  from strncmp_beyond [OF kv(2) assms(2)] obtain pre where e: "kv_at_end kv" "kv_text kv = pre @ ''%''" by blast
  let ?tail = "dropWhile (\<lambda>c. c \<noteq> CHR ''?'' \<and> c \<noteq> CHR ''#'') url"
  obtain d rest where rest: "?tail = d # rest" using kv(1) by (cases ?tail) (simp_all add: qs_parse_def whole)
  then have "kv \<in> set (decode_pairs (split_at (CHR ''&'') rest))"
    using kv(1) by (simp add: qs_parse_def whole) (erule in_set_takeD)
  note rest = rest this
  from decode_pairs_end [OF rest(2) e(1)] e(2) have "last (split_at (CHR ''&'') rest) = pre @ ''%''" by simp
  then obtain pre' where "rest = pre' @ pre @ ''%''" using split_at_suffix [of rest "CHR ''&''"] by auto
  then have "url = takeWhile (\<lambda>c. c \<noteq> CHR ''?'' \<and> c \<noteq> CHR ''#'') url @ d # pre' @ pre @ ''%''"
    using rest(1) takeWhile_dropWhile_id [of "\<lambda>c. c \<noteq> CHR ''?'' \<and> c \<noteq> CHR ''#''" url] by simp
  then show ?thesis by (metis append.assoc append_Cons)
qed

theorem lookup_beyond_only_after_percent_witness:
  "url_params_get ''/?%'' ''page'' = Beyond \<and> (\<exists>pre. ''/?%'' = pre @ ''%'')"
proof -
  have beyond: "url_params_get ''/?%'' ''page'' = Beyond" by code_simp
  have "plain_text ''page''" by code_simp
  from lookup_beyond_only_after_percent [OF beyond this] beyond show ?thesis by simp
qed

section \<open>Following a link of the block list\<close>

text \<open>The parameters of a request as its closures see them; a lookup behind the buffer has no defined result.\<close>

definition params_of :: "string \<Rightarrow> string \<Rightarrow> string option" where
  "params_of url name = (case url_params_get url name of Found v \<Rightarrow> Some v | _ \<Rightarrow> None)"

lemma digits_plain: "plain_text (u64_to_string n)"
  by (auto simp: plain_text_def list_all_iff u64_to_string_def plain_char_def qs_isqschr_def is_digit_def dest!: nat_to_dec_set)

lemma is_hex_chars: "is_hex c \<Longrightarrow> plain_char c \<and> good_char c"
  by (auto simp: plain_char_def qs_isqschr_def is_hex_def is_digit_def good_char_def Let_def)

lemma hex_plain: "list_all is_hex s \<Longrightarrow> plain_text s"
  by (simp add: plain_text_def list_all_iff is_hex_chars)

lemma plain_raw: "plain_text s \<Longrightarrow> raw_value s"
  by (auto simp: raw_value_def plain_text_def list_all_iff dest: plain_not_nul)

lemma hex_kept: "list_all is_hex s \<Longrightarrow> remove_bad_chars s = s"
  by (simp add: remove_bad_chars_def list_all_iff is_hex_chars)

lemma snapshot_query_text:
  "query_text [(''block_count'', a), (''tip_hash'', b)] = ''block_count='' @ a @ ''&tip_hash='' @ b"
  by (simp add: query_text_def)


definition sample_link :: string where
  "sample_link = ''/blocks/3?block_count=7&tip_hash=ab''"

definition link_request :: web_request where
  "link_request = \<lparr>req_method = Get, req_origin = [], req_body = [], rq_url = ''/blocks/3'', rq_raw_url = sample_link,
     rq_param = params_of sample_link\<rparr>"


end
