(* ===== verification/Spec2Isabelle.thy ===== *)
theory Spec2Isabelle
  imports Supply_Progress Amounts Pagination Wallet_Rpc Tools Mempool Epose Page_Json Epose_Snapshot Service Supply_Refinement Page_Html Raw_Tx Tx_Page Outputs Search Ring_Members Server My_Outputs Startup Randomx_Hash Templates Emission Query_String
begin

text \<open>
  A verification development of the Qwertycoin block explorer, a C++ program that reads the
  database of a Qwertycoin core, asks a daemon over RPC and serves a JSON API, HTML pages and a
  restricted wallet gateway.

  \<^bold>\<open>The program and its parts.\<close> \<open>src/main.cpp\<close> reads the options, opens the database through
  \<open>MicroCore\<close> (\<open>src/src/MicroCore.cpp\<close>), starts two background threads, the mirror of pool and network
  (\<open>src/src/MempoolStatus.cpp\<close>) and the supply index (\<open>src/src/SupplyIndex.cpp\<close>), and registers the routes. The
  handlers of the API are methods of the class \<open>page\<close> (\<open>src/src/page.h\<close>). They read the database, the mirror,
  the index and the daemon (\<open>src/src/rpccalls.cpp\<close>), and answer with JSON, which \<open>main.cpp\<close> turns into
  HTTP responses.

  \<^bold>\<open>Theories.\<close>
  \<^item> \<open>Prelude\<close>: words and their guards, decimal text, splitting and joining, the contracts
    shared by components (\<open>text_codec\<close>, \<open>invariant_system\<close>, \<open>forward_simulation\<close>).
  \<^item> \<open>Amounts\<close>: \<open>exact_amount.h\<close>, \<open>hashrate.h\<close> and the difficulty helpers of \<open>tools.cpp\<close>; printed
    amounts are exact, formatters agree, the hashrate is the truncated quotient.
  \<^item> \<open>Pagination\<close>: \<open>pagination.h\<close>; the pages partition the heights, no offset wraps.
  \<^item> \<open>Supply_Math\<close>: \<open>supply_math.h\<close>, the ledger of records with 128-bit totals; appending keeps the
    totals exact, rolling back keeps the longest canonical prefix.
  \<^item> \<open>Core_View\<close>: the core's data and one view of its database, and \<open>MicroCore.cpp\<close> over it. A
    \<open>world\<close> gives a view for every observation, in order, so the chain may change between any two reads.
  \<^item> \<open>Supply_Index\<close>: the class \<open>SupplyIndex\<close>: construction, start, stop, load, persist, reading a
    block, update, publishing and the thread loop; the checkpoint round trip and its atomic
    replacement, and the invariant under every interleaving of steps.
  \<^item> \<open>Supply_Progress\<close>: the index catches up with a chain that stands still.
  \<^item> \<open>Supply_Refinement\<close>: the index simulates an abstract ledger of linked block chains.
  \<^item> \<open>Json\<close>, \<open>Responses\<close>: JSON values as the API builds them, and the HTTP responses of \<open>main.cpp\<close>.
  \<^item> \<open>Rpc_Calls\<close>: \<open>rpccalls.h\<close> and \<open>rpccalls.cpp\<close>: connection reuse, one reconnect, and how every call
    classifies the daemon's answer; a submitted transaction is sent at most once.
  \<^item> \<open>Wallet_Rpc\<close>: \<open>wallet_rpc_policy.h\<close> and the wallet gateway of \<open>main.cpp\<close> with its admission counter
    as a step relation over interleaved requests.
  \<^item> \<open>Tools\<close>: the helpers of \<open>tools.cpp\<close> and \<open>tools.h\<close> the handlers use.
  \<^item> \<open>Tools_Json\<close>: the rest of \<open>tools.cpp\<close>: the overloads over JSON agree with those over transactions.
  \<^item> \<open>Mempool\<close>: \<open>MempoolStatus.cpp\<close>; a snapshot of the pool is consistent after any history.
  \<^item> \<open>Epose\<close>: the EPoSe headers and \<open>epose_telemetry.cpp\<close>: the reward mapping, public addresses,
    host names, endpoint resolution and bounded telemetry responses.
  \<^item> \<open>Page\<close>, \<open>Page_Json\<close>: the helpers and the JSON handlers of \<open>page.h\<close> over a moving database.
  \<^item> \<open>Epose_Snapshot\<close>: \<open>json_epose_snapshot\<close> with its three caches as a transition system.
  \<^item> \<open>Service\<close>: the overview and its cache, chain identity, the probes, searching, the start-up checks
    and the static routes.
  \<^item> \<open>Page_Html\<close>, \<open>Raw_Tx\<close>, \<open>Tx_Page\<close>: the HTML pages of \<open>page.h\<close> as the template and the context they
    render: the front page and the list of blocks, the pool, a block, pushing raw transactions, a
    transaction with its ring members and the detailed answer built from the same context.
  \<^item> \<open>Outputs\<close>: \<open>json_outputs\<close> and \<open>json_outputsblocks\<close>: which outputs belong to an address; the search of a
    range of blocks ends and is complete.
  \<^item> \<open>Search\<close>, \<open>Ring_Members\<close>: searching and its result pages, the pages of addresses, raw transactions,
    blocks and ring members, and alternative blocks.
  \<^item> \<open>Randomx\<close>: the seed heights of \<open>rx-slow-hash.c\<close> and the page of a block's programs.
  \<^item> \<open>Router\<close>: the router of Crow (\<open>src/ext/crow_all.h\<close>): its trie finds the first rule that matches.
  \<^item> \<open>Routes\<close>: the routes of \<open>main.cpp\<close> and the arguments their closures pass on; which requests reach
    which closure, and that texts are cleaned.
  \<^item> \<open>Server\<close>: requests through router, closures and handlers, one after the other, with the caches
    they share; API answers are envelopes in every state, and only a \<open>POST\<close> submits.
  \<^item> \<open>Outcome\<close>, \<open>Check_Tx\<close>: handlers that end early, throw or read outside a vector, and \<open>show_checkrawtx\<close> over
    them: an unsigned set is shown completely, a signed one with the amounts of its sources, and the
    positions a visitor submits are trusted.
  \<^item> \<open>Exports\<close>, \<open>My_Outputs\<close>: pages no route reaches: the checkers of exported key images and outputs
    (only signed exports are shown, key images are read back, totals are exact), own outputs and proofs of
    payment (the sum is that of the own outputs, an input counts at most once in the guess).
  \<^item> \<open>Startup\<close>: \<open>main\<close> from its options to its end; what a started server has, and that a failed
    start is inert.
  \<^item> \<open>Templates\<close>: the constructor of \<open>page\<close>: the templates it loads are those the routes render.
  \<^item> \<open>Randomx_Hash\<close>: the hashing context of \<open>rx-slow-hash.c\<close>: one step function per C function, threads
    that interleave under three read-write locks; every hash is that of its own seed, every call returns.
  \<^item> \<open>Emission\<close>: \<open>CurrentBlockchainStatus\<close>, the older monitor of the emission: its file is read back, and
    on a chain that stands still it answers with the exact sums.
  \<^item> \<open>Query_String\<close>: the query parser of Crow (\<open>qs_parse\<close>, \<open>qs_decode\<close>, \<open>qs_k2v\<close>): parameters are read back, and
    the link to the next page of a block list leads to the same snapshot.
  \<^item> This theory: properties that span components.

  \<^bold>\<open>Conventions.\<close> \<open>uint64_t\<close> is \<open>u64\<close>, Boost's \<open>uint128_t\<close> and \<open>uint256_t\<close> are words of that width, so
  wrap-around is that of the code. A thrown exception or an error return is a value: \<open>Inl\<close>, \<open>None\<close> or a
  JSON answer with its status; a read outside a vector is the outcome \<open>OutOfBounds\<close> where the code can make
  one. Times that number observations of the database (\<open>t\<close>, \<open>t + 1\<close>, ...) count
  the reads a handler makes, in order. The clock is an argument.

  \<^bold>\<open>Parameters.\<close> What is not part of the repository is an argument of the definitions: the core's
  hashing, parsing and fee functions (\<open>core_lib\<close>, \<open>page_lib\<close>), text made from floating point
  (\<open>pl_float\<close>), the answers of the daemon and of remote nodes, name resolution, Boost's reading of integers.
  Hypotheses on them are named where a theorem needs one: \<open>world_agrees\<close> (a block hash names one
  block), \<open>chain_coherent\<close> (what a database promises of its blocks).

  \<^bold>\<open>Loops.\<close> Every loop but one is a total function: structural recursion, or a measure (the number of
  records left for \<open>rollback_supply_records\<close>, the missing records for \<open>index_batch\<close>, the number of nodes for
  \<open>optimize_node\<close>). The loop of \<open>json_outputsblocks\<close> is a partial function, and that a request
  returns is a theorem. No fuel is used; the endless loops of the two threads are modelled one
  iteration at a time, and \<open>run_rounds\<close> runs a given list of rounds.

  \<^bold>\<open>Not modelled.\<close> The template engine that turns a context into HTML is third-party; its rendering is
  the parameter \<open>st_render\<close>; the wallet's archives are parameters of the checkers. Of RandomX the
  programs and the hash of a seed are parameters. Reading the command line is
  Boost's. \<open>CurrentBlockchainStatus\<close> is modelled although
  it is no longer part of the build. Of the vendored libraries under
  \<open>src/ext\<close> the router and the query parser of Crow are modelled, the others are used through their documented behaviour only.
\<close>

section \<open>A ready observer shows the exact supply\<close>

text \<open>
  C2. From the options to the answer: when the start-up checks accept the reset id, the supply index
  was created with it and ran in any way beside a moving chain, and the readiness probe answers yes with the
  supply the index publishes, then that supply is the exact sum of coinbase minus fees over a
  chain of linked blocks, of the length the answer names, and the text in coins is its fixed-point
  notation with eight decimals.
\<close>

theorem ready_supply_is_exact:
  assumes "\<forall>n. rd (nat_to_dec n) = Some n" "world_agrees L (\<lambda>t. pv_chain (w t)) U"
    and "required_options_ok url path (Some reset_id)"
    and "si0 = new_supply_index (\<lambda>t. pv_chain (w t)) t0 dir reset_id nt b" "clean_text (genesis_hash si0)"
    and "disk_stores rd U (state_file si0) dsk stored"
    and "steps (index_step rd L (\<lambda>t. pv_chain (w t))) (si0, dsk) (si, dsk')"
    and "answer = readyz ok_status probe identity (json_emission (Some si))" "is_success answer"
  shows "\<exists>hs. linked U hs
    \<and> jget ''block_count'' (jget ''supply'' (jget ''data'' answer)) = JNum (int (length hs))
    \<and> jget ''minted_supply_atomic'' (jget ''supply'' (jget ''data'' answer)) = JStr (nat_to_dec (chain_minted U hs))
    \<and> jget ''minted_supply_qwc'' (jget ''supply'' (jget ''data'' answer)) = JStr (fixed_point 8 (chain_minted U hs))"
proof -
  have "clean_text reset_id" using assms(3) by (rule reset_id_clean) simp
  with index_run_shows_chain [OF assms(1,2,5) _ assms(4,6,7)]
  obtain hs where hs: "shows_chain U (snapshot si) hs" by blast
  have "jget ''supply'' (jget ''data'' answer) = jget ''data'' (json_emission (Some si))"
    and c: "value_bool (jget ''data'' (json_emission (Some si))) ''complete'' False"
    unfolding assms(8) by (rule readyz_success [OF assms(9) [unfolded assms(8)]], assumption)+
  then have served: "jget ''supply'' (jget ''data'' answer) = emission_data (snapshot si)"
    by (simp add: json_emission_def)
  from c have "complete (snapshot si)"
    using value_bool_True by (fastforce simp: json_emission_def emission_members)
  then show ?thesis
    unfolding served using shows_chain_amounts [OF hs]
    by (intro exI [of _ hs]) (simp add: emission_members format_atomic_decimal_string_nat)
qed

definition hashing_core :: core_lib where
  "hashing_core = plain_core\<lparr>get_block_hash := (\<lambda>_. replicate 64 CHR ''a'')\<rparr>"

definition genesis_universe :: block_universe where
  "genesis_universe h = \<lparr>bf_parent = [], bf_coinbase = 5, bf_fees = 0\<rparr>"

definition genesis_index :: supply_index where
  "genesis_index = new_supply_index (\<lambda>_. pv_chain sample_view) 0 ''data'' ''reset-1'' MAINNET 64"

lemma genesis_world_agrees: "world_agrees hashing_core (\<lambda>_. pv_chain sample_view) genesis_universe"
  by (simp add: world_agrees_def sample_view_simps hashing_core_def plain_core_def genesis_universe_def
      sample_coinbase_def clean_text_def Let_def) (simp add: genesis_block_def)

lemma genesis_chain_good: "good_chain hashing_core (pv_chain sample_view)"
  by (simp add: good_chain_def chain_coherent_def block_coherent_def sample_view_simps chain_fees_def
      hashing_core_def)

lemma genesis_index_following: "following hashing_core (pv_chain sample_view) genesis_index"
  by (simp add: following_def indexed_prefix_def genesis_index_def new_supply_index_def sample_view_simps Let_def
      ledger.wf_Nil max_def min_def)

theorem ready_supply_is_exact_witness:
  "\<exists>identity si hs. is_success (readyz ''OK'' (Inr probe_answer) identity (json_emission (Some si)))
     \<and> complete (snapshot si)
     \<and> jget ''minted_supply_qwc'' (jget ''supply'' (jget ''data'' (readyz ''OK'' (Inr probe_answer) identity
          (json_emission (Some si))))) = JStr (fixed_point 8 (chain_minted genesis_universe hs))"
proof -
  let ?w = "\<lambda>_ :: nat. pv_chain sample_view" and ?rd = "\<lambda>s. Some (dec_value s)"
  from ready_identity obtain identity where
    id: "is_success identity" "value_bool (jget ''data'' identity) ''compatible'' False" by blast
  have "io_ok (sample_io True)" by (simp add: io_ok_def sample_io_def)
  from update_still [OF genesis_chain_good genesis_index_following this, of 0 0 Map.empty] obtain si dsk' where
    up: "update_once hashing_core ?w 0 0 (sample_io True) (genesis_index, Map.empty) = (Inr (), si, dsk')"
    and len: "length (records si) = min 1 (unat (batch_size genesis_index))"
    and comp: "complete (snapshot si) \<longleftrightarrow> length (records si) = 1"
    by (auto simp: sample_view_simps genesis_index_def new_supply_index_def Let_def)
  have c: "complete (snapshot si)"
    using len comp by (simp add: genesis_index_def new_supply_index_def Let_def max_def min_def)
  have "run_round hashing_core ?w 0 0 0 (sample_io True) (genesis_index, Map.empty) = (si, dsk')"
    by (simp add: run_round_def up)
  then have "index_step ?rd hashing_core ?w (genesis_index, Map.empty) (si, dsk')"
    using round_step [of genesis_index ?rd hashing_core ?w Map.empty 0 0 0 "sample_io True"]
    by (simp add: genesis_index_def new_supply_index_def Let_def)
  then have run: "steps (index_step ?rd hashing_core ?w) (genesis_index, Map.empty) (si, dsk')" by (rule steps_single)
  have rd: "\<forall>n. ?rd (nat_to_dec n) = Some n" by simp
  have opts: "required_options_ok (Some ''u'') (Some ''data'') (Some ''reset-1'')"
    by (simp add: required_options_ok_def valid_reset_id_def reset_id_char_def ascii_letter_def is_digit_def)
  have gen: "clean_text (genesis_hash genesis_index)"
    by (simp add: genesis_index_def new_supply_index_def sample_view_simps clean_text_def Let_def)
  have dsk: "disk_stores ?rd genesis_universe (state_file genesis_index) Map.empty None" by (simp add: disk_stores_def)
  note ok = readyz_complete [OF id c]
  from ready_supply_is_exact [where w = "\<lambda>_. sample_view", OF rd genesis_world_agrees opts genesis_index_def gen dsk run refl ok]
  show ?thesis using ok c by blast
qed

end
